(* ===== verification/Prelude.thy ===== *)
theory Prelude
  imports Main "HOL-Library.Word"
begin

text \<open>
  Shared vocabulary of the development: the machine types the C++ sources use, the result type of
  fallible functions, and generic facts about words, bytes and lists that several components need.

  \<^item> \<open>u8\<close>, \<open>u16\<close>, \<open>u32\<close>, \<open>u64\<close> are the fixed-width unsigned integers; arithmetic on them wraps.
  \<^item> \<open>int64_t\<close> and \<open>long\<close> (64 bits on the supported platforms) are \<open>int\<close>; \<open>is_int64\<close> is the
    range of the type, and every place where the code could leave that range is guarded in the
    code itself, so the guards appear in the definitions.
  \<^item> \<open>std::string\<close> is \<open>string\<close> (a list of 8-bit characters); \<open>size_t\<close> is \<open>nat\<close>.
  \<^item> A function that returns \<open>bool\<close> and writes a message to an \<open>error\<close> out-parameter returns
    \<open>'a result\<close>: \<open>Inl message\<close> for \<open>false\<close> and \<open>Inr value\<close> for \<open>true\<close>.
\<close>

unbundle bit_operations_syntax

named_theorems model_defs \<open>definitions a component unfolds when its branches are analysed\<close>
named_theorems wire_simps \<open>rewrite rules for byte-level encodings\<close>

type_synonym u8 = "8 word"
type_synonym u16 = "16 word"
type_synonym u32 = "32 word"
type_synonym u64 = "64 word"
type_synonym 'a result = "string + 'a"

abbreviation INT64_MAX :: int where "INT64_MAX \<equiv> 9223372036854775807"
abbreviation INT64_MIN :: int where "INT64_MIN \<equiv> - 9223372036854775808"
abbreviation UINT64_MAX :: u64 where "UINT64_MAX \<equiv> - 1"

definition is_int64 :: "int \<Rightarrow> bool" where
  "is_int64 i \<longleftrightarrow> INT64_MIN \<le> i \<and> i \<le> INT64_MAX"

text \<open>Subtraction of \<open>size_t\<close> values wraps modulo \<open>2^64\<close>.\<close>

definition size_sub :: "nat \<Rightarrow> nat \<Rightarrow> nat" where
  "size_sub a b = (if b \<le> a then a - b else 2 ^ 64 + a - b)"

lemma size_sub_le [simp]: "b \<le> a \<Longrightarrow> size_sub a b = a - b"
  by (simp add: size_sub_def)

subsection \<open>Signed and unsigned readings of 64 bits\<close>

lemma sint_word_of_int64 [simp]:
  assumes "is_int64 i"
  shows "sint (word_of_int i :: u64) = i"
  using assms by (simp add: is_int64_def signed_of_int signed_take_bit_int_eq_self)

lemma is_int64_sint [simp]: "is_int64 (sint (w :: u64))"
  using sint_lt [of w] sint_ge [of w] by (simp add: is_int64_def)

lemma u64_Suc_unat:
  assumes "w \<noteq> UINT64_MAX"
  shows "unat (w + 1 :: u64) = Suc (unat w)"
proof -
  have "w + 1 \<noteq> 0" using assms by (metis add_diff_cancel_right' diff_0)
  then show ?thesis by (simp add: unatSuc add.commute)
qed

lemma u64_less_Suc: "w \<noteq> UINT64_MAX \<Longrightarrow> w < w + (1 :: u64)"
  by (simp add: word_less_nat_alt u64_Suc_unat)

subsection \<open>Bytes and characters\<close>

definition byte_of_char :: "char \<Rightarrow> u8" where
  "byte_of_char c = of_nat (of_char c)"

definition char_of_byte :: "u8 \<Rightarrow> char" where
  "char_of_byte b = char_of (unat b)"

lemma char_of_byte_of_char [simp]: "char_of_byte (byte_of_char c) = c"
  by (simp add: char_of_byte_def byte_of_char_def unat_of_nat)

lemma unat_u8_less [simp]: "unat (b :: u8) < 256"
  using unsigned_less [of b, where 'a = nat] by simp

lemma byte_of_char_of_byte [simp]: "byte_of_char (char_of_byte b) = b"
  by (simp add: char_of_byte_def byte_of_char_def)

definition bytes_of_string :: "string \<Rightarrow> u8 list" where
  "bytes_of_string = map byte_of_char"

definition string_of_bytes :: "u8 list \<Rightarrow> string" where
  "string_of_bytes = map char_of_byte"

lemma string_of_bytes_of_string [simp]: "string_of_bytes (bytes_of_string s) = s"
  by (simp add: string_of_bytes_def bytes_of_string_def comp_def)

lemma bytes_of_string_of_bytes [simp]: "bytes_of_string (string_of_bytes bs) = bs"
  by (simp add: string_of_bytes_def bytes_of_string_def comp_def)

lemma length_bytes_of_string [simp]: "length (bytes_of_string s) = length s"
  by (simp add: bytes_of_string_def)

lemma length_string_of_bytes [simp]: "length (string_of_bytes bs) = length bs"
  by (simp add: string_of_bytes_def)

subsection \<open>Lists\<close>

text \<open>A loop that stores the elements of one vector into another, from an offset on.\<close>

fun store_from :: "nat \<Rightarrow> 'a list \<Rightarrow> 'a list \<Rightarrow> 'a list" where
  "store_from off [] out = out"
| "store_from off (x # xs) out = store_from (Suc off) xs (out[off := x])"

lemma length_store_from [simp]: "length (store_from off xs out) = length out"
  by (induction xs arbitrary: off out) auto

lemma store_from_append:
  "length zs = length xs \<Longrightarrow> store_from (length pre) xs (pre @ zs) = pre @ xs"
proof (induction xs arbitrary: pre zs)
  case Nil
  then show ?case by simp
next
  case (Cons x xs)
  then obtain z zs' where zs: "zs = z # zs'" "length zs' = length xs"
    by (cases zs) auto
  have "store_from (length (pre @ [x])) xs ((pre @ [x]) @ zs') = (pre @ [x]) @ xs"
    using zs(2) by (rule Cons.IH)
  then show ?case by (simp add: zs(1))
qed

lemma upt_run: "[n ..< Suc (n + k)] = n # [Suc n ..< Suc (n + k)]"
  by (simp add: upt_conv_Cons del: upt_Suc)

lemma nth_in_prefix: "i < length xs \<Longrightarrow> (xs @ ys) ! i = xs ! i"
  by (simp add: nth_append)

lemma list_all_filter [simp]: "list_all P xs \<Longrightarrow> list_all P (filter Q xs)"
  by (simp add: list_all_iff)

end
