(* ===== verification/Std_Map.thy ===== *)
theory Std_Map
  imports Prelude
begin

text \<open>
  \<open>std::map\<close> and \<open>std::set\<close> as the sources use them. Iteration visits the keys in ascending order
  and several functions depend on it (the first match of a search, the order in which snapshots
  list entities), so a map is an association list kept strictly ascending by key. \<open>m[k] = v\<close> is
  \<open>map_put\<close>, \<open>m.erase(k)\<close> is \<open>map_erase\<close>, \<open>m.find(k)\<close> is \<open>map_of m k\<close> and iteration is the list
  itself. The laws a client relies on are the locale \<open>ordered_map\<close>, interpreted here on these
  operations.
\<close>

type_synonym ('k, 'v) std_map = "('k \<times> 'v) list"

fun map_put :: "'k::linorder \<Rightarrow> 'v \<Rightarrow> ('k, 'v) std_map \<Rightarrow> ('k, 'v) std_map" where
  "map_put k v [] = [(k, v)]"
| "map_put k v ((k', v') # m) =
     (if k = k' then (k, v) # m
      else if k' < k then (k', v') # map_put k v m
      else (k, v) # (k', v') # m)"

definition map_erase :: "'k \<Rightarrow> ('k, 'v) std_map \<Rightarrow> ('k, 'v) std_map" where
  "map_erase k m = filter (\<lambda>e. fst e \<noteq> k) m"

definition map_wf :: "('k::linorder, 'v) std_map \<Rightarrow> bool" where
  "map_wf m \<longleftrightarrow> sorted_wrt (<) (map fst m)"

lemma map_of_put: "map_of (map_put k v m) = (map_of m)(k \<mapsto> v)"
  by (induction m) (auto simp: fun_eq_iff)

lemma map_of_erase: "map_of (map_erase k m) = (map_of m)(k := None)"
  by (induction m) (auto simp: map_erase_def fun_eq_iff)

lemma set_map_put: "fst ` set (map_put k v m) = insert k (fst ` set m)"
  by (simp flip: dom_map_of_conv_image_fst add: map_of_put)

lemma map_wf_Nil [simp]: "map_wf []"
  by (simp add: map_wf_def)

lemma map_wf_put [simp, intro]: "map_wf m \<Longrightarrow> map_wf (map_put k v m)"
proof (induction m)
  case Nil
  then show ?case by (simp add: map_wf_def)
next
  case (Cons e m)
  obtain k' v' where e: "e = (k', v')" by force
  have tail: "map_wf m" and above: "\<forall>x \<in> fst ` set m. k' < x"
    using Cons.prems by (auto simp: map_wf_def e)
  have "k' < k \<Longrightarrow> \<forall>x \<in> fst ` set (map_put k v m). k' < x"
    using above by (simp add: set_map_put)
  with Cons.IH [OF tail] above tail show ?case
    by (auto simp: map_wf_def e intro: order_less_trans)
qed

lemma map_wf_erase [simp, intro]: "map_wf m \<Longrightarrow> map_wf (map_erase k m)"
proof (induction m)
  case (Cons e m)
  then show ?case by (auto simp: map_wf_def map_erase_def)
qed (simp add: map_erase_def)

lemma map_wf_distinct: "map_wf m \<Longrightarrow> distinct (map fst m)"
  by (simp add: map_wf_def strict_sorted_iff)

lemma map_wf_entry: "map_wf m \<Longrightarrow> (k, v) \<in> set m \<longleftrightarrow> map_of m k = Some v"
  using map_wf_distinct [of m] by (simp add: map_of_eq_Some_iff)

subsection \<open>The interface of an ordered map\<close>

locale ordered_map =
  fixes find :: "'m \<Rightarrow> 'k::linorder \<Rightarrow> 'v option"
    and put :: "'k \<Rightarrow> 'v \<Rightarrow> 'm \<Rightarrow> 'm"
    and erase :: "'k \<Rightarrow> 'm \<Rightarrow> 'm"
    and entries :: "'m \<Rightarrow> ('k \<times> 'v) list"
    and wf :: "'m \<Rightarrow> bool"
  assumes find_put: "find (put k v m) = (find m)(k \<mapsto> v)"
    and find_erase: "find (erase k m) = (find m)(k := None)"
    and wf_put: "wf m \<Longrightarrow> wf (put k v m)"
    and wf_erase: "wf m \<Longrightarrow> wf (erase k m)"
    and entries_find: "wf m \<Longrightarrow> (k, v) \<in> set (entries m) \<longleftrightarrow> find m k = Some v"
    and entries_sorted: "wf m \<Longrightarrow> sorted_wrt (<) (map fst (entries m))"
begin

lemma find_put_same: "find (put k v m) k = Some v"
  by (simp add: find_put)

lemma find_put_other: "k' \<noteq> k \<Longrightarrow> find (put k v m) k' = find m k'"
  by (simp add: find_put)

lemma find_erase_same: "find (erase k m) k = None"
  by (simp add: find_erase)

lemma find_erase_other: "k' \<noteq> k \<Longrightarrow> find (erase k m) k' = find m k'"
  by (simp add: find_erase)

lemma dom_put: "dom (find (put k v m)) = insert k (dom (find m))"
  by (simp add: find_put)

lemma dom_erase: "dom (find (erase k m)) = dom (find m) - {k}"
  by (auto simp: find_erase)

lemma keys_are_dom: "wf m \<Longrightarrow> fst ` set (entries m) = dom (find m)"
  by (auto simp: dom_def entries_find image_iff Bex_def)

lemma finite_dom: "wf m \<Longrightarrow> finite (dom (find m))"
  by (simp flip: keys_are_dom)

lemma size_card: "wf m \<Longrightarrow> length (entries m) = card (dom (find m))"
proof -
  assume m: "wf m"
  then have "distinct (map fst (entries m))"
    using entries_sorted by (simp add: strict_sorted_iff)
  then have "card (set (map fst (entries m))) = length (entries m)"
    using distinct_card by fastforce
  with keys_are_dom [OF m] show ?thesis by simp
qed

lemma size_put:
  assumes "wf m"
  shows "length (entries (put k v m)) =
    (if find m k = None then Suc (length (entries m)) else length (entries m))"
  using assms finite_dom [OF assms]
  by (auto simp: size_card wf_put dom_put card_insert_if insert_absorb domIff)

lemma size_erase:
  assumes "wf m" and "find m k = Some v"
  shows "Suc (length (entries (erase k m))) = length (entries m)"
proof -
  have "k \<in> dom (find m)" using assms(2) by auto
  then have "Suc (card (dom (find m) - {k})) = card (dom (find m))"
    using finite_dom [OF assms(1)] by (metis card_Suc_Diff1)
  then show ?thesis using assms(1) by (simp add: size_card wf_erase dom_erase)
qed

text \<open>A property of all entries survives \<open>put\<close> of a good entry and every \<open>erase\<close>.\<close>

lemma all_put: "\<forall>k v. find m k = Some v \<longrightarrow> P k v \<Longrightarrow> P k v \<Longrightarrow>
    \<forall>k' v'. find (put k v m) k' = Some v' \<longrightarrow> P k' v'"
  by (simp add: find_put)

lemma all_erase: "\<forall>k v. find m k = Some v \<longrightarrow> P k v \<Longrightarrow>
    \<forall>k' v'. find (erase k m) k' = Some v' \<longrightarrow> P k' v'"
  by (simp add: find_erase)

end

interpretation sm: ordered_map map_of map_put map_erase "\<lambda>m. m" map_wf
proof unfold_locales
  fix m :: "('k::linorder, 'v) std_map" and k v
  show "map_of (map_put k v m) = (map_of m)(k \<mapsto> v)" by (rule map_of_put)
  show "map_of (map_erase k m) = (map_of m)(k := None)" by (rule map_of_erase)
  assume m: "map_wf m"
  then show "map_wf (map_put k v m)" "map_wf (map_erase k m)" by auto
  show "(k, v) \<in> set m \<longleftrightarrow> map_of m k = Some v" using m by (rule map_wf_entry)
  show "sorted_wrt (<) (map fst m)" using m by (simp add: map_wf_def)
qed

lemmas map_of_ops [simp] = map_of_put map_of_erase

subsection \<open>Two maps that are each other's inverse\<close>

definition inverse_maps :: "('a \<rightharpoonup> 'b) \<Rightarrow> ('b \<rightharpoonup> 'a) \<Rightarrow> bool" where
  "inverse_maps f g \<longleftrightarrow> (\<forall>a b. f a = Some b \<longleftrightarrow> g b = Some a)"

lemma inverse_mapsD: "inverse_maps f g \<Longrightarrow> f a = Some b \<longleftrightarrow> g b = Some a"
  by (simp add: inverse_maps_def)

lemma inverse_maps_empty [simp]: "inverse_maps Map.empty Map.empty"
  by (simp add: inverse_maps_def)

lemma inverse_maps_unlink:
  assumes "inverse_maps f g" and "f a = Some b"
  shows "inverse_maps (f(a := None)) (g(b := None))"
  using assms unfolding inverse_maps_def by (metis fun_upd_apply option.distinct(1) option.inject)

lemma inverse_maps_link:
  assumes "inverse_maps f g" and "f a = None" and "g b = None"
  shows "inverse_maps (f(a \<mapsto> b)) (g(b \<mapsto> a))"
  using assms unfolding inverse_maps_def by (auto, metis option.distinct(1))

subsection \<open>\<open>std::set\<close>\<close>

type_synonym 'a std_set = "'a list"

definition set_insert :: "'a::linorder \<Rightarrow> 'a std_set \<Rightarrow> 'a std_set" where
  "set_insert x s = (if x \<in> set s then s else insort x s)"

definition set_erase :: "'a \<Rightarrow> 'a std_set \<Rightarrow> 'a std_set" where
  "set_erase x s = filter (\<lambda>y. y \<noteq> x) s"

lemma set_set_insert [simp]: "set (set_insert x s) = insert x (set s)"
  by (auto simp: set_insert_def set_insort_key)

lemma set_set_erase [simp]: "set (set_erase x s) = set s - {x}"
  by (auto simp: set_erase_def)

lemma sorted_set_insert: "sorted s \<Longrightarrow> sorted (set_insert x s)"
  by (simp add: set_insert_def sorted_insort)

lemma distinct_set_insert: "distinct s \<Longrightarrow> distinct (set_insert x s)"
  by (simp add: set_insert_def distinct_insort)

lemma sorted_set_erase: "sorted s \<Longrightarrow> sorted (set_erase x s)"
  by (simp add: set_erase_def sorted_wrt_filter)

end
