(* ===== verification/Wire.thy ===== *)
theory Wire
  imports Prelude
begin

text \<open>
  The 16-byte frame layer: \<open>FrameHeaderBinary.h\<close> (big-endian accessors), \<open>NetworkCommand\<close> with its
  validation, \<open>NetworkFrameCodec\<close>, and the login and disconnect responses that reuse the same header.

  An out-of-range value of an \<open>enum class\<close> is representable in C++ (the decoders cast whatever 16
  bits arrive), so each enumeration has, beside the source's enumerators, one constructor for the
  other values of its underlying type.

  The interface that the stream layer needs from a codec is the locale \<open>frame_codec\<close>: decoding
  inverts encoding, and the length field at a fixed place of the header delimits the frame.
\<close>

subsection \<open>FrameHeaderBinary.h\<close>

definition writeFrameU16 :: "u8 list \<Rightarrow> nat \<Rightarrow> u16 \<Rightarrow> u8 list" where
  "writeFrameU16 output offset value =
     output[offset := ucast (drop_bit 8 value AND 0xff), offset + 1 := ucast (value AND 0xff)]"

definition writeFrameU32 :: "u8 list \<Rightarrow> nat \<Rightarrow> u32 \<Rightarrow> u8 list" where
  "writeFrameU32 output offset value =
     output[offset := ucast (drop_bit 24 value AND 0xff),
            offset + 1 := ucast (drop_bit 16 value AND 0xff),
            offset + 2 := ucast (drop_bit 8 value AND 0xff),
            offset + 3 := ucast (value AND 0xff)]"

definition writeFrameU64 :: "u8 list \<Rightarrow> nat \<Rightarrow> int \<Rightarrow> u8 list" where
  "writeFrameU64 output offset value =
     (let bits = word_of_int value :: u64 in
      fold (\<lambda>i out. out[offset + i := ucast (drop_bit (56 - i * 8) bits AND 0xff)]) [0..<8] output)"

definition readFrameU16 :: "u8 list \<Rightarrow> nat \<Rightarrow> u16" where
  "readFrameU16 input offset = push_bit 8 (ucast (input ! offset)) OR ucast (input ! (offset + 1))"

definition readFrameU32 :: "u8 list \<Rightarrow> nat \<Rightarrow> u32" where
  "readFrameU32 input offset =
     push_bit 24 (ucast (input ! offset)) OR push_bit 16 (ucast (input ! (offset + 1))) OR
     push_bit 8 (ucast (input ! (offset + 2))) OR ucast (input ! (offset + 3))"

definition readFrameU64 :: "u8 list \<Rightarrow> nat \<Rightarrow> int" where
  "readFrameU64 input offset =
     sint (fold (\<lambda>i bits. push_bit 8 bits OR ucast (input ! (offset + i))) [0..<8] (0 :: u64))"

subsubsection \<open>Big-endian byte runs\<close>

definition be16 :: "u16 \<Rightarrow> u8 list" where
  "be16 w = [ucast (drop_bit 8 w), ucast w]"

definition be32 :: "u32 \<Rightarrow> u8 list" where
  "be32 w = [ucast (drop_bit 24 w), ucast (drop_bit 16 w), ucast (drop_bit 8 w), ucast w]"

definition be64 :: "u64 \<Rightarrow> u8 list" where
  "be64 w = [ucast (drop_bit 56 w), ucast (drop_bit 48 w), ucast (drop_bit 40 w),
     ucast (drop_bit 32 w), ucast (drop_bit 24 w), ucast (drop_bit 16 w), ucast (drop_bit 8 w), ucast w]"

lemmas be_defs = be16_def be32_def be64_def

lemma length_be [simp]: "length (be16 a) = 2" "length (be32 b) = 4" "length (be64 c) = 8"
  by (simp_all add: be_defs)

lemma length_eq_2E: "length xs = 2 \<Longrightarrow> (\<And>a b. xs = [a, b] \<Longrightarrow> P) \<Longrightarrow> P"
  by (auto simp: length_Suc_conv numeral_2_eq_2)

lemma length_eq_4E: "length xs = 4 \<Longrightarrow> (\<And>a b c d. xs = [a, b, c, d] \<Longrightarrow> P) \<Longrightarrow> P"
  by (auto simp: length_Suc_conv numeral_eq_Suc)

lemma ucast_take_8: "(ucast (take_bit 8 w) :: u8) = ucast (w :: 'a::len word)"
  by (rule bit_word_eqI) (auto simp: bit_simps dest: bit_imp_le_length)

lemma ucast_and_ff [wire_simps]: "(ucast (w AND 0xff) :: u8) = ucast (w :: 'a::len word)"
proof -
  have "w AND 0xff = take_bit 8 w" by (simp add: take_bit_eq_mask mask_eq_exp_minus_1)
  then show ?thesis by (simp only: ucast_take_8)
qed

text \<open>Appending the next byte to the part of a word read so far yields one byte more of the word.\<close>

lemma merge_byte:
  fixes w :: "'a::len word"
  shows "push_bit 8 (drop_bit (k + 8) w) OR ucast (ucast (drop_bit k w) :: u8) = drop_bit k w"
proof (rule bit_word_eqI)
  fix n
  assume n: "n < LENGTH('a)"
  show "bit (push_bit 8 (drop_bit (k + 8) w) OR ucast (ucast (drop_bit k w) :: u8)) n \<longleftrightarrow>
      bit (drop_bit k w) n"
  proof (cases "n < 8")
    case True
    with n show ?thesis by (auto simp: bit_simps)
  next
    case False
    then have "k + 8 + (n - 8) = k + n" by simp
    with n False show ?thesis by (auto simp: bit_simps)
  qed
qed

lemma drop_bit_width [simp]: "drop_bit 16 (a :: u16) = 0" "drop_bit 32 (b :: u32) = 0" "drop_bit 64 (c :: u64) = 0"
  by (auto intro!: bit_word_eqI simp: bit_simps dest: bit_imp_le_length)

lemma merge16: "push_bit 8 (ucast (ucast (drop_bit 8 w) :: u8)) OR ucast (ucast w :: u8) = (w :: u16)"
  using merge_byte [of 0 w] merge_byte [of 8 w] by simp

lemma merge32:
  "push_bit 24 (ucast (ucast (drop_bit 24 w) :: u8)) OR push_bit 16 (ucast (ucast (drop_bit 16 w) :: u8)) OR
   push_bit 8 (ucast (ucast (drop_bit 8 w) :: u8)) OR ucast (ucast w :: u8) = (w :: u32)"
proof -
  let ?b = "\<lambda>k. ucast (ucast (drop_bit k w) :: u8) :: u32"
  have "push_bit 24 (?b 24) OR push_bit 16 (?b 16) OR push_bit 8 (?b 8) OR ?b 0 =
      push_bit 8 (push_bit 8 (push_bit 8 (?b 24) OR ?b 16) OR ?b 8) OR ?b 0"
    by (simp add: push_bit_or or.assoc)
  also have "\<dots> = w"
    using merge_byte [of 24 w] merge_byte [of 16 w] merge_byte [of 8 w] merge_byte [of 0 w] by simp
  finally show ?thesis by simp
qed

lemma merge64:
  "fold (\<lambda>i bits. push_bit 8 bits OR ucast (be64 w ! i)) [0..<8] (0 :: u64) = w"
proof -
  have "[0..<8] = [0, 1, 2, 3, 4, 5, 6, 7 :: nat]" by (simp add: upt_conv_Cons)
  then show ?thesis
    using merge_byte [of 56 w] merge_byte [of 48 w] merge_byte [of 40 w] merge_byte [of 32 w]
      merge_byte [of 24 w] merge_byte [of 16 w] merge_byte [of 8 w] merge_byte [of 0 w]
    by (simp add: be64_def)
qed

lemma read_be16: "readFrameU16 (pre @ be16 w @ post) (length pre) = w"
  by (simp add: readFrameU16_def be16_def nth_append merge16)

lemma read_be32: "readFrameU32 (pre @ be32 w @ post) (length pre) = w"
  by (simp add: readFrameU32_def be32_def nth_append merge32)

lemma read_be64: "readFrameU64 (pre @ be64 w @ post) (length pre) = sint w"
proof -
  have "fold (\<lambda>i bits. push_bit 8 bits OR ucast ((pre @ be64 w @ post) ! (length pre + i))) [0..<8] (0 :: u64) =
      fold (\<lambda>i bits. push_bit 8 bits OR ucast (be64 w ! i)) [0..<8] 0"
    by (rule fold_cong) (auto simp: nth_append)
  then show ?thesis by (simp only: readFrameU64_def merge64)
qed

text \<open>Conversely, the bytes of the word that the readers assemble are the bytes that were read.\<close>

lemma ucast_up_down: "(ucast (ucast b :: 'a::len word) :: u8) = b" if "8 \<le> LENGTH('a)"
  using that by (intro bit_word_eqI) (auto simp: bit_simps)

definition snoc_byte :: "'a::len word \<Rightarrow> u8 \<Rightarrow> 'a word" where
  "snoc_byte x b = push_bit 8 x OR ucast b"

lemma split_last_byte: "(ucast (snoc_byte x b :: 'a::len word) :: u8) = b" if "8 \<le> LENGTH('a)"
  using that by (intro bit_word_eqI) (auto simp: snoc_byte_def bit_simps)

lemma split_higher_byte:
  "(ucast (drop_bit (k + 8) (snoc_byte x b :: 'a::len word)) :: u8) = ucast (drop_bit k x)"
  if "k + 16 \<le> LENGTH('a)" for b :: u8
  using that by (intro bit_word_eqI) (auto simp: snoc_byte_def bit_simps dest: bit_imp_le_length)

lemma split_bytes:
  "8 + k = n \<Longrightarrow> n \<le> 8 \<Longrightarrow> (ucast (drop_bit n (snoc_byte x b :: u16)) :: u8) = ucast (drop_bit k x)"
  "8 + k = n \<Longrightarrow> n \<le> 24 \<Longrightarrow> (ucast (drop_bit n (snoc_byte y b :: u32)) :: u8) = ucast (drop_bit k y)"
  "8 + k = n \<Longrightarrow> n \<le> 56 \<Longrightarrow> (ucast (drop_bit n (snoc_byte z b :: u64)) :: u8) = ucast (drop_bit k z)"
  using split_higher_byte [where 'a = 16] split_higher_byte [where 'a = 32] split_higher_byte [where 'a = 64]
  by (auto simp: add.commute)

lemmas split_steps =
  split_bytes [where n = 8 and k = 0, simplified] split_bytes(2,3) [where n = 16 and k = 8, simplified]
  split_bytes(2,3) [where n = 24 and k = 16, simplified] split_bytes(3) [where n = 32 and k = 24, simplified]
  split_bytes(3) [where n = 40 and k = 32, simplified] split_bytes(3) [where n = 48 and k = 40, simplified]
  split_bytes(3) [where n = 56 and k = 48, simplified]

lemma be16_read: "be16 (readFrameU16 [a, b] 0) = [a, b]"
proof -
  have "readFrameU16 [a, b] 0 = snoc_byte (ucast a) b"
    by (simp add: readFrameU16_def snoc_byte_def)
  then show ?thesis by (simp add: be16_def split_last_byte split_steps ucast_up_down)
qed

lemma be32_read: "be32 (readFrameU32 [a, b, c, d] 0) = [a, b, c, d]"
proof -
  have "readFrameU32 [a, b, c, d] 0 = snoc_byte (snoc_byte (snoc_byte (ucast a) b) c) d"
    by (simp add: readFrameU32_def snoc_byte_def push_bit_or or.assoc)
  then show ?thesis by (simp add: be32_def split_last_byte split_steps ucast_up_down)
qed

lemma be64_read:
  assumes "length bs = 8"
  shows "be64 (word_of_int (readFrameU64 bs 0)) = bs"
proof -
  obtain a b c d e f g h where bs: "bs = [a, b, c, d, e, f, g, h]"
    using assms by (auto simp: length_Suc_conv numeral_eq_Suc)
  have upt: "[0..<8] = [0, 1, 2, 3, 4, 5, 6, 7 :: nat]" by (simp add: upt_conv_Cons)
  have "word_of_int (readFrameU64 bs 0) = snoc_byte (snoc_byte (snoc_byte (snoc_byte (snoc_byte
      (snoc_byte (snoc_byte (snoc_byte (0 :: u64) a) b) c) d) e) f) g) h"
    unfolding readFrameU64_def upt snoc_byte_def bs by simp
  then show ?thesis by (simp add: bs be64_def split_last_byte split_steps)
qed

text \<open>The writers, on a buffer that already has the room for the field.\<close>

lemma list_update_run:
  "length zs = 2 \<Longrightarrow> (pre @ zs @ post)[length pre := a, Suc (length pre) := b] = pre @ [a, b] @ post"
  by (auto simp: length_Suc_conv numeral_2_eq_2 list_update_append)

lemma write_be16: "length zs = 2 \<Longrightarrow> writeFrameU16 (pre @ zs @ post) (length pre) w = pre @ be16 w @ post"
  using list_update_run [of zs pre post] by (simp add: writeFrameU16_def be16_def ucast_and_ff)

lemma write_be32: "length zs = 4 \<Longrightarrow> writeFrameU32 (pre @ zs @ post) (length pre) w = pre @ be32 w @ post"
  by (auto simp: writeFrameU32_def be32_def ucast_and_ff length_Suc_conv numeral_eq_Suc list_update_append)

lemma write_be64:
  "length zs = 8 \<Longrightarrow> writeFrameU64 (pre @ zs @ post) (length pre) i = pre @ be64 (word_of_int i) @ post"
proof -
  assume "length zs = 8"
  then obtain a b c d e f g h where zs: "zs = [a, b, c, d, e, f, g, h]"
    by (auto simp: length_Suc_conv numeral_eq_Suc)
  have "[0..<8] = [0, 1, 2, 3, 4, 5, 6, 7 :: nat]" by (simp add: upt_conv_Cons)
  then show ?thesis
    by (simp add: zs writeFrameU64_def be64_def ucast_and_ff Let_def list_update_append numeral_eq_Suc)
qed

subsection \<open>NetworkCommand\<close>

abbreviation CURRENT_PROTOCOL_VERSION :: u16 where "CURRENT_PROTOCOL_VERSION \<equiv> 1"
abbreviation MAX_COMMAND_PAYLOAD :: nat where "MAX_COMMAND_PAYLOAD \<equiv> 4096"
abbreviation FRAME_HEADER_SIZE :: nat where "FRAME_HEADER_SIZE \<equiv> 16"

datatype CommandType =
    Login | Move | Chat | Attack | CastSpell | Disconnect | RequestSnapshot | OtherCommand int

fun CommandType_value :: "CommandType \<Rightarrow> int" where
  "CommandType_value Login = 1"
| "CommandType_value Move = 2"
| "CommandType_value Chat = 3"
| "CommandType_value Attack = 4"
| "CommandType_value CastSpell = 5"
| "CommandType_value Disconnect = 6"
| "CommandType_value RequestSnapshot = 7"
| "CommandType_value (OtherCommand n) = n"

definition CommandType_cast :: "int \<Rightarrow> CommandType" where
  "CommandType_cast n =
     (if n = 1 then Login else if n = 2 then Move else if n = 3 then Chat
      else if n = 4 then Attack else if n = 5 then CastSpell else if n = 6 then Disconnect
      else if n = 7 then RequestSnapshot else OtherCommand n)"

record NetworkCommand =
  cmd_version :: u16
  cmd_type :: CommandType
  cmd_sessionId :: int
  cmd_payload :: string

fun isKnownCommandType :: "CommandType \<Rightarrow> bool" where
  "isKnownCommandType (OtherCommand n) = False"
| "isKnownCommandType _ = True"

definition validateCommand :: "NetworkCommand \<Rightarrow> unit result" where
  "validateCommand command =
     (if cmd_version command \<noteq> CURRENT_PROTOCOL_VERSION then Inl ''unsupported protocol version''
      else if \<not> isKnownCommandType (cmd_type command) then Inl ''unknown command type''
      else if length (cmd_payload command) > MAX_COMMAND_PAYLOAD then Inl ''command payload too large''
      else if cmd_type command = Login \<and> cmd_sessionId command \<noteq> 0
        then Inl ''login must not provide an internal session id''
      else if cmd_type command \<noteq> Login \<and> cmd_sessionId command \<le> 0
        then Inl ''command requires an active session id''
      else if (cmd_type command = Disconnect \<or> cmd_type command = RequestSnapshot) \<and>
          cmd_payload command \<noteq> []
        then Inl ''command payload must be empty''
      else Inr ())"

definition makeRequestSnapshotCommand :: "int \<Rightarrow> NetworkCommand" where
  "makeRequestSnapshotCommand sessionId =
     \<lparr>cmd_version = CURRENT_PROTOCOL_VERSION, cmd_type = RequestSnapshot,
      cmd_sessionId = sessionId, cmd_payload = []\<rparr>"

subsection \<open>NetworkFrameCodec\<close>

text \<open>
  The body that \<open>encodeFrame\<close>, \<open>encodeLoginResponseFrame\<close> and \<open>encodeDisconnectResponseFrame\<close> share:
  a zeroed buffer, four header fields stored at their offsets, and the payload loop.
\<close>

definition store_frame :: "u16 \<Rightarrow> u16 \<Rightarrow> int \<Rightarrow> string \<Rightarrow> u8 list" where
  "store_frame version tag sessionId payload =
     (let frame = replicate (FRAME_HEADER_SIZE + length payload) 0;
          frame = writeFrameU16 frame 0 version;
          frame = writeFrameU16 frame 2 tag;
          frame = writeFrameU64 frame 4 sessionId;
          frame = writeFrameU32 frame 12 (of_nat (length payload))
      in store_from FRAME_HEADER_SIZE (bytes_of_string payload) frame)"

definition encodeFrame :: "NetworkCommand \<Rightarrow> u8 list result" where
  "encodeFrame command =
     (case validateCommand command of
        Inl error \<Rightarrow> Inl error
      | Inr _ \<Rightarrow> Inr (store_frame (cmd_version command) (word_of_int (CommandType_value (cmd_type command)))
                     (cmd_sessionId command) (cmd_payload command)))"

definition decodeFrame :: "u8 list \<Rightarrow> NetworkCommand result" where
  "decodeFrame frame =
     (if length frame < FRAME_HEADER_SIZE then Inl ''frame header is incomplete''
      else
        let payloadLength = unat (readFrameU32 frame 12) in
        if payloadLength > MAX_COMMAND_PAYLOAD \<or> length frame \<noteq> FRAME_HEADER_SIZE + payloadLength
        then Inl ''frame length is invalid''
        else
          let command = \<lparr>cmd_version = readFrameU16 frame 0,
                         cmd_type = CommandType_cast (uint (readFrameU16 frame 2)),
                         cmd_sessionId = readFrameU64 frame 4,
                         cmd_payload = string_of_bytes (drop FRAME_HEADER_SIZE frame)\<rparr>
          in case validateCommand command of Inl error \<Rightarrow> Inl error | Inr _ \<Rightarrow> Inr command)"

subsubsection \<open>Layout of a frame\<close>

definition frame_layout :: "u16 \<Rightarrow> u16 \<Rightarrow> u64 \<Rightarrow> u32 \<Rightarrow> u8 list \<Rightarrow> u8 list" where
  "frame_layout v t s l rest = be16 v @ be16 t @ be64 s @ be32 l @ rest"

lemma store_frame_layout:
  "store_frame v t sid p = frame_layout v t (word_of_int sid) (of_nat (length p)) (bytes_of_string p)"
proof -
  let ?z = "\<lambda>n. replicate n (0 :: u8)"
  let ?n = "length p"
  have z: "?z (FRAME_HEADER_SIZE + ?n) = ?z 2 @ ?z 2 @ ?z 8 @ ?z 4 @ ?z ?n"
    by (simp flip: replicate_add)
  have w1: "writeFrameU16 (?z 2 @ ?z 2 @ ?z 8 @ ?z 4 @ ?z ?n) 0 v = be16 v @ ?z 2 @ ?z 8 @ ?z 4 @ ?z ?n"
    using write_be16 [of "?z 2" "[]"] by simp
  have w2: "writeFrameU16 (be16 v @ ?z 2 @ ?z 8 @ ?z 4 @ ?z ?n) 2 t = be16 v @ be16 t @ ?z 8 @ ?z 4 @ ?z ?n"
    using write_be16 [of "?z 2" "be16 v"] by simp
  have w3: "writeFrameU64 (be16 v @ be16 t @ ?z 8 @ ?z 4 @ ?z ?n) 4 sid =
      be16 v @ be16 t @ be64 (word_of_int sid) @ ?z 4 @ ?z ?n"
    using write_be64 [of "?z 8" "be16 v @ be16 t"] by simp
  have w4: "writeFrameU32 (be16 v @ be16 t @ be64 (word_of_int sid) @ ?z 4 @ ?z ?n) 12 l =
      be16 v @ be16 t @ be64 (word_of_int sid) @ be32 l @ ?z ?n" for l
    using write_be32 [of "?z 4" "be16 v @ be16 t @ be64 (word_of_int sid)"] by simp
  have "store_from FRAME_HEADER_SIZE (bytes_of_string p)
        (be16 v @ be16 t @ be64 (word_of_int sid) @ be32 l @ ?z ?n) =
      be16 v @ be16 t @ be64 (word_of_int sid) @ be32 l @ bytes_of_string p" for l
    using store_from_append [of "?z ?n" "bytes_of_string p" "be16 v @ be16 t @ be64 (word_of_int sid) @ be32 l"]
    by simp
  then show ?thesis by (simp only: store_frame_def Let_def z w1 w2 w3 w4 frame_layout_def)
qed

lemma length_frame_layout [simp]: "length (frame_layout v t s l rest) = FRAME_HEADER_SIZE + length rest"
  by (simp add: frame_layout_def)

lemma drop_frame_layout [simp]: "drop FRAME_HEADER_SIZE (frame_layout v t s l rest) = rest"
  by (simp add: frame_layout_def)

lemma read_frame_layout [simp]:
  "readFrameU16 (frame_layout v t s l rest) 0 = v"
  "readFrameU16 (frame_layout v t s l rest) 2 = t"
  "readFrameU64 (frame_layout v t s l rest) 4 = sint s"
  "readFrameU32 (frame_layout v t s l rest) 12 = l"
  using read_be16 [of "[]" v] read_be16 [of "be16 v" t] read_be64 [of "be16 v @ be16 t" s]
    read_be32 [of "be16 v @ be16 t @ be64 s" l]
  by (simp_all add: frame_layout_def)

lemma read_prefix:
  "off + 2 \<le> length xs \<Longrightarrow> readFrameU16 (xs @ ys) off = readFrameU16 xs off"
  "off + 4 \<le> length xs \<Longrightarrow> readFrameU32 (xs @ ys) off = readFrameU32 xs off"
  by (simp_all add: readFrameU16_def readFrameU32_def nth_append)

text \<open>Every byte run that holds a header is the layout of the fields that are read from it.\<close>

lemma be16_take: "2 \<le> length xs \<Longrightarrow> \<exists>w. xs = be16 w @ drop 2 xs"
proof -
  assume "2 \<le> length xs"
  then have "length (take 2 xs) = 2" by simp
  then obtain a b where "take 2 xs = [a, b]" by (rule length_eq_2E)
  then have "be16 (readFrameU16 [a, b] 0) @ drop 2 xs = xs" by (metis be16_read append_take_drop_id)
  then show ?thesis by metis
qed

lemma be32_take: "4 \<le> length xs \<Longrightarrow> \<exists>w. xs = be32 w @ drop 4 xs"
proof -
  assume "4 \<le> length xs"
  then have "length (take 4 xs) = 4" by simp
  then obtain a b c d where "take 4 xs = [a, b, c, d]" by (rule length_eq_4E)
  then have "be32 (readFrameU32 [a, b, c, d] 0) @ drop 4 xs = xs" by (metis be32_read append_take_drop_id)
  then show ?thesis by metis
qed

lemma be64_take: "8 \<le> length xs \<Longrightarrow> \<exists>w. xs = be64 w @ drop 8 xs"
proof -
  assume "8 \<le> length xs"
  then have "be64 (word_of_int (readFrameU64 (take 8 xs) 0)) @ drop 8 xs = xs" by (simp add: be64_read)
  then show ?thesis by metis
qed

lemma be_at:
  "n + 2 \<le> length f \<Longrightarrow> \<exists>w. drop n f = be16 w @ drop (n + 2) f"
  "n + 4 \<le> length f \<Longrightarrow> \<exists>w. drop n f = be32 w @ drop (n + 4) f"
  "n + 8 \<le> length f \<Longrightarrow> \<exists>w. drop n f = be64 w @ drop (n + 8) f"
  using be16_take [of "drop n f"] be32_take [of "drop n f"] be64_take [of "drop n f"]
  by (simp_all add: add.commute)

lemma frame_layout_exists:
  assumes "FRAME_HEADER_SIZE \<le> length f"
  shows "\<exists>v t s l. f = frame_layout v t s l (drop FRAME_HEADER_SIZE f)"
proof -
  obtain v where v: "f = be16 v @ drop 2 f" using be16_take [of f] assms by auto
  obtain t where t: "drop 2 f = be16 t @ drop 4 f" using be_at(1) [of 2 f] assms by auto
  obtain s where s: "drop 4 f = be64 s @ drop 12 f" using be_at(3) [of 4 f] assms by auto
  obtain l where l: "drop 12 f = be32 l @ drop FRAME_HEADER_SIZE f" using be_at(2) [of 12 f] assms by auto
  have "f = frame_layout v t s l (drop FRAME_HEADER_SIZE f)"
    unfolding frame_layout_def using v t s l by simp
  then show ?thesis by blast
qed

lemma frame_layoutE:
  assumes "FRAME_HEADER_SIZE \<le> length f"
  obtains v t s l where "f = frame_layout v t s l (drop FRAME_HEADER_SIZE f)"
    and "readFrameU16 f 0 = v" and "readFrameU16 f 2 = t" and "readFrameU64 f 4 = sint s"
    and "readFrameU32 f 12 = l"
  using frame_layout_exists [OF assms] by (metis read_frame_layout)

text \<open>Storing the fields that were read restores the frame.\<close>

lemma store_frame_of_layout:
  assumes "f = frame_layout v t s l (drop FRAME_HEADER_SIZE f)" and "length f = FRAME_HEADER_SIZE + unat l"
  shows "store_frame v t (sint s) (string_of_bytes (drop FRAME_HEADER_SIZE f)) = f"
proof -
  have "of_nat (length f - FRAME_HEADER_SIZE) = l" by (simp add: assms(2))
  then show ?thesis by (subst (2) assms(1)) (simp add: store_frame_layout)
qed

subsection \<open>What a stream needs from a codec\<close>

text \<open>
  \<open>repr\<close> says that the fields of a message fit their C++ types, \<open>len_of\<close> reads the length field of
  a header of \<open>hdr\<close> bytes, and \<open>maxp\<close> is the largest payload. The laws: decoding inverts encoding in
  both directions, a frame has exactly the length its header announces, and the length field only
  depends on the header.
\<close>

locale frame_codec =
  fixes repr :: "'m \<Rightarrow> bool"
    and encode :: "'m \<Rightarrow> u8 list result"
    and decode :: "u8 list \<Rightarrow> 'm result"
    and hdr :: nat
    and maxp :: nat
    and len_of :: "u8 list \<Rightarrow> nat"
  assumes decode_encode: "repr m \<Longrightarrow> encode m = Inr f \<Longrightarrow> decode f = Inr m"
    and encode_decode: "decode f = Inr m \<Longrightarrow> encode m = Inr f \<and> repr m"
    and decode_length: "decode f = Inr m \<Longrightarrow> hdr \<le> length f \<and> length f = hdr + len_of f \<and> len_of f \<le> maxp"
    and len_of_prefix: "hdr \<le> length f \<Longrightarrow> len_of (f @ rest) = len_of f"
    and hdr_pos: "0 < hdr"
begin

lemma encode_inj:
  assumes "repr m" "repr m'" "encode m = Inr f" "encode m' = Inr f"
  shows "m = m'"
  using decode_encode [OF assms(1,3)] decode_encode [OF assms(2,4)] by simp

lemma encoded_length:
  assumes "repr m" "encode m = Inr f"
  shows "hdr \<le> length f \<and> length f = hdr + len_of f \<and> len_of f \<le> maxp"
  using decode_length [OF decode_encode [OF assms]] .

text \<open>No frame is a proper prefix of another one, so a byte stream has at most one reading.\<close>

lemma prefix_free:
  assumes "decode f = Inr m" "decode g = Inr m'" "f @ xs = g @ ys"
  shows "f = g \<and> m = m'"
proof -
  note f = decode_length [OF assms(1)] and g = decode_length [OF assms(2)]
  have "len_of f = len_of (f @ xs)" using f len_of_prefix by simp
  also have "\<dots> = len_of g" using g len_of_prefix assms(3) by simp
  finally have "length f = length g" using f g by simp
  then have "f = g" using assms(3) by simp
  then show ?thesis using assms(1,2) by simp
qed

lemma stream_unique:
  assumes "list_all2 (\<lambda>m f. decode f = Inr m) ms fs" "list_all2 (\<lambda>m f. decode f = Inr m) ms' fs'"
    and "concat fs = concat fs'"
  shows "ms = ms'"
  using assms
proof (induction ms fs arbitrary: ms' fs' rule: list_all2_induct)
  case Nil
  then show ?case using decode_length hdr_pos by (cases fs'; cases ms') (auto, fastforce)
next
  case (Cons m ms f fs)
  have "f \<noteq> []" using decode_length [OF Cons(1)] hdr_pos by auto
  with Cons.prems(2) have "fs' \<noteq> []" by auto
  then obtain m' mr f' fr where e: "ms' = m' # mr" "fs' = f' # fr" "decode f' = Inr m'"
    and rest: "list_all2 (\<lambda>m f. decode f = Inr m) mr fr"
    using Cons.prems(1) by (cases fs'; cases ms') auto
  have "f = f' \<and> m = m'" using prefix_free [OF Cons(1) e(3)] Cons.prems(2) e(2) by simp
  then show ?case using Cons.IH [OF rest] Cons.prems(2) e by simp
qed

end

subsection \<open>The command codec implements the interface\<close>

definition command_repr :: "NetworkCommand \<Rightarrow> bool" where
  "command_repr command \<longleftrightarrow> is_int64 (cmd_sessionId command)"

definition frame_payload_length :: "u8 list \<Rightarrow> nat" where
  "frame_payload_length f = unat (readFrameU32 f 12)"

lemma CommandType_cast_value: "isKnownCommandType t \<Longrightarrow> CommandType_cast (CommandType_value t) = t"
  by (cases t) (auto simp: CommandType_cast_def)

lemma CommandType_value_cast [simp]: "CommandType_value (CommandType_cast n) = n"
  by (simp add: CommandType_cast_def)

lemma CommandType_value_range: "isKnownCommandType t \<Longrightarrow> 1 \<le> CommandType_value t \<and> CommandType_value t \<le> 7"
  by (cases t) auto

lemma validateCommand_known:
  assumes "validateCommand c = Inr u"
  shows "isKnownCommandType (cmd_type c)" and "length (cmd_payload c) \<le> MAX_COMMAND_PAYLOAD"
    and "cmd_version c = CURRENT_PROTOCOL_VERSION"
  using assms by (auto simp: validateCommand_def split: if_splits)

lemma unat_of_nat_payload: "n \<le> 16384 \<Longrightarrow> unat (of_nat n :: u32) = n"
  by (simp add: unat_of_nat)

lemma uint_command_code:
  assumes "isKnownCommandType t"
  shows "uint (word_of_int (CommandType_value t) :: u16) = CommandType_value t"
proof -
  have "0 \<le> CommandType_value t \<and> CommandType_value t < 65536"
    using CommandType_value_range [OF assms] by simp
  then show ?thesis by (simp add: uint_word_of_int)
qed

lemma decodeFrame_encodeFrame:
  assumes "command_repr c" and "encodeFrame c = Inr f"
  shows "decodeFrame f = Inr c"
proof -
  obtain u where v: "validateCommand c = Inr u"
    and f: "f = store_frame (cmd_version c) (word_of_int (CommandType_value (cmd_type c)))
      (cmd_sessionId c) (cmd_payload c)"
    using assms(2) by (auto simp: encodeFrame_def split: sum.splits)
  note known = validateCommand_known [OF v]
  have c: "\<lparr>cmd_version = CURRENT_PROTOCOL_VERSION, cmd_type = cmd_type c, cmd_sessionId = cmd_sessionId c,
      cmd_payload = cmd_payload c\<rparr> = c" using known(3) by simp
  show ?thesis
    using known assms(1) v
    by (simp add: decodeFrame_def f store_frame_layout unat_of_nat_payload uint_command_code
        CommandType_cast_value command_repr_def c Let_def)
qed

lemma decodeFrame_cases:
  assumes "decodeFrame f = Inr c"
  obtains v t s l where "f = frame_layout v t s l (drop FRAME_HEADER_SIZE f)" and "unat l \<le> MAX_COMMAND_PAYLOAD"
    and "length f = FRAME_HEADER_SIZE + unat l" and "validateCommand c = Inr ()"
    and "c = \<lparr>cmd_version = v, cmd_type = CommandType_cast (uint t), cmd_sessionId = sint s,
          cmd_payload = string_of_bytes (drop FRAME_HEADER_SIZE f)\<rparr>"
proof -
  have "FRAME_HEADER_SIZE \<le> length f" using assms by (simp add: decodeFrame_def split: if_splits)
  then obtain v t s l where f: "f = frame_layout v t s l (drop FRAME_HEADER_SIZE f)"
    and r: "readFrameU16 f 0 = v" "readFrameU16 f 2 = t" "readFrameU64 f 4 = sint s" "readFrameU32 f 12 = l"
    by (rule frame_layoutE)
  show ?thesis
  proof (rule that [OF f])
    show "unat l \<le> MAX_COMMAND_PAYLOAD" "length f = FRAME_HEADER_SIZE + unat l" "validateCommand c = Inr ()"
      "c = \<lparr>cmd_version = v, cmd_type = CommandType_cast (uint t), cmd_sessionId = sint s,
          cmd_payload = string_of_bytes (drop FRAME_HEADER_SIZE f)\<rparr>"
      using assms by (auto simp: decodeFrame_def r Let_def split: if_splits sum.splits)
  qed
qed

lemma encodeFrame_decodeFrame:
  assumes "decodeFrame f = Inr c"
  shows "encodeFrame c = Inr f \<and> command_repr c"
  using assms
proof (rule decodeFrame_cases)
  fix v t s l
  assume f: "f = frame_layout v t s l (drop FRAME_HEADER_SIZE f)"
    and len: "length f = FRAME_HEADER_SIZE + unat l" and v: "validateCommand c = Inr ()"
    and c: "c = \<lparr>cmd_version = v, cmd_type = CommandType_cast (uint t), cmd_sessionId = sint s,
          cmd_payload = string_of_bytes (drop FRAME_HEADER_SIZE f)\<rparr>"
  have "encodeFrame c = Inr (store_frame v t (sint s) (string_of_bytes (drop FRAME_HEADER_SIZE f)))"
    using v by (simp add: encodeFrame_def c)
  also have "\<dots> = Inr f" by (simp only: store_frame_of_layout [OF f len])
  finally show ?thesis by (simp add: command_repr_def c)
qed

interpretation command_codec:
  frame_codec command_repr encodeFrame decodeFrame FRAME_HEADER_SIZE MAX_COMMAND_PAYLOAD frame_payload_length
proof unfold_locales
  fix f :: "u8 list" and c rest
  show "command_repr c \<Longrightarrow> encodeFrame c = Inr f \<Longrightarrow> decodeFrame f = Inr c"
    by (rule decodeFrame_encodeFrame)
  show "decodeFrame f = Inr c \<Longrightarrow> encodeFrame c = Inr f \<and> command_repr c"
    by (rule encodeFrame_decodeFrame)
  show "decodeFrame f = Inr c \<Longrightarrow> FRAME_HEADER_SIZE \<le> length f \<and>
      length f = FRAME_HEADER_SIZE + frame_payload_length f \<and> frame_payload_length f \<le> MAX_COMMAND_PAYLOAD"
    by (auto simp: decodeFrame_def frame_payload_length_def Let_def split: if_splits)
  show "FRAME_HEADER_SIZE \<le> length f \<Longrightarrow> frame_payload_length (f @ rest) = frame_payload_length f"
    by (simp add: frame_payload_length_def read_prefix)
qed simp

end
