(* ===== verification/Responses.thy ===== *)
theory Responses
  imports Wire
begin

text \<open>
  The two server responses that reuse the 16-byte header: \<open>LoginResponse\<close> and \<open>DisconnectResponse\<close>
  with their validators and codecs. A disconnect response carries its status only through the
  emptiness of its payload, so its round trip depends on validation.
\<close>

subsection \<open>LoginResponse\<close>

datatype LoginResponseStatus = LoginAccepted | LoginRejected | OtherLoginStatus int

fun LoginResponseStatus_value :: "LoginResponseStatus \<Rightarrow> int" where
  "LoginResponseStatus_value LoginAccepted = 1"
| "LoginResponseStatus_value LoginRejected = 2"
| "LoginResponseStatus_value (OtherLoginStatus n) = n"

definition LoginResponseStatus_cast :: "int \<Rightarrow> LoginResponseStatus" where
  "LoginResponseStatus_cast n =
     (if n = 1 then LoginAccepted else if n = 2 then LoginRejected else OtherLoginStatus n)"

record LoginResponse =
  lr_version :: u16
  lr_status :: LoginResponseStatus
  lr_sessionId :: int
  lr_payload :: string

definition validateLoginResponse :: "LoginResponse \<Rightarrow> unit result" where
  "validateLoginResponse response =
     (if lr_version response \<noteq> CURRENT_PROTOCOL_VERSION then Inl ''unsupported login response version''
      else if length (lr_payload response) > MAX_COMMAND_PAYLOAD then Inl ''login response payload is too large''
      else if lr_status response = LoginAccepted then
        (if lr_sessionId response \<le> 0 then Inl ''accepted login response is invalid'' else Inr ())
      else if lr_status response = LoginRejected then
        (if lr_sessionId response \<noteq> 0 \<or> lr_payload response = [] then Inl ''rejected login response is invalid''
         else Inr ())
      else Inl ''unknown login response status'')"

definition encodeLoginResponseFrame :: "LoginResponse \<Rightarrow> u8 list result" where
  "encodeLoginResponseFrame response =
     (case validateLoginResponse response of
        Inl error \<Rightarrow> Inl error
      | Inr _ \<Rightarrow> Inr (store_frame (lr_version response)
                     (word_of_int (LoginResponseStatus_value (lr_status response)))
                     (lr_sessionId response) (lr_payload response)))"

definition decodeLoginResponseFrame :: "u8 list \<Rightarrow> LoginResponse result" where
  "decodeLoginResponseFrame frame =
     (if length frame < FRAME_HEADER_SIZE then Inl ''login response frame header is incomplete''
      else
        let payloadLength = unat (readFrameU32 frame 12) in
        if payloadLength > MAX_COMMAND_PAYLOAD \<or> length frame \<noteq> FRAME_HEADER_SIZE + payloadLength
        then Inl ''login response frame length is invalid''
        else
          let response = \<lparr>lr_version = readFrameU16 frame 0,
                          lr_status = LoginResponseStatus_cast (uint (readFrameU16 frame 2)),
                          lr_sessionId = readFrameU64 frame 4,
                          lr_payload = string_of_bytes (drop FRAME_HEADER_SIZE frame)\<rparr>
          in case validateLoginResponse response of Inl error \<Rightarrow> Inl error | Inr _ \<Rightarrow> Inr response)"

subsection \<open>DisconnectResponse\<close>

datatype DisconnectResponseStatus = DisconnectAccepted | DisconnectRejected | OtherDisconnectStatus int

record DisconnectResponse =
  dr_version :: u16
  dr_status :: DisconnectResponseStatus
  dr_sessionId :: int
  dr_payload :: string

definition validateDisconnectResponse :: "DisconnectResponse \<Rightarrow> unit result" where
  "validateDisconnectResponse response =
     (if dr_version response \<noteq> CURRENT_PROTOCOL_VERSION then Inl ''unsupported disconnect response version''
      else if length (dr_payload response) > MAX_COMMAND_PAYLOAD then Inl ''disconnect response payload is too large''
      else if dr_status response = DisconnectAccepted then
        (if dr_sessionId response \<le> 0 \<or> dr_payload response \<noteq> []
         then Inl ''accepted disconnect response is invalid'' else Inr ())
      else if dr_status response = DisconnectRejected then
        (if dr_payload response = [] then Inl ''rejected disconnect response is invalid'' else Inr ())
      else Inl ''unknown disconnect response status'')"

definition encodeDisconnectResponseFrame :: "DisconnectResponse \<Rightarrow> u8 list result" where
  "encodeDisconnectResponseFrame response =
     (case validateDisconnectResponse response of
        Inl error \<Rightarrow> Inl error
      | Inr _ \<Rightarrow> Inr (store_frame (dr_version response) (word_of_int (CommandType_value Disconnect))
                     (dr_sessionId response) (dr_payload response)))"

definition decodeDisconnectResponseFrame :: "u8 list \<Rightarrow> DisconnectResponse result" where
  "decodeDisconnectResponseFrame frame =
     (if length frame < FRAME_HEADER_SIZE then Inl ''disconnect response frame header is incomplete''
      else
        let payloadLength = unat (readFrameU32 frame 12) in
        if payloadLength > MAX_COMMAND_PAYLOAD \<or> length frame \<noteq> FRAME_HEADER_SIZE + payloadLength
        then Inl ''disconnect response frame length is invalid''
        else if readFrameU16 frame 2 \<noteq> word_of_int (CommandType_value Disconnect)
        then Inl ''frame is not a disconnect response''
        else
          let payload = string_of_bytes (drop FRAME_HEADER_SIZE frame);
              response = \<lparr>dr_version = readFrameU16 frame 0,
                          dr_status = (if payload = [] then DisconnectAccepted else DisconnectRejected),
                          dr_sessionId = readFrameU64 frame 4,
                          dr_payload = payload\<rparr>
          in case validateDisconnectResponse response of Inl error \<Rightarrow> Inl error | Inr _ \<Rightarrow> Inr response)"

subsection \<open>Both codecs implement the frame interface\<close>

definition login_response_repr :: "LoginResponse \<Rightarrow> bool" where
  "login_response_repr r \<longleftrightarrow> is_int64 (lr_sessionId r)"

definition disconnect_response_repr :: "DisconnectResponse \<Rightarrow> bool" where
  "disconnect_response_repr r \<longleftrightarrow> is_int64 (dr_sessionId r)"

lemma LoginResponseStatus_value_cast [simp]: "LoginResponseStatus_value (LoginResponseStatus_cast n) = n"
  by (simp add: LoginResponseStatus_cast_def)

lemma decodeLoginResponse_encode:
  assumes "login_response_repr r" and "encodeLoginResponseFrame r = Inr f"
  shows "decodeLoginResponseFrame f = Inr r"
proof -
  obtain u where v: "validateLoginResponse r = Inr u"
    and f: "f = store_frame (lr_version r) (word_of_int (LoginResponseStatus_value (lr_status r)))
      (lr_sessionId r) (lr_payload r)"
    using assms(2) by (auto simp: encodeLoginResponseFrame_def split: sum.splits)
  have st: "LoginResponseStatus_cast (uint (word_of_int (LoginResponseStatus_value (lr_status r)) :: u16)) = lr_status r"
    and len: "length (lr_payload r) \<le> MAX_COMMAND_PAYLOAD"
    using v by (auto simp: validateLoginResponse_def LoginResponseStatus_cast_def split: if_splits)
  have eta: "\<lparr>lr_version = lr_version r, lr_status = lr_status r, lr_sessionId = lr_sessionId r,
      lr_payload = lr_payload r\<rparr> = r" by simp
  show ?thesis
    using len assms(1) v
    by (simp add: decodeLoginResponseFrame_def f store_frame_layout unat_of_nat_payload st
        login_response_repr_def eta Let_def del: LoginResponse.iffs)
qed

lemma encodeLoginResponse_decode:
  assumes "decodeLoginResponseFrame f = Inr r"
  shows "encodeLoginResponseFrame r = Inr f \<and> login_response_repr r"
proof -
  have "FRAME_HEADER_SIZE \<le> length f" using assms by (simp add: decodeLoginResponseFrame_def split: if_splits)
  then obtain v t s l where f: "f = frame_layout v t s l (drop FRAME_HEADER_SIZE f)"
    and rd: "readFrameU16 f 0 = v" "readFrameU16 f 2 = t" "readFrameU64 f 4 = sint s" "readFrameU32 f 12 = l"
    by (rule frame_layoutE)
  have len: "length f = FRAME_HEADER_SIZE + unat l" and v: "validateLoginResponse r = Inr ()"
    and r: "r = \<lparr>lr_version = v, lr_status = LoginResponseStatus_cast (uint t), lr_sessionId = sint s,
          lr_payload = string_of_bytes (drop FRAME_HEADER_SIZE f)\<rparr>"
    using assms by (auto simp: decodeLoginResponseFrame_def rd Let_def split: if_splits sum.splits)
  have "encodeLoginResponseFrame r = Inr (store_frame v t (sint s) (string_of_bytes (drop FRAME_HEADER_SIZE f)))"
    using v by (simp add: encodeLoginResponseFrame_def r)
  also have "\<dots> = Inr f" by (simp only: store_frame_of_layout [OF f len])
  finally show ?thesis by (simp add: login_response_repr_def r)
qed

lemma decodeDisconnectResponse_encode:
  assumes "disconnect_response_repr r" and "encodeDisconnectResponseFrame r = Inr f"
  shows "decodeDisconnectResponseFrame f = Inr r"
proof -
  obtain u where v: "validateDisconnectResponse r = Inr u"
    and f: "f = store_frame (dr_version r) (word_of_int (CommandType_value Disconnect))
      (dr_sessionId r) (dr_payload r)"
    using assms(2) by (auto simp: encodeDisconnectResponseFrame_def split: sum.splits)
  have st: "(if dr_payload r = [] then DisconnectAccepted else DisconnectRejected) = dr_status r"
    and len: "length (dr_payload r) \<le> MAX_COMMAND_PAYLOAD"
    using v by (auto simp: validateDisconnectResponse_def split: if_splits)
  have eta: "\<lparr>dr_version = dr_version r, dr_status = dr_status r, dr_sessionId = dr_sessionId r,
      dr_payload = dr_payload r\<rparr> = r" by simp
  show ?thesis
    using len assms(1) v
    by (simp add: decodeDisconnectResponseFrame_def f store_frame_layout unat_of_nat_payload st
        disconnect_response_repr_def eta Let_def)
qed

lemma encodeDisconnectResponse_decode:
  assumes "decodeDisconnectResponseFrame f = Inr r"
  shows "encodeDisconnectResponseFrame r = Inr f \<and> disconnect_response_repr r"
proof -
  have "FRAME_HEADER_SIZE \<le> length f" using assms by (simp add: decodeDisconnectResponseFrame_def split: if_splits)
  then obtain v t s l where f: "f = frame_layout v t s l (drop FRAME_HEADER_SIZE f)"
    and rd: "readFrameU16 f 0 = v" "readFrameU16 f 2 = t" "readFrameU64 f 4 = sint s" "readFrameU32 f 12 = l"
    by (rule frame_layoutE)
  have len: "length f = FRAME_HEADER_SIZE + unat l" and v: "validateDisconnectResponse r = Inr ()"
    and t: "t = word_of_int (CommandType_value Disconnect)"
    and r: "dr_version r = v" "dr_sessionId r = sint s" "dr_payload r = string_of_bytes (drop FRAME_HEADER_SIZE f)"
    using assms by (auto simp: decodeDisconnectResponseFrame_def rd Let_def split: if_splits sum.splits)
  have "encodeDisconnectResponseFrame r = Inr (store_frame v t (sint s) (string_of_bytes (drop FRAME_HEADER_SIZE f)))"
    using v by (simp add: encodeDisconnectResponseFrame_def r t)
  also have "\<dots> = Inr f" by (simp only: store_frame_of_layout [OF f len])
  finally show ?thesis by (simp add: disconnect_response_repr_def r)
qed

interpretation login_codec: frame_codec login_response_repr encodeLoginResponseFrame decodeLoginResponseFrame
  FRAME_HEADER_SIZE MAX_COMMAND_PAYLOAD frame_payload_length
proof unfold_locales
  fix f :: "u8 list" and r rest
  show "login_response_repr r \<Longrightarrow> encodeLoginResponseFrame r = Inr f \<Longrightarrow> decodeLoginResponseFrame f = Inr r"
    by (rule decodeLoginResponse_encode)
  show "decodeLoginResponseFrame f = Inr r \<Longrightarrow> encodeLoginResponseFrame r = Inr f \<and> login_response_repr r"
    by (rule encodeLoginResponse_decode)
  show "decodeLoginResponseFrame f = Inr r \<Longrightarrow> FRAME_HEADER_SIZE \<le> length f \<and>
      length f = FRAME_HEADER_SIZE + frame_payload_length f \<and> frame_payload_length f \<le> MAX_COMMAND_PAYLOAD"
    by (auto simp: decodeLoginResponseFrame_def frame_payload_length_def Let_def split: if_splits)
  show "FRAME_HEADER_SIZE \<le> length f \<Longrightarrow> frame_payload_length (f @ rest) = frame_payload_length f"
    by (simp add: frame_payload_length_def read_prefix)
qed simp

interpretation disconnect_codec:
  frame_codec disconnect_response_repr encodeDisconnectResponseFrame decodeDisconnectResponseFrame
  FRAME_HEADER_SIZE MAX_COMMAND_PAYLOAD frame_payload_length
proof unfold_locales
  fix f :: "u8 list" and r rest
  show "disconnect_response_repr r \<Longrightarrow> encodeDisconnectResponseFrame r = Inr f \<Longrightarrow>
      decodeDisconnectResponseFrame f = Inr r"
    by (rule decodeDisconnectResponse_encode)
  show "decodeDisconnectResponseFrame f = Inr r \<Longrightarrow>
      encodeDisconnectResponseFrame r = Inr f \<and> disconnect_response_repr r"
    by (rule encodeDisconnectResponse_decode)
  show "decodeDisconnectResponseFrame f = Inr r \<Longrightarrow> FRAME_HEADER_SIZE \<le> length f \<and>
      length f = FRAME_HEADER_SIZE + frame_payload_length f \<and> frame_payload_length f \<le> MAX_COMMAND_PAYLOAD"
    by (auto simp: decodeDisconnectResponseFrame_def frame_payload_length_def Let_def split: if_splits)
  show "FRAME_HEADER_SIZE \<le> length f \<Longrightarrow> frame_payload_length (f @ rest) = frame_payload_length f"
    by (simp add: frame_payload_length_def read_prefix)
qed simp

end
