(* ===== verification/Frame_Stream.thy ===== *)
theory Frame_Stream
  imports Wire
begin

text \<open>
  Reassembly of frames from a byte stream: \<open>FrameAccumulator\<close>. The reassembly loop is the same for
  commands and for world updates, so what makes it correct is proved once, in the locale
  \<open>stream_loop\<close>, from the laws of a frame codec and the five branches of the loop; the
  interpretation below discharges those branches for \<open>FrameAccumulator::append\<close>.
\<close>

subsection \<open>The reassembly loop\<close>

locale stream_loop = frame_codec repr encode decode hdr maxp len_of
  for repr :: "'m \<Rightarrow> bool" and encode decode hdr maxp len_of +
  fixes too_large :: string
    and loop :: "u8 list \<Rightarrow> 'm list \<Rightarrow> u8 list \<times> 'm list \<times> string option"
  assumes loop_header: "length b < hdr \<Longrightarrow> loop b ms = (b, ms, None)"
    and loop_large: "hdr \<le> length b \<Longrightarrow> maxp < len_of b \<Longrightarrow> loop b ms = (b, ms, Some too_large)"
    and loop_partial: "hdr \<le> length b \<Longrightarrow> len_of b \<le> maxp \<Longrightarrow> length b < hdr + len_of b \<Longrightarrow>
      loop b ms = (b, ms, None)"
    and loop_reject: "hdr \<le> length b \<Longrightarrow> len_of b \<le> maxp \<Longrightarrow> hdr + len_of b \<le> length b \<Longrightarrow>
      decode (take (hdr + len_of b) b) = Inl e \<Longrightarrow> loop b ms = (drop (hdr + len_of b) b, ms, Some e)"
    and loop_accept: "hdr \<le> length b \<Longrightarrow> len_of b \<le> maxp \<Longrightarrow> hdr + len_of b \<le> length b \<Longrightarrow>
      decode (take (hdr + len_of b) b) = Inr m \<Longrightarrow> loop b ms = loop (drop (hdr + len_of b) b) (ms @ [m])"
begin

lemma loop_frame:
  assumes "decode f = Inr m"
  shows "loop (f @ rest) ms = loop rest (ms @ [m])"
proof -
  note f = decode_length [OF assms]
  then have "len_of (f @ rest) = len_of f" using len_of_prefix by simp
  with f have "take (hdr + len_of (f @ rest)) (f @ rest) = f" "drop (hdr + len_of (f @ rest)) (f @ rest) = rest"
    and "hdr + len_of (f @ rest) \<le> length (f @ rest)" and "len_of (f @ rest) \<le> maxp"
    by auto
  with f assms show ?thesis using loop_accept [of "f @ rest" m ms] by simp
qed

lemma loop_frames:
  "list_all2 (\<lambda>m f. decode f = Inr m) ms fs \<Longrightarrow> loop (concat fs @ rest) acc = loop rest (acc @ ms)"
  by (induction ms fs arbitrary: acc rule: list_all2_induct) (simp_all add: loop_frame)

lemma loop_cut:
  assumes "decode (f @ g) = Inr m" and "g \<noteq> []"
  shows "loop f ms = (f, ms, None)"
proof (cases "length f < hdr")
  case True
  then show ?thesis by (rule loop_header)
next
  case False
  then have "len_of (f @ g) = len_of f" using len_of_prefix by simp
  then show ?thesis using False decode_length [OF assms(1)] assms(2)
    by (cases g; intro loop_partial) (auto simp: not_less)
qed

text \<open>The five ways one turn of the loop can go.\<close>

lemma loop_cases:
  obtains (wait) "loop b ms = (b, ms, None)" "length b < hdr \<or> hdr \<le> length b \<and> len_of b \<le> maxp \<and> length b < hdr + len_of b"
  | (large) "loop b ms = (b, ms, Some too_large)" "hdr \<le> length b" "maxp < len_of b"
  | (reject) e where "loop b ms = (drop (hdr + len_of b) b, ms, Some e)" "hdr \<le> length b" "len_of b \<le> maxp"
      "hdr + len_of b \<le> length b" "decode (take (hdr + len_of b) b) = Inl e"
  | (accept) m where "loop b ms = loop (drop (hdr + len_of b) b) (ms @ [m])" "hdr \<le> length b" "len_of b \<le> maxp"
      "hdr + len_of b \<le> length b" "decode (take (hdr + len_of b) b) = Inr m"
proof (cases "length b < hdr \<or> maxp < len_of b \<or> length b < hdr + len_of b")
  case True
  then show ?thesis using that(1,2) loop_header loop_large loop_partial by (metis not_less)
next
  case False
  then show ?thesis using that(3,4) loop_reject loop_accept
    by (cases "decode (take (hdr + len_of b) b)") (auto simp: not_less)
qed

text \<open>What stays buffered after a successful pass is less than one maximal frame.\<close>

lemma loop_leftover:
  "loop b ms = (b', ms', None) \<Longrightarrow> length b' < hdr + maxp"
proof (induction b arbitrary: ms rule: measure_induct_rule [of length])
  case (less b)
  show ?case
  proof (rule loop_cases [of b ms])
    assume "loop b ms = (b, ms, None)"
      and "length b < hdr \<or> hdr \<le> length b \<and> len_of b \<le> maxp \<and> length b < hdr + len_of b"
    then show ?thesis using less.prems by auto
  next
    fix m
    assume a: "loop b ms = loop (drop (hdr + len_of b) b) (ms @ [m])" "hdr \<le> length b"
    then show ?thesis using less.IH [of "drop (hdr + len_of b) b" "ms @ [m]"] less.prems hdr_pos by simp
  qed (use less.prems in auto)
qed

text \<open>Chunking does not matter: what one pass left over can be continued later with more bytes.\<close>

lemma loop_resume:
  "loop b ms = (b', ms', None) \<Longrightarrow> loop (b @ x) ms = loop (b' @ x) ms'"
proof (induction b arbitrary: ms rule: measure_induct_rule [of length])
  case (less b)
  show ?case
  proof (rule loop_cases [of b ms])
    assume "loop b ms = (b, ms, None)"
    then show ?thesis using less.prems by simp
  next
    fix m
    assume a: "loop b ms = loop (drop (hdr + len_of b) b) (ms @ [m])" "hdr \<le> length b"
      "hdr + len_of b \<le> length b" "decode (take (hdr + len_of b) b) = Inr m"
    have "b @ x = take (hdr + len_of b) b @ (drop (hdr + len_of b) b @ x)" by simp
    then have "loop (b @ x) ms = loop (drop (hdr + len_of b) b @ x) (ms @ [m])"
      using loop_frame [OF a(4)] by metis
    also have "\<dots> = loop (b' @ x) ms'"
      using less.IH [of "drop (hdr + len_of b) b" "ms @ [m]"] less.prems a hdr_pos by simp
    finally show ?thesis .
  qed (use less.prems in auto)
qed

text \<open>
  The bytes that are still buffered while a stream of valid frames arrives are an initial piece of
  the frame that is being received.
\<close>

lemma loop_of_prefix:
  assumes "list_all2 (\<lambda>m f. decode f = Inr m) ms fs" and "b @ x = concat fs"
  shows "\<exists>b' n. loop b acc = (b', acc @ take n ms, None) \<and> b' @ x = concat (drop n fs) \<and>
     (b' = [] \<or> (\<exists>f \<in> set fs. length b' < length f))"
  using assms
proof (induction ms fs arbitrary: b acc rule: list_all2_induct)
  case Nil
  then have "loop b acc = (b, acc @ take 0 [], None) \<and> b @ x = concat (drop 0 []) \<and> b = []"
    using loop_header [of "[]"] hdr_pos by simp
  then show ?case by (metis)
next
  case (Cons m ms f fs)
  show ?case
  proof (cases "length b < length f")
    case True
    then obtain g where g: "f = b @ g" "g \<noteq> []"
      using Cons.prems by (auto simp: append_eq_append_conv2)
    then have "loop b acc = (b, acc, None)" using Cons.hyps(1) loop_cut by blast
    then have "loop b acc = (b, acc @ take 0 (m # ms), None) \<and> b @ x = concat (drop 0 (f # fs)) \<and>
        (\<exists>h \<in> set (f # fs). length b < length h)"
      using True Cons.prems by simp
    then show ?thesis by blast
  next
    case False
    then obtain r where r: "b = f @ r" "r @ x = concat fs"
      using Cons.prems by (auto simp: append_eq_append_conv2)
    from Cons.IH [OF r(2), of "acc @ [m]"] obtain b' n where
      ih: "loop r (acc @ [m]) = (b', (acc @ [m]) @ take n ms, None)" "b' @ x = concat (drop n fs)"
        "b' = [] \<or> (\<exists>f \<in> set fs. length b' < length f)" by blast
    have "loop b acc = (b', acc @ take (Suc n) (m # ms), None)"
      using loop_frame [OF Cons.hyps(1)] ih(1) r(1) by simp
    then have "loop b acc = (b', acc @ take (Suc n) (m # ms), None) \<and> b' @ x = concat (drop (Suc n) (f # fs)) \<and>
        (b' = [] \<or> (\<exists>h \<in> set (f # fs). length b' < length h))"
      using ih(2,3) by auto
    then show ?thesis by blast
  qed
qed

lemma loop_idle:
  "loop b ms = (b', ms', None) \<Longrightarrow> loop b' acc = (b', acc, None)"
proof (induction b arbitrary: ms rule: measure_induct_rule [of length])
  case (less b)
  show ?case
  proof (rule loop_cases [of b ms])
    assume "loop b ms = (b, ms, None)"
      and "length b < hdr \<or> hdr \<le> length b \<and> len_of b \<le> maxp \<and> length b < hdr + len_of b"
    then show ?thesis using less.prems loop_header loop_partial by auto
  next
    fix m
    assume "loop b ms = loop (drop (hdr + len_of b) b) (ms @ [m])" "hdr \<le> length b"
    then show ?thesis using less.IH [of "drop (hdr + len_of b) b" "ms @ [m]"] less.prems hdr_pos by simp
  qed (use less.prems in auto)
qed

end

subsection \<open>Feeding chunks\<close>

text \<open>
  One \<open>append\<close> per received chunk, stopping at the first failure, as the receiving side does
  (\<open>ClientSession::receive\<close> closes the socket when \<open>append\<close> fails).
\<close>

fun feed_all :: "('s \<Rightarrow> u8 list \<Rightarrow> 's \<times> 'm list \<times> string option) \<Rightarrow> 's \<Rightarrow> u8 list list \<Rightarrow>
    's \<times> 'm list \<times> string option" where
  "feed_all app s [] = (s, [], None)"
| "feed_all app s (c # cs) =
     (case app s c of
        (s', ms, Some e) \<Rightarrow> (s', ms, Some e)
      | (s', ms, None) \<Rightarrow> (case feed_all app s' cs of (s'', ms', r) \<Rightarrow> (s'', ms @ ms', r)))"

locale stream_accumulator = stream_loop repr encode decode hdr maxp len_of too_large loop
  for repr :: "'m \<Rightarrow> bool" and encode decode hdr maxp len_of too_large loop +
  fixes buffered :: "'s \<Rightarrow> u8 list"
    and failed :: "'s \<Rightarrow> bool"
    and make :: "u8 list \<Rightarrow> bool \<Rightarrow> 's"
    and append :: "'s \<Rightarrow> u8 list \<Rightarrow> 's \<times> 'm list \<times> string option"
    and failed_msg :: string
    and full_msg :: string
  assumes sel: "buffered (make b fl) = b" "failed (make b fl) = fl" "make (buffered s) (failed s) = s"
    and append_failed: "failed s \<Longrightarrow> append s bytes = (s, [], Some failed_msg)"
    and append_full: "\<not> failed s \<Longrightarrow> size_sub (hdr + maxp) (length (buffered s)) < length bytes \<Longrightarrow>
      append s bytes = (make (buffered s) True, [], Some full_msg)"
    and append_loop: "\<not> failed s \<Longrightarrow> length bytes \<le> size_sub (hdr + maxp) (length (buffered s)) \<Longrightarrow>
      loop (buffered s @ bytes) [] = (b', ms, r) \<Longrightarrow> append s bytes = (make b' (r \<noteq> None), ms, r)"
begin

text \<open>The buffer never holds a maximal frame, so the \<open>size_t\<close> subtraction in \<open>append\<close> cannot wrap.\<close>

definition invar :: "'s \<Rightarrow> bool" where
  "invar s \<longleftrightarrow> failed s \<or> length (buffered s) < hdr + maxp"

lemma append_cases:
  obtains (failed) "failed s" "append s bytes = (s, [], Some failed_msg)"
  | (full) "\<not> failed s" "append s bytes = (make (buffered s) True, [], Some full_msg)"
  | (looped) b' ms r where "\<not> failed s" "loop (buffered s @ bytes) [] = (b', ms, r)"
      "append s bytes = (make b' (r \<noteq> None), ms, r)"
  using append_failed [of s bytes] append_full [of s bytes] append_loop [of s bytes]
  by (metis not_less prod_cases3)

lemma append_invar: "append s bytes = (s', ms, r) \<Longrightarrow> invar s \<Longrightarrow> invar s'"
  by (cases r; rule append_cases [of s bytes]) (auto simp: invar_def sel dest: loop_leftover)

lemma append_failed_iff: "append s bytes = (s', ms, r) \<Longrightarrow> failed s' \<longleftrightarrow> r \<noteq> None"
  by (rule append_cases [of s bytes]) (auto simp: sel)

text \<open>
  Valid frames, cut into chunks at arbitrary places, come out in order and exactly once, provided
  the chunks leave room for the longest frame of the stream.
\<close>

lemma feed_delivers:
  assumes "list_all2 (\<lambda>m f. decode f = Inr m) ms fs" and "buffered s @ concat cs = concat fs"
    and "\<not> failed s" and "loop (buffered s) [] = (buffered s, [], None)"
    and "\<forall>f \<in> set fs. length f \<le> L" and "buffered s = [] \<or> length (buffered s) < L"
    and "\<forall>c \<in> set cs. length c + L \<le> hdr + maxp + 1" and "0 < L"
  shows "feed_all append s cs = (make [] False, ms, None)"
  using assms
proof (induction cs arbitrary: s ms fs)
  case Nil
  then have "loop (buffered s) [] = loop [] ([] @ ms)"
    using loop_frames [OF Nil.prems(1), of "[]" "[]"] by simp
  then have "buffered s = []" and "ms = []"
    using Nil.prems(4) loop_header [of "[]" ms] hdr_pos by auto
  then show ?case using sel(3) [of s] Nil.prems(3) by simp
next
  case (Cons c cs)
  have room: "length (buffered s) + length c \<le> hdr + maxp" using Cons.prems(6,7,8) by auto
  from loop_of_prefix [OF Cons.prems(1), of "buffered s @ c" "concat cs" "[]"] Cons.prems(2)
  obtain b' n where l: "loop (buffered s @ c) [] = (b', take n ms, None)" "b' @ concat cs = concat (drop n fs)"
    "b' = [] \<or> (\<exists>f \<in> set fs. length b' < length f)" by auto
  have step: "append s c = (make b' False, take n ms, None)"
    using append_loop [OF Cons.prems(3) _ l(1)] room by simp
  have "feed_all append (make b' False) cs = (make [] False, drop n ms, None)"
  proof (rule Cons.IH)
    show "list_all2 (\<lambda>m f. decode f = Inr m) (drop n ms) (drop n fs)"
      using Cons.prems(1) by (rule list_all2_dropI)
    show "loop (buffered (make b' False)) [] = (buffered (make b' False), [], None)"
      using loop_idle [OF l(1)] by (simp add: sel)
    show "\<forall>f \<in> set (drop n fs). length f \<le> L" using Cons.prems(5) by (auto dest: in_set_dropD)
    show "buffered (make b' False) = [] \<or> length (buffered (make b' False)) < L"
      using l(3) Cons.prems(5) by (auto simp: sel)
  qed (use l(2) Cons.prems(7,8) in \<open>auto simp: sel\<close>)
  then show ?case by (simp add: step)
qed

end

subsection \<open>FrameAccumulator\<close>

record FrameAccumulator =
  fa_buffered :: "u8 list"
  fa_failed :: bool

definition FrameAccumulator_init :: FrameAccumulator where
  "FrameAccumulator_init = \<lparr>fa_buffered = [], fa_failed = False\<rparr>"

text \<open>
  The \<open>while\<close> loop of \<open>append\<close>: the remaining buffer, the commands decoded so far and the error
  message when the loop returns \<open>false\<close>.
\<close>

function FrameAccumulator_loop :: "u8 list \<Rightarrow> NetworkCommand list \<Rightarrow>
    u8 list \<times> NetworkCommand list \<times> string option" where
  "FrameAccumulator_loop buf commands =
     (if length buf < FRAME_HEADER_SIZE then (buf, commands, None)
      else
        let payloadLength = unat (push_bit 24 (ucast (buf ! 12)) OR push_bit 16 (ucast (buf ! 13)) OR
              push_bit 8 (ucast (buf ! 14)) OR ucast (buf ! 15) :: u32) in
        if payloadLength > MAX_COMMAND_PAYLOAD
        then (buf, commands, Some ''stream payload exceeds maximum size'')
        else
          let frameSize = FRAME_HEADER_SIZE + payloadLength in
          if length buf < frameSize then (buf, commands, None)
          else
            let complete = take frameSize buf; rest = drop frameSize buf in
            case decodeFrame complete of
              Inl error \<Rightarrow> (rest, commands, Some error)
            | Inr command \<Rightarrow> FrameAccumulator_loop rest (commands @ [command]))"
  by pat_completeness auto
termination
  by (relation "measure (\<lambda>(buf, commands). length buf)") auto

declare FrameAccumulator_loop.simps [simp del]

definition FrameAccumulator_append :: "FrameAccumulator \<Rightarrow> u8 list \<Rightarrow>
    FrameAccumulator \<times> NetworkCommand list \<times> string option" where
  "FrameAccumulator_append acc bytes =
     (if fa_failed acc then (acc, [], Some ''frame accumulator is failed'')
      else if length bytes > size_sub (FRAME_HEADER_SIZE + MAX_COMMAND_PAYLOAD) (length (fa_buffered acc))
      then (acc\<lparr>fa_failed := True\<rparr>, [], Some ''stream frame exceeds maximum size'')
      else
        case FrameAccumulator_loop (fa_buffered acc @ bytes) [] of
          (buf, commands, r) \<Rightarrow> (acc\<lparr>fa_buffered := buf, fa_failed := (r \<noteq> None)\<rparr>, commands, r))"

definition FrameAccumulator_reset :: "FrameAccumulator \<Rightarrow> FrameAccumulator" where
  "FrameAccumulator_reset acc = acc\<lparr>fa_buffered := [], fa_failed := False\<rparr>"

lemma stream_length_field:
  "unat (push_bit 24 (ucast (buf ! 12)) OR push_bit 16 (ucast (buf ! 13)) OR
     push_bit 8 (ucast (buf ! 14)) OR ucast (buf ! 15) :: u32) = frame_payload_length buf"
  by (simp add: frame_payload_length_def readFrameU32_def)

interpretation command_stream: stream_accumulator command_repr encodeFrame decodeFrame FRAME_HEADER_SIZE
  MAX_COMMAND_PAYLOAD frame_payload_length "''stream payload exceeds maximum size''" FrameAccumulator_loop
  fa_buffered fa_failed FrameAccumulator.make FrameAccumulator_append
  "''frame accumulator is failed''" "''stream frame exceeds maximum size''"
proof unfold_locales
  fix buf :: "u8 list" and ms e m
  show "length buf < FRAME_HEADER_SIZE \<Longrightarrow> FrameAccumulator_loop buf ms = (buf, ms, None)"
    by (subst FrameAccumulator_loop.simps) simp
  assume h: "FRAME_HEADER_SIZE \<le> length buf"
  show "MAX_COMMAND_PAYLOAD < frame_payload_length buf \<Longrightarrow>
      FrameAccumulator_loop buf ms = (buf, ms, Some ''stream payload exceeds maximum size'')"
    using h by (subst FrameAccumulator_loop.simps) (simp only: stream_length_field, simp)
  assume p: "frame_payload_length buf \<le> MAX_COMMAND_PAYLOAD"
  show "length buf < FRAME_HEADER_SIZE + frame_payload_length buf \<Longrightarrow>
      FrameAccumulator_loop buf ms = (buf, ms, None)"
    using h p by (subst FrameAccumulator_loop.simps) (simp only: stream_length_field, simp)
  assume l: "FRAME_HEADER_SIZE + frame_payload_length buf \<le> length buf"
  show "decodeFrame (take (FRAME_HEADER_SIZE + frame_payload_length buf) buf) = Inl e \<Longrightarrow>
      FrameAccumulator_loop buf ms = (drop (FRAME_HEADER_SIZE + frame_payload_length buf) buf, ms, Some e)"
    using h p l by (subst FrameAccumulator_loop.simps) (simp only: stream_length_field Let_def, simp)
  show "decodeFrame (take (FRAME_HEADER_SIZE + frame_payload_length buf) buf) = Inr m \<Longrightarrow>
      FrameAccumulator_loop buf ms =
        FrameAccumulator_loop (drop (FRAME_HEADER_SIZE + frame_payload_length buf) buf) (ms @ [m])"
    using h p l by (subst FrameAccumulator_loop.simps) (simp only: stream_length_field Let_def, simp)
next
  fix s :: FrameAccumulator and bytes b' ms r b fl
  show "fa_buffered (FrameAccumulator.make b fl) = b" "fa_failed (FrameAccumulator.make b fl) = fl"
    "FrameAccumulator.make (fa_buffered s) (fa_failed s) = s"
    by (simp_all add: FrameAccumulator.make_def)
  show "fa_failed s \<Longrightarrow> FrameAccumulator_append s bytes = (s, [], Some ''frame accumulator is failed'')"
    by (simp add: FrameAccumulator_append_def)
  assume f: "\<not> fa_failed s"
  show "size_sub (FRAME_HEADER_SIZE + MAX_COMMAND_PAYLOAD) (length (fa_buffered s)) < length bytes \<Longrightarrow>
      FrameAccumulator_append s bytes =
        (FrameAccumulator.make (fa_buffered s) True, [], Some ''stream frame exceeds maximum size'')"
    using f by (simp add: FrameAccumulator_append_def FrameAccumulator.make_def)
  show "length bytes \<le> size_sub (FRAME_HEADER_SIZE + MAX_COMMAND_PAYLOAD) (length (fa_buffered s)) \<Longrightarrow>
      FrameAccumulator_loop (fa_buffered s @ bytes) [] = (b', ms, r) \<Longrightarrow>
      FrameAccumulator_append s bytes = (FrameAccumulator.make b' (r \<noteq> None), ms, r)"
    using f by (simp add: FrameAccumulator_append_def FrameAccumulator.make_def)
qed

subsection \<open>Properties of the command stream\<close>

lemma encoded_decodes:
  "list_all2 (\<lambda>c f. command_repr c \<and> encodeFrame c = Inr f) cs fs \<Longrightarrow>
   list_all2 (\<lambda>c f. decodeFrame f = Inr c) cs fs"
  by (erule list_all2_mono) (auto intro: decodeFrame_encodeFrame)

lemma make_init: "FrameAccumulator.make [] False = FrameAccumulator_init"
  by (simp add: FrameAccumulator.make_def FrameAccumulator_init_def)

text \<open>
  Property C17. Reassembly is independent of how TCP cuts the stream: if the encoded frames of a list
  of commands arrive in chunks cut anywhere, and no chunk is so long that a maximal frame of this
  stream could not still be buffered beside it, then the accumulator hands out exactly those
  commands, in order, and ends with an empty buffer and no failure.
\<close>

theorem FrameAccumulator_delivers:
  assumes "list_all2 (\<lambda>c f. command_repr c \<and> encodeFrame c = Inr f) commands frames"
    and "concat chunks = concat frames"
    and "\<forall>f \<in> set frames. length f \<le> L" and "0 < L"
    and "\<forall>c \<in> set chunks. length c + L \<le> FRAME_HEADER_SIZE + MAX_COMMAND_PAYLOAD + 1"
  shows "feed_all FrameAccumulator_append FrameAccumulator_init chunks = (FrameAccumulator_init, commands, None)"
  using command_stream.feed_delivers [OF encoded_decodes [OF assms(1)], of FrameAccumulator_init chunks L]
    assms(2-5) command_stream.loop_header [of "[]" "[]"]
  by (simp add: FrameAccumulator_init_def make_init)

definition snapshot_frame :: "u8 list" where
  "snapshot_frame = [0, 1, 0, 7, 0, 0, 0, 0, 0, 0, 0, 5, 0, 0, 0, 0]"

lemma snapshot_frame_encodes: "encodeFrame (makeRequestSnapshotCommand 5) = Inr snapshot_frame"
  by (simp add: encodeFrame_def validateCommand_def makeRequestSnapshotCommand_def store_frame_layout
      frame_layout_def be_defs bytes_of_string_def snapshot_frame_def drop_bit_eq_div)

theorem FrameAccumulator_delivers_witness:
  "feed_all FrameAccumulator_append FrameAccumulator_init
     [[0, 1, 0, 7, 0], [0, 0, 0, 0, 0, 0, 5, 0, 0], [0, 0, 0, 1, 0, 7, 0, 0, 0, 0], [0, 0, 0, 5, 0, 0, 0, 0]] =
   (FrameAccumulator_init, [makeRequestSnapshotCommand 5, makeRequestSnapshotCommand 5], None)"
proof -
  have "command_repr (makeRequestSnapshotCommand 5)"
    by (simp add: command_repr_def makeRequestSnapshotCommand_def is_int64_def)
  then show ?thesis
    using FrameAccumulator_delivers [of "[makeRequestSnapshotCommand 5, makeRequestSnapshotCommand 5]"
        "[snapshot_frame, snapshot_frame]"
        "[[0, 1, 0, 7, 0], [0, 0, 0, 0, 0, 0, 5, 0, 0], [0, 0, 0, 1, 0, 7, 0, 0, 0, 0], [0, 0, 0, 5, 0, 0, 0, 0]]" 16]
      snapshot_frame_encodes
    by (simp add: snapshot_frame_def)
qed

text \<open>
  The buffer invariant: whatever arrives, an accumulator that has not failed buffers
  less than one maximal frame (so \<open>FRAME_HEADER_SIZE + MAX_COMMAND_PAYLOAD - buffered.size()\<close> never
  wraps), and \<open>append\<close> returns \<open>false\<close> exactly when it leaves the accumulator failed.
\<close>

theorem FrameAccumulator_append_invariant:
  assumes "fa_failed acc \<or> length (fa_buffered acc) < FRAME_HEADER_SIZE + MAX_COMMAND_PAYLOAD"
    and "FrameAccumulator_append acc bytes = (acc', commands, r)"
  shows "(fa_failed acc' \<or> length (fa_buffered acc') < FRAME_HEADER_SIZE + MAX_COMMAND_PAYLOAD) \<and>
    (fa_failed acc' \<longleftrightarrow> r \<noteq> None)"
  using command_stream.append_invar [OF assms(2)] command_stream.append_failed_iff [OF assms(2)] assms(1)
  by (simp add: command_stream.invar_def)

theorem FrameAccumulator_append_invariant_witness:
  "\<not> fa_failed FrameAccumulator_init \<and>
   fst (FrameAccumulator_append FrameAccumulator_init [1, 2]) = \<lparr>fa_buffered = [1, 2], fa_failed = False\<rparr> \<and>
   length (fa_buffered (fst (FrameAccumulator_append FrameAccumulator_init [1, 2]))) < 4112"
proof -
  have a: "FrameAccumulator_append FrameAccumulator_init [1, 2] =
      (\<lparr>fa_buffered = [1, 2], fa_failed = False\<rparr>, [], None)"
    by (simp add: FrameAccumulator_append_def FrameAccumulator_init_def FrameAccumulator_loop.simps)
  have "fa_failed FrameAccumulator_init \<or> length (fa_buffered FrameAccumulator_init) < FRAME_HEADER_SIZE + MAX_COMMAND_PAYLOAD"
    by (simp add: FrameAccumulator_init_def)
  from FrameAccumulator_append_invariant [OF this a] show ?thesis
    by (simp add: a) (simp add: FrameAccumulator_init_def)
qed

definition long_chat :: NetworkCommand where
  "long_chat = \<lparr>cmd_version = 1, cmd_type = Chat, cmd_sessionId = 1, cmd_payload = replicate 4096 CHR ''a''\<rparr>"

lemma long_chat_encodes:
  obtains f where "encodeFrame long_chat = Inr f" "command_repr long_chat" "length f = 4112"
proof -
  have "validateCommand long_chat = Inr ()"
    by (simp add: validateCommand_def long_chat_def)
  then show ?thesis
    using that by (simp add: encodeFrame_def store_frame_layout long_chat_def command_repr_def is_int64_def)
qed

text \<open>
  The capacity test of \<open>append\<close> is too strict for the receiver that feeds it. There is a
  stream of valid frames, read in chunks of at most 4096 bytes (\<open>READ_BUFFER_SIZE\<close> of
  \<open>ClientSession::receive\<close>), that the accumulator rejects although every frame in it is valid: the
  room is computed for the frame being completed and not for the frames that follow it in the same
  read.
\<close>

theorem FrameAccumulator_rejects_valid_backlog:
  "\<exists>commands frames chunks acc.
     list_all2 (\<lambda>c f. command_repr c \<and> encodeFrame c = Inr f) commands frames \<and>
     concat chunks = concat frames \<and> list_all (\<lambda>c. length c \<le> 4096) chunks \<and>
     feed_all FrameAccumulator_append FrameAccumulator_init chunks =
       (acc, [], Some ''stream frame exceeds maximum size'')"
proof -
  obtain f where f: "encodeFrame long_chat = Inr f" "command_repr long_chat" "length f = 4112"
    by (rule long_chat_encodes)
  let ?a = "take 4096 f" and ?b = "take 4096 (drop 4096 f @ f)" and ?c = "drop 4096 (drop 4096 f @ f)"
  have "decodeFrame (?a @ drop 4096 f) = Inr long_chat"
    using decodeFrame_encodeFrame [OF f(2,1)] by simp
  from command_stream.loop_cut [OF this, of "[]"] f(3)
  have "FrameAccumulator_loop (fa_buffered FrameAccumulator_init @ ?a) [] = (?a, [], None)"
    by (simp add: FrameAccumulator_init_def)
  then have a: "FrameAccumulator_append FrameAccumulator_init ?a = (FrameAccumulator.make ?a False, [], None)"
    using command_stream.append_loop [of FrameAccumulator_init ?a ?a "[]" None] f(3)
    by (simp add: FrameAccumulator_init_def)
  have b: "FrameAccumulator_append (FrameAccumulator.make ?a False) ?b =
      (FrameAccumulator.make ?a True, [], Some ''stream frame exceeds maximum size'')"
    using command_stream.append_full [of "FrameAccumulator.make ?a False" ?b] f(3)
    by (simp add: command_stream.sel)
  have "concat [?a, ?b, ?c] = concat [f, f]"
    using append_take_drop_id [of 4096 f] append_take_drop_id [of 4096 "drop 4096 f @ f"]
    by (metis append.assoc append_Nil2 concat.simps)
  moreover have "list_all (\<lambda>c. length c \<le> 4096) [?a, ?b, ?c]" using f(3) by simp
  moreover have "feed_all FrameAccumulator_append FrameAccumulator_init [?a, ?b, ?c] =
      (FrameAccumulator.make ?a True, [], Some ''stream frame exceeds maximum size'')"
    by (simp only: feed_all.simps a b prod.case option.case append_Nil)
  moreover have "list_all2 (\<lambda>c f. command_repr c \<and> encodeFrame c = Inr f) [long_chat, long_chat] [f, f]"
    using f by simp
  ultimately show ?thesis by blast
qed

end
