(* ===== verification/World_Update.thy ===== *)
theory World_Update
  imports Frame_Stream
begin

text \<open>
  The outbound world stream: \<open>WorldUpdate\<close> and its validator, the 36-byte frame codec
  (\<open>WorldUpdateFrameCodec\<close>), \<open>WorldUpdateAccumulator\<close>, the sequence tracker
  (\<open>WorldUpdateSequenceTracker\<close>) and \<open>WorldUpdateSyncController\<close>. The codec and the accumulator are
  instances of the interfaces of \<open>Wire\<close> and \<open>Frame_Stream\<close>; the tracker is a state machine whose
  runs are shown to hand out consecutive sequence numbers.
\<close>

subsection \<open>WorldUpdate\<close>

abbreviation MAX_UPDATE_PAYLOAD :: nat where "MAX_UPDATE_PAYLOAD \<equiv> 16384"
abbreviation WORLD_UPDATE_FRAME_HEADER_SIZE :: nat where "WORLD_UPDATE_FRAME_HEADER_SIZE \<equiv> 36"
abbreviation WORLD_UPDATE_FRAME_MAGIC :: u16 where "WORLD_UPDATE_FRAME_MAGIC \<equiv> 0x5755"

datatype UpdateKind = Snapshot | Event | OtherUpdateKind int

fun UpdateKind_value :: "UpdateKind \<Rightarrow> int" where
  "UpdateKind_value Snapshot = 1"
| "UpdateKind_value Event = 2"
| "UpdateKind_value (OtherUpdateKind n) = n"

definition UpdateKind_cast :: "int \<Rightarrow> UpdateKind" where
  "UpdateKind_cast n = (if n = 1 then Snapshot else if n = 2 then Event else OtherUpdateKind n)"

record WorldUpdate =
  wu_version :: u16
  wu_kind :: UpdateKind
  wu_worldTick :: u64
  wu_sequence :: u64
  wu_eventId :: u64
  wu_payload :: string

definition isKnownUpdateKind :: "UpdateKind \<Rightarrow> bool" where
  "isKnownUpdateKind kind \<longleftrightarrow> kind = Snapshot \<or> kind = Event"

definition validateWorldUpdate :: "WorldUpdate \<Rightarrow> unit result" where
  "validateWorldUpdate update =
     (if wu_version update \<noteq> CURRENT_PROTOCOL_VERSION then Inl ''unsupported update protocol version''
      else if \<not> isKnownUpdateKind (wu_kind update) then Inl ''unknown world update kind''
      else if wu_sequence update = 0 then Inl ''world update sequence must be positive''
      else if length (wu_payload update) > MAX_UPDATE_PAYLOAD then Inl ''world update payload too large''
      else if wu_kind update = Snapshot \<and> wu_eventId update \<noteq> 0 then Inl ''snapshot must not provide an event id''
      else if wu_kind update = Event \<and> wu_eventId update = 0 then Inl ''event must provide an event id''
      else Inr ())"

subsection \<open>WorldUpdateFrameCodec\<close>

text \<open>
  The codec has its own accessors (file-local \<open>write16\<close> \<dots> \<open>read64\<close>). A \<open>static_cast<uint8_t>\<close> of the
  shifted value is \<open>ucast\<close> to 8 bits.
\<close>

definition write16 :: "u8 list \<Rightarrow> nat \<Rightarrow> u16 \<Rightarrow> u8 list" where
  "write16 output offset value = output[offset := ucast (drop_bit 8 value), offset + 1 := ucast value]"

definition write32 :: "u8 list \<Rightarrow> nat \<Rightarrow> u32 \<Rightarrow> u8 list" where
  "write32 output offset value =
     fold (\<lambda>i out. out[offset + i := ucast (drop_bit (24 - i * 8) value)]) [0..<4] output"

definition write64 :: "u8 list \<Rightarrow> nat \<Rightarrow> u64 \<Rightarrow> u8 list" where
  "write64 output offset value =
     fold (\<lambda>i out. out[offset + i := ucast (drop_bit (56 - i * 8) value)]) [0..<8] output"

definition read16 :: "u8 list \<Rightarrow> nat \<Rightarrow> u16" where
  "read16 input offset = push_bit 8 (ucast (input ! offset)) OR ucast (input ! (offset + 1))"

definition read32 :: "u8 list \<Rightarrow> nat \<Rightarrow> u32" where
  "read32 input offset =
     fold (\<lambda>i value. push_bit 8 value OR ucast (input ! (offset + i))) [0..<4] 0"

definition read64 :: "u8 list \<Rightarrow> nat \<Rightarrow> u64" where
  "read64 input offset =
     fold (\<lambda>i value. push_bit 8 value OR ucast (input ! (offset + i))) [0..<8] 0"

definition encodeWorldUpdateFrame :: "WorldUpdate \<Rightarrow> u8 list result" where
  "encodeWorldUpdateFrame update =
     (case validateWorldUpdate update of
        Inl error \<Rightarrow> Inl error
      | Inr _ \<Rightarrow>
          if length (wu_payload update) > unat (- 1 :: u32)
          then Inl ''world update payload is too large for a frame''
          else
            let frame = replicate (WORLD_UPDATE_FRAME_HEADER_SIZE + length (wu_payload update)) 0;
                frame = write16 frame 0 WORLD_UPDATE_FRAME_MAGIC;
                frame = write16 frame 2 (wu_version update);
                frame = write16 frame 4 (word_of_int (UpdateKind_value (wu_kind update)));
                frame = write16 frame 6 0;
                frame = write64 frame 8 (wu_worldTick update);
                frame = write64 frame 16 (wu_sequence update);
                frame = write64 frame 24 (wu_eventId update);
                frame = write32 frame 32 (of_nat (length (wu_payload update)))
            in Inr (store_from WORLD_UPDATE_FRAME_HEADER_SIZE (bytes_of_string (wu_payload update)) frame))"

definition decodeWorldUpdateFrame :: "u8 list \<Rightarrow> WorldUpdate result" where
  "decodeWorldUpdateFrame frame =
     (if length frame < WORLD_UPDATE_FRAME_HEADER_SIZE then Inl ''world update frame header is incomplete''
      else if read16 frame 0 \<noteq> WORLD_UPDATE_FRAME_MAGIC \<or> read16 frame 6 \<noteq> 0
      then Inl ''world update frame identity is invalid''
      else
        let payloadLength = unat (read32 frame 32) in
        if payloadLength > MAX_UPDATE_PAYLOAD \<or> length frame \<noteq> WORLD_UPDATE_FRAME_HEADER_SIZE + payloadLength
        then Inl ''world update frame length is invalid''
        else
          let update = \<lparr>wu_version = read16 frame 2, wu_kind = UpdateKind_cast (uint (read16 frame 4)),
                        wu_worldTick = read64 frame 8, wu_sequence = read64 frame 16,
                        wu_eventId = read64 frame 24,
                        wu_payload = string_of_bytes (drop WORLD_UPDATE_FRAME_HEADER_SIZE frame)\<rparr>
          in case validateWorldUpdate update of Inl error \<Rightarrow> Inl error | Inr _ \<Rightarrow> Inr update)"

subsubsection \<open>Layout\<close>

lemma upt_4: "[0..<4] = [0, 1, 2, 3 :: nat]"
  by (simp add: upt_conv_Cons)

lemma write16_be: "length zs = 2 \<Longrightarrow> write16 (pre @ zs @ post) (length pre) w = pre @ be16 w @ post"
  using list_update_run [of zs pre post] by (simp add: write16_def be16_def)

lemma write32_be: "length zs = 4 \<Longrightarrow> write32 (pre @ zs @ post) (length pre) w = pre @ be32 w @ post"
  by (auto simp: write32_def upt_4 be32_def length_Suc_conv numeral_eq_Suc list_update_append)

lemma write64_be: "length zs = 8 \<Longrightarrow> write64 (pre @ zs @ post) (length pre) w = pre @ be64 w @ post"
proof -
  assume zs: "length zs = 8"
  have "writeFrameU64 (pre @ zs @ post) (length pre) (sint w) = write64 (pre @ zs @ post) (length pre) w"
    by (simp add: writeFrameU64_def write64_def ucast_and_ff)
  then show ?thesis using write_be64 [OF zs, of pre post "sint w"] by simp
qed

lemma read16_be: "read16 (pre @ be16 w @ post) (length pre) = w"
  using read_be16 [of pre w post] by (simp add: read16_def readFrameU16_def)

lemma read32_frame: "read32 f off = readFrameU32 f off"
  by (simp add: read32_def upt_4 readFrameU32_def push_bit_or or.assoc)

lemma read64_be: "read64 (pre @ be64 w @ post) (length pre) = w"
proof -
  have "fold (\<lambda>i bits. push_bit 8 bits OR ucast ((pre @ be64 w @ post) ! (length pre + i))) [0..<8] (0 :: u64) =
      fold (\<lambda>i bits. push_bit 8 bits OR ucast (be64 w ! i)) [0..<8] 0"
    by (rule fold_cong) (auto simp: nth_append)
  then show ?thesis by (simp only: read64_def merge64)
qed

definition update_layout :: "u16 \<Rightarrow> u16 \<Rightarrow> u16 \<Rightarrow> u16 \<Rightarrow> u64 \<Rightarrow> u64 \<Rightarrow> u64 \<Rightarrow> u32 \<Rightarrow> u8 list \<Rightarrow> u8 list" where
  "update_layout magic v k z tick sq ev l rest =
     be16 magic @ be16 v @ be16 k @ be16 z @ be64 tick @ be64 sq @ be64 ev @ be32 l @ rest"

lemma length_update_layout [simp]:
  "length (update_layout magic v k z tick sq ev l rest) = WORLD_UPDATE_FRAME_HEADER_SIZE + length rest"
  by (simp add: update_layout_def)

lemma drop_update_layout [simp]:
  "drop WORLD_UPDATE_FRAME_HEADER_SIZE (update_layout magic v k z tick sq ev l rest) = rest"
  by (simp add: update_layout_def)

lemma read_update_layout [simp]:
  "read16 (update_layout magic v k z tick sq ev l rest) 0 = magic"
  "read16 (update_layout magic v k z tick sq ev l rest) 2 = v"
  "read16 (update_layout magic v k z tick sq ev l rest) 4 = k"
  "read16 (update_layout magic v k z tick sq ev l rest) 6 = z"
  "read64 (update_layout magic v k z tick sq ev l rest) 8 = tick"
  "read64 (update_layout magic v k z tick sq ev l rest) 16 = sq"
  "read64 (update_layout magic v k z tick sq ev l rest) 24 = ev"
  "read32 (update_layout magic v k z tick sq ev l rest) 32 = l"
proof -
  let ?p = "be16 magic @ be16 v @ be16 k @ be16 z"
  show "read16 (update_layout magic v k z tick sq ev l rest) 0 = magic"
    using read16_be [of "[]" magic] by (simp add: update_layout_def)
  show "read16 (update_layout magic v k z tick sq ev l rest) 2 = v"
    using read16_be [of "be16 magic" v] by (simp add: update_layout_def)
  show "read16 (update_layout magic v k z tick sq ev l rest) 4 = k"
    using read16_be [of "be16 magic @ be16 v" k] by (simp add: update_layout_def)
  show "read16 (update_layout magic v k z tick sq ev l rest) 6 = z"
    using read16_be [of "be16 magic @ be16 v @ be16 k" z] by (simp add: update_layout_def)
  show "read64 (update_layout magic v k z tick sq ev l rest) 8 = tick"
    using read64_be [of ?p tick] by (simp add: update_layout_def)
  show "read64 (update_layout magic v k z tick sq ev l rest) 16 = sq"
    using read64_be [of "?p @ be64 tick" sq] by (simp add: update_layout_def)
  show "read64 (update_layout magic v k z tick sq ev l rest) 24 = ev"
    using read64_be [of "?p @ be64 tick @ be64 sq" ev] by (simp add: update_layout_def)
  show "read32 (update_layout magic v k z tick sq ev l rest) 32 = l"
    using read_be32 [of "?p @ be64 tick @ be64 sq @ be64 ev" l] by (simp add: read32_frame update_layout_def)
qed

lemma encodeWorldUpdateFrame_layout:
  assumes "validateWorldUpdate u = Inr x"
  shows "encodeWorldUpdateFrame u =
    Inr (update_layout WORLD_UPDATE_FRAME_MAGIC (wu_version u) (word_of_int (UpdateKind_value (wu_kind u))) 0
      (wu_worldTick u) (wu_sequence u) (wu_eventId u) (of_nat (length (wu_payload u))) (bytes_of_string (wu_payload u)))"
proof -
  let ?z = "\<lambda>n. replicate n (0 :: u8)" and ?n = "length (wu_payload u)"
  let ?r3 = "?z 8 @ ?z 8 @ ?z 8 @ ?z 4 @ ?z ?n"
  have small: "\<not> ?n > unat (- 1 :: u32)"
    using assms by (auto simp: validateWorldUpdate_def unsigned_minus_1_eq_mask mask_eq_exp_minus_1 split: if_splits)
  have z: "?z (WORLD_UPDATE_FRAME_HEADER_SIZE + ?n) = ?z 2 @ ?z 2 @ ?z 2 @ ?z 2 @ ?r3"
    by (simp flip: replicate_add)
  have w1: "write16 (?z 2 @ ?z 2 @ ?z 2 @ ?z 2 @ ?r3) 0 a = be16 a @ ?z 2 @ ?z 2 @ ?z 2 @ ?r3" for a
    using write16_be [of "?z 2" "[]"] by simp
  have w2: "write16 (be16 a @ ?z 2 @ ?z 2 @ ?z 2 @ ?r3) 2 b = be16 a @ be16 b @ ?z 2 @ ?z 2 @ ?r3" for a b
    using write16_be [of "?z 2" "be16 a"] by simp
  have w3: "write16 (be16 a @ be16 b @ ?z 2 @ ?z 2 @ ?r3) 4 c = be16 a @ be16 b @ be16 c @ ?z 2 @ ?r3" for a b c
    using write16_be [of "?z 2" "be16 a @ be16 b"] by simp
  have w4: "write16 (be16 a @ be16 b @ be16 c @ ?z 2 @ ?r3) 6 d = be16 a @ be16 b @ be16 c @ be16 d @ ?r3" for a b c d
    using write16_be [of "?z 2" "be16 a @ be16 b @ be16 c"] by simp
  have w5: "write64 (be16 a @ be16 b @ be16 c @ be16 d @ ?r3) 8 t =
      be16 a @ be16 b @ be16 c @ be16 d @ be64 t @ ?z 8 @ ?z 8 @ ?z 4 @ ?z ?n" for a b c d t
    using write64_be [of "?z 8" "be16 a @ be16 b @ be16 c @ be16 d"] by simp
  have w6: "write64 (be16 a @ be16 b @ be16 c @ be16 d @ be64 t @ ?z 8 @ ?z 8 @ ?z 4 @ ?z ?n) 16 s =
      be16 a @ be16 b @ be16 c @ be16 d @ be64 t @ be64 s @ ?z 8 @ ?z 4 @ ?z ?n" for a b c d t s
    using write64_be [of "?z 8" "be16 a @ be16 b @ be16 c @ be16 d @ be64 t"] by simp
  have w7: "write64 (be16 a @ be16 b @ be16 c @ be16 d @ be64 t @ be64 s @ ?z 8 @ ?z 4 @ ?z ?n) 24 e =
      be16 a @ be16 b @ be16 c @ be16 d @ be64 t @ be64 s @ be64 e @ ?z 4 @ ?z ?n" for a b c d t s e
    using write64_be [of "?z 8" "be16 a @ be16 b @ be16 c @ be16 d @ be64 t @ be64 s"] by simp
  have w8: "write32 (be16 a @ be16 b @ be16 c @ be16 d @ be64 t @ be64 s @ be64 e @ ?z 4 @ ?z ?n) 32 l =
      be16 a @ be16 b @ be16 c @ be16 d @ be64 t @ be64 s @ be64 e @ be32 l @ ?z ?n" for a b c d t s e l
    using write32_be [of "?z 4" "be16 a @ be16 b @ be16 c @ be16 d @ be64 t @ be64 s @ be64 e"] by simp
  have w9: "store_from WORLD_UPDATE_FRAME_HEADER_SIZE (bytes_of_string (wu_payload u))
        (be16 a @ be16 b @ be16 c @ be16 d @ be64 t @ be64 s @ be64 e @ be32 l @ ?z ?n) =
      be16 a @ be16 b @ be16 c @ be16 d @ be64 t @ be64 s @ be64 e @ be32 l @ bytes_of_string (wu_payload u)"
    for a b c d t s e l
    using store_from_append [of "?z ?n" "bytes_of_string (wu_payload u)"
        "be16 a @ be16 b @ be16 c @ be16 d @ be64 t @ be64 s @ be64 e @ be32 l"] by simp
  show ?thesis
    by (simp only: encodeWorldUpdateFrame_def assms sum.case small if_False Let_def z w1 w2 w3 w4 w5 w6 w7 w8 w9
        update_layout_def)
qed

lemma update_layoutE:
  assumes "WORLD_UPDATE_FRAME_HEADER_SIZE \<le> length f"
  obtains magic v k z tick sq ev l where
    "f = update_layout magic v k z tick sq ev l (drop WORLD_UPDATE_FRAME_HEADER_SIZE f)"
proof -
  obtain magic where 1: "f = be16 magic @ drop 2 f" using be16_take [of f] assms by auto
  obtain v where 2: "drop 2 f = be16 v @ drop 4 f" using be_at(1) [of 2 f] assms by auto
  obtain k where 3: "drop 4 f = be16 k @ drop 6 f" using be_at(1) [of 4 f] assms by auto
  obtain z where 4: "drop 6 f = be16 z @ drop 8 f" using be_at(1) [of 6 f] assms by auto
  obtain tick where 5: "drop 8 f = be64 tick @ drop 16 f" using be_at(3) [of 8 f] assms by auto
  obtain sq where 6: "drop 16 f = be64 sq @ drop 24 f" using be_at(3) [of 16 f] assms by auto
  obtain ev where 7: "drop 24 f = be64 ev @ drop 32 f" using be_at(3) [of 24 f] assms by auto
  obtain l where 8: "drop 32 f = be32 l @ drop WORLD_UPDATE_FRAME_HEADER_SIZE f"
    using be_at(2) [of 32 f] assms by auto
  have "f = update_layout magic v k z tick sq ev l (drop WORLD_UPDATE_FRAME_HEADER_SIZE f)"
    unfolding update_layout_def using 1 2 3 4 5 6 7 8 by simp
  then show ?thesis by (rule that)
qed

subsubsection \<open>Round trips\<close>

lemma UpdateKind_value_cast [simp]: "UpdateKind_value (UpdateKind_cast n) = n"
  by (simp add: UpdateKind_cast_def)

lemma decodeWorldUpdate_encode:
  assumes "encodeWorldUpdateFrame u = Inr f"
  shows "decodeWorldUpdateFrame f = Inr u"
proof -
  obtain x where v: "validateWorldUpdate u = Inr x"
    using assms by (auto simp: encodeWorldUpdateFrame_def split: sum.splits)
  note f = encodeWorldUpdateFrame_layout [OF v, unfolded assms, simplified]
  have len: "length (wu_payload u) \<le> MAX_UPDATE_PAYLOAD"
    and kind: "UpdateKind_cast (uint (word_of_int (UpdateKind_value (wu_kind u)) :: u16)) = wu_kind u"
    using v by (auto simp: validateWorldUpdate_def isKnownUpdateKind_def UpdateKind_cast_def split: if_splits)
  have eta: "\<lparr>wu_version = wu_version u, wu_kind = wu_kind u, wu_worldTick = wu_worldTick u,
      wu_sequence = wu_sequence u, wu_eventId = wu_eventId u, wu_payload = wu_payload u\<rparr> = u" by simp
  show ?thesis
    using len v by (simp add: decodeWorldUpdateFrame_def f unat_of_nat_payload kind eta Let_def)
qed

lemma encodeWorldUpdate_decode:
  assumes "decodeWorldUpdateFrame f = Inr u"
  shows "encodeWorldUpdateFrame u = Inr f"
proof -
  have "WORLD_UPDATE_FRAME_HEADER_SIZE \<le> length f"
    using assms by (simp add: decodeWorldUpdateFrame_def split: if_splits)
  then obtain magic v k z tick sq ev l where
    f: "f = update_layout magic v k z tick sq ev l (drop WORLD_UPDATE_FRAME_HEADER_SIZE f)" by (rule update_layoutE)
  have rd: "read16 f 0 = magic" "read16 f 2 = v" "read16 f 4 = k" "read16 f 6 = z" "read64 f 8 = tick"
    "read64 f 16 = sq" "read64 f 24 = ev" "read32 f 32 = l"
    by (subst f, simp)+
  have len: "length f = WORLD_UPDATE_FRAME_HEADER_SIZE + unat l" and val: "validateWorldUpdate u = Inr ()"
    and id: "magic = WORLD_UPDATE_FRAME_MAGIC" "z = 0"
    and u: "u = \<lparr>wu_version = v, wu_kind = UpdateKind_cast (uint k), wu_worldTick = tick, wu_sequence = sq,
        wu_eventId = ev, wu_payload = string_of_bytes (drop WORLD_UPDATE_FRAME_HEADER_SIZE f)\<rparr>"
    using assms by (auto simp: decodeWorldUpdateFrame_def rd Let_def split: if_splits sum.splits)
  have l: "of_nat (length f - WORLD_UPDATE_FRAME_HEADER_SIZE) = l" by (simp add: len)
  have "encodeWorldUpdateFrame u = Inr (update_layout magic v k z tick sq ev l (drop WORLD_UPDATE_FRAME_HEADER_SIZE f))"
    unfolding encodeWorldUpdateFrame_layout [OF val] by (simp add: u id l)
  then show ?thesis using f by simp
qed

definition update_payload_length :: "u8 list \<Rightarrow> nat" where
  "update_payload_length f = unat (readFrameU32 f 32)"

interpretation update_codec: frame_codec "\<lambda>_. True" encodeWorldUpdateFrame decodeWorldUpdateFrame
  WORLD_UPDATE_FRAME_HEADER_SIZE MAX_UPDATE_PAYLOAD update_payload_length
proof unfold_locales
  fix f :: "u8 list" and u rest
  show "encodeWorldUpdateFrame u = Inr f \<Longrightarrow> decodeWorldUpdateFrame f = Inr u"
    by (rule decodeWorldUpdate_encode)
  show "decodeWorldUpdateFrame f = Inr u \<Longrightarrow> encodeWorldUpdateFrame u = Inr f \<and> True"
    by (simp add: encodeWorldUpdate_decode)
  show "decodeWorldUpdateFrame f = Inr u \<Longrightarrow> WORLD_UPDATE_FRAME_HEADER_SIZE \<le> length f \<and>
      length f = WORLD_UPDATE_FRAME_HEADER_SIZE + update_payload_length f \<and>
      update_payload_length f \<le> MAX_UPDATE_PAYLOAD"
    by (auto simp: decodeWorldUpdateFrame_def update_payload_length_def read32_frame Let_def split: if_splits)
  show "WORLD_UPDATE_FRAME_HEADER_SIZE \<le> length f \<Longrightarrow>
      update_payload_length (f @ rest) = update_payload_length f"
    by (simp add: update_payload_length_def read_prefix)
qed simp

subsection \<open>WorldUpdateAccumulator\<close>

record WorldUpdateAccumulator =
  wa_buffered :: "u8 list"
  wa_failed :: bool

definition WorldUpdateAccumulator_init :: WorldUpdateAccumulator where
  "WorldUpdateAccumulator_init = \<lparr>wa_buffered = [], wa_failed = False\<rparr>"

function WorldUpdateAccumulator_loop :: "u8 list \<Rightarrow> WorldUpdate list \<Rightarrow>
    u8 list \<times> WorldUpdate list \<times> string option" where
  "WorldUpdateAccumulator_loop buf updates =
     (if length buf < WORLD_UPDATE_FRAME_HEADER_SIZE then (buf, updates, None)
      else
        let payloadLength = unat (push_bit 24 (ucast (buf ! 32)) OR push_bit 16 (ucast (buf ! 33)) OR
              push_bit 8 (ucast (buf ! 34)) OR ucast (buf ! 35) :: u32) in
        if payloadLength > MAX_UPDATE_PAYLOAD
        then (buf, updates, Some ''world update stream payload exceeds maximum size'')
        else
          let frameSize = WORLD_UPDATE_FRAME_HEADER_SIZE + payloadLength in
          if length buf < frameSize then (buf, updates, None)
          else
            let complete = take frameSize buf; rest = drop frameSize buf in
            case decodeWorldUpdateFrame complete of
              Inl error \<Rightarrow> (rest, updates, Some error)
            | Inr update \<Rightarrow> WorldUpdateAccumulator_loop rest (updates @ [update]))"
  by pat_completeness auto
termination
  by (relation "measure (\<lambda>(buf, updates). length buf)") auto

declare WorldUpdateAccumulator_loop.simps [simp del]

definition WorldUpdateAccumulator_append :: "WorldUpdateAccumulator \<Rightarrow> u8 list \<Rightarrow>
    WorldUpdateAccumulator \<times> WorldUpdate list \<times> string option" where
  "WorldUpdateAccumulator_append acc bytes =
     (if wa_failed acc then (acc, [], Some ''world update accumulator is failed'')
      else if length bytes > size_sub (WORLD_UPDATE_FRAME_HEADER_SIZE + MAX_UPDATE_PAYLOAD) (length (wa_buffered acc))
      then (acc\<lparr>wa_failed := True\<rparr>, [], Some ''world update stream frame exceeds maximum size'')
      else
        case WorldUpdateAccumulator_loop (wa_buffered acc @ bytes) [] of
          (buf, updates, r) \<Rightarrow> (acc\<lparr>wa_buffered := buf, wa_failed := (r \<noteq> None)\<rparr>, updates, r))"

definition WorldUpdateAccumulator_reset :: "WorldUpdateAccumulator \<Rightarrow> WorldUpdateAccumulator" where
  "WorldUpdateAccumulator_reset acc = acc\<lparr>wa_buffered := [], wa_failed := False\<rparr>"

lemma update_length_field:
  "unat (push_bit 24 (ucast (buf ! 32)) OR push_bit 16 (ucast (buf ! 33)) OR
     push_bit 8 (ucast (buf ! 34)) OR ucast (buf ! 35) :: u32) = update_payload_length buf"
  by (simp add: update_payload_length_def readFrameU32_def)

interpretation update_stream: stream_accumulator "\<lambda>_. True" encodeWorldUpdateFrame decodeWorldUpdateFrame
  WORLD_UPDATE_FRAME_HEADER_SIZE MAX_UPDATE_PAYLOAD update_payload_length
  "''world update stream payload exceeds maximum size''" WorldUpdateAccumulator_loop
  wa_buffered wa_failed WorldUpdateAccumulator.make WorldUpdateAccumulator_append
  "''world update accumulator is failed''" "''world update stream frame exceeds maximum size''"
proof unfold_locales
  fix buf :: "u8 list" and ms e m
  show "length buf < WORLD_UPDATE_FRAME_HEADER_SIZE \<Longrightarrow> WorldUpdateAccumulator_loop buf ms = (buf, ms, None)"
    by (subst WorldUpdateAccumulator_loop.simps) simp
  assume h: "WORLD_UPDATE_FRAME_HEADER_SIZE \<le> length buf"
  show "MAX_UPDATE_PAYLOAD < update_payload_length buf \<Longrightarrow>
      WorldUpdateAccumulator_loop buf ms = (buf, ms, Some ''world update stream payload exceeds maximum size'')"
    using h by (subst WorldUpdateAccumulator_loop.simps) (simp only: update_length_field, simp)
  assume p: "update_payload_length buf \<le> MAX_UPDATE_PAYLOAD"
  show "length buf < WORLD_UPDATE_FRAME_HEADER_SIZE + update_payload_length buf \<Longrightarrow>
      WorldUpdateAccumulator_loop buf ms = (buf, ms, None)"
    using h p by (subst WorldUpdateAccumulator_loop.simps) (simp only: update_length_field, simp)
  assume l: "WORLD_UPDATE_FRAME_HEADER_SIZE + update_payload_length buf \<le> length buf"
  show "decodeWorldUpdateFrame (take (WORLD_UPDATE_FRAME_HEADER_SIZE + update_payload_length buf) buf) = Inl e \<Longrightarrow>
      WorldUpdateAccumulator_loop buf ms =
        (drop (WORLD_UPDATE_FRAME_HEADER_SIZE + update_payload_length buf) buf, ms, Some e)"
    using h p l by (subst WorldUpdateAccumulator_loop.simps) (simp only: update_length_field Let_def, simp)
  show "decodeWorldUpdateFrame (take (WORLD_UPDATE_FRAME_HEADER_SIZE + update_payload_length buf) buf) = Inr m \<Longrightarrow>
      WorldUpdateAccumulator_loop buf ms =
        WorldUpdateAccumulator_loop (drop (WORLD_UPDATE_FRAME_HEADER_SIZE + update_payload_length buf) buf) (ms @ [m])"
    using h p l by (subst WorldUpdateAccumulator_loop.simps) (simp only: update_length_field Let_def, simp)
next
  fix s :: WorldUpdateAccumulator and bytes b' ms r b fl
  show "wa_buffered (WorldUpdateAccumulator.make b fl) = b" "wa_failed (WorldUpdateAccumulator.make b fl) = fl"
    "WorldUpdateAccumulator.make (wa_buffered s) (wa_failed s) = s"
    by (simp_all add: WorldUpdateAccumulator.make_def)
  show "wa_failed s \<Longrightarrow> WorldUpdateAccumulator_append s bytes = (s, [], Some ''world update accumulator is failed'')"
    by (simp add: WorldUpdateAccumulator_append_def)
  assume f: "\<not> wa_failed s"
  show "size_sub (WORLD_UPDATE_FRAME_HEADER_SIZE + MAX_UPDATE_PAYLOAD) (length (wa_buffered s)) < length bytes \<Longrightarrow>
      WorldUpdateAccumulator_append s bytes =
        (WorldUpdateAccumulator.make (wa_buffered s) True, [], Some ''world update stream frame exceeds maximum size'')"
    using f by (simp add: WorldUpdateAccumulator_append_def WorldUpdateAccumulator.make_def)
  show "length bytes \<le> size_sub (WORLD_UPDATE_FRAME_HEADER_SIZE + MAX_UPDATE_PAYLOAD) (length (wa_buffered s)) \<Longrightarrow>
      WorldUpdateAccumulator_loop (wa_buffered s @ bytes) [] = (b', ms, r) \<Longrightarrow>
      WorldUpdateAccumulator_append s bytes = (WorldUpdateAccumulator.make b' (r \<noteq> None), ms, r)"
    using f by (simp add: WorldUpdateAccumulator_append_def WorldUpdateAccumulator.make_def)
qed

subsection \<open>WorldUpdateSequenceTracker\<close>

datatype UpdateSequenceStatus = SeqAccepted | SeqDuplicate | SeqGap | SeqInvalid

record SequenceTracker =
  hasSequence :: bool
  expectedSequence :: u64

definition SequenceTracker_init :: SequenceTracker where
  "SequenceTracker_init = \<lparr>hasSequence = False, expectedSequence = 1\<rparr>"

text \<open>
  \<open>accept\<close> returns the new tracker, the status and, for every status but \<open>Accepted\<close>, the message.
  (On the first accepted update the code leaves the caller's message as it was; it is fresh and
  empty at the only call.)
\<close>

definition SequenceTracker_accept :: "SequenceTracker \<Rightarrow> WorldUpdate \<Rightarrow>
    SequenceTracker \<times> UpdateSequenceStatus \<times> string" where
  "SequenceTracker_accept tracker update =
     (case validateWorldUpdate update of
        Inl error \<Rightarrow> (tracker, SeqInvalid, error)
      | Inr _ \<Rightarrow>
          if wu_sequence update = UINT64_MAX
          then (tracker, SeqInvalid, ''world update sequence cannot be incremented'')
          else if \<not> hasSequence tracker then
            (if wu_kind update = Event \<and> wu_sequence update \<noteq> expectedSequence tracker then
               (if wu_sequence update > expectedSequence tracker
                then (tracker, SeqGap, ''world update sequence gap detected'')
                else (tracker, SeqDuplicate, ''world update sequence is a duplicate or stale''))
             else (tracker\<lparr>hasSequence := True, expectedSequence := wu_sequence update + 1\<rparr>, SeqAccepted, []))
          else if wu_sequence update < expectedSequence tracker
          then (tracker, SeqDuplicate, ''world update sequence is a duplicate or stale'')
          else if wu_sequence update > expectedSequence tracker
          then (tracker, SeqGap, ''world update sequence gap detected'')
          else (tracker\<lparr>expectedSequence := expectedSequence tracker + 1\<rparr>, SeqAccepted, []))"

definition SequenceTracker_resetAfterSnapshot :: "SequenceTracker \<Rightarrow> u64 \<Rightarrow> SequenceTracker" where
  "SequenceTracker_resetAfterSnapshot tracker sequence =
     tracker\<lparr>hasSequence := True, expectedSequence := sequence + 1\<rparr>"

subsection \<open>WorldUpdateSyncController\<close>

datatype SyncDecision = Apply | IgnoreDuplicate | SyncRequestSnapshot | Reject

record SyncResult =
  sr_decision :: SyncDecision
  sr_expectedSequence :: u64
  sr_error :: string

definition SyncController_receive :: "SequenceTracker \<Rightarrow> WorldUpdate \<Rightarrow> SequenceTracker \<times> SyncResult" where
  "SyncController_receive tracker update =
     (case SequenceTracker_accept tracker update of (tracker', status, error) \<Rightarrow>
        let decision = (case status of SeqAccepted \<Rightarrow> Apply | SeqDuplicate \<Rightarrow> IgnoreDuplicate
                          | SeqGap \<Rightarrow> SyncRequestSnapshot | SeqInvalid \<Rightarrow> Reject)
        in (tracker', \<lparr>sr_decision = decision, sr_expectedSequence = expectedSequence tracker', sr_error = error\<rparr>))"

definition SyncController_confirmSnapshot :: "SequenceTracker \<Rightarrow> u64 \<Rightarrow> SequenceTracker" where
  "SyncController_confirmSnapshot tracker sequence = SequenceTracker_resetAfterSnapshot tracker sequence"

subsubsection \<open>Runs of the sync controller\<close>

text \<open>The updates a client applies out of a stream of received updates, in order.\<close>

fun sync_applied :: "SequenceTracker \<Rightarrow> WorldUpdate list \<Rightarrow> WorldUpdate list" where
  "sync_applied tracker [] = []"
| "sync_applied tracker (u # us) =
     (case SyncController_receive tracker u of (tracker', r) \<Rightarrow>
        if sr_decision r = Apply then u # sync_applied tracker' us else sync_applied tracker' us)"

lemma accept_result:
  "SequenceTracker_accept t u = (t', st, e) \<Longrightarrow>
     st = SeqAccepted \<and> e = [] \<and> hasSequence t' \<and> expectedSequence t' = wu_sequence u + 1 \<and>
       wu_sequence u \<noteq> UINT64_MAX \<and> validateWorldUpdate u = Inr () \<and>
       (hasSequence t \<longrightarrow> wu_sequence u = expectedSequence t) \<or>
     st \<noteq> SeqAccepted \<and> t' = t"
  by (auto simp: SequenceTracker_accept_def not_less_iff_gr_or_eq split: sum.splits if_splits)

lemma receive_cases:
  obtains (applied) t' r where "SyncController_receive t u = (t', r)" "sr_decision r = Apply" "hasSequence t'"
      "expectedSequence t' = wu_sequence u + 1" "wu_sequence u \<noteq> UINT64_MAX"
      "hasSequence t \<longrightarrow> wu_sequence u = expectedSequence t"
  | (refused) r where "SyncController_receive t u = (t, r)" "sr_decision r \<noteq> Apply"
proof -
  obtain t' st e where r: "SequenceTracker_accept t u = (t', st, e)" by (metis prod_cases3)
  show ?thesis
    using accept_result [OF r] that(1) [of t' "snd (SyncController_receive t u)"]
      that(2) [of "snd (SyncController_receive t u)"]
    by (cases st) (auto simp: SyncController_receive_def r)
qed

lemma sync_applied_from:
  "hasSequence t \<Longrightarrow> map (unat \<circ> wu_sequence) (sync_applied t us) =
     [unat (expectedSequence t) ..< unat (expectedSequence t) + length (sync_applied t us)]"
proof (induction us arbitrary: t)
  case Nil
  then show ?case by simp
next
  case (Cons u us)
  show ?case
  proof (rule receive_cases [of t u])
    fix t' r
    assume a: "SyncController_receive t u = (t', r)" "sr_decision r = Apply" "hasSequence t'"
      "expectedSequence t' = wu_sequence u + 1" "wu_sequence u \<noteq> UINT64_MAX"
      "hasSequence t \<longrightarrow> wu_sequence u = expectedSequence t"
    have "unat (expectedSequence t') = Suc (unat (expectedSequence t))"
      using a(4-6) Cons.prems by (simp add: u64_Suc_unat)
    then show ?thesis using Cons.IH [OF a(3)] a Cons.prems by (simp add: upt_run del: upt_Suc)
  next
    fix r
    assume "SyncController_receive t u = (t, r)" "sr_decision r \<noteq> Apply"
    then show ?thesis using Cons.IH [OF Cons.prems] by simp
  qed
qed

text \<open>
  Property C18. Whatever updates arrive, in whatever order and with whatever repetitions, the updates
  that the sync controller lets a client apply carry consecutive sequence numbers: none is skipped,
  repeated or applied out of order.
\<close>

theorem sync_applied_consecutive:
  "\<exists>n. map (unat \<circ> wu_sequence) (sync_applied t us) = [n ..< n + length (sync_applied t us)]"
proof (cases "hasSequence t")
  case True
  then show ?thesis using sync_applied_from by blast
next
  case False
  then show ?thesis
  proof (induction us)
    case Nil
    then show ?case by simp
  next
    case (Cons u us)
    show ?case
    proof (rule receive_cases [of t u])
      fix t' r
      assume a: "SyncController_receive t u = (t', r)" "sr_decision r = Apply" "hasSequence t'"
        "expectedSequence t' = wu_sequence u + 1" "wu_sequence u \<noteq> UINT64_MAX"
      have "map (unat \<circ> wu_sequence) (sync_applied t (u # us)) =
          [unat (wu_sequence u) ..< unat (wu_sequence u) + length (sync_applied t (u # us))]"
        using sync_applied_from [OF a(3), of us] a by (simp add: upt_run u64_Suc_unat del: upt_Suc)
      then show ?thesis by blast
    next
      fix r
      assume "SyncController_receive t u = (t, r)" "sr_decision r \<noteq> Apply"
      then show ?thesis using Cons by simp
    qed
  qed
qed

lemma sync_stream:
  assumes "hasSequence t" and "\<forall>u \<in> set us. validateWorldUpdate u = Inr () \<and> wu_sequence u \<noteq> UINT64_MAX"
    and "\<forall>i < length us. wu_sequence (us ! i) = expectedSequence t + of_nat i"
  shows "sync_applied t us = us"
  using assms
proof (induction us arbitrary: t)
  case Nil
  then show ?case by simp
next
  case (Cons u us)
  let ?t' = "t\<lparr>expectedSequence := expectedSequence t + 1\<rparr>"
  have u: "wu_sequence u = expectedSequence t" using Cons.prems(3) by force
  have step: "SyncController_receive t u =
      (?t', \<lparr>sr_decision = Apply, sr_expectedSequence = expectedSequence t + 1, sr_error = []\<rparr>)"
    using Cons.prems u by (simp add: SyncController_receive_def SequenceTracker_accept_def)
  have "sync_applied ?t' us = us"
  proof (rule Cons.IH)
    show "\<forall>i < length us. wu_sequence (us ! i) = expectedSequence ?t' + of_nat i"
    proof (intro allI impI)
      fix i assume "i < length us"
      with Cons.prems(3) have "wu_sequence ((u # us) ! Suc i) = expectedSequence t + of_nat (Suc i)"
        by (metis Suc_less_eq length_Cons)
      then show "wu_sequence (us ! i) = expectedSequence ?t' + of_nat i" by (simp add: ac_simps)
    qed
  qed (use Cons.prems in auto)
  then show ?case by (simp add: step)
qed

text \<open>
  Nothing is lost either: a tracker that expects sequence \<open>n\<close> applies every update of a
  valid stream numbered \<open>n, n + 1, \<dots>\<close>, and then expects the number after the last one.
\<close>

theorem sync_applies_whole_stream:
  assumes "hasSequence t" and "\<forall>u \<in> set us. validateWorldUpdate u = Inr () \<and> wu_sequence u \<noteq> UINT64_MAX"
    and "\<forall>i < length us. wu_sequence (us ! i) = expectedSequence t + of_nat i"
  shows "sync_applied t us = us"
  using assms by (rule sync_stream)

definition sample_event :: "u64 \<Rightarrow> WorldUpdate" where
  "sample_event n = \<lparr>wu_version = 1, wu_kind = Event, wu_worldTick = 9, wu_sequence = n, wu_eventId = 3,
     wu_payload = ''chat''\<rparr>"

theorem sync_applies_whole_stream_witness:
  "sync_applied \<lparr>hasSequence = True, expectedSequence = 7\<rparr> [sample_event 7, sample_event 8] =
     [sample_event 7, sample_event 8]"
proof -
  have v: "validateWorldUpdate (sample_event n) = Inr ()" if "n \<noteq> 0" for n
    using that by (simp add: validateWorldUpdate_def sample_event_def isKnownUpdateKind_def)
  show ?thesis
    by (rule sync_applies_whole_stream)
      (auto simp: v sample_event_def [of 7, THEN arg_cong [where f = wu_sequence]]
        sample_event_def [of 8, THEN arg_cong [where f = wu_sequence]] less_Suc_eq nth_Cons split: nat.splits)
qed

text \<open>
  Every world update that validates survives the wire: encoding succeeds, the frame is
  36 bytes plus the payload, and decoding returns the same update; and a frame is accepted by the
  decoder only if it is the encoding of the update it decodes to.
\<close>

theorem world_update_roundtrip:
  "(validateWorldUpdate u = Inr () \<longrightarrow>
     (\<exists>f. encodeWorldUpdateFrame u = Inr f \<and> length f = WORLD_UPDATE_FRAME_HEADER_SIZE + length (wu_payload u) \<and>
        decodeWorldUpdateFrame f = Inr u)) \<and>
   (decodeWorldUpdateFrame g = Inr u \<longrightarrow> encodeWorldUpdateFrame u = Inr g)"
  using encodeWorldUpdateFrame_layout [of u] decodeWorldUpdate_encode [of u] encodeWorldUpdate_decode [of g u]
  by auto

theorem world_update_roundtrip_witness:
  "\<exists>f. encodeWorldUpdateFrame (sample_event 7) = Inr f \<and> length f = 40 \<and>
     decodeWorldUpdateFrame f = Inr (sample_event 7)"
proof -
  have "validateWorldUpdate (sample_event 7) = Inr ()"
    by (simp add: validateWorldUpdate_def sample_event_def isKnownUpdateKind_def)
  then show ?thesis using world_update_roundtrip [of "sample_event 7"] by (simp add: sample_event_def)
qed

end
