(* ===== verification/Client_Session.thy ===== *)
theory Client_Session
  imports World_Update
begin

text \<open>
  The per-connection transport state of the server: \<open>OutboundFrameQueue\<close> and \<open>ClientSession\<close>. The
  kernel is outside the program: what \<open>recv\<close> and \<open>send\<close> return is an argument of the operations (for
  the sending loop, a function giving the outcome of its \<open>i\<close>-th call on a buffer of a given size), and the bytes a successful
  \<open>send\<close> takes are an output of the model, so that the order on the wire can be stated.
\<close>

subsection \<open>OutboundFrameQueue\<close>

abbreviation MAX_OUTBOUND_FRAMES :: nat where "MAX_OUTBOUND_FRAMES \<equiv> 256"
abbreviation MAX_OUTBOUND_FRAME_SIZE :: nat where "MAX_OUTBOUND_FRAME_SIZE \<equiv> FRAME_HEADER_SIZE + 16384"

type_synonym OutboundFrameQueue = "u8 list list"

definition OutboundFrameQueue_enqueue :: "OutboundFrameQueue \<Rightarrow> u8 list \<Rightarrow> OutboundFrameQueue result" where
  "OutboundFrameQueue_enqueue frames frame =
     (if length frame < FRAME_HEADER_SIZE \<or> length frame > MAX_OUTBOUND_FRAME_SIZE
      then Inl ''outbound frame size is invalid''
      else if length frames \<ge> MAX_OUTBOUND_FRAMES then Inl ''outbound frame queue is full''
      else Inr (frames @ [frame]))"

fun OutboundFrameQueue_front :: "OutboundFrameQueue \<Rightarrow> u8 list option" where
  "OutboundFrameQueue_front [] = None"
| "OutboundFrameQueue_front (frame # frames) = Some frame"

text \<open>\<open>None\<close> is the result \<open>false\<close>, which leaves the queue alone.\<close>

fun OutboundFrameQueue_consumeFront :: "OutboundFrameQueue \<Rightarrow> nat \<Rightarrow> OutboundFrameQueue option" where
  "OutboundFrameQueue_consumeFront [] bytes = None"
| "OutboundFrameQueue_consumeFront (frame # frames) bytes =
     (if bytes > length frame then None
      else if bytes = length frame then Some frames
      else Some (drop bytes frame # frames))"

definition OutboundFrameQueue_pop :: "OutboundFrameQueue \<Rightarrow> (u8 list \<times> OutboundFrameQueue) option" where
  "OutboundFrameQueue_pop frames =
     (case OutboundFrameQueue_front frames of
        None \<Rightarrow> None
      | Some frame \<Rightarrow> map_option (Pair frame) (OutboundFrameQueue_consumeFront frames (length frame)))"

definition outbound_wf :: "OutboundFrameQueue \<Rightarrow> bool" where
  "outbound_wf frames \<longleftrightarrow> length frames \<le> MAX_OUTBOUND_FRAMES \<and>
     list_all (\<lambda>f. f \<noteq> [] \<and> length f \<le> MAX_OUTBOUND_FRAME_SIZE) frames"

lemma enqueue_wf: "outbound_wf q \<Longrightarrow> OutboundFrameQueue_enqueue q f = Inr q' \<Longrightarrow> outbound_wf q'"
  by (auto simp: OutboundFrameQueue_enqueue_def outbound_wf_def split: if_splits)

lemma consumeFront_wf: "outbound_wf q \<Longrightarrow> OutboundFrameQueue_consumeFront q n = Some q' \<Longrightarrow> outbound_wf q'"
  by (cases q) (auto simp: outbound_wf_def split: if_splits)

lemma consumeFront_bytes:
  "OutboundFrameQueue_consumeFront q n = Some q' \<Longrightarrow> take n (concat q) @ concat q' = concat q"
  by (cases q) (auto split: if_splits)

lemma consumeFront_front:
  "OutboundFrameQueue_consumeFront q n = Some q' \<Longrightarrow> \<exists>f. OutboundFrameQueue_front q = Some f \<and> n \<le> length f \<and>
     take n f @ concat q' = concat q"
  by (cases q) (auto split: if_splits)

text \<open>The work that is left in a queue: every successful step of the sending loop decreases it.\<close>

definition outbound_work :: "OutboundFrameQueue \<Rightarrow> nat" where
  "outbound_work q = length (concat q) + length q"

lemma consumeFront_work:
  "OutboundFrameQueue_consumeFront q n = Some q' \<Longrightarrow> 0 < n \<Longrightarrow> outbound_work q' < outbound_work q"
  by (cases q) (auto simp: outbound_work_def split: if_splits)

subsection \<open>ClientSession\<close>

datatype errno = EAGAIN | EWOULDBLOCK | EINTR | ECONNRESET | EPIPE | OtherErrno int

datatype RecvOutcome = RecvBytes "u8 list" | RecvEof | RecvError errno
datatype SendOutcome = SendBytes nat | SendError errno

datatype ReceiveStatus = RecvCommands | RecvNoData | RecvClosed | RecvFailed
datatype SendStatus = Sent | SendNoData | SendClosed | SendFailed

record ClientSession =
  cs_clientSocket :: int
  cs_closeAfterFlush :: bool
  cs_accumulator :: FrameAccumulator
  cs_outboundFrames :: OutboundFrameQueue

text \<open>The constructor; \<open>nonblocking\<close> is whether both \<open>fcntl\<close> calls succeeded.\<close>

definition ClientSession_new :: "bool \<Rightarrow> int \<Rightarrow> ClientSession" where
  "ClientSession_new nonblocking clientSocket =
     \<lparr>cs_clientSocket = (if clientSocket < 0 then clientSocket else if nonblocking then clientSocket else - 1),
      cs_closeAfterFlush = False, cs_accumulator = FrameAccumulator_init, cs_outboundFrames = []\<rparr>"

definition ClientSession_isOpen :: "ClientSession \<Rightarrow> bool" where
  "ClientSession_isOpen session \<longleftrightarrow> cs_clientSocket session \<ge> 0"

definition ClientSession_close :: "ClientSession \<Rightarrow> ClientSession" where
  "ClientSession_close session =
     (if cs_clientSocket session < 0 then session
      else session\<lparr>cs_clientSocket := - 1, cs_closeAfterFlush := False\<rparr>)"

definition ClientSession_requestCloseAfterFlush :: "ClientSession \<Rightarrow> ClientSession" where
  "ClientSession_requestCloseAfterFlush session = session\<lparr>cs_closeAfterFlush := True\<rparr>"

definition ClientSession_enqueueFrame :: "ClientSession \<Rightarrow> u8 list \<Rightarrow> ClientSession result" where
  "ClientSession_enqueueFrame session frame =
     (if \<not> ClientSession_isOpen session then Inl ''client session is closed''
      else case OutboundFrameQueue_enqueue (cs_outboundFrames session) frame of
        Inl error \<Rightarrow> Inl error
      | Inr frames \<Rightarrow> Inr (session\<lparr>cs_outboundFrames := frames\<rparr>))"

text \<open>\<open>receive\<close>: the commands of a failed call are dropped by every caller, so a failure returns none.\<close>

definition ClientSession_receive :: "RecvOutcome \<Rightarrow> ClientSession \<Rightarrow>
    ClientSession \<times> ReceiveStatus \<times> NetworkCommand list \<times> string option" where
  "ClientSession_receive outcome session =
     (if cs_clientSocket session < 0 then (session, RecvClosed, [], Some ''client session is closed'')
      else case outcome of
        RecvEof \<Rightarrow> (ClientSession_close session, RecvClosed, [], None)
      | RecvError e \<Rightarrow>
          if e = EAGAIN \<or> e = EWOULDBLOCK \<or> e = EINTR then (session, RecvNoData, [], None)
          else if e = ECONNRESET \<or> e = EPIPE then (ClientSession_close session, RecvClosed, [], None)
          else (ClientSession_close session, RecvFailed, [], Some ''client socket read failed'')
      | RecvBytes bytes \<Rightarrow>
          (case FrameAccumulator_append (cs_accumulator session) bytes of
             (acc, commands, Some error) \<Rightarrow>
               (ClientSession_close (session\<lparr>cs_accumulator := acc\<rparr>), RecvFailed, [], Some error)
           | (acc, commands, None) \<Rightarrow>
               (session\<lparr>cs_accumulator := acc\<rparr>, if commands = [] then RecvNoData else RecvCommands, commands, None)))"

text \<open>
  The \<open>for (;;)\<close> loop of \<open>flushOutbound\<close>: \<open>net i k\<close> is the outcome of the \<open>i\<close>-th \<open>send\<close>, of \<open>k\<close> bytes; \<open>wire\<close> the bytes
  taken so far, \<open>prev\<close> the variable \<open>last\<close>.
\<close>

definition idle_status :: "SendStatus \<Rightarrow> SendStatus" where
  "idle_status prev = (if prev = Sent then Sent else SendNoData)"

function flush_loop :: "(nat \<Rightarrow> nat \<Rightarrow> SendOutcome) \<Rightarrow> nat \<Rightarrow> u8 list \<Rightarrow> SendStatus \<Rightarrow> ClientSession \<Rightarrow>
    ClientSession \<times> SendStatus \<times> u8 list \<times> string option" where
  "flush_loop net i wire prev session =
     (if \<not> ClientSession_isOpen session then (session, SendClosed, wire, Some ''client session is closed'')
      else
        (case OutboundFrameQueue_front (cs_outboundFrames session) of
           None \<Rightarrow>
             (if cs_closeAfterFlush session
              then (ClientSession_close session, if prev = Sent then Sent else SendClosed, wire, None)
              else (session, idle_status prev, wire, None))
         | Some frame \<Rightarrow>
             (case net i (length frame) of
                SendError e \<Rightarrow>
                  (if e = EAGAIN \<or> e = EWOULDBLOCK \<or> e = EINTR then (session, idle_status prev, wire, None)
                   else if e = ECONNRESET \<or> e = EPIPE then (ClientSession_close session, SendClosed, wire, None)
                   else (ClientSession_close session, SendFailed, wire, Some ''client socket write failed''))
              | SendBytes sent \<Rightarrow>
                  (if sent = 0 then (session, idle_status prev, wire, None)
                   else
                     (case OutboundFrameQueue_consumeFront (cs_outboundFrames session) sent of
                        None \<Rightarrow>
                          (ClientSession_close session, SendFailed, wire, Some ''outbound frame progress is invalid'')
                      | Some frames \<Rightarrow>
                          (if \<not> cs_closeAfterFlush session
                           then (session\<lparr>cs_outboundFrames := frames\<rparr>, Sent, wire @ take sent frame, None)
                           else flush_loop net (Suc i) (wire @ take sent frame) Sent
                                  (session\<lparr>cs_outboundFrames := frames\<rparr>)))))))"
  by pat_completeness auto
termination
  by (relation "measure (\<lambda>(net, i, wire, prev, session). outbound_work (cs_outboundFrames session))")
    (auto intro: consumeFront_work)

declare flush_loop.simps [simp del]

definition ClientSession_flushOutbound :: "(nat \<Rightarrow> nat \<Rightarrow> SendOutcome) \<Rightarrow> ClientSession \<Rightarrow>
    ClientSession \<times> SendStatus \<times> u8 list \<times> string option" where
  "ClientSession_flushOutbound net session = flush_loop net 0 [] SendNoData session"

subsection \<open>Properties\<close>

lemma ClientSession_close_outbound [simp]: "cs_outboundFrames (ClientSession_close s) = cs_outboundFrames s"
  by (simp add: ClientSession_close_def)

text \<open>One turn of the loop either stops without touching the queue or takes bytes off its front.\<close>

lemma flush_loop_send:
  assumes "OutboundFrameQueue_front (cs_outboundFrames s) = Some f" and "net i (length f) = SendBytes n" and "0 < n"
    and "OutboundFrameQueue_consumeFront (cs_outboundFrames s) n = Some q" and "ClientSession_isOpen s"
  shows "flush_loop net i wire prev s =
        (if \<not> cs_closeAfterFlush s then (s\<lparr>cs_outboundFrames := q\<rparr>, Sent, wire @ take n f, None)
         else flush_loop net (Suc i) (wire @ take n f) Sent (s\<lparr>cs_outboundFrames := q\<rparr>))"
  using assms by (subst flush_loop.simps) simp

lemma flush_loop_cases:
  obtains (stop) s' st e where "flush_loop net i wire prev s = (s', st, wire, e)"
      "cs_outboundFrames s' = cs_outboundFrames s"
  | (send) n f q where "OutboundFrameQueue_front (cs_outboundFrames s) = Some f" "net i (length f) = SendBytes n" "0 < n"
      "OutboundFrameQueue_consumeFront (cs_outboundFrames s) n = Some q" "ClientSession_isOpen s"
proof (cases "\<exists>f n q. OutboundFrameQueue_front (cs_outboundFrames s) = Some f \<and> ClientSession_isOpen s \<and>
    net i (length f) = SendBytes n \<and> 0 < n \<and> OutboundFrameQueue_consumeFront (cs_outboundFrames s) n = Some q")
  case True
  then show ?thesis using that(2) by blast
next
  case False
  then have "\<exists>s' st e. flush_loop net i wire prev s = (s', st, wire, e) \<and> cs_outboundFrames s' = cs_outboundFrames s"
    by (subst flush_loop.simps) (auto split: option.splits SendOutcome.splits)
  then show ?thesis using that(1) by blast
qed

lemma flush_loop_bytes:
  "flush_loop net i wire prev s = (s', st, wire', e) \<Longrightarrow>
     wire' @ concat (cs_outboundFrames s') = wire @ concat (cs_outboundFrames s)"
proof (induction "outbound_work (cs_outboundFrames s)" arbitrary: i wire prev s rule: less_induct)
  case less
  show ?case
  proof (rule flush_loop_cases [of net i wire prev s])
    fix n f q
    assume a: "OutboundFrameQueue_front (cs_outboundFrames s) = Some f" "net i (length f) = SendBytes n" "0 < n"
      "OutboundFrameQueue_consumeFront (cs_outboundFrames s) n = Some q" "ClientSession_isOpen s"
    have "take n f @ concat q = concat (cs_outboundFrames s)" using consumeFront_front [OF a(4)] a(1) by auto
    then show ?thesis
      using less.prems less.hyps [of "s\<lparr>cs_outboundFrames := q\<rparr>" "Suc i" "wire @ take n f" Sent]
        consumeFront_work [OF a(4,3)] flush_loop_send [of s f net i n q wire prev] a
      by (auto split: if_splits)
  qed (use less.prems in auto)
qed

text \<open>
  Property C32. What a flush hands to the kernel is an initial piece of the queued bytes and what stays
  queued is the rest: over partial sends, errors and the close-after-flush loop, no byte of the
  outbound stream is lost, duplicated or reordered.
\<close>

theorem flushOutbound_keeps_stream:
  assumes "ClientSession_flushOutbound net s = (s', st, wire, e)"
  shows "wire @ concat (cs_outboundFrames s') = concat (cs_outboundFrames s)"
  using flush_loop_bytes assms unfolding ClientSession_flushOutbound_def by fastforce

lemma flush_loop_drains:
  assumes "\<And>j k. 0 < k \<Longrightarrow> \<exists>n. net j k = SendBytes n \<and> 0 < n \<and> n \<le> k"
    and "ClientSession_isOpen s" and "cs_closeAfterFlush s" and "outbound_wf (cs_outboundFrames s)"
  shows "\<exists>s' st. flush_loop net i wire prev s = (s', st, wire @ concat (cs_outboundFrames s), None) \<and>
    \<not> ClientSession_isOpen s' \<and> cs_outboundFrames s' = []"
  using assms(2-4)
proof (induction "outbound_work (cs_outboundFrames s)" arbitrary: i wire prev s rule: less_induct)
  case less
  show ?case
  proof (cases "cs_outboundFrames s")
    case Nil
    then show ?thesis using less.prems
      by (subst flush_loop.simps) (auto simp: ClientSession_close_def ClientSession_isOpen_def)
  next
    case (Cons f fs)
    then have "f \<noteq> []" using less.prems(3) by (simp add: outbound_wf_def)
    then obtain n where n: "net i (length f) = SendBytes n" "0 < n" "n \<le> length f" using assms(1) [of "length f" i] by auto
    then obtain q where q: "OutboundFrameQueue_consumeFront (cs_outboundFrames s) n = Some q"
      using Cons by (cases "n = length f") auto
    let ?s = "s\<lparr>cs_outboundFrames := q\<rparr>"
    have step: "flush_loop net i wire prev s = flush_loop net (Suc i) (wire @ take n f) Sent ?s"
      using flush_loop_send [of s f net i n q wire prev] n q less.prems Cons by simp
    have "take n f @ concat q = concat (cs_outboundFrames s)" using consumeFront_front [OF q] Cons by auto
    then show ?thesis
      using less.hyps [of ?s "Suc i" "wire @ take n f" Sent] consumeFront_work [OF q n(2)] less.prems
        consumeFront_wf [OF less.prems(3) q] step
      by (auto simp: ClientSession_isOpen_def)
  qed
qed

text \<open>
  Property C33. A close requested after the last frame loses nothing: if every \<open>send\<close> of a non-empty
  buffer takes at least one byte, one call of \<open>flushOutbound\<close> terminates with every queued byte on the
  wire, in order, and only then the socket is closed.
\<close>

theorem close_after_flush_delivers:
  assumes "\<And>j k. 0 < k \<Longrightarrow> \<exists>n. net j k = SendBytes n \<and> 0 < n \<and> n \<le> k"
    and "ClientSession_isOpen s" and "outbound_wf (cs_outboundFrames s)"
  shows "\<exists>s' st. ClientSession_flushOutbound net (ClientSession_requestCloseAfterFlush s) =
      (s', st, concat (cs_outboundFrames s), None) \<and> \<not> ClientSession_isOpen s' \<and> cs_outboundFrames s' = []"
proof -
  let ?s = "ClientSession_requestCloseAfterFlush s"
  have "ClientSession_isOpen ?s" "cs_closeAfterFlush ?s" "outbound_wf (cs_outboundFrames ?s)"
    using assms(2,3) by (simp_all add: ClientSession_requestCloseAfterFlush_def ClientSession_isOpen_def)
  from flush_loop_drains [OF assms(1) this, where i = 0 and wire = "[]" and prev = SendNoData] show ?thesis
    by (simp add: ClientSession_flushOutbound_def ClientSession_requestCloseAfterFlush_def)
qed

definition sample_session :: ClientSession where
  "sample_session = (ClientSession_new True 5)\<lparr>cs_outboundFrames := [[1, 2, 3], [4]]\<rparr>"

theorem close_after_flush_delivers_witness:
  "\<exists>s' st. ClientSession_flushOutbound (\<lambda>i k. SendBytes (min 2 k)) (ClientSession_requestCloseAfterFlush sample_session) =
      (s', st, [1, 2, 3, 4], None) \<and> \<not> ClientSession_isOpen s' \<and> cs_outboundFrames s' = []"
proof -
  have "\<exists>n. SendBytes (min 2 k) = SendBytes n \<and> 0 < n \<and> n \<le> k" if "0 < k" for k :: nat
    using that by auto
  then show ?thesis
    using close_after_flush_delivers [of "\<lambda>i k. SendBytes (min 2 k)" sample_session]
    by (simp add: sample_session_def ClientSession_new_def ClientSession_isOpen_def outbound_wf_def)
qed

theorem flushOutbound_keeps_stream_witness:
  "fst (snd (snd (ClientSession_flushOutbound (\<lambda>i k. SendBytes 2) sample_session))) @
     concat (cs_outboundFrames (fst (ClientSession_flushOutbound (\<lambda>i k. SendBytes 2) sample_session))) = [1, 2, 3, 4]"
proof -
  obtain s' st wire e where r: "ClientSession_flushOutbound (\<lambda>i k. SendBytes 2) sample_session = (s', st, wire, e)"
    by (metis prod_cases4)
  show ?thesis using flushOutbound_keeps_stream [OF r] by (simp add: r) (simp add: sample_session_def)
qed

text \<open>
  The outbound queue cannot carry every world update the codec produces: an update that
  validates, with a payload longer than 16364 bytes, encodes to a frame that \<open>enqueueFrame\<close> refuses,
  because \<open>MAX_OUTBOUND_FRAME_SIZE\<close> adds the 16-byte command header and not the 36-byte update header
  to the maximal update payload.
\<close>

theorem large_update_not_enqueued:
  assumes "validateWorldUpdate u = Inr ()" and "16364 < length (wu_payload u)" and "ClientSession_isOpen s"
  shows "\<exists>f. encodeWorldUpdateFrame u = Inr f \<and> ClientSession_enqueueFrame s f = Inl ''outbound frame size is invalid''"
  using encodeWorldUpdateFrame_layout [OF assms(1)] assms(2,3)
  by (simp add: ClientSession_enqueueFrame_def OutboundFrameQueue_enqueue_def)

theorem large_update_not_enqueued_witness:
  "\<exists>f. encodeWorldUpdateFrame ((sample_event 7)\<lparr>wu_payload := replicate 16384 CHR ''x''\<rparr>) = Inr f \<and>
     ClientSession_enqueueFrame sample_session f = Inl ''outbound frame size is invalid''"
  by (rule large_update_not_enqueued)
    (simp_all add: validateWorldUpdate_def sample_event_def isKnownUpdateKind_def sample_session_def
      ClientSession_new_def ClientSession_isOpen_def)

subsection \<open>Reachable sessions\<close>

inductive session_reachable :: "ClientSession \<Rightarrow> bool" where
  new: "session_reachable (ClientSession_new nonblocking fd)"
| receive: "session_reachable s \<Longrightarrow> session_reachable (fst (ClientSession_receive outcome s))"
| enqueue: "session_reachable s \<Longrightarrow> ClientSession_enqueueFrame s f = Inr s' \<Longrightarrow> session_reachable s'"
| flush: "session_reachable s \<Longrightarrow> session_reachable (fst (ClientSession_flushOutbound net s))"
| request: "session_reachable s \<Longrightarrow> session_reachable (ClientSession_requestCloseAfterFlush s)"
| close: "session_reachable s \<Longrightarrow> session_reachable (ClientSession_close s)"

definition session_inv :: "ClientSession \<Rightarrow> bool" where
  "session_inv s \<longleftrightarrow> outbound_wf (cs_outboundFrames s) \<and>
     (fa_failed (cs_accumulator s) \<longrightarrow> \<not> ClientSession_isOpen s) \<and>
     (fa_failed (cs_accumulator s) \<or>
      length (fa_buffered (cs_accumulator s)) < FRAME_HEADER_SIZE + MAX_COMMAND_PAYLOAD)"

lemma session_inv_close: "session_inv s \<Longrightarrow> session_inv (ClientSession_close s)"
  by (auto simp: session_inv_def ClientSession_close_def ClientSession_isOpen_def)

lemma session_inv_consume:
  "session_inv s \<Longrightarrow> OutboundFrameQueue_consumeFront (cs_outboundFrames s) n = Some q \<Longrightarrow>
     session_inv (s\<lparr>cs_outboundFrames := q\<rparr>)"
  by (auto simp: session_inv_def ClientSession_isOpen_def consumeFront_wf)

lemma session_inv_receive:
  assumes "session_inv s"
  shows "session_inv (fst (ClientSession_receive outcome s))"
proof (cases outcome)
  case (RecvBytes bytes)
  obtain acc commands r where a: "FrameAccumulator_append (cs_accumulator s) bytes = (acc, commands, r)"
    by (metis prod_cases3)
  have "command_stream.invar (cs_accumulator s)"
    using assms by (simp add: session_inv_def command_stream.invar_def)
  note inv = command_stream.append_invar [OF a this] and failed = command_stream.append_failed_iff [OF a]
  have upd: "r = None \<Longrightarrow> session_inv (s\<lparr>cs_accumulator := acc\<rparr>)"
    using assms inv failed by (simp add: session_inv_def command_stream.invar_def)
  have closed: "r \<noteq> None \<Longrightarrow> \<not> cs_clientSocket s < 0 \<Longrightarrow> session_inv (ClientSession_close (s\<lparr>cs_accumulator := acc\<rparr>))"
    using assms inv failed
    by (simp add: session_inv_def command_stream.invar_def ClientSession_close_def ClientSession_isOpen_def)
  show ?thesis
    using assms upd closed by (cases r) (auto simp: ClientSession_receive_def RecvBytes a)
qed (use assms session_inv_close in \<open>auto simp: ClientSession_receive_def\<close>)

lemma session_inv_flush_loop:
  "session_inv s \<Longrightarrow> session_inv (fst (flush_loop net i wire prev s))"
proof (induction net i wire prev s rule: flush_loop.induct)
  case (1 net i wire prev s)
  then show ?case
    by (subst flush_loop.simps)
      (auto split: option.splits SendOutcome.splits intro: session_inv_close session_inv_consume)
qed

text \<open>
  In every reachable session: the outbound queue holds at most 256 frames, none empty or
  longer than \<open>MAX_OUTBOUND_FRAME_SIZE\<close>; the inbound buffer is shorter than one maximal frame; and a
  session whose accumulator has failed is closed, so no command is ever read behind a framing error.
\<close>

theorem reachable_session_inv:
  assumes "session_reachable s"
  shows "session_inv s"
  using assms
proof (induction rule: session_reachable.induct)
  case (new nonblocking fd)
  show ?case
    by (simp add: session_inv_def ClientSession_new_def outbound_wf_def FrameAccumulator_init_def)
next
  case (receive s outcome)
  then show ?case by (simp add: session_inv_receive)
next
  case (enqueue s f s')
  then show ?case
    by (auto simp: session_inv_def ClientSession_enqueueFrame_def ClientSession_isOpen_def
        split: if_splits sum.splits intro: enqueue_wf)
next
  case (flush s net)
  then show ?case by (simp add: ClientSession_flushOutbound_def session_inv_flush_loop)
next
  case (request s)
  then show ?case
    by (simp add: session_inv_def ClientSession_requestCloseAfterFlush_def ClientSession_isOpen_def)
next
  case (close s)
  then show ?case by (simp add: session_inv_close)
qed

theorem reachable_session_inv_witness:
  "session_inv (fst (ClientSession_receive (RecvBytes [9, 9]) (ClientSession_new True 5)))"
  by (rule reachable_session_inv) (intro session_reachable.intros)

end
