(* ===== verification/Float32.thy ===== *)
theory Float32
  imports Prelude
begin

text \<open>
  IEEE 754 binary32 as the sources use \<open>float\<close>: round to nearest, ties to even, no contraction and no
  excess precision (\<open>FLT_EVAL_METHOD\<close> 0). Every finite \<open>float\<close> is an integral multiple of \<open>2^-149\<close>,
  the least subnormal, so a finite value is a sign and a magnitude in units of \<open>2^-149\<close>; an operation
  computes its exact result in these units, as a quotient of naturals, and rounds it to 24
  significant bits. A magnitude of \<open>2^277\<close> units (\<open>2^128\<close>) or more overflows to infinity. The sign of
  zero is kept; all NaNs are one value.
\<close>

datatype f32 = F_NaN | F_Inf bool | F_Fin bool nat

subsection \<open>Rounding\<close>

fun bit_len :: "nat \<Rightarrow> nat" where
  "bit_len n = (if n = 0 then 0 else Suc (bit_len (n div 2)))"

declare bit_len.simps [simp del]

lemma bit_len_0 [simp]: "bit_len 0 = 0"
  by (simp add: bit_len.simps)

lemma bit_len_less: "n < 2 ^ bit_len n"
proof (induction n rule: bit_len.induct)
  case (1 n)
  then show ?case by (cases "n = 0") (auto simp: bit_len.simps [of n])
qed

lemma bit_len_ge: "0 < n \<Longrightarrow> 2 ^ (bit_len n - 1) \<le> n"
proof (induction n rule: bit_len.induct)
  case (1 n)
  show ?case
  proof (cases "n div 2 = 0")
    case True
    then show ?thesis using 1 by (auto simp: bit_len.simps [of n])
  next
    case False
    then have "2 ^ (bit_len (n div 2) - 1) \<le> n div 2" using 1 by auto
    moreover have "0 < bit_len (n div 2)" using False by (simp add: bit_len.simps [of "n div 2"])
    then have "bit_len n - 1 = Suc (bit_len (n div 2) - 1)" using "1.prems" by (simp add: bit_len.simps [of n])
    ultimately show ?thesis by simp
  qed
qed

text \<open>The integer nearest to \<open>n / d\<close>, the even one of two.\<close>

definition round_even :: "nat \<Rightarrow> nat \<Rightarrow> nat" where
  "round_even n d =
     (let q = n div d; r = n mod d in
      if 2 * r < d then q else if d < 2 * r then Suc q else if even q then q else Suc q)"

text \<open>The magnitude nearest to \<open>n / d\<close> with \<open>p\<close> significant bits.\<close>

definition round_mag :: "nat \<Rightarrow> nat \<Rightarrow> nat \<Rightarrow> nat" where
  "round_mag p n d =
     (let e = bit_len (n div d) in
      if e \<le> p then round_even n d else round_even n (d * 2 ^ (e - p)) * 2 ^ (e - p))"

definition representable :: "nat \<Rightarrow> nat \<Rightarrow> bool" where
  "representable p m \<longleftrightarrow> (\<exists>a k. m = a * 2 ^ k \<and> a < 2 ^ p)"

lemma round_even_bounds: "0 < d \<Longrightarrow> n div d \<le> round_even n d \<and> round_even n d \<le> Suc (n div d)"
  by (simp add: round_even_def Let_def)

lemma round_even_le:
  assumes "0 < d" and "n \<le> k * d"
  shows "round_even n d \<le> k"
proof (cases "n div d = k")
  case True
  then have "n mod d = 0"
    using assms by (metis div_mult_mod_eq le_add1 le_antisym add_cancel_right_right)
  then show ?thesis using True assms(1) by (simp add: round_even_def)
next
  case False
  have "n div d \<le> k" using assms by (metis div_le_mono nonzero_mult_div_cancel_right not_gr0)
  then show ?thesis using False round_even_bounds [OF assms(1), of n] by linarith
qed

lemma round_even_ge: "0 < d \<Longrightarrow> k * d \<le> n \<Longrightarrow> k \<le> round_even n d"
  using round_even_bounds [of d n] by (metis div_le_mono le_trans nonzero_mult_div_cancel_right not_gr0)

lemma representable_less: "m < 2 ^ p \<Longrightarrow> representable p m"
  unfolding representable_def by (intro exI [of _ m] exI [of _ 0]) simp

lemma representable_pow2: "0 < p \<Longrightarrow> representable p (2 ^ n)"
  unfolding representable_def by (metis mult_1 one_less_numeral_iff one_less_power semiring_norm(76))

lemma representable_0 [simp]: "representable p 0"
  unfolding representable_def by (intro exI [of _ 0]) simp

lemma representable_shift: "representable p m \<Longrightarrow> representable p (m * 2 ^ k)"
  unfolding representable_def by (metis mult.assoc power_add)

lemma representable_dvd:
  assumes "representable p m" and "2 ^ (e - 1) \<le> m"
  shows "2 ^ (e - p) dvd m"
proof -
  obtain a k where m: "m = a * 2 ^ k" "a < 2 ^ p" using assms(1) unfolding representable_def by blast
  have "2 ^ (e - 1) < (2 :: nat) ^ (p + k)"
    using assms(2) m by (metis le_less_trans mult_less_mono1 power_add zero_less_numeral zero_less_power)
  then have "e - 1 < p + k" by simp
  then have "e - p \<le> k" by simp
  then show ?thesis by (simp add: m(1) le_imp_power_dvd)
qed

lemma round_mag_le:
  assumes "0 < d" and "representable p m" and "n \<le> m * d"
  shows "round_mag p n d \<le> m"
proof (cases "bit_len (n div d) \<le> p")
  case True
  then show ?thesis using round_even_le [OF assms(1,3)] by (simp add: round_mag_def)
next
  case False
  define e where "e = bit_len (n div d)"
  have pos: "0 < n div d" using False by (cases "n div d = 0") auto
  have "n div d \<le> m" using assms by (metis div_le_mono nonzero_mult_div_cancel_right not_gr0)
  then have "2 ^ (e - 1) \<le> m" using bit_len_ge [OF pos] by (simp add: e_def)
  then obtain c where c: "m = 2 ^ (e - p) * c" using representable_dvd [OF assms(2)] by (auto simp: dvd_def)
  have "n \<le> c * (d * 2 ^ (e - p))" using assms(3) c by (simp add: ac_simps)
  then have "round_even n (d * 2 ^ (e - p)) \<le> c" using assms(1) by (intro round_even_le) auto
  then show ?thesis using False by (simp add: round_mag_def e_def [symmetric] c mult.commute)
qed

lemma round_mag_ge:
  assumes "0 < d" and "representable p m" and "m * d \<le> n"
  shows "m \<le> round_mag p n d"
proof (cases "bit_len (n div d) \<le> p")
  case True
  then show ?thesis using round_even_ge [OF assms(1,3)] by (simp add: round_mag_def)
next
  case False
  define e where "e = bit_len (n div d)"
  have ep: "p < e" using False by (simp add: e_def)
  have pos: "0 < n div d" using False by (cases "n div d = 0") auto
  have q: "2 ^ (e - 1) \<le> n div d" using bit_len_ge [OF pos] by (simp add: e_def)
  show ?thesis
  proof (cases "2 ^ (e - 1) \<le> m")
    case True
    then obtain c where c: "m = 2 ^ (e - p) * c" using representable_dvd [OF assms(2)] by (auto simp: dvd_def)
    have "c * (d * 2 ^ (e - p)) \<le> n" using assms(3) c by (simp add: ac_simps)
    then have "c \<le> round_even n (d * 2 ^ (e - p))" using assms(1) by (intro round_even_ge) auto
    then show ?thesis using False by (simp add: round_mag_def e_def [symmetric] c mult.commute)
  next
    case small: False
    show ?thesis
    proof (cases "p = 0")
      case True
      then show ?thesis using assms(2) by (auto simp: representable_def)
    next
      case False
      have "2 ^ (p - 1) * (d * 2 ^ (e - p)) = d * 2 ^ (e - 1)"
        using ep False by (simp flip: power_add add: ac_simps)
      also have "\<dots> \<le> n" using q assms(1) by (metis le_trans mult.commute mult_le_mono1 times_div_less_eq_dividend)
      finally have "2 ^ (p - 1) \<le> round_even n (d * 2 ^ (e - p))" using assms(1) by (intro round_even_ge) auto
      then have "2 ^ (p - 1) * 2 ^ (e - p) \<le> round_mag p n d"
        using ep by (simp add: round_mag_def e_def [symmetric])
      moreover have "(2 :: nat) ^ (p - 1) * 2 ^ (e - p) = 2 ^ (e - 1)" using ep False by (simp flip: power_add)
      ultimately show ?thesis using small by simp
    qed
  qed
qed

lemma round_mag_exact: "0 < d \<Longrightarrow> representable p m \<Longrightarrow> round_mag p (m * d) d = m"
  by (simp add: le_antisym round_mag_le round_mag_ge)

lemma representable_round_mag:
  assumes "0 < d" and "0 < p"
  shows "representable p (round_mag p n d)"
proof -
  have le: "representable p m" if "m \<le> 2 ^ p" for m
    using that assms(2) representable_less [of m p] representable_pow2 by (cases "m = 2 ^ p") auto
  show ?thesis
  proof (cases "bit_len (n div d) \<le> p")
    case True
    have "n div d < 2 ^ p" using bit_len_less [of "n div d"] True by (meson le_less_trans not_less power_increasing one_le_numeral less_le_trans)
    then have "n \<le> 2 ^ p * d" using assms(1) by (metis div_less_iff_less_mult less_imp_le)
    then show ?thesis using le round_even_le [OF assms(1)] True by (simp add: round_mag_def)
  next
    case False
    define e where "e = bit_len (n div d)"
    have "n div d < 2 ^ e" by (simp add: e_def bit_len_less)
    then have "n \<le> 2 ^ e * d" using assms(1) by (metis div_less_iff_less_mult less_imp_le)
    also have "2 ^ e * d = 2 ^ p * (d * 2 ^ (e - p))"
      using False by (simp add: e_def ac_simps flip: power_add)
    finally have "round_even n (d * 2 ^ (e - p)) \<le> 2 ^ p" using assms(1) by (intro round_even_le) auto
    then show ?thesis using le representable_shift False by (simp add: round_mag_def e_def [symmetric])
  qed
qed

lemma bit_len_numeral [simp]:
  "bit_len (numeral Num.One) = 1"
  "bit_len (numeral (Num.Bit0 k)) = Suc (bit_len (numeral k))"
  "bit_len (numeral (Num.Bit1 k)) = Suc (bit_len (numeral k))"
  "bit_len (Suc 0) = 1"
  by (simp_all add: bit_len.simps [of "numeral k" for k] bit_len.simps [of "Suc 0"])

subsection \<open>Values and operations\<close>

abbreviation f32_unit :: nat where "f32_unit \<equiv> 2 ^ 149"

abbreviation f32_overflow :: nat where "f32_overflow \<equiv> 2 ^ 277"

definition f32_pack :: "bool \<Rightarrow> nat \<Rightarrow> nat \<Rightarrow> f32" where
  "f32_pack s n d = (let m = round_mag 24 n d in if f32_overflow \<le> m then F_Inf s else F_Fin s m)"

text \<open>The literal \<open>n / d\<close>: \<open>0.98f\<close> is \<open>f32_lit 98 100\<close>.\<close>

definition f32_lit :: "nat \<Rightarrow> nat \<Rightarrow> f32" where
  "f32_lit n d = f32_pack False (n * f32_unit) d"

abbreviation f32_zero :: f32 where "f32_zero \<equiv> F_Fin False 0"

text \<open>The value of a finite number, in units of \<open>2^-149\<close>.\<close>

fun f32_int :: "f32 \<Rightarrow> int" where
  "f32_int (F_Fin s m) = (if s then - int m else int m)"
| "f32_int _ = 0"

fun f32_isfinite :: "f32 \<Rightarrow> bool" where
  "f32_isfinite (F_Fin _ _) = True"
| "f32_isfinite _ = False"

fun f32_isnan :: "f32 \<Rightarrow> bool" where
  "f32_isnan F_NaN = True"
| "f32_isnan _ = False"

fun f32_neg :: "f32 \<Rightarrow> f32" where
  "f32_neg F_NaN = F_NaN"
| "f32_neg (F_Inf s) = F_Inf (\<not> s)"
| "f32_neg (F_Fin s m) = F_Fin (\<not> s) m"

fun f32_abs :: "f32 \<Rightarrow> f32" where
  "f32_abs F_NaN = F_NaN"
| "f32_abs (F_Inf s) = F_Inf False"
| "f32_abs (F_Fin s m) = F_Fin False m"

fun f32_add :: "f32 \<Rightarrow> f32 \<Rightarrow> f32" where
  "f32_add (F_Fin s m) (F_Fin t n) =
     (let v = f32_int (F_Fin s m) + f32_int (F_Fin t n) in
      if v = 0 then F_Fin (s \<and> t) 0 else f32_pack (v < 0) (nat \<bar>v\<bar>) 1)"
| "f32_add (F_Fin s m) (F_Inf t) = F_Inf t"
| "f32_add (F_Inf s) (F_Fin t n) = F_Inf s"
| "f32_add (F_Inf s) (F_Inf t) = (if s = t then F_Inf s else F_NaN)"
| "f32_add F_NaN _ = F_NaN"
| "f32_add _ F_NaN = F_NaN"

definition f32_sub :: "f32 \<Rightarrow> f32 \<Rightarrow> f32" where
  "f32_sub x y = f32_add x (f32_neg y)"

fun f32_mul :: "f32 \<Rightarrow> f32 \<Rightarrow> f32" where
  "f32_mul (F_Fin s m) (F_Fin t n) = f32_pack (s \<noteq> t) (m * n) f32_unit"
| "f32_mul (F_Fin s m) (F_Inf t) = (if m = 0 then F_NaN else F_Inf (s \<noteq> t))"
| "f32_mul (F_Inf s) (F_Fin t n) = (if n = 0 then F_NaN else F_Inf (s \<noteq> t))"
| "f32_mul (F_Inf s) (F_Inf t) = F_Inf (s \<noteq> t)"
| "f32_mul F_NaN _ = F_NaN"
| "f32_mul _ F_NaN = F_NaN"

fun f32_div :: "f32 \<Rightarrow> f32 \<Rightarrow> f32" where
  "f32_div (F_Fin s m) (F_Fin t n) =
     (if n = 0 then (if m = 0 then F_NaN else F_Inf (s \<noteq> t)) else f32_pack (s \<noteq> t) (m * f32_unit) n)"
| "f32_div (F_Fin s m) (F_Inf t) = F_Fin (s \<noteq> t) 0"
| "f32_div (F_Inf s) (F_Fin t n) = F_Inf (s \<noteq> t)"
| "f32_div (F_Inf s) (F_Inf t) = F_NaN"
| "f32_div F_NaN _ = F_NaN"
| "f32_div _ F_NaN = F_NaN"

text \<open>Comparisons are false on NaN; the two zeros are equal.\<close>

fun f32_lt :: "f32 \<Rightarrow> f32 \<Rightarrow> bool" where
  "f32_lt (F_Fin s m) (F_Fin t n) = (f32_int (F_Fin s m) < f32_int (F_Fin t n))"
| "f32_lt (F_Fin s m) (F_Inf t) = (\<not> t)"
| "f32_lt (F_Inf s) (F_Fin t n) = s"
| "f32_lt (F_Inf s) (F_Inf t) = (s \<and> \<not> t)"
| "f32_lt F_NaN _ = False"
| "f32_lt _ F_NaN = False"

lemma f32_lt_NaN [simp]: "\<not> f32_lt x F_NaN"
  by (cases x) auto

fun f32_eq :: "f32 \<Rightarrow> f32 \<Rightarrow> bool" where
  "f32_eq (F_Fin s m) (F_Fin t n) = (f32_int (F_Fin s m) = f32_int (F_Fin t n))"
| "f32_eq (F_Inf s) (F_Inf t) = (s = t)"
| "f32_eq _ _ = False"

definition f32_le :: "f32 \<Rightarrow> f32 \<Rightarrow> bool" where
  "f32_le x y = (f32_lt x y \<or> f32_eq x y)"

text \<open>\<open>std::min\<close> and \<open>std::max\<close>: the first argument unless the comparison says otherwise.\<close>

definition f32_min :: "f32 \<Rightarrow> f32 \<Rightarrow> f32" where
  "f32_min a b = (if f32_lt b a then b else a)"

definition f32_max :: "f32 \<Rightarrow> f32 \<Rightarrow> f32" where
  "f32_max a b = (if f32_lt a b then b else a)"

text \<open>Conversion to a 64-bit \<open>long\<close> truncates; outside the range it is undefined, here \<open>None\<close>.\<close>

fun f32_to_long :: "f32 \<Rightarrow> int option" where
  "f32_to_long (F_Fin s m) =
     (let k = int (m div f32_unit); v = (if s then - k else k) in if is_int64 v then Some v else None)"
| "f32_to_long _ = None"

definition f32_of_int :: "int \<Rightarrow> f32" where
  "f32_of_int i = f32_pack (i < 0) (nat \<bar>i\<bar> * f32_unit) 1"

text \<open>
  \<open>std::sqrt\<close>, correctly rounded. In units the root of \<open>m\<close> is the real root of \<open>m * 2^149\<close>, a number of
  more than 24 bits, so that the numbers and the midpoints the rounding decides between are whole:
  an inexact root rounds as the half above its whole part.
\<close>

fun isqrt :: "nat \<Rightarrow> nat" where
  "isqrt n = (if n = 0 then 0 else let r = 2 * isqrt (n div 4) in if Suc r * Suc r \<le> n then Suc r else r)"

declare isqrt.simps [simp del]

lemma isqrt_bounds: "isqrt n * isqrt n \<le> n \<and> n < Suc (isqrt n) * Suc (isqrt n)"
proof (induction n rule: isqrt.induct)
  case (1 n)
  show ?case
  proof (cases "n = 0")
    case False
    define r where "r = isqrt (n div 4)"
    have "r * r \<le> n div 4" "n div 4 < Suc r * Suc r" using 1 False by (auto simp: r_def)
    then have "4 * (r * r) \<le> n" "n < 4 * (Suc r * Suc r)" by linarith+
    then show ?thesis using False by (auto simp: isqrt.simps [of n] r_def [symmetric] Let_def algebra_simps)
  qed (simp add: isqrt.simps)
qed

lemma isqrt_square [simp]: "isqrt (k * k) = k"
proof -
  have "isqrt (k * k) \<le> k"
  proof (rule ccontr)
    assume "\<not> isqrt (k * k) \<le> k"
    then have "Suc k * Suc k \<le> isqrt (k * k) * isqrt (k * k)" by (intro mult_le_mono) auto
    then show False using isqrt_bounds [of "k * k"] by simp
  qed
  moreover have "k < Suc (isqrt (k * k))" using isqrt_bounds [of "k * k"] by (metis mult_le_mono not_less)
  ultimately show ?thesis by simp
qed

fun f32_sqrt :: "f32 \<Rightarrow> f32" where
  "f32_sqrt F_NaN = F_NaN"
| "f32_sqrt (F_Inf s) = (if s then F_NaN else F_Inf False)"
| "f32_sqrt (F_Fin s m) =
     (if m = 0 then F_Fin s 0
      else if s then F_NaN
      else let n = m * f32_unit; r = isqrt n in if r * r = n then f32_pack False r 1 else f32_pack False (2 * r + 1) 2)"

subsection \<open>The values a \<open>float\<close> can hold\<close>

fun f32_ok :: "f32 \<Rightarrow> bool" where
  "f32_ok (F_Fin s m) \<longleftrightarrow> round_mag 24 m 1 = m \<and> m < f32_overflow"
| "f32_ok _ \<longleftrightarrow> True"

fun f32_mag :: "f32 \<Rightarrow> nat" where
  "f32_mag (F_Fin _ m) = m"
| "f32_mag _ = 0"

text \<open>\<open>|x| \<le> b\<close> for a finite \<open>x\<close> and a bound \<open>b\<close> in units.\<close>

definition f32_within :: "nat \<Rightarrow> f32 \<Rightarrow> bool" where
  "f32_within b x \<longleftrightarrow> f32_isfinite x \<and> f32_mag x \<le> b"

lemma f32_isfinite_iff: "f32_isfinite x \<longleftrightarrow> (\<exists>s m. x = F_Fin s m)"
  by (cases x) auto

lemma f32_within_Fin [simp]: "f32_within b (F_Fin s m) \<longleftrightarrow> m \<le> b"
  by (simp add: f32_within_def)

lemma f32_within_nonfinite [simp]: "\<not> f32_within b F_NaN" "\<not> f32_within b (F_Inf s)"
  by (simp_all add: f32_within_def)

lemma f32_withinE:
  assumes "f32_within b x"
  obtains s m where "x = F_Fin s m" "m \<le> b"
  using assms by (cases x) auto

lemma f32_ok_pack: "0 < d \<Longrightarrow> f32_ok (f32_pack s n d)"
  using representable_round_mag [of d 24 n] round_mag_exact [of 1 24 "round_mag 24 n d"]
  by (simp add: f32_pack_def Let_def)

lemma f32_ok_ops [simp, intro]:
  "f32_ok x \<Longrightarrow> f32_ok (f32_neg x)" "f32_ok x \<Longrightarrow> f32_ok (f32_abs x)"
  "f32_ok (f32_add x y)" "f32_ok (f32_mul x y)" "f32_ok (f32_div x y)" "f32_ok (f32_sub x y)"
  "0 < d \<Longrightarrow> f32_ok (f32_lit n d)" "f32_ok (f32_of_int i)"
proof -
  show add: "f32_ok (f32_add x y)" for x y
    by (cases "(x, y)" rule: f32_add.cases) (auto simp: f32_ok_pack Let_def round_mag_def round_even_def simp del: f32_int.simps)
  show "f32_ok (f32_sub x y)" by (simp add: f32_sub_def add)
  show "f32_ok (f32_mul x y)" by (cases "(x, y)" rule: f32_mul.cases) (auto simp: f32_ok_pack)
  show "f32_ok (f32_div x y)" by (cases "(x, y)" rule: f32_div.cases) (auto simp: f32_ok_pack round_mag_def round_even_def)
qed (cases x; auto simp: f32_ok_pack f32_lit_def f32_of_int_def)+

lemma f32_within_pack:
  assumes "0 < d" and "representable 24 b" and "b < f32_overflow" and "n \<le> b * d"
  shows "f32_within b (f32_pack s n d)"
  using round_mag_le [OF assms(1,2,4)] assms(3) by (simp add: f32_pack_def Let_def)

lemma f32_lt_fin: "f32_isfinite x \<Longrightarrow> f32_isfinite y \<Longrightarrow> f32_lt x y \<longleftrightarrow> f32_int x < f32_int y"
  by (auto simp: f32_isfinite_iff)

lemma f32_le_fin: "f32_isfinite x \<Longrightarrow> f32_isfinite y \<Longrightarrow> f32_le x y \<longleftrightarrow> f32_int x \<le> f32_int y"
  by (auto simp: f32_isfinite_iff f32_le_def)

lemma f32_within_int: "f32_within b x \<longleftrightarrow> f32_isfinite x \<and> \<bar>f32_int x\<bar> \<le> int b"
  by (cases x) auto

text \<open>A literal whose value is a representable number is that number.\<close>

lemma f32_lit_exact: "n * f32_unit = m * d \<Longrightarrow> 0 < d \<Longrightarrow> representable 24 m \<Longrightarrow> m < f32_overflow \<Longrightarrow>
    f32_lit n d = F_Fin False m"
  by (simp add: f32_lit_def f32_pack_def round_mag_exact)

lemma f32_lit_nat:
  assumes "n < 2 ^ 24"
  shows "f32_lit n 1 = F_Fin False (n * f32_unit)"
proof (rule f32_lit_exact)
  show "representable 24 (n * f32_unit)" using assms representable_less representable_shift by blast
  have "n * f32_unit < 2 ^ 24 * f32_unit" using assms by (rule mult_less_mono1) simp
  then show "n * f32_unit < f32_overflow" by simp
qed auto

lemma f32_add_mono:
  assumes "f32_within a x" and "f32_within b y" and "representable 24 (a + b)" and "a + b < f32_overflow"
  shows "f32_within (a + b) (f32_add x y)"
proof -
  obtain s m t n where "x = F_Fin s m" "m \<le> a" "y = F_Fin t n" "n \<le> b"
    using assms(1,2) by (auto elim!: f32_withinE)
  then show ?thesis using assms(3,4) by (auto simp: Let_def intro!: f32_within_pack)
qed

subsection \<open>Sums of non-negative numbers\<close>

fun f32_nonneg :: "f32 \<Rightarrow> bool" where
  "f32_nonneg (F_Fin s m) \<longleftrightarrow> \<not> s"
| "f32_nonneg (F_Inf s) \<longleftrightarrow> \<not> s"
| "f32_nonneg F_NaN \<longleftrightarrow> False"

lemma f32_nonneg_pack [simp]: "f32_nonneg (f32_pack s n d) \<longleftrightarrow> \<not> s"
  by (simp add: f32_pack_def Let_def)

lemma f32_square_nonneg: "f32_isfinite x \<Longrightarrow> f32_nonneg (f32_mul x x)"
  by (auto simp: f32_isfinite_iff)

lemma f32_le_refl: "\<not> f32_isnan x \<Longrightarrow> f32_le x x"
  by (cases x) (auto simp: f32_le_def)

lemma f32_le_trans: "f32_le x y \<Longrightarrow> f32_le y z \<Longrightarrow> f32_le x z"
  by (cases x; cases y; cases z) (auto simp: f32_le_def)

lemma f32_ok_representable: "f32_ok (F_Fin s m) \<Longrightarrow> representable 24 m"
  using representable_round_mag [of 1 24 m] by simp

lemma f32_le_pack:
  assumes "f32_ok (F_Fin False a)" and "0 < d" and "a * d \<le> n"
  shows "f32_le (F_Fin False a) (f32_pack False n d)"
  using round_mag_ge [OF assms(2) f32_ok_representable [OF assms(1)] assms(3)]
  by (auto simp: f32_pack_def Let_def f32_le_def)

lemma f32_nonneg_add:
  assumes "f32_nonneg x" and "f32_nonneg y" and "f32_ok x" and "f32_ok y"
  shows "f32_nonneg (f32_add x y) \<and> f32_le x (f32_add x y) \<and> f32_le y (f32_add x y)"
proof (cases "f32_isfinite x \<and> f32_isfinite y")
  case True
  then obtain m n where xy: "x = F_Fin False m" "y = F_Fin False n"
    using assms by (auto simp: f32_isfinite_iff)
  show ?thesis
  proof (cases "m + n = 0")
    case False
    then have "f32_add x y = f32_pack False (m + n) 1" by (auto simp: xy Let_def nat_add_distrib)
    then show ?thesis using assms xy by (simp add: f32_le_pack)
  qed (auto simp: xy f32_le_def)
next
  case False
  then show ?thesis using assms by (cases x; cases y) (auto simp: f32_le_def)
qed

lemma f32_add_zero:
  assumes "f32_ok (F_Fin s m)"
  shows "f32_int (f32_add (F_Fin s m) (F_Fin t 0)) = f32_int (F_Fin s m)"
    "f32_isfinite (f32_add (F_Fin s m) (F_Fin t 0))"
  using assms by (auto simp: f32_pack_def Let_def)

end
