(* ===== verification/Movement.thy ===== *)
theory Movement
  imports Float32
begin

text \<open>
  Movement: \<open>Position\<close> (\<open>Position.cpp\<close>), the per-frame limit and the intent queue
  (\<open>MovementIntentQueue.cpp\<close>), the integration step (\<open>MovementSimulation.cpp\<close>) and the NPC planner
  with its queue (\<open>NpcAi.cpp\<close>). The queues share a contract, the
  locale \<open>intent_queue\<close> and its extension \<open>restorable_intent_queue\<close> for those that take a frame back.
\<close>

subsection \<open>Position\<close>

record Position =
  pos_x :: f32
  pos_y :: f32
  pos_z :: f32
  pos_mapId :: int
  pos_playerId :: int

definition Position_new :: "int \<Rightarrow> f32 \<Rightarrow> f32 \<Rightarrow> f32 \<Rightarrow> Position" where
  "Position_new playerId x y z =
     \<lparr>pos_x = x, pos_y = y, pos_z = z, pos_mapId = 0, pos_playerId = playerId\<rparr>"

text \<open>The copy constructor; the (defaulted) assignment operator copies every member.\<close>

definition Position_copy :: "Position \<Rightarrow> Position" where
  "Position_copy p = \<lparr>pos_x = pos_x p, pos_y = pos_y p, pos_z = pos_z p, pos_mapId = 0, pos_playerId = pos_playerId p\<rparr>"

definition Position_setPosition :: "f32 \<Rightarrow> f32 \<Rightarrow> f32 \<Rightarrow> Position \<Rightarrow> Position" where
  "Position_setPosition x y z p = p\<lparr>pos_x := x, pos_y := y, pos_z := z\<rparr>"

definition Position_movePosition :: "f32 \<Rightarrow> f32 \<Rightarrow> f32 \<Rightarrow> Position \<Rightarrow> Position" where
  "Position_movePosition dx dy dz p =
     p\<lparr>pos_x := f32_add (pos_x p) dx, pos_y := f32_add (pos_y p) dy, pos_z := f32_add (pos_z p) dz\<rparr>"

subsection \<open>The movement limit and the integration step\<close>

definition MAX_MOVE_DISTANCE_PER_FRAME :: f32 where
  "MAX_MOVE_DISTANCE_PER_FRAME = f32_lit 100 1"

definition MAX_WORLD_COORDINATE :: f32 where
  "MAX_WORLD_COORDINATE = f32_lit 1000000 1"

text \<open>\<open>dx * dx + dy * dy + dz * dz\<close>, associated to the left as C++ does.\<close>

definition norm2 :: "f32 \<Rightarrow> f32 \<Rightarrow> f32 \<Rightarrow> f32" where
  "norm2 dx dy dz = f32_add (f32_add (f32_mul dx dx) (f32_mul dy dy)) (f32_mul dz dz)"

definition isValidMovementDelta :: "f32 \<Rightarrow> f32 \<Rightarrow> f32 \<Rightarrow> bool" where
  "isValidMovementDelta dx dy dz =
     (if \<not> f32_isfinite dx \<or> \<not> f32_isfinite dy \<or> \<not> f32_isfinite dz then False
      else f32_le (norm2 dx dy dz) (f32_mul MAX_MOVE_DISTANCE_PER_FRAME MAX_MOVE_DISTANCE_PER_FRAME))"

definition beyond_world :: "f32 \<Rightarrow> bool" where
  "beyond_world x = f32_lt MAX_WORLD_COORDINATE (f32_abs x)"

definition integrateMovement :: "f32 \<Rightarrow> f32 \<Rightarrow> f32 \<Rightarrow> f32 \<Rightarrow> f32 \<Rightarrow> f32 \<Rightarrow> (f32 \<times> f32 \<times> f32) option" where
  "integrateMovement x y z dx dy dz =
     (if \<not> isValidMovementDelta dx dy dz then None
      else let nextX = f32_add x dx; nextY = f32_add y dy; nextZ = f32_add z dz in
        if \<not> f32_isfinite nextX \<or> \<not> f32_isfinite nextY \<or> \<not> f32_isfinite nextZ \<or>
           beyond_world nextX \<or> beyond_world nextY \<or> beyond_world nextZ
        then None else Some (nextX, nextY, nextZ))"

subsection \<open>MovementIntentQueue\<close>

record MovementIntent =
  mi_sequence :: u64
  mi_sessionId :: int
  mi_dx :: f32
  mi_dy :: f32
  mi_dz :: f32
  mi_clientInputSequence :: u64

definition MAX_PENDING_INTENTS :: nat where
  "MAX_PENDING_INTENTS = 4096"

record MovementIntentQueue =
  mq_pending :: "MovementIntent list"
  mq_nextSequence :: u64

definition MovementIntentQueue_init :: MovementIntentQueue where
  "MovementIntentQueue_init = \<lparr>mq_pending = [], mq_nextSequence = 1\<rparr>"

definition MovementIntentQueue_enqueue_sequenced ::
    "int \<Rightarrow> f32 \<Rightarrow> f32 \<Rightarrow> f32 \<Rightarrow> u64 \<Rightarrow> MovementIntentQueue \<Rightarrow> MovementIntentQueue option" where
  "MovementIntentQueue_enqueue_sequenced sessionId dx dy dz clientInputSequence q =
     (if sessionId \<le> 0 \<or> \<not> isValidMovementDelta dx dy dz \<or>
         length (mq_pending q) \<ge> MAX_PENDING_INTENTS \<or> mq_nextSequence q = UINT64_MAX
      then None
      else Some (q\<lparr>mq_pending := mq_pending q @
                    [\<lparr>mi_sequence = mq_nextSequence q, mi_sessionId = sessionId, mi_dx = dx, mi_dy = dy, mi_dz = dz,
                      mi_clientInputSequence = clientInputSequence\<rparr>],
                  mq_nextSequence := mq_nextSequence q + 1\<rparr>))"

definition MovementIntentQueue_enqueue ::
    "int \<Rightarrow> f32 \<Rightarrow> f32 \<Rightarrow> f32 \<Rightarrow> MovementIntentQueue \<Rightarrow> MovementIntentQueue option" where
  "MovementIntentQueue_enqueue sessionId dx dy dz q = MovementIntentQueue_enqueue_sequenced sessionId dx dy dz 0 q"

text \<open>The loops of \<open>takeFrame\<close> and \<open>restoreFrame\<close>, for any element type.\<close>

fun drain_front :: "'a list \<Rightarrow> 'a list \<Rightarrow> 'a list \<times> 'a list" where
  "drain_front frame [] = (frame, [])"
| "drain_front frame (x # pending) = drain_front (frame @ [x]) pending"

definition push_front_reversed :: "'a list \<Rightarrow> 'a list \<Rightarrow> 'a list" where
  "push_front_reversed frame pending = fold (\<lambda>x p. x # p) (rev frame) pending"

lemma drain_front_eq [simp]: "drain_front frame pending = (frame @ pending, [])"
  by (induction frame pending rule: drain_front.induct) auto

lemma push_front_reversed_eq [simp]: "push_front_reversed frame pending = frame @ pending"
  unfolding push_front_reversed_def by (induction frame arbitrary: pending) auto

definition MovementIntentQueue_takeFrame :: "MovementIntentQueue \<Rightarrow> MovementIntent list \<times> MovementIntentQueue" where
  "MovementIntentQueue_takeFrame q =
     (let (frame, pending) = drain_front [] (mq_pending q) in (frame, q\<lparr>mq_pending := pending\<rparr>))"

definition MovementIntentQueue_restoreFrame ::
    "MovementIntent list \<Rightarrow> MovementIntentQueue \<Rightarrow> MovementIntentQueue option" where
  "MovementIntentQueue_restoreFrame frame q =
     (if length frame > size_sub MAX_PENDING_INTENTS (length (mq_pending q)) then None
      else Some (q\<lparr>mq_pending := push_front_reversed frame (mq_pending q)\<rparr>))"

definition MovementIntentQueue_pendingCount :: "MovementIntentQueue \<Rightarrow> nat" where
  "MovementIntentQueue_pendingCount q = length (mq_pending q)"

subsection \<open>NpcAi\<close>

record NpcAiObservation =
  ob_npcId :: int
  ob_npcAlive :: bool
  ob_npcPosition :: Position
  ob_targetPosition :: Position
  ob_step :: f32

record NpcAiDecision =
  nd_npcId :: int
  nd_dx :: f32
  nd_dy :: f32
  nd_dz :: f32

record NpcAiInput =
  ni_sequence :: u64
  ni_decision :: NpcAiDecision

definition validPosition :: "Position \<Rightarrow> bool" where
  "validPosition p \<longleftrightarrow> f32_isfinite (pos_x p) \<and> f32_isfinite (pos_y p) \<and> f32_isfinite (pos_z p)"

text \<open>\<open>plan\<close> returns the decision, or nothing for \<open>false\<close> (its callers then drop the decision).\<close>

definition NpcAiPlanner_plan :: "NpcAiObservation \<Rightarrow> NpcAiDecision option" where
  "NpcAiPlanner_plan observation =
     (if ob_npcId observation \<le> 0 \<or> \<not> ob_npcAlive observation \<or>
         \<not> f32_isfinite (ob_step observation) \<or> f32_le (ob_step observation) f32_zero \<or>
         f32_lt MAX_MOVE_DISTANCE_PER_FRAME (ob_step observation) \<or>
         \<not> validPosition (ob_npcPosition observation) \<or> \<not> validPosition (ob_targetPosition observation)
      then None
      else let dx = f32_sub (pos_x (ob_targetPosition observation)) (pos_x (ob_npcPosition observation));
               dy = f32_sub (pos_y (ob_targetPosition observation)) (pos_y (ob_npcPosition observation));
               dz = f32_sub (pos_z (ob_targetPosition observation)) (pos_z (ob_npcPosition observation)) in
        if \<not> f32_isfinite dx \<or> \<not> f32_isfinite dy \<or> \<not> f32_isfinite dz then None
        else let still = \<lparr>nd_npcId = ob_npcId observation, nd_dx = f32_zero, nd_dy = f32_zero, nd_dz = f32_zero\<rparr>;
                 absX = f32_abs dx; absY = f32_abs dy; absZ = f32_abs dz;
                 decision =
                   (if f32_le absY absX \<and> f32_le absZ absX \<and> f32_lt f32_zero absX
                    then still\<lparr>nd_dx := (if f32_lt f32_zero dx then ob_step observation else f32_neg (ob_step observation))\<rparr>
                    else if f32_le absZ absY \<and> f32_lt f32_zero absY
                    then still\<lparr>nd_dy := (if f32_lt f32_zero dy then ob_step observation else f32_neg (ob_step observation))\<rparr>
                    else if f32_lt f32_zero absZ
                    then still\<lparr>nd_dz := (if f32_lt f32_zero dz then ob_step observation else f32_neg (ob_step observation))\<rparr>
                    else still) in
          if isValidMovementDelta (nd_dx decision) (nd_dy decision) (nd_dz decision) then Some decision else None)"

definition MAX_PENDING_NPC_INPUTS :: nat where
  "MAX_PENDING_NPC_INPUTS = 4096"

record NpcAiInputQueue =
  nq_pending :: "NpcAiInput list"
  nq_nextSequence :: u64

definition NpcAiInputQueue_init :: NpcAiInputQueue where
  "NpcAiInputQueue_init = \<lparr>nq_pending = [], nq_nextSequence = 1\<rparr>"

definition NpcAiInputQueue_enqueue :: "NpcAiDecision \<Rightarrow> NpcAiInputQueue \<Rightarrow> NpcAiInputQueue option" where
  "NpcAiInputQueue_enqueue decision q =
     (if nd_npcId decision \<le> 0 \<or> \<not> isValidMovementDelta (nd_dx decision) (nd_dy decision) (nd_dz decision) \<or>
         length (nq_pending q) \<ge> MAX_PENDING_NPC_INPUTS \<or> nq_nextSequence q = UINT64_MAX
      then None
      else Some (q\<lparr>nq_pending := nq_pending q @ [\<lparr>ni_sequence = nq_nextSequence q, ni_decision = decision\<rparr>],
                  nq_nextSequence := nq_nextSequence q + 1\<rparr>))"

definition NpcAiInputQueue_takeFrame :: "NpcAiInputQueue \<Rightarrow> NpcAiInput list \<times> NpcAiInputQueue" where
  "NpcAiInputQueue_takeFrame q =
     (let (frame, pending) = drain_front [] (nq_pending q) in (frame, q\<lparr>nq_pending := pending\<rparr>))"

definition NpcAiInputQueue_restoreFrame :: "NpcAiInput list \<Rightarrow> NpcAiInputQueue \<Rightarrow> NpcAiInputQueue option" where
  "NpcAiInputQueue_restoreFrame frame q =
     (if length frame > size_sub MAX_PENDING_NPC_INPUTS (length (nq_pending q)) then None
      else Some (q\<lparr>nq_pending := push_front_reversed frame (nq_pending q)\<rparr>))"

definition NpcAiInputQueue_pendingCount :: "NpcAiInputQueue \<Rightarrow> nat" where
  "NpcAiInputQueue_pendingCount q = length (nq_pending q)"

subsection \<open>The contract of an intent queue\<close>

text \<open>Any number of successful \<open>enqueue\<close> calls.\<close>

fun run_enqueues :: "('e \<Rightarrow> 'q \<Rightarrow> 'q option) \<Rightarrow> 'e list \<Rightarrow> 'q \<Rightarrow> 'q option" where
  "run_enqueues enq [] q = Some q"
| "run_enqueues enq (e # es) q = (case enq e q of None \<Rightarrow> None | Some q' \<Rightarrow> run_enqueues enq es q')"

text \<open>Within its capacity, numbered in ascending order below the next number.\<close>

definition numbered :: "nat \<Rightarrow> u64 list \<Rightarrow> u64 \<Rightarrow> bool" where
  "numbered cap seqs next \<longleftrightarrow> length seqs \<le> cap \<and> sorted_wrt (<) seqs \<and> list_all (\<lambda>s. s < next) seqs"

lemma numbered_snoc:
  assumes "numbered cap seqs n" and "length seqs < cap" and "n \<noteq> UINT64_MAX"
  shows "numbered cap (seqs @ [n]) (n + 1)"
  using assms u64_less_Suc [OF assms(3)]
  by (auto simp: numbered_def sorted_wrt_append list_all_iff intro: order_less_trans)

locale intent_queue =
  fixes pending :: "'q \<Rightarrow> 'a list"
    and upcoming :: "'q \<Rightarrow> u64"
    and number :: "'a \<Rightarrow> u64"
    and make :: "'e \<Rightarrow> u64 \<Rightarrow> 'a"
    and acceptable :: "'e \<Rightarrow> bool"
    and cap :: nat
    and enq :: "'e \<Rightarrow> 'q \<Rightarrow> 'q option"
    and taken :: "'q \<Rightarrow> 'a list \<times> 'q"
  assumes queue_eqI: "pending q = pending q' \<Longrightarrow> upcoming q = upcoming q' \<Longrightarrow> q = q'"
    and number_make: "number (make e n) = n"
    and enq_None: "enq e q = None \<longleftrightarrow> \<not> acceptable e \<or> cap \<le> length (pending q) \<or> upcoming q = UINT64_MAX"
    and enq_Some: "enq e q = Some q' \<Longrightarrow> pending q' = pending q @ [make e (upcoming q)] \<and> upcoming q' = upcoming q + 1"
    and taken_frame: "fst (taken q) = pending q"
    and taken_queue: "pending (snd (taken q)) = []" "upcoming (snd (taken q)) = upcoming q"
begin

lemma enq_numbered:
  assumes "enq e q = Some q'" and "numbered cap (map number (pending q)) (upcoming q)"
  shows "numbered cap (map number (pending q')) (upcoming q')"
proof -
  have "length (pending q) < cap" "upcoming q \<noteq> UINT64_MAX" using enq_None [of e q] assms(1) by auto
  then show ?thesis using numbered_snoc [OF assms(2)] enq_Some [OF assms(1)] by (simp add: number_make)
qed

lemma run_pending:
  "run_enqueues enq es q = Some q' \<Longrightarrow> \<exists>xs. pending q' = pending q @ xs \<and> length xs = length es"
proof (induction es arbitrary: q)
  case (Cons e es)
  then obtain q1 where q1: "enq e q = Some q1" "run_enqueues enq es q1 = Some q'"
    by (auto split: option.splits)
  then show ?case using Cons.IH [OF q1(2)] enq_Some [OF q1(1)] by auto
qed simp

lemma run_cap: "run_enqueues enq es q = Some q' \<Longrightarrow> length (pending q) \<le> cap \<Longrightarrow> length (pending q') \<le> cap"
proof (induction es arbitrary: q)
  case (Cons e es)
  then obtain q1 where q1: "enq e q = Some q1" "run_enqueues enq es q1 = Some q'"
    by (auto split: option.splits)
  then show ?case using Cons.IH [OF q1(2)] enq_Some [OF q1(1)] enq_None [of e q] by auto
qed simp

lemma run_suffix:
  assumes "run_enqueues enq es q = Some q'" and "pending q = frame @ pending r" and "upcoming r = upcoming q"
  shows "\<exists>r'. run_enqueues enq es r = Some r' \<and> pending q' = frame @ pending r' \<and> upcoming r' = upcoming q'"
  using assms
proof (induction es arbitrary: q r)
  case (Cons e es)
  obtain q1 where q1: "enq e q = Some q1" "run_enqueues enq es q1 = Some q'"
    using Cons.prems(1) by (auto split: option.splits)
  have "enq e r \<noteq> None" using enq_None [of e q] enq_None [of e r] q1(1) Cons.prems(2,3) by auto
  then obtain r1 where r1: "enq e r = Some r1" by blast
  show ?case using Cons.IH [OF q1(2), of r1] enq_Some [OF q1(1)] enq_Some [OF r1] r1 Cons.prems(2,3) by simp
qed simp

end

locale restorable_intent_queue = intent_queue pending upcoming number make acceptable cap enq taken
  for pending :: "'q \<Rightarrow> 'a list" and upcoming :: "'q \<Rightarrow> u64" and number :: "'a \<Rightarrow> u64"
    and make :: "'e \<Rightarrow> u64 \<Rightarrow> 'a" and acceptable :: "'e \<Rightarrow> bool" and cap :: nat
    and enq :: "'e \<Rightarrow> 'q \<Rightarrow> 'q option" and taken :: "'q \<Rightarrow> 'a list \<times> 'q" +
  fixes restore :: "'a list \<Rightarrow> 'q \<Rightarrow> 'q option"
  assumes restore_None: "length (pending q) \<le> cap \<Longrightarrow> restore frame q = None \<longleftrightarrow> cap < length frame + length (pending q)"
    and restore_Some: "restore frame q = Some q' \<Longrightarrow> pending q' = frame @ pending q \<and> upcoming q' = upcoming q"
begin

text \<open>Taking a frame, enqueuing more and restoring the frame is enqueuing alone.\<close>

lemma restore_undoes_take:
  assumes "length (pending q) \<le> cap" and "run_enqueues enq es q = Some q2"
  shows "\<exists>r. run_enqueues enq es (snd (taken q)) = Some r \<and> restore (fst (taken q)) r = Some q2"
proof -
  obtain r where r: "run_enqueues enq es (snd (taken q)) = Some r"
    "pending q2 = pending q @ pending r" "upcoming r = upcoming q2"
    using run_suffix [OF assms(2), of "pending q" "snd (taken q)"] taken_queue by auto
  have fits: "length (pending q) + length (pending r) \<le> cap"
    using run_cap [OF assms(2,1)] r(2) by simp
  then obtain q3 where q3: "restore (pending q) r = Some q3"
    using restore_None [of r "pending q"] by fastforce
  then have "q3 = q2" using restore_Some [OF q3] r by (auto intro: queue_eqI)
  then show ?thesis using r(1) q3 by (simp add: taken_frame)
qed

end

interpretation moves: restorable_intent_queue mq_pending mq_nextSequence mi_sequence
  "\<lambda>(s, dx, dy, dz, c) n. \<lparr>mi_sequence = n, mi_sessionId = s, mi_dx = dx, mi_dy = dy, mi_dz = dz, mi_clientInputSequence = c\<rparr>"
  "\<lambda>(s, dx, dy, dz, c). 0 < s \<and> isValidMovementDelta dx dy dz" MAX_PENDING_INTENTS
  "\<lambda>(s, dx, dy, dz, c). MovementIntentQueue_enqueue_sequenced s dx dy dz c"
  MovementIntentQueue_takeFrame MovementIntentQueue_restoreFrame
  by unfold_locales
    (auto simp: MovementIntentQueue_enqueue_sequenced_def MovementIntentQueue_takeFrame_def
      MovementIntentQueue_restoreFrame_def split: if_splits)

interpretation npc_moves: restorable_intent_queue nq_pending nq_nextSequence ni_sequence
  "\<lambda>d n. \<lparr>ni_sequence = n, ni_decision = d\<rparr>"
  "\<lambda>d. 0 < nd_npcId d \<and> isValidMovementDelta (nd_dx d) (nd_dy d) (nd_dz d)" MAX_PENDING_NPC_INPUTS
  NpcAiInputQueue_enqueue NpcAiInputQueue_takeFrame NpcAiInputQueue_restoreFrame
  by unfold_locales
    (auto simp: NpcAiInputQueue_enqueue_def NpcAiInputQueue_takeFrame_def NpcAiInputQueue_restoreFrame_def
      split: if_splits)

text \<open>
  A frame of NPC inputs that is taken from the queue and restored later, with more
  inputs enqueued in between, leaves exactly the queue that enqueuing alone gives: nothing is lost,
  duplicated or reordered, and the restore never fails for lack of room when the enqueues alone fit.
\<close>

theorem npc_restore_undoes_take:
  assumes "length (nq_pending q) \<le> MAX_PENDING_NPC_INPUTS"
    and "run_enqueues NpcAiInputQueue_enqueue ds q = Some q2"
  shows "\<exists>r. run_enqueues NpcAiInputQueue_enqueue ds (snd (NpcAiInputQueue_takeFrame q)) = Some r \<and>
    NpcAiInputQueue_restoreFrame (fst (NpcAiInputQueue_takeFrame q)) r = Some q2"
  using assms by (rule npc_moves.restore_undoes_take)

subsection \<open>Bounds of a movement\<close>

text \<open>\<open>100\<close> and \<open>1000000\<close> in units of \<open>2^-149\<close>.\<close>

definition move_limit :: nat where
  "move_limit = 100 * f32_unit"

definition world_limit :: nat where
  "world_limit = 1000000 * f32_unit"

lemma MAX_MOVE_value: "MAX_MOVE_DISTANCE_PER_FRAME = F_Fin False move_limit"
  unfolding MAX_MOVE_DISTANCE_PER_FRAME_def move_limit_def by (rule f32_lit_nat) simp

lemma MAX_WORLD_value: "MAX_WORLD_COORDINATE = F_Fin False world_limit"
  unfolding MAX_WORLD_COORDINATE_def world_limit_def by (rule f32_lit_nat) simp

lemma representable_mult_unit: "n < 2 ^ 24 \<Longrightarrow> representable 24 (n * f32_unit)"
  using representable_less representable_shift by blast

lemma square_limit: "f32_mul MAX_MOVE_DISTANCE_PER_FRAME MAX_MOVE_DISTANCE_PER_FRAME = F_Fin False (10000 * f32_unit)"
  using round_mag_exact [of f32_unit 24 "10000 * f32_unit"] representable_mult_unit [of 10000]
  by (simp add: MAX_MOVE_value move_limit_def f32_pack_def)

text \<open>The next \<open>float\<close> above \<open>100\<close> has a square that rounds above \<open>10000\<close>.\<close>

lemma square_within:
  assumes "f32_ok (F_Fin s m)" and "f32_le (f32_mul (F_Fin s m) (F_Fin s m)) (F_Fin False (10000 * f32_unit))"
  shows "m \<le> move_limit"
proof (rule ccontr)
  assume "\<not> m \<le> move_limit"
  then have big: "move_limit < m" by simp
  have "2 ^ (156 - 24) dvd m"
    using representable_dvd [OF f32_ok_representable [OF assms(1)], of 156] big by (simp add: move_limit_def)
  then obtain c where c: "m = 2 ^ 132 * c" by (auto simp: dvd_def)
  have "100 * 2 ^ 17 < c" using big c by (simp add: move_limit_def)
  then have m: "2 ^ 132 * (100 * 2 ^ 17 + 1) \<le> m" using c by simp
  have rep: "representable 24 (10240001 * 2 ^ 139)"
    by (rule representable_shift, rule representable_less) simp
  have "10240001 * 2 ^ 139 * f32_unit \<le> (2 ^ 132 * (100 * 2 ^ 17 + 1)) * (2 ^ 132 * (100 * 2 ^ 17 + 1))" by simp
  also have "\<dots> \<le> m * m" using m by (intro mult_le_mono) auto
  finally have "10240001 * 2 ^ 139 \<le> round_mag 24 (m * m) f32_unit"
    by (intro round_mag_ge rep) auto
  then show False using assms(2) by (auto simp: f32_pack_def Let_def f32_le_def split: if_splits)
qed

lemma norm2_ge:
  assumes "f32_isfinite dx" "f32_isfinite dy" "f32_isfinite dz"
  shows "f32_le (f32_mul dx dx) (norm2 dx dy dz)" "f32_le (f32_mul dy dy) (norm2 dx dy dz)"
    "f32_le (f32_mul dz dz) (norm2 dx dy dz)"
proof -
  have xy: "f32_nonneg (f32_add (f32_mul dx dx) (f32_mul dy dy))"
    "f32_le (f32_mul dx dx) (f32_add (f32_mul dx dx) (f32_mul dy dy))"
    "f32_le (f32_mul dy dy) (f32_add (f32_mul dx dx) (f32_mul dy dy))"
    using f32_nonneg_add [of "f32_mul dx dx" "f32_mul dy dy"] assms by (auto simp: f32_square_nonneg)
  then have "f32_le (f32_add (f32_mul dx dx) (f32_mul dy dy)) (norm2 dx dy dz)"
    "f32_le (f32_mul dz dz) (norm2 dx dy dz)"
    using f32_nonneg_add [of "f32_add (f32_mul dx dx) (f32_mul dy dy)" "f32_mul dz dz"] assms
    by (auto simp: f32_square_nonneg norm2_def)
  then show "f32_le (f32_mul dx dx) (norm2 dx dy dz)" "f32_le (f32_mul dy dy) (norm2 dx dy dz)"
    "f32_le (f32_mul dz dz) (norm2 dx dy dz)" using xy by (blast intro: f32_le_trans)+
qed

lemma valid_delta_within:
  assumes "f32_ok dx" "f32_ok dy" "f32_ok dz" and "isValidMovementDelta dx dy dz"
  shows "f32_within move_limit dx \<and> f32_within move_limit dy \<and> f32_within move_limit dz"
proof -
  have fin: "f32_isfinite dx" "f32_isfinite dy" "f32_isfinite dz"
    and le: "f32_le (norm2 dx dy dz) (F_Fin False (10000 * f32_unit))"
    using assms(4) unfolding isValidMovementDelta_def square_limit by (auto split: if_splits)
  have "f32_within move_limit d" if "f32_ok d" "f32_isfinite d" "f32_le (f32_mul d d) (norm2 dx dy dz)" for d
    using that square_within f32_le_trans [OF that(3) le] by (cases d) auto
  then show ?thesis using assms(1-3) fin norm2_ge [OF fin] by blast
qed

lemma not_beyond_world: "f32_isfinite x \<Longrightarrow> \<not> beyond_world x \<Longrightarrow> f32_within world_limit x"
  by (cases x) (auto simp: beyond_world_def MAX_WORLD_value)

lemma integrateMovement_Some:
  assumes "integrateMovement x y z dx dy dz = Some (x', y', z')"
  shows "isValidMovementDelta dx dy dz" "x' = f32_add x dx" "y' = f32_add y dy" "z' = f32_add z dz"
    "f32_within world_limit x'" "f32_within world_limit y'" "f32_within world_limit z'"
  using assms by (auto simp: integrateMovement_def Let_def not_beyond_world split: if_splits)


subsection \<open>The planner\<close>

lemma norm2_within:
  assumes "f32_within a (f32_mul dx dx)" "f32_within b (f32_mul dy dy)" "f32_within c (f32_mul dz dz)"
    and "representable 24 (a + b)" "representable 24 (a + b + c)" "a + b + c < f32_overflow"
  shows "f32_within (a + b + c) (norm2 dx dy dz)"
  unfolding norm2_def using assms by (intro f32_add_mono) auto

lemma square_step:
  assumes "f32_within move_limit d"
  shows "f32_within (10000 * f32_unit) (f32_mul d d)"
proof -
  obtain s m where d: "d = F_Fin s m" "m \<le> move_limit" using assms by (rule f32_withinE)
  have "m * m \<le> move_limit * move_limit" using d(2) by (intro mult_le_mono) auto
  then have "m * m \<le> 10000 * f32_unit * f32_unit" by (simp add: move_limit_def)
  then show ?thesis unfolding d by (simp only: f32_mul.simps) (intro f32_within_pack representable_mult_unit; simp)
qed

lemma square_zero: "f32_within 0 (f32_mul f32_zero f32_zero)"
  by (simp add: f32_pack_def round_mag_def round_even_def)

lemma step_valid:
  assumes "f32_within move_limit d"
  shows "isValidMovementDelta d f32_zero f32_zero" "isValidMovementDelta f32_zero d f32_zero"
    "isValidMovementDelta f32_zero f32_zero d"
proof -
  note [simp del] = f32_mul.simps
  have rep: "representable 24 (10000 * f32_unit)" by (rule representable_mult_unit) simp
  have fin: "f32_isfinite d" using assms by (simp add: f32_within_def)
  have valid: "isValidMovementDelta dx dy dz"
    if "f32_within (10000 * f32_unit) (norm2 dx dy dz)" "f32_isfinite dx" "f32_isfinite dy" "f32_isfinite dz" for dx dy dz
    using that by (auto simp: isValidMovementDelta_def square_limit f32_within_int f32_le_fin)
  show "isValidMovementDelta d f32_zero f32_zero"
    using norm2_within [OF square_step [OF assms] square_zero square_zero] rep fin by (intro valid) auto
  show "isValidMovementDelta f32_zero d f32_zero"
    using norm2_within [OF square_zero square_step [OF assms] square_zero] rep fin by (intro valid) auto
  show "isValidMovementDelta f32_zero f32_zero d"
    using norm2_within [OF square_zero square_zero square_step [OF assms]] rep fin by (intro valid) auto
qed

definition within_world :: "Position \<Rightarrow> bool" where
  "within_world p \<longleftrightarrow> f32_within world_limit (pos_x p) \<and> f32_within world_limit (pos_y p) \<and> f32_within world_limit (pos_z p)"

lemma f32_within_neg [simp]: "f32_within b (f32_neg x) \<longleftrightarrow> f32_within b x"
  by (cases x) auto

lemma difference_finite:
  assumes "f32_within world_limit a" "f32_within world_limit b"
  shows "f32_isfinite (f32_sub a b)"
proof -
  have "representable 24 (2000000 * f32_unit)" by (rule representable_mult_unit) simp
  then have "f32_within (world_limit + world_limit) (f32_add a (f32_neg b))"
    using assms by (intro f32_add_mono) (auto simp: world_limit_def)
  then show ?thesis by (simp add: f32_sub_def f32_within_def)
qed

lemma zero_delta_valid: "isValidMovementDelta f32_zero f32_zero f32_zero"
  by (rule step_valid) (simp add: move_limit_def)

lemma within_move_limitI:
  "f32_isfinite step \<Longrightarrow> \<not> f32_le step f32_zero \<Longrightarrow> \<not> f32_lt MAX_MOVE_DISTANCE_PER_FRAME step \<Longrightarrow>
    f32_within move_limit step"
  by (cases step) (auto simp: MAX_MOVE_value f32_le_def split: if_splits)

lemma within_world_valid: "within_world p \<Longrightarrow> validPosition p"
  by (simp add: within_world_def validPosition_def f32_within_def)

definition axis_step :: "f32 \<Rightarrow> f32 \<Rightarrow> f32" where
  "axis_step step d = (if f32_lt f32_zero d then step else f32_neg step)"

text \<open>
  For a live NPC and a target within the world bounds and any step in (0, 100], the
  planner always decides (its final check of the delta cannot fail), and the decision is one step
  along the first axis of largest distance, in the direction of the target, or no move at all when
  the two positions coincide.
\<close>

theorem plan_decides:
  assumes "0 < ob_npcId ob" "ob_npcAlive ob" "within_world (ob_npcPosition ob)" "within_world (ob_targetPosition ob)"
    and "f32_isfinite (ob_step ob)" "\<not> f32_le (ob_step ob) f32_zero" "\<not> f32_lt MAX_MOVE_DISTANCE_PER_FRAME (ob_step ob)"
  shows "let dx = f32_sub (pos_x (ob_targetPosition ob)) (pos_x (ob_npcPosition ob));
             dy = f32_sub (pos_y (ob_targetPosition ob)) (pos_y (ob_npcPosition ob));
             dz = f32_sub (pos_z (ob_targetPosition ob)) (pos_z (ob_npcPosition ob));
             go = axis_step (ob_step ob) in
    NpcAiPlanner_plan ob = Some
      (if f32_mag dx = 0 \<and> f32_mag dy = 0 \<and> f32_mag dz = 0
       then \<lparr>nd_npcId = ob_npcId ob, nd_dx = f32_zero, nd_dy = f32_zero, nd_dz = f32_zero\<rparr>
       else if max (f32_mag dy) (f32_mag dz) \<le> f32_mag dx
       then \<lparr>nd_npcId = ob_npcId ob, nd_dx = go dx, nd_dy = f32_zero, nd_dz = f32_zero\<rparr>
       else if f32_mag dz \<le> f32_mag dy
       then \<lparr>nd_npcId = ob_npcId ob, nd_dx = f32_zero, nd_dy = go dy, nd_dz = f32_zero\<rparr>
       else \<lparr>nd_npcId = ob_npcId ob, nd_dx = f32_zero, nd_dy = f32_zero, nd_dz = go dz\<rparr>)"
proof -
  define dx where "dx = f32_sub (pos_x (ob_targetPosition ob)) (pos_x (ob_npcPosition ob))"
  define dy where "dy = f32_sub (pos_y (ob_targetPosition ob)) (pos_y (ob_npcPosition ob))"
  define dz where "dz = f32_sub (pos_z (ob_targetPosition ob)) (pos_z (ob_npcPosition ob))"
  have fin: "f32_isfinite dx" "f32_isfinite dy" "f32_isfinite dz"
    using assms(3,4) by (auto simp: within_world_def dx_def dy_def dz_def intro: difference_finite)
  then obtain s m t n u k where d: "dx = F_Fin s m" "dy = F_Fin t n" "dz = F_Fin u k"
    by (auto simp: f32_isfinite_iff)
  have "f32_within move_limit (ob_step ob)" using assms(5-7) by (rule within_move_limitI)
  then have go: "f32_within move_limit (axis_step (ob_step ob) e)" for e by (simp add: axis_step_def)
  have vp: "validPosition (ob_npcPosition ob)" "validPosition (ob_targetPosition ob)"
    using assms(3,4) by (auto intro: within_world_valid)
  show ?thesis
    unfolding NpcAiPlanner_plan_def Let_def dx_def [symmetric] dy_def [symmetric] dz_def [symmetric] axis_step_def [symmetric]
    using assms(1,2,5-7) vp step_valid [OF go] zero_delta_valid unfolding d by (auto simp: f32_le_def)
qed

subsection \<open>Witnesses\<close>

definition sample_observation :: NpcAiObservation where
  "sample_observation = \<lparr>ob_npcId = 7, ob_npcAlive = True, ob_npcPosition = Position_new 7 f32_zero f32_zero f32_zero,
     ob_targetPosition = Position_new 3 f32_zero (F_Fin True (2 * f32_unit)) (F_Fin False f32_unit), ob_step = F_Fin False f32_unit\<rparr>"

theorem plan_decides_witness:
  "NpcAiPlanner_plan sample_observation =
     Some \<lparr>nd_npcId = 7, nd_dx = f32_zero, nd_dy = F_Fin True f32_unit, nd_dz = f32_zero\<rparr>"
  using plan_decides [of sample_observation]
  by (simp add: sample_observation_def Position_new_def within_world_def world_limit_def MAX_MOVE_value move_limit_def
      f32_le_def f32_sub_def f32_pack_def round_mag_def round_even_def axis_step_def Let_def)

lemma unit_step: "isValidMovementDelta (F_Fin False f32_unit) f32_zero f32_zero"
  by (rule step_valid) (simp add: move_limit_def)


theorem npc_restore_undoes_take_witness:
  "\<exists>r q. run_enqueues NpcAiInputQueue_enqueue [\<lparr>nd_npcId = 7, nd_dx = f32_zero, nd_dy = f32_zero, nd_dz = f32_zero\<rparr>]
       (snd (NpcAiInputQueue_takeFrame NpcAiInputQueue_init)) = Some r \<and>
     NpcAiInputQueue_restoreFrame (fst (NpcAiInputQueue_takeFrame NpcAiInputQueue_init)) r = Some q"
proof -
  have "run_enqueues NpcAiInputQueue_enqueue [\<lparr>nd_npcId = 7, nd_dx = f32_zero, nd_dy = f32_zero, nd_dz = f32_zero\<rparr>]
      NpcAiInputQueue_init = Some \<lparr>nq_pending = [\<lparr>ni_sequence = 1,
        ni_decision = \<lparr>nd_npcId = 7, nd_dx = f32_zero, nd_dy = f32_zero, nd_dz = f32_zero\<rparr>\<rparr>], nq_nextSequence = 2\<rparr>"
    by (simp add: NpcAiInputQueue_enqueue_def NpcAiInputQueue_init_def zero_delta_valid MAX_PENDING_NPC_INPUTS_def)
  from npc_restore_undoes_take [OF _ this] show ?thesis by (auto simp: NpcAiInputQueue_init_def)
qed

end
