(* ===== verification/Entities.thy ===== *)
theory Entities
  imports Std_Map Movement
begin

text \<open>
  The entities of the world: \<open>Status\<close>, \<open>Buff\<close>, \<open>Player\<close> (with \<open>PlayerName.h\<close>), \<open>Npc\<close>, \<open>Action\<close> and
  \<open>ActionQueue\<close>. \<open>long\<close> is a 64-bit integer; \<open>status_ok\<close> is the range of the two counters, and
  \<open>gain_long\<close>, which the code repeats for hit points and magic points, is shown to be saturating
  addition on it.
\<close>

subsection \<open>Status\<close>

record Status =
  st_hp :: int
  st_mp :: int

definition Status_default :: Status where
  "Status_default = \<lparr>st_hp = 0, st_mp = 0\<rparr>"

definition Status_new :: "int \<Rightarrow> int \<Rightarrow> Status" where
  "Status_new hp mp = \<lparr>st_hp = (if hp < 0 then 0 else hp), st_mp = (if mp < 0 then 0 else mp)\<rparr>"

definition Status_setHp :: "int \<Rightarrow> Status \<Rightarrow> Status" where
  "Status_setHp hp s = s\<lparr>st_hp := (if hp < 0 then 0 else hp)\<rparr>"

definition Status_setMp :: "int \<Rightarrow> Status \<Rightarrow> Status" where
  "Status_setMp mp s = s\<lparr>st_mp := (if mp < 0 then 0 else mp)\<rparr>"

text \<open>The arithmetic of \<open>gainHp\<close> and of \<open>gainMp\<close>, on the counter and the amount.\<close>

definition gain_long :: "int \<Rightarrow> int \<Rightarrow> int" where
  "gain_long value amount =
     (if amount > 0 then
        if value > INT64_MAX - amount then INT64_MAX else value + amount
      else if amount < 0 then
        let magnitudeWithoutOne = - (amount + 1) in
        if value \<le> magnitudeWithoutOne then 0 else (value - magnitudeWithoutOne) - 1
      else value)"

definition Status_gainHp :: "int \<Rightarrow> Status \<Rightarrow> Status" where
  "Status_gainHp amount s = s\<lparr>st_hp := gain_long (st_hp s) amount\<rparr>"

definition Status_gainMp :: "int \<Rightarrow> Status \<Rightarrow> Status" where
  "Status_gainMp amount s = s\<lparr>st_mp := gain_long (st_mp s) amount\<rparr>"

definition status_ok :: "Status \<Rightarrow> bool" where
  "status_ok s \<longleftrightarrow> 0 \<le> st_hp s \<and> st_hp s \<le> INT64_MAX \<and> 0 \<le> st_mp s \<and> st_mp s \<le> INT64_MAX"

subsection \<open>Buff\<close>

record Buff =
  bf_id :: int
  bf_buffName :: string
  bf_lifetime :: int
  bf_startTime :: int
  bf_status :: Status

definition Buff_new :: "int \<Rightarrow> string \<Rightarrow> int \<Rightarrow> int \<Rightarrow> Buff" where
  "Buff_new i buffName lifetime startTime =
     \<lparr>bf_id = i, bf_buffName = buffName, bf_lifetime = lifetime, bf_startTime = startTime, bf_status = Status_default\<rparr>"

definition Buff_setStatus :: "Status \<Rightarrow> Buff \<Rightarrow> Buff" where
  "Buff_setStatus s b = b\<lparr>bf_status := s\<rparr>"

subsection \<open>Player names\<close>

definition isPlayerNamePadding :: "char \<Rightarrow> bool" where
  "isPlayerNamePadding ch \<longleftrightarrow> ch = CHR '' '' \<or> ch = CHR 0x09 \<or> ch = CHR 0x0A \<or> ch = CHR 0x0D \<or> ch = CHR 0x0B \<or> ch = CHR 0x0C"

text \<open>The two index loops of \<open>trimPlayerName\<close>.\<close>

function trim_begin :: "string \<Rightarrow> nat \<Rightarrow> nat" where
  "trim_begin raw i = (if i < length raw \<and> isPlayerNamePadding (raw ! i) then trim_begin raw (Suc i) else i)"
  by pat_completeness auto
termination by (relation "measure (\<lambda>(raw, i). length raw - i)") auto

declare trim_begin.simps [simp del]

fun trim_end :: "string \<Rightarrow> nat \<Rightarrow> nat \<Rightarrow> nat" where
  "trim_end raw begin 0 = 0"
| "trim_end raw begin (Suc e) =
     (if Suc e > begin \<and> isPlayerNamePadding (raw ! e) then trim_end raw begin e else Suc e)"

definition trimPlayerName :: "string \<Rightarrow> string" where
  "trimPlayerName raw =
     (let begin = trim_begin raw 0; end' = trim_end raw begin (length raw) in take (end' - begin) (drop begin raw))"

definition isEmptyPlayerName :: "string \<Rightarrow> bool" where
  "isEmptyPlayerName raw \<longleftrightarrow> trimPlayerName raw = []"

subsection \<open>Player\<close>

definition NUL :: char where "NUL = CHR 0x00"

record Player =
  pl_id :: int
  pl_authPlayerId :: int
  pl_name :: "char list"
  pl_status :: Status
  pl_buffs :: "Buff list"
  pl_position :: Position

definition Player_default :: Player where
  "Player_default = \<lparr>pl_id = 0, pl_authPlayerId = 0, pl_name = replicate 64 NUL, pl_status = Status_new 10 10,
     pl_buffs = [], pl_position = Position_new 1 f32_zero f32_zero f32_zero\<rparr>"

definition Player_new :: "int \<Rightarrow> Status \<Rightarrow> Position \<Rightarrow> Player" where
  "Player_new playerId status position =
     \<lparr>pl_id = playerId, pl_authPlayerId = 0, pl_name = replicate 64 NUL, pl_status = status, pl_buffs = [],
      pl_position = Position_copy position\<rparr>"

definition Player_setAuthPlayerId :: "int \<Rightarrow> Player \<Rightarrow> Player" where
  "Player_setAuthPlayerId issuedId p =
     (if pl_authPlayerId p > 0 then p else p\<lparr>pl_authPlayerId := (if issuedId < 0 then 0 else issuedId)\<rparr>)"

text \<open>\<open>std::string(name)\<close> reads up to the first NUL of the array.\<close>

definition Player_getPlayerName :: "Player \<Rightarrow> string" where
  "Player_getPlayerName p = takeWhile (\<lambda>c. c \<noteq> NUL) (pl_name p)"

definition Player_setPlayerName :: "string \<Rightarrow> Player \<Rightarrow> Player option" where
  "Player_setPlayerName displayName p =
     (let trimmed = trimPlayerName displayName in
      if trimmed = [] \<or> length trimmed \<ge> 64 then None
      else if CHR '';'' \<in> set trimmed \<or> CHR ''='' \<in> set trimmed then None
      else Some (p\<lparr>pl_name := trimmed @ replicate (64 - length trimmed) NUL\<rparr>))"

definition Player_setBuff :: "Buff \<Rightarrow> Player \<Rightarrow> Player" where
  "Player_setBuff b p = p\<lparr>pl_buffs := pl_buffs p @ [b]\<rparr>"

definition Player_setHp :: "int \<Rightarrow> Player \<Rightarrow> Player" where
  "Player_setHp hp p = p\<lparr>pl_status := Status_setHp hp (pl_status p)\<rparr>"

definition Player_setMp :: "int \<Rightarrow> Player \<Rightarrow> Player" where
  "Player_setMp mp p = p\<lparr>pl_status := Status_setMp mp (pl_status p)\<rparr>"

definition Player_setStatus :: "Status \<Rightarrow> Player \<Rightarrow> Player" where
  "Player_setStatus s p = p\<lparr>pl_status := s\<rparr>"

text \<open>\<open>status.gainHp(s.getHp()); status.gainMp(s.getMp());\<close>, the pair of calls every effect makes.\<close>

definition gain_status :: "Status \<Rightarrow> Status \<Rightarrow> Status" where
  "gain_status amount s = Status_gainMp (st_mp amount) (Status_gainHp (st_hp amount) s)"

definition Player_processBuffs :: "Player \<Rightarrow> Player" where
  "Player_processBuffs p = p\<lparr>pl_status := fold (\<lambda>b. gain_status (bf_status b)) (pl_buffs p) (pl_status p)\<rparr>"

definition Player_setPosition :: "Position \<Rightarrow> Player \<Rightarrow> Player" where
  "Player_setPosition newPosition p =
     p\<lparr>pl_position := Position_setPosition (pos_x newPosition) (pos_y newPosition) (pos_z newPosition) (pl_position p)\<rparr>"

subsection \<open>Npc\<close>

record Npc =
  npc_id :: int
  npc_type :: string
  npc_status :: Status
  npc_position :: Position
  npc_alive :: bool

definition Npc_new :: "int \<Rightarrow> string \<Rightarrow> Status \<Rightarrow> Position \<Rightarrow> Npc" where
  "Npc_new npcId npcType status position =
     \<lparr>npc_id = npcId, npc_type = npcType, npc_status = status, npc_position = Position_copy position,
      npc_alive = (st_hp status > 0)\<rparr>"

definition Npc_isAlive :: "Npc \<Rightarrow> bool" where
  "Npc_isAlive n \<longleftrightarrow> npc_alive n \<and> st_hp (npc_status n) > 0"

definition Npc_setPosition :: "Position \<Rightarrow> Npc \<Rightarrow> Npc" where
  "Npc_setPosition newPosition n =
     n\<lparr>npc_position := Position_setPosition (pos_x newPosition) (pos_y newPosition) (pos_z newPosition) (npc_position n)\<rparr>"

definition Npc_applyDamage :: "int \<Rightarrow> Npc \<Rightarrow> Npc option" where
  "Npc_applyDamage damage n =
     (if \<not> Npc_isAlive n \<or> damage \<le> 0 then None
      else let status = Status_gainHp (- damage) (npc_status n) in
        Some (n\<lparr>npc_status := status, npc_alive := (if st_hp status = 0 then False else npc_alive n)\<rparr>))"

definition Npc_respawn :: "Status \<Rightarrow> Position \<Rightarrow> Npc \<Rightarrow> Npc option" where
  "Npc_respawn newStatus newPosition n =
     (if st_hp newStatus \<le> 0 then None
      else Some ((Npc_setPosition newPosition (n\<lparr>npc_status := newStatus\<rparr>))\<lparr>npc_alive := True\<rparr>))"

subsection \<open>Action and ActionQueue\<close>

record Action =
  ac_actionType :: int
  ac_playerFrom :: Player
  ac_playerTo :: Player
  ac_status :: Status
  ac_valid :: bool

text \<open>A null pointer argument is \<open>None\<close>.\<close>

definition Action_new :: "int \<Rightarrow> Player option \<Rightarrow> Player option \<Rightarrow> Status \<Rightarrow> Action" where
  "Action_new actionType playerFrom playerTo status =
     \<lparr>ac_actionType = actionType,
      ac_playerFrom = (case playerFrom of Some p \<Rightarrow> p | None \<Rightarrow> Player_default),
      ac_playerTo = (case playerTo of Some p \<Rightarrow> p | None \<Rightarrow> Player_default),
      ac_status = status,
      ac_valid = (actionType = 0 \<or>
        (actionType = 1 \<and> playerFrom \<noteq> None \<and> playerTo \<noteq> None) \<or>
        ((actionType = 2 \<or> actionType = 3) \<and> playerFrom \<noteq> None))\<rparr>"

record QueuedAction =
  qa_sequence :: u64
  qa_action :: Action

definition MAX_PENDING_ACTIONS :: nat where
  "MAX_PENDING_ACTIONS = 4096"

record ActionQueue =
  aq_pending :: "QueuedAction list"
  aq_nextSequence :: u64

definition ActionQueue_init :: ActionQueue where
  "ActionQueue_init = \<lparr>aq_pending = [], aq_nextSequence = 1\<rparr>"

definition ActionQueue_enqueue :: "Action \<Rightarrow> ActionQueue \<Rightarrow> ActionQueue option" where
  "ActionQueue_enqueue action q =
     (if \<not> ac_valid action then None
      else if length (aq_pending q) \<ge> MAX_PENDING_ACTIONS \<or> aq_nextSequence q = UINT64_MAX then None
      else Some (q\<lparr>aq_pending := aq_pending q @ [\<lparr>qa_sequence = aq_nextSequence q, qa_action = action\<rparr>],
                  aq_nextSequence := aq_nextSequence q + 1\<rparr>))"

definition ActionQueue_takeFrame :: "ActionQueue \<Rightarrow> QueuedAction list \<times> ActionQueue" where
  "ActionQueue_takeFrame q =
     (let (frame, pending) = drain_front [] (aq_pending q) in (frame, q\<lparr>aq_pending := pending\<rparr>))"

definition ActionQueue_pendingCount :: "ActionQueue \<Rightarrow> nat" where
  "ActionQueue_pendingCount q = length (aq_pending q)"

subsection \<open>Lemmas\<close>

lemma gain_long_saturates:
  assumes "0 \<le> v" "v \<le> INT64_MAX" "is_int64 d"
  shows "gain_long v d = max 0 (min INT64_MAX (v + d))"
  using assms by (auto simp: gain_long_def Let_def is_int64_def)

lemma gain_long_range:
  assumes "0 \<le> v" "v \<le> INT64_MAX"
  shows "0 \<le> gain_long v d" "gain_long v d \<le> INT64_MAX"
  using assms by (auto simp: gain_long_def Let_def)

lemma status_ok_ops [simp, intro]:
  "status_ok Status_default"
  "hp \<le> INT64_MAX \<Longrightarrow> mp \<le> INT64_MAX \<Longrightarrow> status_ok (Status_new hp mp)"
  "status_ok s \<Longrightarrow> status_ok (Status_gainHp d s)" "status_ok s \<Longrightarrow> status_ok (Status_gainMp d s)"
  "status_ok s \<Longrightarrow> status_ok (gain_status a s)"
  by (auto simp: status_ok_def Status_default_def Status_new_def Status_gainHp_def Status_gainMp_def gain_status_def
      intro: gain_long_range)

text \<open>
  \<open>gainHp\<close> and \<open>gainMp\<close> are saturating addition: within the range of \<open>long\<close>, for every
  amount including the most negative one, the counter becomes the sum clamped to \<open>[0, LONG_MAX]\<close>; no
  intermediate value leaves the type.
\<close>

theorem gain_saturates:
  assumes "status_ok s" and "is_int64 d"
  shows "st_hp (Status_gainHp d s) = max 0 (min INT64_MAX (st_hp s + d)) \<and>
    st_mp (Status_gainHp d s) = st_mp s \<and>
    st_mp (Status_gainMp d s) = max 0 (min INT64_MAX (st_mp s + d)) \<and>
    st_hp (Status_gainMp d s) = st_hp s"
  using assms by (simp add: Status_gainHp_def Status_gainMp_def status_ok_def gain_long_saturates)

theorem gain_saturates_witness:
  "st_hp (Status_gainHp INT64_MIN (Status_new 10 10)) = 0 \<and> st_mp (Status_gainMp INT64_MAX (Status_new 10 10)) = INT64_MAX"
  using gain_saturates [of "Status_new 10 10" INT64_MIN] gain_saturates [of "Status_new 10 10" INT64_MAX]
  by (simp add: is_int64_def) (simp add: Status_new_def)

text \<open>An NPC whose flag is down is dead for good until a respawn; damage never resurrects it.\<close>

definition npc_ok :: "Npc \<Rightarrow> bool" where
  "npc_ok n \<longleftrightarrow> status_ok (npc_status n) \<and> (npc_alive n \<longrightarrow> 0 < st_hp (npc_status n))"

lemma Npc_new_ok: "status_ok s \<Longrightarrow> npc_ok (Npc_new i t s p)"
  by (simp add: npc_ok_def Npc_new_def)

lemma Npc_applyDamage_ok: "npc_ok n \<Longrightarrow> Npc_applyDamage d n = Some n' \<Longrightarrow> npc_ok n'"
  using status_ok_ops(3) [of "npc_status n" "- d"]
  by (auto simp: npc_ok_def Npc_applyDamage_def Let_def status_ok_def split: if_splits)

lemma Npc_applyDamage_id: "Npc_applyDamage d n = Some n' \<Longrightarrow> npc_id n' = npc_id n \<and> npc_position n' = npc_position n"
  by (auto simp: Npc_applyDamage_def Let_def split: if_splits)

lemma Npc_respawn_ok: "npc_ok n \<Longrightarrow> status_ok s \<Longrightarrow> Npc_respawn s p n = Some n' \<Longrightarrow> npc_ok n' \<and> Npc_isAlive n' \<and> npc_id n' = npc_id n"
  by (auto simp: npc_ok_def Npc_respawn_def Npc_isAlive_def Npc_setPosition_def split: if_splits)

lemma Npc_setPosition_simps [simp]:
  "npc_id (Npc_setPosition p n) = npc_id n" "npc_status (Npc_setPosition p n) = npc_status n"
  "npc_alive (Npc_setPosition p n) = npc_alive n" "Npc_isAlive (Npc_setPosition p n) = Npc_isAlive n"
  "npc_ok (Npc_setPosition p n) = npc_ok n"
  by (simp_all add: Npc_setPosition_def Npc_isAlive_def npc_ok_def)

interpretation actions: intent_queue aq_pending aq_nextSequence qa_sequence
  "\<lambda>a n. \<lparr>qa_sequence = n, qa_action = a\<rparr>" ac_valid MAX_PENDING_ACTIONS
  ActionQueue_enqueue ActionQueue_takeFrame
  by unfold_locales
    (auto simp: ActionQueue_enqueue_def ActionQueue_takeFrame_def split: if_splits)

subsection \<open>Names\<close>

lemma trim_begin_eq: "i \<le> length raw \<Longrightarrow> drop (trim_begin raw i) raw = dropWhile isPlayerNamePadding (drop i raw) \<and>
    i \<le> trim_begin raw i \<and> trim_begin raw i \<le> length raw"
proof (induction raw i rule: trim_begin.induct)
  case (1 raw i)
  show ?case
  proof (cases "i < length raw \<and> isPlayerNamePadding (raw ! i)")
    case True
    then have "drop i raw = raw ! i # drop (Suc i) raw" by (simp add: Cons_nth_drop_Suc)
    then show ?thesis using 1 True by (simp add: trim_begin.simps [of raw i])
  next
    case False
    have "dropWhile isPlayerNamePadding (drop i raw) = drop i raw"
    proof (cases "i < length raw")
      case True
      then show ?thesis using False by (simp add: Cons_nth_drop_Suc [symmetric])
    qed simp
    moreover have "trim_begin raw i = i" using False trim_begin.simps [of raw i] by argo
    ultimately show ?thesis using "1.prems" by simp
  qed
qed

definition trimmed :: "string \<Rightarrow> string" where
  "trimmed raw = rev (dropWhile isPlayerNamePadding (rev (dropWhile isPlayerNamePadding raw)))"

lemma trim_end_eq:
  "b \<le> e \<Longrightarrow> e \<le> length raw \<Longrightarrow>
     take (trim_end raw b e - b) (drop b raw) = rev (dropWhile isPlayerNamePadding (rev (take (e - b) (drop b raw))))"
proof (induction raw b e rule: trim_end.induct)
  case (2 raw b e)
  show ?case
  proof (cases "b < Suc e")
    case True
    then have split: "take (Suc e - b) (drop b raw) = take (e - b) (drop b raw) @ [raw ! e]"
      using 2(3) by (simp add: Suc_diff_le take_Suc_conv_app_nth)
    show ?thesis using 2 True by (simp add: split)
  next
    case False
    then show ?thesis using 2(2) by simp
  qed
qed simp

lemma trimPlayerName_eq: "trimPlayerName raw = trimmed raw"
proof -
  have b: "drop (trim_begin raw 0) raw = dropWhile isPlayerNamePadding raw" "trim_begin raw 0 \<le> length raw"
    using trim_begin_eq [of 0 raw] by auto
  moreover have "length raw - trim_begin raw 0 = length (drop (trim_begin raw 0) raw)" by simp
  ultimately show ?thesis
    using trim_end_eq [of "trim_begin raw 0" "length raw" raw] by (simp add: trimPlayerName_def trimmed_def Let_def)
qed

lemma dropWhile_hd: "dropWhile P xs = y # ys \<Longrightarrow> \<not> P y"
  by (metis dropWhile_eq_Cons_conv)

lemma trimmed_idem: "trimmed (trimmed raw) = trimmed raw"
proof -
  define ys where "ys = dropWhile isPlayerNamePadding raw"
  define zs where "zs = dropWhile isPlayerNamePadding (rev ys)"
  have hd_ys: "ys \<noteq> [] \<Longrightarrow> \<not> isPlayerNamePadding (hd ys)" unfolding ys_def by (rule hd_dropWhile)
  obtain ws where ws: "rev ys = ws @ zs" unfolding zs_def by (metis takeWhile_dropWhile_id)
  then have ys: "ys = rev zs @ rev ws" by (metis rev_append rev_rev_ident)
  have 1: "dropWhile isPlayerNamePadding (rev zs) = rev zs"
  proof (cases "rev zs")
    case (Cons a as)
    then show ?thesis using hd_ys ys by simp
  qed simp
  have 2: "dropWhile isPlayerNamePadding zs = zs" by (simp add: zs_def)
  have "trimmed raw = rev zs" by (simp add: trimmed_def zs_def ys_def)
  then show ?thesis using 1 2 by (simp add: trimmed_def)
qed

text \<open>
  A name that \<open>setPlayerName\<close> accepts and that holds no NUL is read back as its trimmed
  form, is never empty, and carries no separator of the snapshot format and no padding at its ends,
  so that setting the read-back name changes nothing.
\<close>

lemma setPlayerName_reads:
  assumes "Player_setPlayerName raw p = Some p'" and "NUL \<notin> set raw"
  shows "Player_getPlayerName p' = trimPlayerName raw \<and> Player_getPlayerName p' \<noteq> [] \<and>
    CHR '';'' \<notin> set (Player_getPlayerName p') \<and> CHR ''='' \<notin> set (Player_getPlayerName p') \<and>
    length (pl_name p') = 64 \<and> Player_setPlayerName (Player_getPlayerName p') p' = Some p'"
proof -
  have "set (trimmed raw) \<subseteq> set raw" unfolding trimmed_def by (metis set_dropWhileD set_rev subsetI)
  then have nul: "NUL \<notin> set (trimmed raw)" using assms(2) by auto
  have p': "trimmed raw \<noteq> []" "length (trimmed raw) < 64" "CHR '';'' \<notin> set (trimmed raw)"
    "CHR ''='' \<notin> set (trimmed raw)" "p' = p\<lparr>pl_name := trimmed raw @ replicate (64 - length (trimmed raw)) NUL\<rparr>"
    using assms(1) by (auto simp: Player_setPlayerName_def trimPlayerName_eq Let_def split: if_splits)
  have "takeWhile (\<lambda>c. c \<noteq> NUL) (trimmed raw @ ys) = trimmed raw @ takeWhile (\<lambda>c. c \<noteq> NUL) ys" for ys
    using nul by (intro takeWhile_append2) auto
  then have name: "Player_getPlayerName p' = trimmed raw"
    using p'(5) by (simp add: Player_getPlayerName_def takeWhile_replicate)
  show ?thesis using p' name by (simp add: Player_setPlayerName_def trimPlayerName_eq trimmed_idem Let_def)
qed

end
