(* ===== verification/Ether.thy ===== *)
theory Ether
  imports Float32
begin

text \<open>
  \<open>EnvironmentEther.cpp\<close>: the four elemental values of the environment, how a spell is amplified by
  them and shifts them, and their decay. The invariant \<open>ether_ok\<close> keeps every value a finite \<open>float\<close>
  within \<open>MAX_ETHER_VALUE\<close>; all bounds are proved through the rounding of each operation.
\<close>

subsection \<open>The model\<close>

datatype EtherAttribute = Fire | Water | Earth | Air

primrec EtherAttribute_index :: "EtherAttribute \<Rightarrow> nat" where
  "EtherAttribute_index Fire = 0"
| "EtherAttribute_index Water = 1"
| "EtherAttribute_index Earth = 2"
| "EtherAttribute_index Air = 3"

definition MAX_ETHER_VALUE :: f32 where
  "MAX_ETHER_VALUE = f32_lit 100000 1"

definition ETHER_DECAY_FACTOR :: f32 where
  "ETHER_DECAY_FACTOR = f32_lit 98 100"

record EnvironmentEther =
  ee_values :: "f32 list"

definition EnvironmentEther_init :: EnvironmentEther where
  "EnvironmentEther_init = \<lparr>ee_values = [f32_zero, f32_zero, f32_zero, f32_zero]\<rparr>"

definition attributeForElement :: "string \<Rightarrow> EtherAttribute option" where
  "attributeForElement element =
     (if element = ''fire'' then Some Fire
      else if element = ''water'' then Some Water
      else if element = ''earth'' then Some Earth
      else if element = ''air'' then Some Air
      else None)"

definition isKnownElement :: "string \<Rightarrow> bool" where
  "isKnownElement element \<longleftrightarrow> attributeForElement element \<noteq> None"

definition EnvironmentEther_value :: "EnvironmentEther \<Rightarrow> EtherAttribute \<Rightarrow> f32" where
  "EnvironmentEther_value e attribute = ee_values e ! EtherAttribute_index attribute"

definition EnvironmentEther_conductivity :: "EnvironmentEther \<Rightarrow> EtherAttribute \<Rightarrow> f32" where
  "EnvironmentEther_conductivity e attribute =
     (let magnitude = f32_abs (EnvironmentEther_value e attribute) in
      f32_add (f32_lit 1 1) (f32_min (f32_div magnitude (f32_lit 100 1)) (f32_lit 1 1)))"

definition EnvironmentEther_instability :: "EnvironmentEther \<Rightarrow> f32" where
  "EnvironmentEther_instability e =
     (let totalMagnitude = fold (\<lambda>v total. f32_add total (f32_abs v)) (ee_values e) f32_zero in
      f32_min (f32_div totalMagnitude (f32_lit 200 1)) (f32_lit 10 1))"

definition EnvironmentEther_adverseEffectSeverity :: "EnvironmentEther \<Rightarrow> f32" where
  "EnvironmentEther_adverseEffectSeverity e =
     f32_max f32_zero (f32_sub (EnvironmentEther_instability e) (f32_lit 1 1))"

definition EnvironmentEther_hasAdverseEffect :: "EnvironmentEther \<Rightarrow> bool" where
  "EnvironmentEther_hasAdverseEffect e \<longleftrightarrow> f32_lt f32_zero (EnvironmentEther_adverseEffectSeverity e)"

definition EnvironmentEther_add :: "EtherAttribute \<Rightarrow> f32 \<Rightarrow> EnvironmentEther \<Rightarrow> EnvironmentEther option" where
  "EnvironmentEther_add attribute amount e =
     (if \<not> f32_isfinite amount then None
      else let current = EnvironmentEther_value e attribute in
        Some (e\<lparr>ee_values := (ee_values e)[EtherAttribute_index attribute :=
          f32_max (f32_neg MAX_ETHER_VALUE) (f32_min MAX_ETHER_VALUE (f32_add current amount))]\<rparr>))"

primrec opposing :: "EtherAttribute \<Rightarrow> EtherAttribute" where
  "opposing Fire = Water"
| "opposing Water = Fire"
| "opposing Earth = Air"
| "opposing Air = Earth"

text \<open>\<open>resolveSpell\<close>: the ether as the call leaves it, with the error or the effective power.\<close>

definition EnvironmentEther_resolveSpell ::
    "string \<Rightarrow> f32 \<Rightarrow> EnvironmentEther \<Rightarrow> EnvironmentEther \<times> f32 result" where
  "EnvironmentEther_resolveSpell element basePower e =
     (case attributeForElement element of
        None \<Rightarrow> (e, Inl ''spell element is unknown'')
      | Some attribute \<Rightarrow>
          if \<not> f32_isfinite basePower \<or> f32_le basePower f32_zero then (e, Inl ''spell power is invalid'')
          else let effectivePower = f32_mul basePower (EnvironmentEther_conductivity e attribute) in
            if \<not> f32_isfinite effectivePower then (e, Inl ''spell effective power is invalid'')
            else let environmentalInfluence = f32_mul basePower (f32_lit 1 10) in
              case EnvironmentEther_add attribute environmentalInfluence e of
                None \<Rightarrow> (e, Inl ''spell ether influence is invalid'')
              | Some e1 \<Rightarrow>
                  (case EnvironmentEther_add (opposing attribute)
                          (f32_mul (f32_neg environmentalInfluence) (f32_lit 1 4)) e1 of
                     None \<Rightarrow> (e1, Inl ''spell ether interaction is invalid'')
                   | Some e2 \<Rightarrow> (e2, Inr effectivePower)))"

definition EnvironmentEther_decay :: "EnvironmentEther \<Rightarrow> EnvironmentEther" where
  "EnvironmentEther_decay e = e\<lparr>ee_values := map (\<lambda>v. f32_mul v ETHER_DECAY_FACTOR) (ee_values e)\<rparr>"

subsection \<open>The invariant\<close>

text \<open>\<open>100000\<close> in units of \<open>2^-149\<close>.\<close>

definition ether_limit :: nat where
  "ether_limit = 100000 * f32_unit"

definition ether_ok :: "EnvironmentEther \<Rightarrow> bool" where
  "ether_ok e \<longleftrightarrow> length (ee_values e) = 4 \<and> list_all (\<lambda>v. f32_ok v \<and> f32_within ether_limit v) (ee_values e)"

lemma MAX_ETHER_value: "MAX_ETHER_VALUE = F_Fin False ether_limit"
  unfolding MAX_ETHER_VALUE_def ether_limit_def by (rule f32_lit_nat) simp

lemma f32_lit_one: "f32_lit (Suc 0) (Suc 0) = F_Fin False f32_unit"
  using f32_lit_nat [of 1] by simp

lemma f32_ok_lit: "f32_ok (F_Fin False (n * f32_unit))" if "n < 2 ^ 24"
  using f32_ok_ops(7) [of 1 n] unfolding f32_lit_nat [OF that] by simp

lemma f32_ok_unit: "f32_ok (F_Fin False f32_unit)"
  using f32_ok_lit [of 1] by (simp del: f32_ok.simps)

lemma f32_ok_ether: "f32_ok (F_Fin s ether_limit)"
  using f32_ok_lit [of 100000] by (simp add: ether_limit_def)

lemma index_less [simp]: "EtherAttribute_index a < 4"
  by (cases a) auto

lemma ether_value_ok:
  assumes "ether_ok e"
  shows "f32_ok (EnvironmentEther_value e a)" "f32_within ether_limit (EnvironmentEther_value e a)"
  using assms index_less [of a] by (auto simp: ether_ok_def EnvironmentEther_value_def list_all_length)

text \<open>A factor of magnitude at most one does not grow a magnitude.\<close>

lemma f32_mul_shrinks:
  assumes "f32_ok x" "f32_within b x" "f32_within f32_unit y"
  shows "f32_within b (f32_mul x y)"
proof -
  obtain s m t n where x: "x = F_Fin s m" "m \<le> b" and y: "y = F_Fin t n" "n \<le> f32_unit"
    using assms by (meson f32_withinE)
  have "f32_within m (f32_pack (s \<noteq> t) (m * n) f32_unit)"
    using assms(1) y(2) unfolding x by (intro f32_within_pack f32_ok_representable [OF assms(1) [unfolded x]]) auto
  then show ?thesis using x y by (auto simp: f32_within_def)
qed

lemma f32_lit_within_one: "n \<le> d \<Longrightarrow> 0 < d \<Longrightarrow> f32_within f32_unit (f32_lit n d)"
  unfolding f32_lit_def using representable_pow2 [of 24 149] by (intro f32_within_pack) (auto simp: mult.commute)

lemma ether_limit_range: "representable 24 ether_limit" "ether_limit < f32_overflow"
  using f32_ok_ether [of False] f32_ok_representable by (auto simp: ether_limit_def)

lemma clamp_within:
  assumes "\<not> f32_isnan x" "f32_ok x"
  defines "y \<equiv> f32_max (f32_neg MAX_ETHER_VALUE) (f32_min MAX_ETHER_VALUE x)"
  shows "f32_ok y \<and> f32_within ether_limit y"
proof (cases x)
  case (F_Fin s m)
  then show ?thesis using assms(2) f32_ok_ether
    by (auto simp: y_def f32_max_def f32_min_def MAX_ETHER_value simp del: f32_ok.simps)
qed (use assms f32_ok_ether in \<open>auto simp: y_def f32_max_def f32_min_def MAX_ETHER_value simp del: f32_ok.simps\<close>)

lemma f32_isnan_pack [simp]: "\<not> f32_isnan (f32_pack s n d)"
  by (simp add: f32_pack_def Let_def)

lemma f32_add_not_nan: "f32_isfinite x \<Longrightarrow> f32_isfinite y \<Longrightarrow> \<not> f32_isnan (f32_add x y)"
  by (auto simp: f32_isfinite_iff Let_def simp del: f32_int.simps split: if_splits)

lemma ether_add_Some:
  assumes "ether_ok e" "f32_isfinite amount"
  shows "\<exists>e'. EnvironmentEther_add a amount e = Some e' \<and> ether_ok e'"
proof -
  have fin: "f32_isfinite (EnvironmentEther_value e a)" using ether_value_ok [OF assms(1)] by (simp add: f32_within_def)
  have "f32_ok y \<and> f32_within ether_limit y"
    if "y = f32_max (f32_neg MAX_ETHER_VALUE) (f32_min MAX_ETHER_VALUE (f32_add (EnvironmentEther_value e a) amount))" for y
    unfolding that by (rule clamp_within [OF f32_add_not_nan [OF fin assms(2)]]) simp
  then show ?thesis using assms
    by (auto simp: EnvironmentEther_add_def ether_ok_def Let_def list_all_iff dest: set_update_subset_insert [THEN subsetD])
qed

subsection \<open>Conductivity, severity, decay\<close>

lemma f32_div_nonneg: "f32_isfinite x \<Longrightarrow> f32_nonneg x \<Longrightarrow> 0 < n \<Longrightarrow> f32_nonneg (f32_div x (F_Fin False n))"
  by (auto simp: f32_isfinite_iff)

lemma f32_min_nonneg:
  assumes "f32_nonneg x" "f32_ok x" "f32_ok (F_Fin False b)"
  shows "f32_nonneg (f32_min x (F_Fin False b)) \<and> f32_ok (f32_min x (F_Fin False b)) \<and> f32_within b (f32_min x (F_Fin False b))"
  using assms by (cases x) (auto simp: f32_min_def)

lemma conductivity_bounds:
  assumes "f32_isfinite (EnvironmentEther_value e a)"
  shows "\<exists>c. EnvironmentEther_conductivity e a = F_Fin False c \<and> f32_unit \<le> c \<and> c \<le> 2 * f32_unit"
proof -
  define x where "x = f32_min (f32_div (f32_abs (EnvironmentEther_value e a)) (f32_lit 100 1)) (f32_lit 1 1)"
  have "f32_nonneg (f32_div (f32_abs (EnvironmentEther_value e a)) (F_Fin False (100 * f32_unit)))"
    using assms by (intro f32_div_nonneg) (auto simp: f32_isfinite_iff)
  then have x: "f32_nonneg x" "f32_ok x" "f32_within f32_unit x"
    using f32_min_nonneg [OF _ _ f32_ok_unit] f32_lit_nat [of 100] by (auto simp: x_def f32_lit_one simp del: f32_ok.simps)
  have "representable 24 (f32_unit + f32_unit)" using representable_pow2 [of 24 150] by simp
  then have "f32_within (f32_unit + f32_unit) (f32_add (f32_lit 1 1) x)"
    using x(3) by (intro f32_add_mono) (auto simp: f32_lit_one)
  then obtain s c where c: "f32_add (f32_lit 1 1) x = F_Fin s c" "c \<le> f32_unit + f32_unit" by (rule f32_withinE)
  have "f32_nonneg (F_Fin s c)" "f32_le (F_Fin False f32_unit) (F_Fin s c)"
    using f32_nonneg_add [of "f32_lit 1 1" x] x f32_ok_unit unfolding c(1) by (auto simp: f32_lit_one)
  then show ?thesis using c by (auto simp: EnvironmentEther_conductivity_def x_def f32_le_def)
qed

lemma decay_ok:
  assumes "ether_ok e"
  shows "ether_ok (EnvironmentEther_decay e)"
  using assms f32_mul_shrinks [OF _ _ f32_lit_within_one [of 98 100]]
  by (auto simp: ether_ok_def EnvironmentEther_decay_def ETHER_DECAY_FACTOR_def list_all_iff)

lemma decay_shrinks:
  assumes "ether_ok e"
  shows "f32_within (f32_mag (EnvironmentEther_value e a)) (EnvironmentEther_value (EnvironmentEther_decay e) a)"
proof -
  have "f32_within (f32_mag (EnvironmentEther_value e a)) (f32_mul (EnvironmentEther_value e a) ETHER_DECAY_FACTOR)"
    unfolding ETHER_DECAY_FACTOR_def using ether_value_ok [OF assms, of a]
    by (intro f32_mul_shrinks f32_lit_within_one) (auto simp: f32_within_def)
  moreover have "EnvironmentEther_value (EnvironmentEther_decay e) a = f32_mul (EnvironmentEther_value e a) ETHER_DECAY_FACTOR"
    using assms by (simp add: EnvironmentEther_value_def EnvironmentEther_decay_def ether_ok_def)
  ultimately show ?thesis by simp
qed

lemma resolveSpell_power:
  assumes "f32_ok base" "f32_isfinite base" "\<not> f32_le base f32_zero" "f32_mag base < 2 ^ 276"
    and "f32_isfinite (EnvironmentEther_value e a)"
  shows "\<exists>b p. base = F_Fin False b \<and> f32_mul base (EnvironmentEther_conductivity e a) = F_Fin False p \<and> b \<le> p \<and> p \<le> 2 * b"
proof -
  obtain b where b: "base = F_Fin False b" "b < 2 ^ 276"
    using assms(2-4) by (auto simp: f32_isfinite_iff f32_le_def split: if_splits)
  obtain c where c: "EnvironmentEther_conductivity e a = F_Fin False c" "f32_unit \<le> c" "c \<le> 2 * f32_unit"
    using conductivity_bounds [OF assms(5)] by blast
  have rep: "representable 24 b" using assms(1) b(1) f32_ok_representable by blast
  then have rep2: "representable 24 (2 * b)" using representable_shift [of 24 b 1] by (simp add: mult.commute)
  have "round_mag 24 (b * c) f32_unit \<le> 2 * b"
    by (rule round_mag_le [OF _ rep2]) (use mult_le_mono2 [OF c(3), of b] in \<open>simp_all add: ac_simps\<close>)
  moreover have "b \<le> round_mag 24 (b * c) f32_unit"
    by (rule round_mag_ge [OF _ rep]) (use mult_le_mono2 [OF c(2), of b] in simp_all)
  moreover have "2 * b < f32_overflow" using b(2) by simp
  ultimately show ?thesis using b(1) c(1) by (simp add: f32_pack_def Let_def)
qed

lemma influence_finite:
  assumes "f32_ok base" "f32_isfinite base"
  shows "f32_isfinite (f32_mul base (f32_lit 1 10))"
    "f32_isfinite (f32_mul (f32_neg (f32_mul base (f32_lit 1 10))) (f32_lit 1 4))"
proof -
  have base: "f32_within (f32_mag base) base" using assms(2) by (simp add: f32_within_def)
  have 1: "f32_within (f32_mag base) (f32_mul base (f32_lit 1 10))"
    by (rule f32_mul_shrinks [OF assms(1) base f32_lit_within_one]) simp_all
  then have "f32_within (f32_mag base) (f32_neg (f32_mul base (f32_lit 1 10)))" by (auto elim!: f32_withinE)
  then have "f32_within (f32_mag base) (f32_mul (f32_neg (f32_mul base (f32_lit 1 10))) (f32_lit 1 4))"
    by (intro f32_mul_shrinks f32_lit_within_one) auto
  with 1 show "f32_isfinite (f32_mul base (f32_lit 1 10))"
    "f32_isfinite (f32_mul (f32_neg (f32_mul base (f32_lit 1 10))) (f32_lit 1 4))" by (auto simp: f32_within_def)
qed

lemma resolveSpell_ok:
  assumes "ether_ok e" "f32_ok base" "EnvironmentEther_resolveSpell element base e = (e', r)"
  shows "ether_ok e'"
proof (cases "attributeForElement element")
  case (Some a)
  show ?thesis
  proof (cases "f32_isfinite base")
    case True
    obtain e1 where e1: "EnvironmentEther_add a (f32_mul base (f32_lit 1 10)) e = Some e1" "ether_ok e1"
      using ether_add_Some [OF assms(1) influence_finite(1) [OF assms(2) True]] by blast
    obtain e2 where "EnvironmentEther_add (opposing a) (f32_mul (f32_neg (f32_mul base (f32_lit 1 10))) (f32_lit 1 4)) e1 = Some e2"
      "ether_ok e2"
      using ether_add_Some [OF e1(2) influence_finite(2) [OF assms(2) True]] by blast
    then show ?thesis using assms e1 Some
      by (auto simp: EnvironmentEther_resolveSpell_def Let_def split: if_splits)
  qed (use assms Some in \<open>auto simp: EnvironmentEther_resolveSpell_def\<close>)
qed (use assms in \<open>auto simp: EnvironmentEther_resolveSpell_def\<close>)

lemma resolveSpell_known:
  assumes "ether_ok e" and "attributeForElement element = Some a"
    and "f32_ok base" "f32_isfinite base" "\<not> f32_le base f32_zero" "f32_mag base < 2 ^ 276"
  shows "\<exists>e' b p. EnvironmentEther_resolveSpell element base e = (e', Inr (F_Fin False p)) \<and> ether_ok e' \<and>
    base = F_Fin False b \<and> b \<le> p \<and> p \<le> 2 * b"
proof -
  have fin: "f32_isfinite (EnvironmentEther_value e a)" using ether_value_ok [OF assms(1)] by (simp add: f32_within_def)
  obtain b p where p: "base = F_Fin False b" "f32_mul base (EnvironmentEther_conductivity e a) = F_Fin False p" "b \<le> p" "p \<le> 2 * b"
    using resolveSpell_power [OF assms(3-6) fin] by blast
  obtain e1 where e1: "EnvironmentEther_add a (f32_mul base (f32_lit 1 10)) e = Some e1" "ether_ok e1"
    using ether_add_Some [OF assms(1) influence_finite(1) [OF assms(3,4)]] by blast
  obtain e2 where "EnvironmentEther_add (opposing a) (f32_mul (f32_neg (f32_mul base (f32_lit 1 10))) (f32_lit 1 4)) e1 = Some e2"
    "ether_ok e2"
    using ether_add_Some [OF e1(2) influence_finite(2) [OF assms(3,4)]] by blast
  then have "EnvironmentEther_resolveSpell element base e = (e2, Inr (F_Fin False p))"
    using assms(2,4,5) e1(1) p(2) by (simp add: EnvironmentEther_resolveSpell_def)
  then show ?thesis using \<open>ether_ok e2\<close> p by blast
qed

text \<open>
  Resolving a spell of a known element with a positive power of at most half the range
  of \<open>float\<close> always succeeds, leaves every value of the ether finite and within \<open>MAX_ETHER_VALUE\<close>,
  and its effective power is at least the base power and at most twice it, through all roundings.
\<close>

theorem resolveSpell_amplifies:
  assumes "ether_ok e" and "attributeForElement element = Some a"
    and "f32_ok base" "f32_isfinite base" "\<not> f32_le base f32_zero" "f32_mag base < 2 ^ 276"
  shows "\<exists>e' b p. EnvironmentEther_resolveSpell element base e = (e', Inr (F_Fin False p)) \<and> ether_ok e' \<and>
    base = F_Fin False b \<and> b \<le> p \<and> p \<le> 2 * b"
  using assms by (rule resolveSpell_known)

lemma ether_init_ok: "ether_ok EnvironmentEther_init"
  by (simp add: ether_ok_def EnvironmentEther_init_def round_mag_def round_even_def)

theorem resolveSpell_amplifies_witness:
  "\<exists>e' p. EnvironmentEther_resolveSpell ''fire'' (F_Fin False f32_unit) EnvironmentEther_init = (e', Inr (F_Fin False p)) \<and>
     f32_unit \<le> p \<and> p \<le> 2 * f32_unit"
  using resolveSpell_amplifies [OF ether_init_ok _ f32_ok_unit, of "''fire''" Fire]
  by (auto simp: attributeForElement_def f32_le_def)

end
