(* ===== verification/Sessions.thy ===== *)
theory Sessions
  imports Std_Map Wire Float32 "HOL-Library.List_Lexorder" "HOL-Library.Char_ord"
begin

text \<open>
  Sessions of the game server: \<open>IdentityAliasStore.cpp\<close> (the in-memory store), \<open>SessionRegistry.cpp\<close>,
  \<open>SessionLifecycle.cpp\<close> (connection to session) and \<open>CommandRateLimiter.cpp\<close>. \<open>std::string\<close> keys are
  ordered lexicographically by unsigned character, as \<open>std::map\<close> orders them. The registry reaches
  its alias store through an interface; the laws it relies on are the locale \<open>alias_store\<close>.
\<close>

subsection \<open>Character classes of the C locale\<close>

definition is_digit :: "char \<Rightarrow> bool" where
  "is_digit c \<longleftrightarrow> CHR ''0'' \<le> c \<and> c \<le> CHR ''9''"

definition is_upper :: "char \<Rightarrow> bool" where
  "is_upper c \<longleftrightarrow> CHR ''A'' \<le> c \<and> c \<le> CHR ''Z''"

definition is_lower :: "char \<Rightarrow> bool" where
  "is_lower c \<longleftrightarrow> CHR ''a'' \<le> c \<and> c \<le> CHR ''z''"

definition isalnum :: "char \<Rightarrow> bool" where
  "isalnum c \<longleftrightarrow> is_digit c \<or> is_upper c \<or> is_lower c"

definition tolower :: "char \<Rightarrow> char" where
  "tolower c = (if is_upper c then char_of (of_char c + 32 :: nat) else c)"

subsection \<open>IdentityAliasStore\<close>

datatype AliasReviewStatus = Unreviewed | HumanConfirmed | HumanRejected

instantiation AliasReviewStatus :: enum
begin

definition enum_AliasReviewStatus :: "AliasReviewStatus list" where
  "enum_AliasReviewStatus = [Unreviewed, HumanConfirmed, HumanRejected]"

definition enum_all_AliasReviewStatus :: "(AliasReviewStatus \<Rightarrow> bool) \<Rightarrow> bool" where
  "enum_all_AliasReviewStatus P \<longleftrightarrow> P Unreviewed \<and> P HumanConfirmed \<and> P HumanRejected"

definition enum_ex_AliasReviewStatus :: "(AliasReviewStatus \<Rightarrow> bool) \<Rightarrow> bool" where
  "enum_ex_AliasReviewStatus P \<longleftrightarrow> P Unreviewed \<or> P HumanConfirmed \<or> P HumanRejected"

instance
  by standard (auto simp: enum_AliasReviewStatus_def enum_all_AliasReviewStatus_def enum_ex_AliasReviewStatus_def, (metis AliasReviewStatus.exhaust)+)

end

record IdentityAliasRecord =
  ia_aliasId :: int
  ia_canonicalClaimedId :: string
  ia_createdTick :: u64
  ia_lastUsedTick :: u64
  ia_confidence :: f32
  ia_reviewStatus :: AliasReviewStatus

type_synonym IdentityAliasStore = "(string, IdentityAliasRecord) std_map"

definition bad_confidence :: "f32 \<Rightarrow> bool" where
  "bad_confidence c \<longleftrightarrow> f32_lt c f32_zero \<or> f32_lt (f32_lit 1 1) c"

definition AliasStore_find :: "string \<Rightarrow> IdentityAliasStore \<Rightarrow> IdentityAliasRecord option" where
  "AliasStore_find canonicalClaimedId records = map_of records canonicalClaimedId"

text \<open>\<open>None\<close> is the result \<open>false\<close>, which leaves the store alone.\<close>

definition AliasStore_insert :: "IdentityAliasRecord \<Rightarrow> IdentityAliasStore \<Rightarrow> IdentityAliasStore option" where
  "AliasStore_insert r records =
     (if ia_aliasId r \<le> 0 \<or> ia_canonicalClaimedId r = [] \<or> bad_confidence (ia_confidence r) \<or>
         map_of records (ia_canonicalClaimedId r) \<noteq> None
      then None else Some (map_put (ia_canonicalClaimedId r) r records))"

definition AliasStore_touch :: "string \<Rightarrow> u64 \<Rightarrow> IdentityAliasStore \<Rightarrow> IdentityAliasStore option" where
  "AliasStore_touch canonicalClaimedId lastUsedTick records =
     (case map_of records canonicalClaimedId of
        None \<Rightarrow> None
      | Some r \<Rightarrow> Some (if lastUsedTick > ia_lastUsedTick r
                       then map_put canonicalClaimedId (r\<lparr>ia_lastUsedTick := lastUsedTick\<rparr>) records else records))"

definition AliasStore_reviewAlias ::
    "string \<Rightarrow> AliasReviewStatus \<Rightarrow> f32 \<Rightarrow> IdentityAliasStore \<Rightarrow> IdentityAliasStore option" where
  "AliasStore_reviewAlias canonicalClaimedId status confidence records =
     (if bad_confidence confidence then None
      else case map_of records canonicalClaimedId of
        None \<Rightarrow> None
      | Some r \<Rightarrow> Some (map_put canonicalClaimedId (r\<lparr>ia_reviewStatus := status, ia_confidence := confidence\<rparr>) records))"

definition AliasStore_erase :: "string \<Rightarrow> IdentityAliasStore \<Rightarrow> IdentityAliasStore option" where
  "AliasStore_erase canonicalClaimedId records =
     (if map_of records canonicalClaimedId = None then None else Some (map_erase canonicalClaimedId records))"

definition AliasStore_exportRecords :: "IdentityAliasStore \<Rightarrow> IdentityAliasRecord list" where
  "AliasStore_exportRecords records = map snd records"

subsection \<open>SessionRegistry\<close>

record SessionInfo =
  si_internalId :: int
  si_aliasId :: int
  si_claimedId :: string
  si_authenticated :: bool

record SessionRegistry =
  sr_nextInternalId :: int
  sr_nextAliasId :: int
  sr_activeSessions :: "int std_set"
  sr_aliasStore :: IdentityAliasStore

definition nextAliasIdFor :: "IdentityAliasStore \<Rightarrow> int" where
  "nextAliasIdFor store =
     fold (\<lambda>r nextId. if ia_aliasId r \<ge> nextId \<and> ia_aliasId r < INT64_MAX then ia_aliasId r + 1 else nextId)
       (AliasStore_exportRecords store) 1"

definition SessionRegistry_init :: SessionRegistry where
  "SessionRegistry_init = \<lparr>sr_nextInternalId = 1, sr_nextAliasId = 1, sr_activeSessions = [], sr_aliasStore = []\<rparr>"

definition SessionRegistry_with_store :: "IdentityAliasStore \<Rightarrow> SessionRegistry" where
  "SessionRegistry_with_store store =
     \<lparr>sr_nextInternalId = 1, sr_nextAliasId = nextAliasIdFor store, sr_activeSessions = [], sr_aliasStore = store\<rparr>"

definition isValidClaimedId :: "string \<Rightarrow> bool" where
  "isValidClaimedId claimedId =
     (if claimedId = [] \<or> length claimedId > 64 then False
      else list_all (\<lambda>c. isalnum c \<or> c = CHR ''_'' \<or> c = CHR ''-'' \<or> c = CHR ''.'') claimedId)"

definition canonicalClaimedId :: "string \<Rightarrow> string" where
  "canonicalClaimedId claimedId = map tolower claimedId"

definition SessionRegistry_openAuthenticatedSession :: "int \<Rightarrow> SessionRegistry \<Rightarrow> SessionInfo \<times> SessionRegistry" where
  "SessionRegistry_openAuthenticatedSession userId sr =
     (if userId \<le> 0 \<or> sr_nextInternalId sr = INT64_MAX
      then (\<lparr>si_internalId = 0, si_aliasId = 0, si_claimedId = [], si_authenticated = False\<rparr>, sr)
      else (\<lparr>si_internalId = sr_nextInternalId sr, si_aliasId = 0, si_claimedId = [], si_authenticated = True\<rparr>,
            sr\<lparr>sr_nextInternalId := sr_nextInternalId sr + 1,
               sr_activeSessions := set_insert (sr_nextInternalId sr) (sr_activeSessions sr)\<rparr>))"

definition SessionRegistry_logout :: "int \<Rightarrow> SessionRegistry \<Rightarrow> bool \<times> SessionRegistry" where
  "SessionRegistry_logout internalId sr =
     (internalId \<in> set (sr_activeSessions sr), sr\<lparr>sr_activeSessions := set_erase internalId (sr_activeSessions sr)\<rparr>)"

definition SessionRegistry_isActive :: "SessionRegistry \<Rightarrow> int \<Rightarrow> bool" where
  "SessionRegistry_isActive sr internalId \<longleftrightarrow> internalId \<in> set (sr_activeSessions sr)"

definition SessionRegistry_exportAliasRecords :: "SessionRegistry \<Rightarrow> IdentityAliasRecord list" where
  "SessionRegistry_exportAliasRecords sr = AliasStore_exportRecords (sr_aliasStore sr)"

definition SessionRegistry_forgetClaimedId :: "string \<Rightarrow> SessionRegistry \<Rightarrow> SessionRegistry option" where
  "SessionRegistry_forgetClaimedId claimedId sr =
     (if \<not> isValidClaimedId claimedId then None
      else map_option (\<lambda>store. sr\<lparr>sr_aliasStore := store\<rparr>) (AliasStore_erase (canonicalClaimedId claimedId) (sr_aliasStore sr)))"

definition SessionRegistry_recordAliasReview ::
    "string \<Rightarrow> AliasReviewStatus \<Rightarrow> f32 \<Rightarrow> SessionRegistry \<Rightarrow> SessionRegistry option" where
  "SessionRegistry_recordAliasReview claimedId status confidence sr =
     (if \<not> isValidClaimedId claimedId then None
      else map_option (\<lambda>store. sr\<lparr>sr_aliasStore := store\<rparr>)
             (AliasStore_reviewAlias (canonicalClaimedId claimedId) status confidence (sr_aliasStore sr)))"

subsection \<open>SessionLifecycle\<close>

type_synonym SessionLifecycle = "(u64, int) std_map"

definition SessionLifecycle_bind :: "u64 \<Rightarrow> SessionInfo \<Rightarrow> SessionLifecycle \<Rightarrow> SessionLifecycle result" where
  "SessionLifecycle_bind connectionId info bindings =
     (if connectionId = 0 \<or> si_internalId info \<le> 0 then Inl ''session binding identity is invalid''
      else if map_of bindings connectionId \<noteq> None then Inl ''connection already has a session''
      else Inr (map_put connectionId (si_internalId info) bindings))"

text \<open>\<open>disconnect\<close>: the result, the bindings and the registry as the call leaves them.\<close>

definition SessionLifecycle_disconnect ::
    "u64 \<Rightarrow> SessionLifecycle \<Rightarrow> SessionRegistry \<Rightarrow> bool \<times> SessionLifecycle \<times> SessionRegistry" where
  "SessionLifecycle_disconnect connectionId bindings sr =
     (case map_of bindings connectionId of
        None \<Rightarrow> (False, bindings, sr)
      | Some sid \<Rightarrow>
          (case SessionRegistry_logout sid sr of
             (loggedOut, sr') \<Rightarrow> (loggedOut, map_erase connectionId bindings, sr')))"

definition SessionLifecycle_clear :: "SessionLifecycle \<Rightarrow> SessionRegistry \<Rightarrow> SessionLifecycle \<times> SessionRegistry" where
  "SessionLifecycle_clear bindings sr =
     ([], fold (\<lambda>(c, sid) sr. snd (SessionRegistry_logout sid sr)) bindings sr)"

definition SessionLifecycle_hasSession :: "SessionLifecycle \<Rightarrow> u64 \<Rightarrow> bool" where
  "SessionLifecycle_hasSession bindings connectionId \<longleftrightarrow> map_of bindings connectionId \<noteq> None"

definition SessionLifecycle_sessionId :: "SessionLifecycle \<Rightarrow> u64 \<Rightarrow> int" where
  "SessionLifecycle_sessionId bindings connectionId =
     (case map_of bindings connectionId of None \<Rightarrow> 0 | Some sid \<Rightarrow> sid)"

subsection \<open>CommandRateLimiter\<close>

text \<open>A counter row is \<open>std::array<size_t, 8>\<close>; a missing map entry is created as eight zeros.\<close>

record CommandRateLimiter =
  rl_counters :: "(int, nat list) std_map"
  rl_currentTick :: u64

definition CommandRateLimiter_init :: CommandRateLimiter where
  "CommandRateLimiter_init = \<lparr>rl_counters = [], rl_currentTick = 0\<rparr>"

definition commandIndex :: "CommandType \<Rightarrow> nat" where
  "commandIndex type = nat (CommandType_value type mod 2 ^ 64)"

fun limitFor :: "CommandType \<Rightarrow> nat" where
  "limitFor Move = 20"
| "limitFor Chat = 4"
| "limitFor Attack = 4"
| "limitFor CastSpell = 4"
| "limitFor Disconnect = 2"
| "limitFor RequestSnapshot = 1"
| "limitFor Login = 0"
| "limitFor (OtherCommand n) = 0"

definition session_counts :: "CommandRateLimiter \<Rightarrow> int \<Rightarrow> nat list" where
  "session_counts rl sessionId = (case map_of (rl_counters rl) sessionId of None \<Rightarrow> replicate 8 0 | Some counts \<Rightarrow> counts)"

definition CommandRateLimiter_allow :: "int \<Rightarrow> CommandType \<Rightarrow> CommandRateLimiter \<Rightarrow> bool \<times> CommandRateLimiter" where
  "CommandRateLimiter_allow sessionId type rl =
     (if sessionId \<le> 0 then (False, rl)
      else let index = commandIndex type; limit = limitFor type in
        if index \<ge> 8 \<or> limit = 0 then (False, rl)
        else let counts = session_counts rl sessionId in
          if counts ! index \<ge> limit then (False, rl\<lparr>rl_counters := map_put sessionId counts (rl_counters rl)\<rparr>)
          else (True, rl\<lparr>rl_counters := map_put sessionId (counts[index := Suc (counts ! index)]) (rl_counters rl)\<rparr>))"

definition CommandRateLimiter_beginFrame :: "u64 \<Rightarrow> CommandRateLimiter \<Rightarrow> CommandRateLimiter" where
  "CommandRateLimiter_beginFrame worldTick rl =
     (if worldTick = rl_currentTick rl then rl
      else rl\<lparr>rl_currentTick := worldTick,
              rl_counters := map (\<lambda>(sid, counts). (sid, map (\<lambda>_. 0) counts)) (rl_counters rl)\<rparr>)"

definition CommandRateLimiter_forgetSession :: "int \<Rightarrow> CommandRateLimiter \<Rightarrow> CommandRateLimiter" where
  "CommandRateLimiter_forgetSession sessionId rl = rl\<lparr>rl_counters := map_erase sessionId (rl_counters rl)\<rparr>"

definition CommandRateLimiter_clear :: "CommandRateLimiter \<Rightarrow> CommandRateLimiter" where
  "CommandRateLimiter_clear rl = \<lparr>rl_counters = [], rl_currentTick = 0\<rparr>"

subsection \<open>The interface of an alias store\<close>

locale alias_store =
  fixes lookup :: "string \<Rightarrow> 's \<Rightarrow> IdentityAliasRecord option"
    and insert' :: "IdentityAliasRecord \<Rightarrow> 's \<Rightarrow> 's option"
    and touch :: "string \<Rightarrow> u64 \<Rightarrow> 's \<Rightarrow> 's option"
    and review :: "string \<Rightarrow> AliasReviewStatus \<Rightarrow> f32 \<Rightarrow> 's \<Rightarrow> 's option"
    and erase :: "string \<Rightarrow> 's \<Rightarrow> 's option"
  assumes insert_lookup: "insert' r st = Some st' \<Longrightarrow> lookup k st' = (if k = ia_canonicalClaimedId r then Some r else lookup k st)"
    and insert_fresh: "insert' r st = Some st' \<Longrightarrow> lookup (ia_canonicalClaimedId r) st = None"
    and touch_lookup: "touch c t st = Some st' \<Longrightarrow>
          lookup k st' = (if k = c then map_option (\<lambda>r. r\<lparr>ia_lastUsedTick := max (ia_lastUsedTick r) t\<rparr>) (lookup k st) else lookup k st)"
    and review_lookup: "review c s f st = Some st' \<Longrightarrow>
          lookup k st' = (if k = c then map_option (\<lambda>r. r\<lparr>ia_reviewStatus := s, ia_confidence := f\<rparr>) (lookup k st) else lookup k st)"
    and review_None: "lookup c st = None \<Longrightarrow> review c s f st = None"
    and erase_lookup: "erase c st = Some st' \<Longrightarrow> lookup k st' = (if k = c then None else lookup k st)"
    and erase_None: "lookup c st = None \<longleftrightarrow> erase c st = None"
begin

lemma erase_forgets:
  assumes "erase c st = Some st'"
  shows "lookup c st' = None \<and> review c s f st' = None \<and> erase c st' = None"
  using erase_lookup [OF assms, of c] review_None [of c st'] erase_None [of c st'] by simp

lemma insert_twice: "insert' r st = Some st' \<Longrightarrow> ia_canonicalClaimedId q = ia_canonicalClaimedId r \<Longrightarrow> insert' q st' = None"
proof (rule ccontr)
  assume r: "insert' r st = Some st'" and eq: "ia_canonicalClaimedId q = ia_canonicalClaimedId r" and "insert' q st' \<noteq> None"
  then obtain st'' where "insert' q st' = Some st''" by blast
  then show False using insert_lookup [OF r, of "ia_canonicalClaimedId q"] insert_fresh [of q st'] eq by simp
qed

text \<open>The age of an alias never goes back and a review does not change it.\<close>

lemma touch_monotone:
  assumes "touch c t st = Some st'" "lookup c st = Some r"
  shows "\<exists>r'. lookup c st' = Some r' \<and> ia_lastUsedTick r \<le> ia_lastUsedTick r' \<and> t \<le> ia_lastUsedTick r' \<and> ia_aliasId r' = ia_aliasId r"
  using touch_lookup [OF assms(1), of c] assms(2) by auto

end

interpretation memory_aliases: alias_store AliasStore_find AliasStore_insert AliasStore_touch AliasStore_reviewAlias AliasStore_erase
proof unfold_locales
  fix c t k st st'
  assume *: "AliasStore_touch c t st = Some st'"
  show "AliasStore_find k st' =
    (if k = c then map_option (\<lambda>r. r\<lparr>ia_lastUsedTick := max (ia_lastUsedTick r) t\<rparr>) (AliasStore_find k st) else AliasStore_find k st)"
  proof (cases "map_of st c")
    case (Some r)
    then show ?thesis using * by (cases "ia_lastUsedTick r < t") (auto simp: AliasStore_touch_def AliasStore_find_def max_def)
  qed (use * in \<open>simp add: AliasStore_touch_def\<close>)
qed (auto simp: AliasStore_find_def AliasStore_insert_def AliasStore_reviewAlias_def AliasStore_erase_def
      split: if_splits option.splits)

lemma tolower_idem [simp]: "tolower (tolower c) = tolower c"
proof (cases "is_upper c")
  case True
  then have "65 \<le> (of_char c :: nat)" "(of_char c :: nat) \<le> 90"
    by (auto simp: is_upper_def less_eq_char_def)
  then have "(of_char (tolower c) :: nat) = of_char c + 32" using True by (simp add: tolower_def)
  then have "\<not> is_upper (tolower c)" using \<open>65 \<le> of_char c\<close> by (simp add: is_upper_def less_eq_char_def)
  then show ?thesis by (simp add: tolower_def)
qed (simp add: tolower_def)

text \<open>
  Forgetting a claimed id erases it whatever its letter case: after a successful
  \<open>forgetClaimedId\<close>, every spelling with the same canonical form can neither be reviewed nor forgotten
  again, no other alias is touched, and the active sessions are untouched.
\<close>

theorem forget_erases_every_spelling:
  assumes "SessionRegistry_forgetClaimedId claimed sr = Some sr'" and "canonicalClaimedId other = canonicalClaimedId claimed"
  shows "SessionRegistry_recordAliasReview other status confidence sr' = None \<and>
    SessionRegistry_forgetClaimedId other sr' = None \<and>
    AliasStore_find (canonicalClaimedId other) (sr_aliasStore sr') = None \<and>
    (k = canonicalClaimedId claimed \<or> AliasStore_find k (sr_aliasStore sr') = AliasStore_find k (sr_aliasStore sr)) \<and>
    sr_activeSessions sr' = sr_activeSessions sr"
proof -
  obtain st where st: "AliasStore_erase (canonicalClaimedId claimed) (sr_aliasStore sr) = Some st" "sr' = sr\<lparr>sr_aliasStore := st\<rparr>"
    using assms(1) by (auto simp: SessionRegistry_forgetClaimedId_def split: if_splits)
  show ?thesis
    using memory_aliases.erase_forgets [OF st(1)] memory_aliases.erase_lookup [OF st(1), of k] st(2) assms(2)
    by (auto simp: SessionRegistry_recordAliasReview_def SessionRegistry_forgetClaimedId_def)
qed

definition sample_alias :: IdentityAliasRecord where
  "sample_alias = \<lparr>ia_aliasId = 1, ia_canonicalClaimedId = ''ada'', ia_createdTick = 0, ia_lastUsedTick = 0,
     ia_confidence = f32_zero, ia_reviewStatus = Unreviewed\<rparr>"

theorem forget_erases_every_spelling_witness:
  "\<exists>sr'. SessionRegistry_forgetClaimedId ''Ada'' (SessionRegistry_with_store [(''ada'', sample_alias)]) = Some sr' \<and>
     SessionRegistry_recordAliasReview ''aDA'' HumanConfirmed f32_zero sr' = None"
proof -
  have "SessionRegistry_forgetClaimedId ''Ada'' (SessionRegistry_with_store [(''ada'', sample_alias)]) =
      Some \<lparr>sr_nextInternalId = 1, sr_nextAliasId = 2, sr_activeSessions = [], sr_aliasStore = []\<rparr>" by code_simp
  moreover have "canonicalClaimedId ''aDA'' = canonicalClaimedId ''Ada''" by code_simp
  ultimately show ?thesis using forget_erases_every_spelling by blast
qed

text \<open>The range test of a confidence lets a NaN through.\<close>

text \<open>
  A review whose confidence is NaN is accepted and stored: the range test
  \<open>confidence < 0 || confidence > 1\<close> is false on NaN.
\<close>

theorem nan_confidence_accepted:
  "\<exists>sr sr' r. SessionRegistry_recordAliasReview ''ada'' HumanConfirmed F_NaN sr = Some sr' \<and>
     AliasStore_find ''ada'' (sr_aliasStore sr') = Some r \<and> ia_confidence r = F_NaN"
proof -
  have "SessionRegistry_recordAliasReview ''ada'' HumanConfirmed F_NaN (SessionRegistry_with_store [(''ada'', sample_alias)]) =
      Some \<lparr>sr_nextInternalId = 1, sr_nextAliasId = 2, sr_activeSessions = [],
        sr_aliasStore = [(''ada'', sample_alias\<lparr>ia_reviewStatus := HumanConfirmed, ia_confidence := F_NaN\<rparr>)]\<rparr>"
    by (simp add: SessionRegistry_recordAliasReview_def SessionRegistry_with_store_def AliasStore_reviewAlias_def bad_confidence_def
        isValidClaimedId_def isalnum_def is_lower_def less_eq_char_def canonicalClaimedId_def tolower_def is_upper_def
        nextAliasIdFor_def AliasStore_exportRecords_def sample_alias_def)
  then show ?thesis by (force simp: AliasStore_find_def)
qed

subsection \<open>Session ids\<close>

text \<open>A history of a registry: the operations applied to it and the ids it has handed out, last first.\<close>

inductive registry_run :: "SessionRegistry \<Rightarrow> int list \<Rightarrow> bool" where
  start: "registry_run SessionRegistry_init []"
| start_store: "registry_run (SessionRegistry_with_store store) []"
| opened: "registry_run sr issued \<Longrightarrow> SessionRegistry_openAuthenticatedSession userId sr = (info, sr') \<Longrightarrow>
    si_authenticated info \<Longrightarrow> registry_run sr' (si_internalId info # issued)"
| refused: "registry_run sr issued \<Longrightarrow> SessionRegistry_openAuthenticatedSession userId sr = (info, sr') \<Longrightarrow>
    \<not> si_authenticated info \<Longrightarrow> registry_run sr' issued"
| logout: "registry_run sr issued \<Longrightarrow> SessionRegistry_logout i sr = (r, sr') \<Longrightarrow> registry_run sr' issued"
| forget: "registry_run sr issued \<Longrightarrow> SessionRegistry_forgetClaimedId c sr = Some sr' \<Longrightarrow> registry_run sr' issued"
| review: "registry_run sr issued \<Longrightarrow> SessionRegistry_recordAliasReview c s f sr = Some sr' \<Longrightarrow> registry_run sr' issued"

definition registry_ok :: "SessionRegistry \<Rightarrow> bool" where
  "registry_ok sr \<longleftrightarrow> 1 \<le> sr_nextInternalId sr \<and> sr_nextInternalId sr \<le> INT64_MAX \<and>
     sorted (sr_activeSessions sr) \<and> distinct (sr_activeSessions sr) \<and>
     list_all (\<lambda>i. 1 \<le> i \<and> i < sr_nextInternalId sr) (sr_activeSessions sr)"

lemma registry_ok_init [simp]: "registry_ok SessionRegistry_init" "registry_ok (SessionRegistry_with_store store)"
  by (simp_all add: registry_ok_def SessionRegistry_init_def SessionRegistry_with_store_def)

lemma open_ok:
  assumes "registry_ok sr" "SessionRegistry_openAuthenticatedSession u sr = (info, sr')"
  shows "registry_ok sr' \<and>
    (if si_authenticated info then si_internalId info = sr_nextInternalId sr \<and> sr_nextInternalId sr' = sr_nextInternalId sr + 1 \<and>
       set (sr_activeSessions sr') = insert (si_internalId info) (set (sr_activeSessions sr))
     else si_internalId info = 0 \<and> sr' = sr)"
  using assms
  by (fastforce simp: registry_ok_def SessionRegistry_openAuthenticatedSession_def list_all_iff sorted_set_insert distinct_set_insert
      split: if_splits)

lemma logout_ok:
  assumes "registry_ok sr" "SessionRegistry_logout i sr = (r, sr')"
  shows "registry_ok sr' \<and> sr_nextInternalId sr' = sr_nextInternalId sr \<and> \<not> SessionRegistry_isActive sr' i \<and>
    set (sr_activeSessions sr') = set (sr_activeSessions sr) - {i} \<and> (r \<longleftrightarrow> SessionRegistry_isActive sr i)"
  using assms
  by (auto simp: registry_ok_def SessionRegistry_logout_def SessionRegistry_isActive_def list_all_iff sorted_set_erase)
    (simp_all add: set_erase_def)

lemma alias_ops_ok:
  assumes "SessionRegistry_forgetClaimedId c sr = Some sr' \<or> SessionRegistry_recordAliasReview c s f sr = Some sr'"
  shows "sr_nextInternalId sr' = sr_nextInternalId sr \<and> sr_activeSessions sr' = sr_activeSessions sr"
  using assms by (auto simp: SessionRegistry_forgetClaimedId_def SessionRegistry_recordAliasReview_def split: if_splits)

lemma registry_run_inv:
  assumes "registry_run sr issued"
  shows "registry_ok sr \<and> sorted_wrt (>) issued \<and> list_all (\<lambda>i. 1 \<le> i \<and> i < sr_nextInternalId sr) issued \<and>
    set (sr_activeSessions sr) \<subseteq> set issued"
  using assms
proof induction
  case start
  then show ?case by (simp add: SessionRegistry_init_def registry_ok_def)
next
  case (start_store store)
  then show ?case by (simp add: SessionRegistry_with_store_def registry_ok_def)
next
  case (opened sr issued userId info sr')
  then have "1 \<le> sr_nextInternalId sr" by (simp add: registry_ok_def)
  then show ?case using open_ok [of sr userId info sr'] opened by (auto simp: list_all_iff)
next
  case (refused sr issued userId info sr')
  then show ?case using open_ok [of sr userId info sr'] by auto
next
  case (logout sr issued i r sr')
  then show ?case using logout_ok [of sr i r sr'] by auto
next
  case (forget sr issued c sr')
  then show ?case using alias_ops_ok [of c sr sr'] by (auto simp: registry_ok_def)
next
  case (review sr issued c s f sr')
  then show ?case using alias_ops_ok [of c sr sr' s f] by (auto simp: registry_ok_def)
qed

text \<open>
  Session ids are never reused: in every history of a registry the ids handed out are
  positive and strictly increasing, a session is active only under an id that was handed out, and the
  id handed out next is not the id of any session opened before, logged out or not.
\<close>

theorem session_ids_never_reused:
  assumes "registry_run sr issued" and "SessionRegistry_openAuthenticatedSession userId sr = (info, sr')" and "si_authenticated info"
  shows "0 < si_internalId info \<and> si_internalId info \<notin> set issued \<and> distinct issued \<and>
    \<not> SessionRegistry_isActive sr (si_internalId info) \<and> SessionRegistry_isActive sr' (si_internalId info) \<and>
    set (sr_activeSessions sr) \<subseteq> set issued"
proof -
  note inv = registry_run_inv [OF assms(1)]
  have "distinct issued" using inv by (metis distinct_rev sorted_wrt_rev strict_sorted_iff rev_rev_ident)
  moreover have "si_internalId info = sr_nextInternalId sr" "si_internalId info \<in> set (sr_activeSessions sr')"
    using open_ok [OF _ assms(2)] inv assms(3) by auto
  ultimately show ?thesis using inv by (auto simp: registry_ok_def SessionRegistry_isActive_def list_all_iff)
qed

theorem session_ids_never_reused_witness:
  "\<exists>info sr'. SessionRegistry_openAuthenticatedSession 5 SessionRegistry_init = (info, sr') \<and>
     SessionRegistry_isActive sr' (si_internalId info)"
proof -
  obtain info sr' where o: "SessionRegistry_openAuthenticatedSession 5 SessionRegistry_init = (info, sr')" by force
  then have "si_authenticated info" by (auto simp: SessionRegistry_openAuthenticatedSession_def SessionRegistry_init_def)
  then show ?thesis using session_ids_never_reused [OF registry_run.start o] o by blast
qed

subsection \<open>Connections and sessions\<close>

lemma fold_logout:
  "set (sr_activeSessions (fold (\<lambda>(c, sid) sr. snd (SessionRegistry_logout sid sr)) bindings sr)) =
     set (sr_activeSessions sr) - snd ` set bindings"
  by (induction bindings arbitrary: sr) (auto simp: SessionRegistry_logout_def split: prod.splits)

text \<open>
  Clearing the connection table at shutdown logs out exactly the sessions that some
  connection was bound to, and disconnecting one connection logs out its session, frees the
  connection for a new binding and leaves every other session active.
\<close>

theorem lifecycle_logs_out:
  assumes "SessionLifecycle_disconnect connectionId bindings sr = (r, bindings', sr')"
  shows "(case map_of bindings connectionId of
       None \<Rightarrow> sr' = sr \<and> bindings' = bindings \<and> \<not> r
     | Some sid \<Rightarrow> (r \<longleftrightarrow> SessionRegistry_isActive sr sid) \<and>
         set (sr_activeSessions sr') = set (sr_activeSessions sr) - {sid} \<and>
         map_of bindings' = (map_of bindings)(connectionId := None)) \<and>
    set (sr_activeSessions (snd (SessionLifecycle_clear bindings sr))) = set (sr_activeSessions sr) - snd ` set bindings"
proof
  show "set (sr_activeSessions (snd (SessionLifecycle_clear bindings sr))) = set (sr_activeSessions sr) - snd ` set bindings"
    by (simp add: SessionLifecycle_clear_def fold_logout)
qed (use assms in \<open>auto simp: SessionLifecycle_disconnect_def SessionRegistry_logout_def SessionRegistry_isActive_def
      split: option.splits\<close>)

theorem lifecycle_logs_out_witness:
  "\<exists>sr'. SessionLifecycle_disconnect 4 [(4, 1)] (snd (SessionRegistry_openAuthenticatedSession 5 SessionRegistry_init)) = (True, [], sr') \<and>
     sr_activeSessions sr' = []"
proof -
  have d: "SessionLifecycle_disconnect 4 [(4, 1)] (snd (SessionRegistry_openAuthenticatedSession 5 SessionRegistry_init)) =
      (True, [], \<lparr>sr_nextInternalId = 2, sr_nextAliasId = 1, sr_activeSessions = [], sr_aliasStore = []\<rparr>)"
    by (simp add: SessionLifecycle_disconnect_def SessionRegistry_openAuthenticatedSession_def SessionRegistry_init_def
        SessionRegistry_logout_def map_erase_def set_insert_def set_erase_def)
  show ?thesis using lifecycle_logs_out [OF d] d by auto
qed

subsection \<open>The rate limit of a frame\<close>

definition limiter_ok :: "CommandRateLimiter \<Rightarrow> bool" where
  "limiter_ok rl \<longleftrightarrow> list_all (\<lambda>e. length (snd e) = 8) (rl_counters rl)"

lemma session_counts_length: "limiter_ok rl \<Longrightarrow> length (session_counts rl s) = 8"
  by (cases "map_of (rl_counters rl) s") (force simp: limiter_ok_def session_counts_def list_all_iff dest: map_of_SomeD)+

lemma list_all_map_put: "list_all P m \<Longrightarrow> P (k, v) \<Longrightarrow> list_all P (map_put k v m)"
  by (induction m) auto

lemma limiter_ok_ops [simp, intro]:
  "limiter_ok CommandRateLimiter_init"
  "limiter_ok rl \<Longrightarrow> limiter_ok (snd (CommandRateLimiter_allow s t rl))"
  "limiter_ok rl \<Longrightarrow> limiter_ok (CommandRateLimiter_beginFrame w rl)"
  "limiter_ok rl \<Longrightarrow> limiter_ok (CommandRateLimiter_forgetSession s rl)"
  using session_counts_length [of rl s]
  by (auto simp: limiter_ok_def CommandRateLimiter_init_def CommandRateLimiter_allow_def CommandRateLimiter_beginFrame_def
      CommandRateLimiter_forgetSession_def map_erase_def Let_def list_all_iff [where P = "\<lambda>e. _ (case e of (_, _) \<Rightarrow> _)"]
      list.pred_map comp_def case_prod_unfold intro!: list_all_map_put)

text \<open>The number of commands \<open>(s, t)\<close> that pass in a sequence of calls.\<close>

fun allowed :: "int \<Rightarrow> CommandType \<Rightarrow> (int \<times> CommandType) list \<Rightarrow> CommandRateLimiter \<Rightarrow> nat" where
  "allowed s t [] rl = 0"
| "allowed s t ((s', t') # calls) rl =
     (case CommandRateLimiter_allow s' t' rl of
        (ok, rl') \<Rightarrow> (if ok \<and> s' = s \<and> t' = t then 1 else 0) + allowed s t calls rl')"

lemma index_limited: "0 < limitFor t \<Longrightarrow> commandIndex t < 8"
  by (cases t) (simp_all add: commandIndex_def)

lemma index_inj: "0 < limitFor t \<Longrightarrow> 0 < limitFor t' \<Longrightarrow> commandIndex t = commandIndex t' \<longleftrightarrow> t = t'"
  by (cases t; cases t') (simp_all add: commandIndex_def)

lemma allow_iff:
  assumes "0 < s"
  shows "fst (CommandRateLimiter_allow s t rl) \<longleftrightarrow> session_counts rl s ! commandIndex t < limitFor t"
  using assms index_limited [of t] by (auto simp: CommandRateLimiter_allow_def Let_def not_le)

lemma allow_counts:
  assumes "limiter_ok rl" "0 < s" "0 < limitFor t"
  shows "session_counts (snd (CommandRateLimiter_allow s' t' rl)) s ! commandIndex t =
    session_counts rl s ! commandIndex t + (if s' = s \<and> t' = t \<and> fst (CommandRateLimiter_allow s' t' rl) then 1 else 0)"
proof -
  have len: "length (session_counts rl s) = 8" using assms(1) by (rule session_counts_length)
  have idx: "commandIndex t < 8" using assms(3) by (rule index_limited)
  show ?thesis
  proof (cases "s' \<le> 0 \<or> commandIndex t' \<ge> 8 \<or> limitFor t' = 0")
    case True
    then show ?thesis by (auto simp: CommandRateLimiter_allow_def Let_def)
  next
    case False
    then have t': "0 < limitFor t'" by simp
    show ?thesis
      using False len idx index_inj [OF assms(3) t']
      by (auto simp: CommandRateLimiter_allow_def Let_def session_counts_def [of "rl\<lparr>rl_counters := c\<rparr>" for c] nth_list_update
          split: option.splits) (simp_all add: session_counts_def)
  qed
qed

lemma allowed_count:
  assumes "limiter_ok rl" "0 < s" "0 < limitFor t" "session_counts rl s ! commandIndex t \<le> limitFor t"
  shows "allowed s t calls rl = min (limitFor t - session_counts rl s ! commandIndex t) (count_list calls (s, t))"
  using assms
proof (induction calls arbitrary: rl)
  case (Cons c calls)
  obtain s' t' where c: "c = (s', t')" by force
  obtain ok rl' where a: "CommandRateLimiter_allow s' t' rl = (ok, rl')" by force
  have ok': "limiter_ok rl'" using limiter_ok_ops(2) [OF Cons.prems(1), of s' t'] a by simp
  have counts: "session_counts rl' s ! commandIndex t =
      session_counts rl s ! commandIndex t + (if s' = s \<and> t' = t \<and> ok then 1 else 0)"
    using allow_counts [OF Cons.prems(1-3), of s' t'] a by simp
  have iff: "s' = s \<and> t' = t \<Longrightarrow> ok \<longleftrightarrow> session_counts rl s ! commandIndex t < limitFor t"
    using allow_iff [OF Cons.prems(2), of t rl] a by auto
  have "session_counts rl' s ! commandIndex t \<le> limitFor t" using counts iff Cons.prems(4) by auto
  then show ?case using Cons.IH [OF ok' Cons.prems(2,3)] counts iff Cons.prems(4) by (auto simp: c a)
qed simp

lemma allowed_zero: "limitFor t = 0 \<Longrightarrow> allowed s t calls rl = 0"
proof (induction calls arbitrary: rl)
  case (Cons c calls)
  then show ?case by (cases c) (auto simp: CommandRateLimiter_allow_def split: prod.splits)
qed simp

lemma beginFrame_counts:
  assumes "limiter_ok rl" "tick \<noteq> rl_currentTick rl" "i < 8"
  shows "session_counts (CommandRateLimiter_beginFrame tick rl) s ! i = 0"
proof -
  have "map_of (map (\<lambda>(sid, counts). (sid, map (\<lambda>_. 0 :: nat) counts)) m) s = map_option (\<lambda>c. map (\<lambda>_. 0 :: nat) c) (map_of m s)"
    for m :: "(int, nat list) std_map"
    by (induction m) auto
  then show ?thesis
    using assms session_counts_length [OF assms(1), of s]
    by (auto simp: session_counts_def CommandRateLimiter_beginFrame_def split: option.splits)
qed

text \<open>
  The limit of a frame is exact: after \<open>beginFrame\<close> of a new tick, whatever commands of
  whatever sessions arrive in whatever order, the number of commands of a type that pass for a session
  is the smaller of the limit of the type and the number of attempts; no session spends another's
  quota and no type another type's.
\<close>

theorem rate_limit_exact:
  assumes "limiter_ok rl" and "tick \<noteq> rl_currentTick rl" and "0 < s"
  shows "allowed s t calls (CommandRateLimiter_beginFrame tick rl) = min (limitFor t) (count_list calls (s, t))"
proof (cases "limitFor t = 0")
  case True
  then show ?thesis by (simp add: allowed_zero)
next
  case False
  then have "commandIndex t < 8" using index_limited by simp
  then have "session_counts (CommandRateLimiter_beginFrame tick rl) s ! commandIndex t = 0"
    using beginFrame_counts [OF assms(1,2)] by simp
  then show ?thesis using allowed_count [of "CommandRateLimiter_beginFrame tick rl" s t calls] assms False by simp
qed

theorem rate_limit_exact_witness:
  "allowed 3 RequestSnapshot [(3, RequestSnapshot), (3, RequestSnapshot), (4, RequestSnapshot)]
     (CommandRateLimiter_beginFrame 1 CommandRateLimiter_init) = 1"
  using rate_limit_exact [of CommandRateLimiter_init 1 3 RequestSnapshot "[(3, RequestSnapshot), (3, RequestSnapshot), (4, RequestSnapshot)]"]
  by (simp add: CommandRateLimiter_init_def limiter_ok_def)

end
