(* ===== verification/Login.thy ===== *)
theory Login
  imports Sessions Text
begin

text \<open>
  Login with a challenge key: \<open>ChallengeSessionLogin.cpp\<close> over the ports of \<open>ChallengeSessionPorts.h\<close>,
  \<open>ChallengeLoginCommandHandler.cpp\<close> over the session registry, and the adapters
  \<open>PostgresPlayerSessionStore.cpp\<close> and \<open>RandomSessionKeyIssuer.cpp\<close>. The ports are a record of
  functions on a state \<open>'p\<close>. The adapter's SQL is read as operations on the two tables of
  \<open>db/migrations/0003\<close>, each keyed by its primary key; \<open>std::rand\<close> is a stream of numbers. Wall clock
  readings are arguments. An exception that leaves a call (a unique violation) is \<open>None\<close>.
\<close>

subsection \<open>Ports and results\<close>

record 'p LoginPorts =
  po_claim :: "string \<Rightarrow> int \<Rightarrow> 'p \<Rightarrow> int option \<times> 'p"
  po_create :: "int \<Rightarrow> string \<Rightarrow> int \<Rightarrow> 'p \<Rightarrow> 'p option"
  po_extend :: "string \<Rightarrow> int \<Rightarrow> int \<Rightarrow> 'p \<Rightarrow> bool \<times> 'p"
  po_isActive :: "string \<Rightarrow> int \<Rightarrow> 'p \<Rightarrow> bool"
  po_issue :: "'p \<Rightarrow> string \<times> 'p"

record ChallengeLoginResult =
  cl_accepted :: bool
  cl_reason :: string
  cl_sessionKey :: string
  cl_userId :: int
  cl_expiresAtUnix :: int

record KeepAliveResult =
  ka_accepted :: bool
  ka_reason :: string
  ka_expiresAtUnix :: int

definition kSessionTtlSeconds :: int where
  "kSessionTtlSeconds = 30 * 60"

definition expiryFrom :: "int \<Rightarrow> int" where
  "expiryFrom nowUnixSeconds = nowUnixSeconds + kSessionTtlSeconds"

definition rejectedLogin :: "string \<Rightarrow> ChallengeLoginResult" where
  "rejectedLogin reason = \<lparr>cl_accepted = False, cl_reason = reason, cl_sessionKey = [], cl_userId = 0, cl_expiresAtUnix = 0\<rparr>"

definition acceptedLogin :: "int \<Rightarrow> string \<Rightarrow> int \<Rightarrow> ChallengeLoginResult" where
  "acceptedLogin userId sessionKey expiresAtUnix =
     \<lparr>cl_accepted = True, cl_reason = [], cl_sessionKey = sessionKey, cl_userId = userId, cl_expiresAtUnix = expiresAtUnix\<rparr>"

definition rejectedKeepAlive :: "string \<Rightarrow> KeepAliveResult" where
  "rejectedKeepAlive reason = \<lparr>ka_accepted = False, ka_reason = reason, ka_expiresAtUnix = 0\<rparr>"

definition acceptedKeepAlive :: "int \<Rightarrow> KeepAliveResult" where
  "acceptedKeepAlive expiresAtUnix = \<lparr>ka_accepted = True, ka_reason = [], ka_expiresAtUnix = expiresAtUnix\<rparr>"

definition loginWithChallenge :: "'p LoginPorts \<Rightarrow> string \<Rightarrow> int \<Rightarrow> 'p \<Rightarrow> ChallengeLoginResult option \<times> 'p" where
  "loginWithChallenge ports challenge now p =
     (case po_claim ports challenge now p of
        (None, p1) \<Rightarrow> (Some (rejectedLogin ''invalid_challenge''), p1)
      | (Some userId, p1) \<Rightarrow>
          (case po_issue ports p1 of
             (sessionKey, p2) \<Rightarrow>
               let expiresAt = expiryFrom now in
               (case po_create ports userId sessionKey expiresAt p2 of
                  None \<Rightarrow> (None, p2)
                | Some p3 \<Rightarrow> (Some (acceptedLogin userId sessionKey expiresAt), p3))))"

definition keepAlive :: "'p LoginPorts \<Rightarrow> string \<Rightarrow> int \<Rightarrow> 'p \<Rightarrow> KeepAliveResult \<times> 'p" where
  "keepAlive ports sessionKey now p =
     (let newExpiresAt = expiryFrom now in
      case po_extend ports sessionKey now newExpiresAt p of
        (False, p') \<Rightarrow> (rejectedKeepAlive ''invalid_session'', p')
      | (True, p') \<Rightarrow> (acceptedKeepAlive newExpiresAt, p'))"

definition validateSession :: "'p LoginPorts \<Rightarrow> string \<Rightarrow> int \<Rightarrow> 'p \<Rightarrow> bool" where
  "validateSession ports sessionKey now p = po_isActive ports sessionKey now p"

subsection \<open>The command handler\<close>

record ChallengeLoginCommandResult =
  lc_accepted :: bool
  lc_error :: string
  lc_session :: SessionInfo
  lc_playerSessionKey :: string
  lc_userId :: int

definition login_rejected :: "string \<Rightarrow> ChallengeLoginCommandResult" where
  "login_rejected error =
     \<lparr>lc_accepted = False, lc_error = error,
      lc_session = \<lparr>si_internalId = 0, si_aliasId = 0, si_claimedId = [], si_authenticated = False\<rparr>,
      lc_playerSessionKey = [], lc_userId = 0\<rparr>"

definition login_accepted :: "int \<Rightarrow> string \<Rightarrow> SessionInfo \<Rightarrow> ChallengeLoginCommandResult" where
  "login_accepted userId sessionKey session =
     \<lparr>lc_accepted = True, lc_error = [], lc_session = session, lc_playerSessionKey = sessionKey, lc_userId = userId\<rparr>"

definition ChallengeLoginCommandHandler_handle ::
    "'p LoginPorts \<Rightarrow> NetworkCommand \<Rightarrow> int \<Rightarrow> 'p \<Rightarrow> SessionRegistry \<Rightarrow>
     ChallengeLoginCommandResult option \<times> 'p \<times> SessionRegistry" where
  "ChallengeLoginCommandHandler_handle ports command now p sr =
     (if cmd_type command \<noteq> Login then (Some (login_rejected ''command is not a login''), p, sr)
      else case validateCommand command of
        Inl validationError \<Rightarrow> (Some (login_rejected validationError), p, sr)
      | Inr _ \<Rightarrow>
          (case loginWithChallenge ports (cmd_payload command) now p of
             (None, p') \<Rightarrow> (None, p', sr)
           | (Some authResult, p') \<Rightarrow>
               if \<not> cl_accepted authResult
               then (Some (login_rejected (if cl_reason authResult = [] then ''invalid_challenge'' else cl_reason authResult)), p', sr)
               else (case SessionRegistry_openAuthenticatedSession (cl_userId authResult) sr of
                       (session, sr') \<Rightarrow>
                         if si_internalId session = 0 then (Some (login_rejected ''session id allocation failed''), p', sr')
                         else (Some (login_accepted (cl_userId authResult) (cl_sessionKey authResult) session), p', sr'))))"

subsection \<open>PostgresPlayerSessionStore and RandomSessionKeyIssuer\<close>

definition hasConnectionString :: "string option \<Rightarrow> bool" where
  "hasConnectionString connectionString \<longleftrightarrow> connectionString \<noteq> None \<and> connectionString \<noteq> Some []"

definition PgSession_fromEnvironment :: "(string \<Rightarrow> string option) \<Rightarrow> string option" where
  "PgSession_fromEnvironment getenv =
     (let connectionString = getenv ''SEED_IDENTITY_DB_URL'' in if \<not> hasConnectionString connectionString then None else connectionString)"

record ChallengeRow =
  ch_userId :: int
  ch_expiresAt :: int
  ch_claimedAt :: "int option"

record SessionRow =
  se_userId :: int
  se_expiresAt :: int
  se_revokedAt :: "int option"

record PlayerDb =
  db_challenges :: "(string, ChallengeRow) std_map"
  db_sessions :: "(string, SessionRow) std_map"
  db_randPos :: nat

definition Pg_claim :: "string \<Rightarrow> int \<Rightarrow> PlayerDb \<Rightarrow> int option \<times> PlayerDb" where
  "Pg_claim key now db =
     (if key = [] then (None, db)
      else case map_of (db_challenges db) key of
        None \<Rightarrow> (None, db)
      | Some row \<Rightarrow>
          if ch_claimedAt row = None \<and> ch_expiresAt row > now
          then (Some (ch_userId row), db\<lparr>db_challenges := map_put key (row\<lparr>ch_claimedAt := Some now\<rparr>) (db_challenges db)\<rparr>)
          else (None, db))"

definition Pg_create :: "int \<Rightarrow> string \<Rightarrow> int \<Rightarrow> PlayerDb \<Rightarrow> PlayerDb option" where
  "Pg_create userId key expiresAtUnix db =
     (if map_of (db_sessions db) key \<noteq> None then None
      else Some (db\<lparr>db_sessions := map_put key \<lparr>se_userId = userId, se_expiresAt = expiresAtUnix, se_revokedAt = None\<rparr> (db_sessions db)\<rparr>))"

definition active_row :: "int \<Rightarrow> SessionRow \<Rightarrow> bool" where
  "active_row now row \<longleftrightarrow> se_revokedAt row = None \<and> se_expiresAt row > now"

definition Pg_extend :: "string \<Rightarrow> int \<Rightarrow> int \<Rightarrow> PlayerDb \<Rightarrow> bool \<times> PlayerDb" where
  "Pg_extend key now newExpiresAtUnix db =
     (case map_of (db_sessions db) key of
        None \<Rightarrow> (False, db)
      | Some row \<Rightarrow>
          if active_row now row
          then (True, db\<lparr>db_sessions := map_put key (row\<lparr>se_expiresAt := newExpiresAtUnix\<rparr>) (db_sessions db)\<rparr>)
          else (False, db))"

definition Pg_isActive :: "string \<Rightarrow> int \<Rightarrow> PlayerDb \<Rightarrow> bool" where
  "Pg_isActive key now db = (case map_of (db_sessions db) key of None \<Rightarrow> False | Some row \<Rightarrow> active_row now row)"

text \<open>\<open>rnd i\<close> is the \<open>i\<close>-th value \<open>std::rand\<close> returns in a process; the position is the only state.\<close>

definition RandomSessionKeyIssuer_issue :: "(nat \<Rightarrow> int) \<Rightarrow> PlayerDb \<Rightarrow> string \<times> PlayerDb" where
  "RandomSessionKeyIssuer_issue rnd db =
     (''session-'' @ show_int (rnd (db_randPos db)) @ ''-'' @ show_int (rnd (Suc (db_randPos db))),
      db\<lparr>db_randPos := db_randPos db + 2\<rparr>)"

definition pg_ports :: "(nat \<Rightarrow> int) \<Rightarrow> PlayerDb LoginPorts" where
  "pg_ports rnd = \<lparr>po_claim = Pg_claim, po_create = Pg_create, po_extend = Pg_extend, po_isActive = Pg_isActive,
     po_issue = RandomSessionKeyIssuer_issue rnd\<rparr>"

text \<open>What other programs do to the tables: the authentication service inserts a challenge under a new key.\<close>

definition Pg_addChallenge :: "string \<Rightarrow> ChallengeRow \<Rightarrow> PlayerDb \<Rightarrow> PlayerDb" where
  "Pg_addChallenge key row db =
     (if map_of (db_challenges db) key = None then db\<lparr>db_challenges := map_put key row (db_challenges db)\<rparr> else db)"

subsection \<open>Histories of the login service\<close>

text \<open>The challenges that logged somebody in, last first, between two states.\<close>

inductive login_history :: "'p LoginPorts \<Rightarrow> ('p \<Rightarrow> 'p \<Rightarrow> bool) \<Rightarrow> 'p \<Rightarrow> string list \<Rightarrow> 'p \<Rightarrow> bool"
  for ports :: "'p LoginPorts" and others :: "'p \<Rightarrow> 'p \<Rightarrow> bool" and p0 :: 'p where
  start: "login_history ports others p0 [] p0"
| login: "login_history ports others p0 ks p \<Longrightarrow> loginWithChallenge ports k now p = (Some r, p') \<Longrightarrow>
    login_history ports others p0 (if cl_accepted r then k # ks else ks) p'"
| thrown: "login_history ports others p0 ks p \<Longrightarrow> loginWithChallenge ports k now p = (None, p') \<Longrightarrow>
    login_history ports others p0 ks p'"
| kept: "login_history ports others p0 ks p \<Longrightarrow> login_history ports others p0 ks (snd (keepAlive ports key now p))"
| other: "login_history ports others p0 ks p \<Longrightarrow> others p p' \<Longrightarrow> login_history ports others p0 ks p'"

locale single_use_ports =
  fixes ports :: "'p LoginPorts"
    and others :: "'p \<Rightarrow> 'p \<Rightarrow> bool"
    and claimed :: "string \<Rightarrow> 'p \<Rightarrow> bool"
  assumes claim_Some: "po_claim ports k now p = (Some u, p') \<Longrightarrow> \<not> claimed k p \<and> claimed k p'"
    and claim_keeps: "claimed j p \<Longrightarrow> po_claim ports k now p = (r, p') \<Longrightarrow> claimed j p'"
    and issue_keeps: "claimed j p \<Longrightarrow> po_issue ports p = (key, p') \<Longrightarrow> claimed j p'"
    and create_keeps: "claimed j p \<Longrightarrow> po_create ports u key e p = Some p' \<Longrightarrow> claimed j p'"
    and extend_keeps: "claimed j p \<Longrightarrow> po_extend ports key now e p = (b, p') \<Longrightarrow> claimed j p'"
    and others_keep: "claimed j p \<Longrightarrow> others p p' \<Longrightarrow> claimed j p'"
begin

lemma login_keeps: "claimed j p \<Longrightarrow> loginWithChallenge ports k now p = (r, p') \<Longrightarrow> claimed j p'"
  by (auto simp: loginWithChallenge_def Let_def split: prod.splits option.splits)
    (metis claim_keeps issue_keeps create_keeps)+

lemma login_claims:
  assumes "loginWithChallenge ports k now p = (Some r, p')" "cl_accepted r"
  shows "\<not> claimed k p \<and> claimed k p'"
  using assms
  by (auto simp: loginWithChallenge_def Let_def rejectedLogin_def split: prod.splits option.splits
      dest!: claim_Some dest: issue_keeps create_keeps)

lemma keepAlive_keeps: "claimed j p \<Longrightarrow> claimed j (snd (keepAlive ports key now p))"
  by (auto simp: keepAlive_def Let_def split: prod.splits bool.splits dest: extend_keeps)

lemma history_claimed:
  "login_history ports others p0 ks p \<Longrightarrow> distinct ks \<and> list_all (\<lambda>k. claimed k p) ks"
proof (induction rule: login_history.induct)
  case (login ks p k now r p')
  then show ?case
    using login_claims [OF login.hyps(2)] login_keeps [OF _ login.hyps(2)] by (auto simp: list_all_iff)
next
  case (thrown ks p k now p')
  then show ?case using login_keeps [OF _ thrown.hyps(2)] by (auto simp: list_all_iff)
next
  case (kept ks p key now)
  then show ?case using keepAlive_keeps by (auto simp: list_all_iff)
next
  case (other ks p p')
  then show ?case using others_keep by (auto simp: list_all_iff)
qed simp

end

text \<open>A step of the authentication service, or a restart of this process, which resets \<open>std::rand\<close>.\<close>

definition pg_others :: "PlayerDb \<Rightarrow> PlayerDb \<Rightarrow> bool" where
  "pg_others db db' \<longleftrightarrow> (\<exists>key row. db' = Pg_addChallenge key row db) \<or> db' = db\<lparr>db_randPos := 0\<rparr>"

definition pg_claimed :: "string \<Rightarrow> PlayerDb \<Rightarrow> bool" where
  "pg_claimed k db \<longleftrightarrow> (\<exists>row. map_of (db_challenges db) k = Some row \<and> ch_claimedAt row \<noteq> None)"

interpretation pg: single_use_ports "pg_ports rnd" pg_others pg_claimed for rnd
  by unfold_locales
    (auto simp: pg_ports_def pg_others_def pg_claimed_def Pg_claim_def Pg_create_def Pg_extend_def Pg_addChallenge_def
      RandomSessionKeyIssuer_issue_def split: if_splits option.splits)

text \<open>
  Property C26. A challenge key logs somebody in at most once: over every history of logins,
  keep-alives, exceptions, restarts and new challenges from the authentication service, the challenges
  that were accepted are pairwise different.
\<close>

theorem challenge_used_once:
  assumes "login_history (pg_ports rnd) pg_others db0 ks db"
  shows "distinct ks"
  using pg.history_claimed [OF assms] by simp

definition sample_db :: PlayerDb where
  "sample_db = \<lparr>db_challenges = [(''k1'', \<lparr>ch_userId = 7, ch_expiresAt = 100, ch_claimedAt = None\<rparr>),
     (''k2'', \<lparr>ch_userId = 8, ch_expiresAt = 100, ch_claimedAt = None\<rparr>)], db_sessions = [], db_randPos = 0\<rparr>"

abbreviation sample_rnd :: "nat \<Rightarrow> int" where "sample_rnd \<equiv> int"

lemma sample_login:
  "loginWithChallenge (pg_ports sample_rnd) ''k1'' 10 sample_db =
     (Some \<lparr>cl_accepted = True, cl_reason = [], cl_sessionKey = ''session-0-1'', cl_userId = 7, cl_expiresAtUnix = 1810\<rparr>,
      \<lparr>db_challenges = [(''k1'', \<lparr>ch_userId = 7, ch_expiresAt = 100, ch_claimedAt = Some 10\<rparr>),
         (''k2'', \<lparr>ch_userId = 8, ch_expiresAt = 100, ch_claimedAt = None\<rparr>)],
       db_sessions = [(''session-0-1'', \<lparr>se_userId = 7, se_expiresAt = 1810, se_revokedAt = None\<rparr>)], db_randPos = 2\<rparr>)"
  by (simp add: loginWithChallenge_def pg_ports_def Pg_claim_def sample_db_def RandomSessionKeyIssuer_issue_def Pg_create_def
      acceptedLogin_def expiryFrom_def kSessionTtlSeconds_def show_int_def show_nat.simps)

theorem challenge_used_once_witness:
  "\<exists>db. login_history (pg_ports sample_rnd) pg_others sample_db [''k1''] db \<and> distinct [''k1'']"
proof -
  have "\<exists>db. login_history (pg_ports sample_rnd) pg_others sample_db [''k1''] db"
    using login_history.login [OF login_history.start sample_login] by auto
  then show ?thesis using challenge_used_once by blast
qed

subsection \<open>Sessions live for thirty minutes\<close>

text \<open>
  A session opened by an accepted login is valid exactly until thirty minutes after the
  login, and an accepted keep-alive moves the end to thirty minutes after the keep-alive; a keep-alive
  is accepted exactly while the session is valid, so an expired session is never revived.
\<close>

theorem session_ttl:
  assumes "loginWithChallenge (pg_ports rnd) k now db = (Some r, db')" and "cl_accepted r"
    and "keepAlive (pg_ports rnd) (cl_sessionKey r) t db' = (ka, db'')"
  shows "(validateSession (pg_ports rnd) (cl_sessionKey r) u db' \<longleftrightarrow> u < now + 1800) \<and>
    (ka_accepted ka \<longleftrightarrow> t < now + 1800) \<and>
    (validateSession (pg_ports rnd) (cl_sessionKey r) u db'' \<longleftrightarrow> u < (if ka_accepted ka then t + 1800 else now + 1800))"
proof -
  obtain userId where row: "map_of (db_sessions db') (cl_sessionKey r) =
      Some \<lparr>se_userId = userId, se_expiresAt = now + 1800, se_revokedAt = None\<rparr>"
    using assms(1,2)
    by (auto simp: loginWithChallenge_def Let_def rejectedLogin_def acceptedLogin_def pg_ports_def Pg_create_def
        expiryFrom_def kSessionTtlSeconds_def split: prod.splits option.splits if_splits)
  then show ?thesis using assms(3)
    by (cases "t < now + 1800") (auto simp: Let_def keepAlive_def validateSession_def pg_ports_def Pg_extend_def Pg_isActive_def active_row_def expiryFrom_def
        kSessionTtlSeconds_def rejectedKeepAlive_def acceptedKeepAlive_def split: if_splits)
qed

theorem session_ttl_witness:
  "\<exists>r db' ka db''. loginWithChallenge (pg_ports sample_rnd) ''k1'' 10 sample_db = (Some r, db') \<and>
     keepAlive (pg_ports sample_rnd) (cl_sessionKey r) 20 db' = (ka, db'') \<and> ka_accepted ka \<and>
     validateSession (pg_ports sample_rnd) (cl_sessionKey r) 1819 db''"
proof -
  obtain r db' where l: "loginWithChallenge (pg_ports sample_rnd) ''k1'' 10 sample_db = (Some r, db')" "cl_accepted r"
    using sample_login by simp
  obtain ka db'' where k: "keepAlive (pg_ports sample_rnd) (cl_sessionKey r) 20 db' = (ka, db'')" by force
  show ?thesis using session_ttl [OF l k, of 1819] l k by auto
qed

text \<open>
  Property C39. Session keys repeat after a restart: \<open>std::rand\<close> is never seeded, so a process that
  starts again draws the same numbers, its first session key is the first key of the previous run, and
  the first login of a valid challenge after the restart ends in a unique violation that nothing
  catches, with the challenge already claimed.
\<close>

theorem restart_login_throws:
  assumes "loginWithChallenge (pg_ports rnd) k1 now1 (db\<lparr>db_randPos := 0\<rparr>) = (Some r, db1)" and "cl_accepted r"
    and "Pg_claim k2 now2 (db1\<lparr>db_randPos := 0\<rparr>) = (Some userId, db2)"
  shows "fst (loginWithChallenge (pg_ports rnd) k2 now2 (db1\<lparr>db_randPos := 0\<rparr>)) = None \<and>
    pg_claimed k2 (snd (loginWithChallenge (pg_ports rnd) k2 now2 (db1\<lparr>db_randPos := 0\<rparr>)))"
proof -
  let ?key = "''session-'' @ show_int (rnd 0) @ ''-'' @ show_int (rnd 1)"
  have "map_of (db_sessions db1) ?key \<noteq> None"
    using assms(1,2)
    by (auto simp: loginWithChallenge_def Let_def rejectedLogin_def pg_ports_def Pg_create_def Pg_claim_def
        RandomSessionKeyIssuer_issue_def split: prod.splits option.splits if_splits)
  moreover have "db_sessions db2 = db_sessions db1" "db_randPos db2 = 0" "pg_claimed k2 db2"
    using assms(3) by (auto simp: Pg_claim_def pg_claimed_def split: if_splits option.splits)
  ultimately show ?thesis using assms(3)
    by (auto simp: loginWithChallenge_def Let_def pg_ports_def RandomSessionKeyIssuer_issue_def Pg_create_def pg_claimed_def)
qed

theorem restart_login_throws_witness:
  "\<exists>r db1. loginWithChallenge (pg_ports sample_rnd) ''k1'' 10 sample_db = (Some r, db1) \<and>
     fst (loginWithChallenge (pg_ports sample_rnd) ''k2'' 20 (db1\<lparr>db_randPos := 0\<rparr>)) = None"
proof -
  obtain r db1 where l: "loginWithChallenge (pg_ports sample_rnd) ''k1'' 10 sample_db = (Some r, db1)" "cl_accepted r"
    "map_of (db_challenges db1) ''k2'' = Some \<lparr>ch_userId = 8, ch_expiresAt = 100, ch_claimedAt = None\<rparr>"
    using sample_login by simp
  have same: "sample_db\<lparr>db_randPos := 0\<rparr> = sample_db" by (simp add: sample_db_def)
  obtain db2 where c: "Pg_claim ''k2'' 20 (db1\<lparr>db_randPos := 0\<rparr>) = (Some 8, db2)"
    using l(3) by (simp add: Pg_claim_def)
  show ?thesis using restart_login_throws [OF _ l(2) c, of sample_rnd "''k1''" 10 sample_db] l(1) by (auto simp: same)
qed

subsection \<open>The login command\<close>

text \<open>
  A login command is accepted only for a valid command with a claimable challenge, and
  then exactly one new session is active, under an id no session had before; on every rejection the
  registry is unchanged and the result carries the session id 0.
\<close>

theorem login_command_outcome:
  assumes "registry_ok sr" and "ChallengeLoginCommandHandler_handle ports command now p sr = (Some result, p', sr')"
  shows "(if lc_accepted result
     then cmd_type command = Login \<and> validateCommand command = Inr () \<and>
       (\<exists>u. fst (po_claim ports (cmd_payload command) now p) = Some u \<and> lc_userId result = u \<and> 0 < u) \<and>
       \<not> SessionRegistry_isActive sr (si_internalId (lc_session result)) \<and> 0 < si_internalId (lc_session result) \<and>
       set (sr_activeSessions sr') = insert (si_internalId (lc_session result)) (set (sr_activeSessions sr))
     else sr' = sr \<and> si_internalId (lc_session result) = 0 \<and> lc_error result \<noteq> []) \<and> registry_ok sr'"
proof (cases "lc_accepted result")
  case True
  obtain auth session where a: "cmd_type command = Login" "validateCommand command = Inr ()"
    "loginWithChallenge ports (cmd_payload command) now p = (Some auth, p')" "cl_accepted auth"
    "SessionRegistry_openAuthenticatedSession (cl_userId auth) sr = (session, sr')" "si_internalId session \<noteq> 0"
    "result = login_accepted (cl_userId auth) (cl_sessionKey auth) session"
    using assms(2) True
    by (auto simp: ChallengeLoginCommandHandler_handle_def login_rejected_def split: if_splits sum.splits prod.splits option.splits)
  have claim: "fst (po_claim ports (cmd_payload command) now p) = Some (cl_userId auth)"
    using a(3,4) by (auto simp: loginWithChallenge_def Let_def rejectedLogin_def acceptedLogin_def split: prod.splits option.splits)
  have opened: "0 < cl_userId auth" "si_internalId session = sr_nextInternalId sr"
    using a(5,6) by (auto simp: SessionRegistry_openAuthenticatedSession_def split: if_splits)
  have "si_authenticated session"
    using a(5,6) by (auto simp: SessionRegistry_openAuthenticatedSession_def split: if_splits)
  then show ?thesis
    using True a claim opened open_ok [OF assms(1) a(5)] assms(1)
    by (auto simp: login_accepted_def SessionRegistry_isActive_def registry_ok_def [of sr] list_all_iff)
next
  case False
  have err: "validateCommand command = Inl e \<Longrightarrow> e \<noteq> []" for e
    by (auto simp: validateCommand_def split: if_splits)
  show ?thesis using False assms err
    by (auto simp: ChallengeLoginCommandHandler_handle_def login_rejected_def login_accepted_def
        SessionRegistry_openAuthenticatedSession_def registry_ok_def
        split: if_splits sum.splits prod.splits option.splits)
qed

definition sample_login_command :: NetworkCommand where
  "sample_login_command = \<lparr>cmd_version = 1, cmd_type = Login, cmd_sessionId = 0, cmd_payload = ''k1''\<rparr>"

theorem login_command_outcome_witness:
  "\<exists>result db' sr'. ChallengeLoginCommandHandler_handle (pg_ports sample_rnd) sample_login_command 10 sample_db SessionRegistry_init =
       (Some result, db', sr') \<and> lc_accepted result \<and> SessionRegistry_isActive sr' (si_internalId (lc_session result))"
proof -
  obtain result db' sr' where h: "ChallengeLoginCommandHandler_handle (pg_ports sample_rnd) sample_login_command 10 sample_db
      SessionRegistry_init = (Some result, db', sr')" "lc_accepted result"
    using sample_login
    by (simp add: ChallengeLoginCommandHandler_handle_def sample_login_command_def validateCommand_def login_accepted_def
        SessionRegistry_openAuthenticatedSession_def SessionRegistry_init_def)
  show ?thesis using login_command_outcome [OF registry_ok_init(1) h(1)] h by (auto simp: SessionRegistry_isActive_def)
qed

end
