(* ===== verification/Alias_Database.thy ===== *)
theory Alias_Database
  imports Sessions
begin

text \<open>
  \<open>PostgresIdentityAliasStore.cpp\<close>, the database adapter behind the same port as the in-memory alias store.
  Its SQL is read as operations on the table of \<open>db/migrations/0001\<close>: the list of its rows, under the
  primary key, the unique column and the \<open>CHECK\<close> of the migration. An exception that leaves a call is an
  \<open>SqlError\<close> and leaves the table alone. Texts hold no zero byte.
\<close>

subsection \<open>The table\<close>

datatype SqlError = UniqueViolation | CheckViolation | ForeignKeyViolation | NumericOutOfRange | InvalidText | SequenceLimit
  | ConversionError | RuntimeError string

type_synonym 'a sql = "SqlError + 'a"

record AliasRow =
  al_aliasId :: int
  al_canonicalClaimedId :: string
  al_createdTick :: int
  al_lastUsedTick :: int
  al_confidence :: f32
  al_reviewStatus :: int

type_synonym AliasTable = "AliasRow list"

definition row_of_name :: "string \<Rightarrow> AliasTable \<Rightarrow> AliasRow option" where
  "row_of_name name t = List.find (\<lambda>r. al_canonicalClaimedId r = name) t"

text \<open>The \<open>CHECK\<close> of the migration; a NaN is above every number in PostgreSQL, so it fails it.\<close>

definition confidence_check :: "f32 \<Rightarrow> bool" where
  "confidence_check c \<longleftrightarrow> f32_le f32_zero c \<and> f32_le c (f32_lit 1 1)"

subsection \<open>The adapter\<close>

fun reviewStatusFromInt :: "int \<Rightarrow> AliasReviewStatus" where
  "reviewStatusFromInt n = (if n = 1 then HumanConfirmed else if n = 2 then HumanRejected else Unreviewed)"

fun reviewStatusToInt :: "AliasReviewStatus \<Rightarrow> int" where
  "reviewStatusToInt HumanConfirmed = 1"
| "reviewStatusToInt HumanRejected = 2"
| "reviewStatusToInt Unreviewed = 0"

text \<open>\<open>field::as<uint64_t>\<close> of a \<open>BIGINT\<close> throws on a negative number.\<close>

definition as_uint64 :: "int \<Rightarrow> u64 sql" where
  "as_uint64 n = (if n < 0 then Inl ConversionError else Inr (word_of_int n))"

definition read_alias :: "AliasRow \<Rightarrow> IdentityAliasRecord sql" where
  "read_alias row =
     (case as_uint64 (al_createdTick row) of
        Inl e \<Rightarrow> Inl e
      | Inr created \<Rightarrow>
          (case as_uint64 (al_lastUsedTick row) of
             Inl e \<Rightarrow> Inl e
           | Inr lastUsed \<Rightarrow>
               Inr \<lparr>ia_aliasId = al_aliasId row, ia_canonicalClaimedId = al_canonicalClaimedId row, ia_createdTick = created,
                 ia_lastUsedTick = lastUsed, ia_confidence = al_confidence row, ia_reviewStatus = reviewStatusFromInt (al_reviewStatus row)\<rparr>))"

definition PgAlias_find :: "string \<Rightarrow> AliasTable \<Rightarrow> IdentityAliasRecord option sql" where
  "PgAlias_find claimedId t =
     (case row_of_name claimedId t of
        None \<Rightarrow> Inr None
      | Some row \<Rightarrow> (case read_alias row of Inl e \<Rightarrow> Inl e | Inr r \<Rightarrow> Inr (Some r)))"

text \<open>The row of a record; \<open>static_cast<int64_t>\<close> reads the ticks as signed numbers.\<close>

definition row_of_record :: "IdentityAliasRecord \<Rightarrow> AliasRow" where
  "row_of_record r = \<lparr>al_aliasId = ia_aliasId r, al_canonicalClaimedId = ia_canonicalClaimedId r, al_createdTick = sint (ia_createdTick r),
     al_lastUsedTick = sint (ia_lastUsedTick r), al_confidence = ia_confidence r, al_reviewStatus = reviewStatusToInt (ia_reviewStatus r)\<rparr>"

definition PgAlias_insert :: "IdentityAliasRecord \<Rightarrow> AliasTable \<Rightarrow> (bool \<times> AliasTable) sql" where
  "PgAlias_insert r t =
     (if ia_aliasId r \<le> 0 \<or> ia_canonicalClaimedId r = [] \<or> bad_confidence (ia_confidence r) then Inr (False, t)
      else if \<not> confidence_check (ia_confidence r) then Inl CheckViolation
      else if ia_aliasId r \<in> al_aliasId ` set t \<or> row_of_name (ia_canonicalClaimedId r) t \<noteq> None then Inr (False, t)
      else Inr (True, t @ [row_of_record r]))"

text \<open>An \<open>UPDATE\<close> of the rows with a name.\<close>

definition update_name :: "string \<Rightarrow> (AliasRow \<Rightarrow> AliasRow) \<Rightarrow> AliasTable \<Rightarrow> AliasTable" where
  "update_name name f t = map (\<lambda>r. if al_canonicalClaimedId r = name then f r else r) t"

definition PgAlias_touch :: "string \<Rightarrow> u64 \<Rightarrow> AliasTable \<Rightarrow> bool \<times> AliasTable" where
  "PgAlias_touch claimedId lastUsedTick t =
     (row_of_name claimedId t \<noteq> None,
      update_name claimedId (\<lambda>r. r\<lparr>al_lastUsedTick := max (al_lastUsedTick r) (sint lastUsedTick)\<rparr>) t)"

definition PgAlias_reviewAlias :: "string \<Rightarrow> AliasReviewStatus \<Rightarrow> f32 \<Rightarrow> AliasTable \<Rightarrow> (bool \<times> AliasTable) sql" where
  "PgAlias_reviewAlias claimedId status confidence t =
     (if bad_confidence confidence \<or> row_of_name claimedId t = None then Inr (False, t)
      else if \<not> confidence_check confidence then Inl CheckViolation
      else Inr (True, update_name claimedId (\<lambda>r. r\<lparr>al_reviewStatus := reviewStatusToInt status, al_confidence := confidence\<rparr>) t))"

definition PgAlias_erase :: "string \<Rightarrow> AliasTable \<Rightarrow> bool \<times> AliasTable" where
  "PgAlias_erase claimedId t =
     (row_of_name claimedId t \<noteq> None, filter (\<lambda>r. al_canonicalClaimedId r \<noteq> claimedId) t)"

fun read_all :: "AliasRow list \<Rightarrow> IdentityAliasRecord list sql" where
  "read_all [] = Inr []"
| "read_all (row # rows) =
     (case read_alias row of
        Inl e \<Rightarrow> Inl e
      | Inr r \<Rightarrow> (case read_all rows of Inl e \<Rightarrow> Inl e | Inr rs \<Rightarrow> Inr (r # rs)))"

definition PgAlias_exportRecords :: "AliasTable \<Rightarrow> IdentityAliasRecord list sql" where
  "PgAlias_exportRecords t = read_all (sort_key al_aliasId t)"

text \<open>The connection string the store is made with, or a null pointer.\<close>

definition PgAlias_fromEnvironment :: "(string \<Rightarrow> string option) \<Rightarrow> string option" where
  "PgAlias_fromEnvironment getenv =
     (case getenv ''SEED_IDENTITY_DB_URL'' of None \<Rightarrow> None | Some url \<Rightarrow> if url = [] then None else Some url)"

subsection \<open>AdminAuthStore\<close>

text \<open>The table \<open>admin_users\<close> of \<open>db/migrations/0002\<close>; \<open>crypt\<close> of the extension \<open>pgcrypto\<close> is an argument.\<close>

record AdminUserRow =
  au_id :: int
  au_username :: string
  au_passwordHash :: string

definition verifyCredentials :: "(string \<Rightarrow> string \<Rightarrow> string) \<Rightarrow> AdminUserRow list \<Rightarrow> string \<Rightarrow> string \<Rightarrow> int option" where
  "verifyCredentials crypt users username password =
     map_option au_id (List.find (\<lambda>u. au_username u = username \<and> au_passwordHash u = crypt password (au_passwordHash u)) users)"

definition AdminAuthStore_fromEnvironment :: "(string \<Rightarrow> string option) \<Rightarrow> string option" where
  "AdminAuthStore_fromEnvironment getenv =
     (case getenv ''SEED_IDENTITY_DB_URL'' of None \<Rightarrow> None | Some url \<Rightarrow> if url = [] then None else Some url)"

lemma verifyCredentials_sound:
  "verifyCredentials crypt users username password = Some i \<Longrightarrow>
     \<exists>u \<in> set users. au_id u = i \<and> au_username u = username \<and> au_passwordHash u = crypt password (au_passwordHash u)"
  by (auto simp: verifyCredentials_def find_Some_iff)

subsection \<open>Two implementations of a port\<close>

text \<open>Sequences of calls of a port, with the answers; a call that throws ends the sequence.\<close>

fun run_calls :: "('c \<Rightarrow> 't \<Rightarrow> 'a \<times> 't) \<Rightarrow> 'c list \<Rightarrow> 't \<Rightarrow> 'a list \<times> 't" where
  "run_calls call [] t = ([], t)"
| "run_calls call (c # cs) t = (case call c t of (a, t1) \<Rightarrow> (case run_calls call cs t1 of (as, t2) \<Rightarrow> (a # as, t2)))"

fun try_calls :: "('c \<Rightarrow> 's \<Rightarrow> ('a \<times> 's) sql) \<Rightarrow> 'c list \<Rightarrow> 's \<Rightarrow> ('a list \<times> 's) sql" where
  "try_calls call [] s = Inr ([], s)"
| "try_calls call (c # cs) s =
     (case call c s of
        Inl e \<Rightarrow> Inl e
      | Inr (a, s1) \<Rightarrow> (case try_calls call cs s1 of Inl e \<Rightarrow> Inl e | Inr (as, s2) \<Rightarrow> Inr (a # as, s2)))"

fun all_fit :: "('c \<Rightarrow> 't \<Rightarrow> bool) \<Rightarrow> ('c \<Rightarrow> 't \<Rightarrow> 'a \<times> 't) \<Rightarrow> 'c list \<Rightarrow> 't \<Rightarrow> bool" where
  "all_fit fits call [] t \<longleftrightarrow> True"
| "all_fit fits call (c # cs) t \<longleftrightarrow> fits c t \<and> all_fit fits call cs (snd (call c t))"

text \<open>
  An adapter that may throw refines a plain one when every call that fits gets the same answer from both
  and keeps their states related; then so does every sequence of calls.
\<close>

locale port_refinement =
  fixes adapter :: "'c \<Rightarrow> 's \<Rightarrow> ('a \<times> 's) sql"
    and plain :: "'c \<Rightarrow> 't \<Rightarrow> 'a \<times> 't"
    and fits :: "'c \<Rightarrow> 't \<Rightarrow> bool"
    and related :: "'s \<Rightarrow> 't \<Rightarrow> bool"
  assumes step: "related s t \<Longrightarrow> fits c t \<Longrightarrow> \<exists>a s' t'. adapter c s = Inr (a, s') \<and> plain c t = (a, t') \<and> related s' t'"
begin

lemma runs:
  "related s t \<Longrightarrow> all_fit fits plain cs t \<Longrightarrow> \<exists>as s' t'. try_calls adapter cs s = Inr (as, s') \<and> run_calls plain cs t = (as, t') \<and> related s' t'"
proof (induction cs arbitrary: s t)
  case (Cons c cs)
  then obtain a s1 t1 where "adapter c s = Inr (a, s1)" "plain c t = (a, t1)" "related s1 t1" using step [of s t c] by auto
  then show ?case using Cons.IH [of s1 t1] Cons.prems(2) by auto
qed simp

end

subsection \<open>Both stores implement one port\<close>

text \<open>The calls of the port, executed by either store.\<close>

datatype AliasCall = CallFind string | CallInsert IdentityAliasRecord | CallTouch string u64
  | CallReview string AliasReviewStatus f32 | CallErase string | CallExport

datatype AliasAnswer = Found "IdentityAliasRecord option" | Answer bool | Exported "IdentityAliasRecord set"

definition changed :: "'s \<Rightarrow> 's option \<Rightarrow> AliasAnswer \<times> 's" where
  "changed m r = (case r of None \<Rightarrow> (Answer False, m) | Some m' \<Rightarrow> (Answer True, m'))"

fun memory_call :: "AliasCall \<Rightarrow> IdentityAliasStore \<Rightarrow> AliasAnswer \<times> IdentityAliasStore" where
  "memory_call (CallFind k) m = (Found (AliasStore_find k m), m)"
| "memory_call (CallInsert r) m = changed m (AliasStore_insert r m)"
| "memory_call (CallTouch k n) m = changed m (AliasStore_touch k n m)"
| "memory_call (CallReview k st c) m = changed m (AliasStore_reviewAlias k st c m)"
| "memory_call (CallErase k) m = changed m (AliasStore_erase k m)"
| "memory_call CallExport m = (Exported (set (AliasStore_exportRecords m)), m)"

fun table_call :: "AliasCall \<Rightarrow> AliasTable \<Rightarrow> (AliasAnswer \<times> AliasTable) sql" where
  "table_call (CallFind k) t = (case PgAlias_find k t of Inl e \<Rightarrow> Inl e | Inr r \<Rightarrow> Inr (Found r, t))"
| "table_call (CallInsert r) t = (case PgAlias_insert r t of Inl e \<Rightarrow> Inl e | Inr (b, t') \<Rightarrow> Inr (Answer b, t'))"
| "table_call (CallTouch k n) t = (case PgAlias_touch k n t of (b, t') \<Rightarrow> Inr (Answer b, t'))"
| "table_call (CallReview k st c) t = (case PgAlias_reviewAlias k st c t of Inl e \<Rightarrow> Inl e | Inr (b, t') \<Rightarrow> Inr (Answer b, t'))"
| "table_call (CallErase k) t = (case PgAlias_erase k t of (b, t') \<Rightarrow> Inr (Answer b, t'))"
| "table_call CallExport t = (case PgAlias_exportRecords t of Inl e \<Rightarrow> Inl e | Inr rs \<Rightarrow> Inr (Exported (set rs), t))"

text \<open>
  What a call may carry so that both stores answer alike: ticks below \<open>2^63\<close>, no NaN, and for an
  insertion an alias id that no record of the store has.
\<close>

definition small_tick :: "u64 \<Rightarrow> bool" where
  "small_tick n \<longleftrightarrow> 0 \<le> sint n"

fun storable :: "AliasCall \<Rightarrow> IdentityAliasStore \<Rightarrow> bool" where
  "storable (CallInsert r) m \<longleftrightarrow> small_tick (ia_createdTick r) \<and> small_tick (ia_lastUsedTick r) \<and>
     ia_confidence r \<noteq> F_NaN \<and> (\<forall>x \<in> set (AliasStore_exportRecords m). ia_aliasId x \<noteq> ia_aliasId r)"
| "storable (CallTouch k n) m \<longleftrightarrow> small_tick n"
| "storable (CallReview k st c) m \<longleftrightarrow> c \<noteq> F_NaN"
| "storable _ m \<longleftrightarrow> True"

definition row_ok :: "AliasRow \<Rightarrow> bool" where
  "row_ok r \<longleftrightarrow> (\<exists>x. r = row_of_record x \<and> small_tick (ia_createdTick x) \<and> small_tick (ia_lastUsedTick x))"

definition same_aliases :: "AliasTable \<Rightarrow> IdentityAliasStore \<Rightarrow> bool" where
  "same_aliases t m \<longleftrightarrow> map_wf m \<and> list_all row_ok t \<and> distinct (map al_canonicalClaimedId t) \<and>
     (\<forall>k. map_option row_of_record (map_of m k) = row_of_name k t)"

subsection \<open>Rows and records\<close>

lemma small_tick_uint: "small_tick n \<Longrightarrow> sint n = uint n"
proof -
  have s: "sint n = (uint n + 2 ^ 63) mod 2 ^ 64 - 2 ^ 63" by (simp add: sint_uint signed_take_bit_eq_take_bit_shift take_bit_eq_mod)
  have u: "0 \<le> uint n" "uint n < 2 ^ 64" using uint_lt2p [of n] by simp_all
  have "sint n < 0" if "\<not> uint n < 2 ^ 63"
    using that u minus_mod_self2 [of "uint n + 2 ^ 63" "2 ^ 64 :: int"] mod_pos_pos_trivial [of "uint n - 2 ^ 63" "2 ^ 64 :: int"]
    unfolding s by simp
  then show "small_tick n \<Longrightarrow> sint n = uint n" using u unfolding small_tick_def s by (cases "uint n < 2 ^ 63") auto
qed

lemma small_tick_less: "small_tick a \<Longrightarrow> small_tick b \<Longrightarrow> sint a < sint b \<longleftrightarrow> a < b"
  by (simp add: small_tick_uint word_less_def)

lemma review_status_roundtrip [simp]: "reviewStatusFromInt (reviewStatusToInt st) = st"
  by (cases st) auto

lemma read_row:
  "small_tick (ia_createdTick x) \<Longrightarrow> small_tick (ia_lastUsedTick x) \<Longrightarrow> read_alias (row_of_record x) = Inr x"
  by (simp add: read_alias_def row_of_record_def as_uint64_def small_tick_def del: reviewStatusFromInt.simps)

lemma row_of_record_simps [simp]:
  "al_canonicalClaimedId (row_of_record x) = ia_canonicalClaimedId x" "al_aliasId (row_of_record x) = ia_aliasId x"
  by (simp_all add: row_of_record_def)

lemma row_of_record_inj: "row_of_record x = row_of_record y \<Longrightarrow> x = y"
proof -
  let ?unrow = "\<lambda>row. \<lparr>ia_aliasId = al_aliasId row, ia_canonicalClaimedId = al_canonicalClaimedId row,
    ia_createdTick = word_of_int (al_createdTick row), ia_lastUsedTick = word_of_int (al_lastUsedTick row),
    ia_confidence = al_confidence row, ia_reviewStatus = reviewStatusFromInt (al_reviewStatus row)\<rparr>"
  have "?unrow (row_of_record z) = z" for z by (simp add: row_of_record_def del: reviewStatusFromInt.simps)
  then show "row_of_record x = row_of_record y \<Longrightarrow> x = y" by metis
qed

lemma row_of_name_Some: "row_of_name k t = Some r \<Longrightarrow> r \<in> set t \<and> al_canonicalClaimedId r = k"
  by (auto simp: row_of_name_def find_Some_iff)

lemma row_of_name_None: "row_of_name k t = None \<longleftrightarrow> k \<notin> al_canonicalClaimedId ` set t"
  by (auto simp: row_of_name_def find_None_iff)

lemma row_of_name_in:
  "distinct (map al_canonicalClaimedId t) \<Longrightarrow> r \<in> set t \<Longrightarrow> row_of_name (al_canonicalClaimedId r) t = Some r"
  by (induction t) (auto simp: row_of_name_def)

lemma row_of_name_append: "row_of_name k (t @ [r]) = (case row_of_name k t of None \<Rightarrow> if al_canonicalClaimedId r = k then Some r else None | Some x \<Rightarrow> Some x)"
  by (induction t) (auto simp: row_of_name_def)

lemma row_of_name_update:
  assumes "\<forall>r. al_canonicalClaimedId (f r) = al_canonicalClaimedId r"
  shows "row_of_name k (update_name n f t) = (if k = n then map_option f (row_of_name k t) else row_of_name k t)"
  using assms by (induction t) (auto simp: row_of_name_def update_name_def)

lemma row_of_name_filter:
  "row_of_name k (filter (\<lambda>r. al_canonicalClaimedId r \<noteq> n) t) = (if k = n then None else row_of_name k t)"
  by (induction t) (auto simp: row_of_name_def)

lemma update_name_names:
  assumes "\<forall>r. al_canonicalClaimedId (f r) = al_canonicalClaimedId r"
  shows "map al_canonicalClaimedId (update_name n f t) = map al_canonicalClaimedId t"
  using assms by (simp add: update_name_def)

lemma f32_not_lt: "x \<noteq> F_NaN \<Longrightarrow> y \<noteq> F_NaN \<Longrightarrow> \<not> f32_lt y x \<Longrightarrow> f32_le x y"
  by (cases x; cases y) (auto simp: f32_le_def)

lemma confidence_range: "c \<noteq> F_NaN \<Longrightarrow> \<not> bad_confidence c \<Longrightarrow> confidence_check c"
  using f32_not_lt [of f32_zero c] f32_not_lt [of c "f32_lit 1 1"] f32_lit_nat [of 1]
  by (auto simp: confidence_check_def bad_confidence_def)

lemma same_aliasesD:
  assumes "same_aliases t m" and "map_of m k = Some x"
  shows "row_of_name k t = Some (row_of_record x)" and "ia_canonicalClaimedId x = k" and "small_tick (ia_createdTick x)" and "small_tick (ia_lastUsedTick x)"
proof -
  show r: "row_of_name k t = Some (row_of_record x)" using assms unfolding same_aliases_def by (metis option.simps(9))
  then have i: "row_of_record x \<in> set t" "al_canonicalClaimedId (row_of_record x) = k" using row_of_name_Some by blast+
  then show "ia_canonicalClaimedId x = k" by simp
  obtain y where y: "row_of_record x = row_of_record y" "small_tick (ia_createdTick y)" "small_tick (ia_lastUsedTick y)"
    using assms(1) i(1) by (auto simp: same_aliases_def list_all_iff row_ok_def)
  then show "small_tick (ia_createdTick x)" "small_tick (ia_lastUsedTick x)" by (simp_all add: row_of_record_def small_tick_def)
qed

lemma same_aliases_None: "same_aliases t m \<Longrightarrow> map_of m k = None \<longleftrightarrow> row_of_name k t = None"
  unfolding same_aliases_def by (metis option.map_disc_iff)

lemma changed_None [simp]: "changed m None = (Answer False, m)" and changed_Some [simp]: "changed m (Some m') = (Answer True, m')"
  by (simp_all add: changed_def)

lemma insert_same:
  assumes "same_aliases t m" and "storable (CallInsert r) m"
  shows "\<exists>b t' m'. PgAlias_insert r t = Inr (b, t') \<and> changed m (AliasStore_insert r m) = (Answer b, m') \<and> same_aliases t' m'"
proof (cases "ia_aliasId r \<le> 0 \<or> ia_canonicalClaimedId r = [] \<or> bad_confidence (ia_confidence r) \<or> map_of m (ia_canonicalClaimedId r) \<noteq> None")
  case True
  then show ?thesis using assms same_aliases_None [OF assms(1)] confidence_range [of "ia_confidence r"]
    by (auto simp: PgAlias_insert_def AliasStore_insert_def)
next
  case False
  have "ia_aliasId r \<notin> al_aliasId ` set t"
  proof
    assume "ia_aliasId r \<in> al_aliasId ` set t"
    then obtain row where row: "row \<in> set t" "al_aliasId row = ia_aliasId r" by auto
    then have "row_of_name (al_canonicalClaimedId row) t = Some row" using assms(1) row_of_name_in by (auto simp: same_aliases_def)
    then obtain x where "map_of m (al_canonicalClaimedId row) = Some x" "row_of_record x = row"
      using assms(1) unfolding same_aliases_def by (metis (no_types, lifting) map_option_eq_Some)
    then have "x \<in> set (AliasStore_exportRecords m)" "ia_aliasId x = ia_aliasId r"
      using row(2) map_of_SomeD by (force simp: AliasStore_exportRecords_def)+
    then show False using assms(2) by auto
  qed
  moreover have "row_ok (row_of_record r)" using assms(2) by (auto simp: row_ok_def)
  moreover have n: "row_of_name (ia_canonicalClaimedId r) t = None" using False same_aliases_None [OF assms(1)] by blast
  ultimately have "PgAlias_insert r t = Inr (True, t @ [row_of_record r])" "same_aliases (t @ [row_of_record r]) (map_put (ia_canonicalClaimedId r) r m)"
    using False assms confidence_range [of "ia_confidence r"] n
    by (auto simp: PgAlias_insert_def same_aliases_def row_of_name_append row_of_name_None [symmetric] split: option.splits)
  then show ?thesis using False by (auto simp: AliasStore_insert_def)
qed

lemma update_same:
  assumes "same_aliases t m" and "map_of m k = Some x" and "\<forall>r. al_canonicalClaimedId (f r) = al_canonicalClaimedId r"
    and "f (row_of_record x) = row_of_record y" and "small_tick (ia_createdTick y)" and "small_tick (ia_lastUsedTick y)"
  shows "same_aliases (update_name k f t) (map_put k y m)"
proof -
  note x = same_aliasesD [OF assms(1,2)]
  have "row_ok r" if "r \<in> set (update_name k f t)" for r
  proof -
    obtain q where q: "q \<in> set t" "r = (if al_canonicalClaimedId q = k then f q else q)" using \<open>r \<in> _\<close> by (auto simp: update_name_def)
    show ?thesis
    proof (cases "al_canonicalClaimedId q = k")
      case True
      then have "q = row_of_record x" using row_of_name_in [of t q] q(1) x(1) assms(1) by (auto simp: same_aliases_def)
      then show ?thesis using q(2) True assms(4-6) by (auto simp: row_ok_def)
    next
      case False
      then show ?thesis using q assms(1) by (auto simp: same_aliases_def list_all_iff)
    qed
  qed
  then show ?thesis using assms(1,4) x(1) row_of_name_update [OF assms(3)] update_name_names [OF assms(3)]
    by (auto simp: same_aliases_def list_all_iff)
qed

lemma update_name_absent: "row_of_name k t = None \<Longrightarrow> update_name k f t = t"
  by (induction t) (auto simp: update_name_def row_of_name_def split: if_splits)

lemma map_put_same: "map_wf m \<Longrightarrow> map_of m k = Some v \<Longrightarrow> map_put k v m = m"
proof (induction m)
  case (Cons e m)
  have "k' < k" if "(k, v) \<in> set m" "e = (k', v')" for k' v' using Cons.prems(1) that by (force simp: map_wf_def)
  then show ?case using Cons by (cases e) (auto simp: map_wf_def dest!: map_of_SomeD split: if_splits)
qed simp

lemma touch_same:
  assumes "same_aliases t m" and "small_tick n"
  shows "\<exists>b t' m'. PgAlias_touch k n t = (b, t') \<and> changed m (AliasStore_touch k n m) = (Answer b, m') \<and> same_aliases t' m'"
proof (cases "map_of m k")
  case None
  then show ?thesis using assms(1) same_aliases_None [OF assms(1), of k] update_name_absent [of k t]
    by (auto simp: PgAlias_touch_def AliasStore_touch_def)
next
  case (Some x)
  note x = same_aliasesD [OF assms(1) Some]
  let ?f = "\<lambda>r. r\<lparr>al_lastUsedTick := max (al_lastUsedTick r) (sint n)\<rparr>" and ?y = "x\<lparr>ia_lastUsedTick := max (ia_lastUsedTick x) n\<rparr>"
  have "?f (row_of_record x) = row_of_record ?y"
    using small_tick_less [OF x(4) assms(2)] by (auto simp: row_of_record_def max_def not_le)
  moreover have "small_tick (ia_lastUsedTick ?y)" using x(4) assms(2) by (simp add: max_def)
  ultimately have s: "same_aliases (update_name k ?f t) (map_put k ?y m)"
    using update_same [OF assms(1) Some, of ?f ?y] x(3) by simp
  have "map_put k x m = m" if "same_aliases t m" using that Some map_put_same by (auto simp: same_aliases_def)
  then have "AliasStore_touch k n m = Some (map_put k ?y m)" using Some assms(1) by (auto simp: AliasStore_touch_def max_def not_le)
  then show ?thesis using s x(1) by (auto simp: PgAlias_touch_def)
qed

lemma review_same:
  assumes "same_aliases t m" and "c \<noteq> F_NaN"
  shows "\<exists>b t' m'. PgAlias_reviewAlias k st c t = Inr (b, t') \<and> changed m (AliasStore_reviewAlias k st c m) = (Answer b, m') \<and> same_aliases t' m'"
proof (cases "map_of m k")
  case None
  then show ?thesis using assms(1) same_aliases_None [OF assms(1), of k] by (auto simp: PgAlias_reviewAlias_def AliasStore_reviewAlias_def)
next
  case (Some x)
  note x = same_aliasesD [OF assms(1) Some]
  let ?f = "\<lambda>r. r\<lparr>al_reviewStatus := reviewStatusToInt st, al_confidence := c\<rparr>" and ?y = "x\<lparr>ia_reviewStatus := st, ia_confidence := c\<rparr>"
  have "same_aliases (update_name k ?f t) (map_put k ?y m)"
    using update_same [OF assms(1) Some, of ?f ?y] x(3,4) by (simp add: row_of_record_def)
  then show ?thesis using Some x(1) assms confidence_range [OF assms(2)]
    by (auto simp: PgAlias_reviewAlias_def AliasStore_reviewAlias_def)
qed

lemma erase_same:
  assumes "same_aliases t m"
  shows "\<exists>b t' m'. PgAlias_erase k t = (b, t') \<and> changed m (AliasStore_erase k m) = (Answer b, m') \<and> same_aliases t' m'"
proof -
  have "same_aliases (filter (\<lambda>r. al_canonicalClaimedId r \<noteq> k) t) (map_erase k m)"
    using assms by (auto simp: same_aliases_def row_of_name_filter list_all_iff distinct_map_filter)
  moreover have "filter (\<lambda>r. al_canonicalClaimedId r \<noteq> k) t = t" if "row_of_name k t = None"
    using that by (induction t) (auto simp: row_of_name_def split: if_splits)
  ultimately show ?thesis using assms same_aliases_None [OF assms, of k]
    by (cases "map_of m k") (auto simp: PgAlias_erase_def AliasStore_erase_def)
qed

lemma read_all_ok: "list_all row_ok t \<Longrightarrow> \<exists>xs. read_all t = Inr xs \<and> map row_of_record xs = t"
proof (induction t)
  case (Cons r t)
  then obtain x xs where "r = row_of_record x" "read_alias r = Inr x" "read_all t = Inr xs" "map row_of_record xs = t"
    by (auto simp: row_ok_def read_row)
  then show ?case by simp
qed simp

lemma export_same:
  assumes "same_aliases t m"
  shows "\<exists>rs. PgAlias_exportRecords t = Inr rs \<and> set rs = set (AliasStore_exportRecords m)"
proof -
  have "list_all row_ok (sort_key al_aliasId t)" using assms by (simp add: same_aliases_def list_all_iff)
  then obtain rs where rs: "read_all (sort_key al_aliasId t) = Inr rs" "map row_of_record rs = sort_key al_aliasId t"
    using read_all_ok by blast
  have "x \<in> set rs \<longleftrightarrow> x \<in> set (AliasStore_exportRecords m)" for x
  proof -
    have "row_of_record ` set rs = set t" using rs(2) by (metis set_map set_sort)
    then have "x \<in> set rs \<longleftrightarrow> row_of_record x \<in> set t" using row_of_record_inj by blast
    also have "\<dots> \<longleftrightarrow> (\<exists>k. row_of_name k t = Some (row_of_record x))"
      using row_of_name_in [of t "row_of_record x"] row_of_name_Some assms by (auto simp: same_aliases_def)
    also have "\<dots> \<longleftrightarrow> (\<exists>k. map_of m k = Some x)"
      using assms row_of_record_inj unfolding same_aliases_def by (metis (no_types, lifting) map_option_eq_Some)
    also have "\<dots> \<longleftrightarrow> x \<in> set (AliasStore_exportRecords m)"
      using assms map_wf_entry [of m] by (force simp: same_aliases_def AliasStore_exportRecords_def)
    finally show ?thesis .
  qed
  then show ?thesis using rs(1) by (auto simp: PgAlias_exportRecords_def)
qed

lemma find_same: "same_aliases t m \<Longrightarrow> PgAlias_find k t = Inr (AliasStore_find k m)"
  using same_aliases_None [of t m k] same_aliasesD [of t m k]
  by (cases "map_of m k") (auto simp: PgAlias_find_def AliasStore_find_def read_row)

lemma call_same:
  assumes "same_aliases t m" and "storable c m"
  shows "\<exists>ans t' m'. table_call c t = Inr (ans, t') \<and> memory_call c m = (ans, m') \<and> same_aliases t' m'"
proof (cases c)
  case (CallFind k)
  then show ?thesis using assms(1) find_same by auto
next
  case (CallInsert r)
  then show ?thesis using insert_same [OF assms(1), of r] assms(2) by (auto simp del: storable.simps)
next
  case (CallTouch k n)
  then show ?thesis using touch_same [OF assms(1), of n k] assms(2) by auto
next
  case (CallReview k st conf)
  then show ?thesis using review_same [OF assms(1), of conf k st] assms(2) by auto
next
  case (CallErase k)
  then show ?thesis using erase_same [OF assms(1), of k] by auto
next
  case CallExport
  then show ?thesis using export_same [OF assms(1)] assms(1) by auto
qed

interpretation alias_port: port_refinement table_call memory_call storable same_aliases
  by unfold_locales (rule call_same)


definition known_alias :: IdentityAliasRecord where
  "known_alias = \<lparr>ia_aliasId = 1, ia_canonicalClaimedId = ''ann'', ia_createdTick = 4, ia_lastUsedTick = 4, ia_confidence = f32_zero,
     ia_reviewStatus = Unreviewed\<rparr>"


end
