(* ===== verification/Streams.thy ===== *)
theory Streams
  imports Text Float32
begin

text \<open>
  Text streams of the C++ standard library as the sources use them, in the classic locale with default
  flags. An \<open>std::istringstream\<close> is the rest of its text; \<open>operator>>\<close> returns the value and the rest, or
  \<open>None\<close> when it sets \<open>failbit\<close> (every caller then gives up). \<open>operator<<\<close> of a \<open>float\<close> is \<open>%g\<close> with six
  significant digits. The main fact is what reading back a printed \<open>float\<close> gives: the \<open>float\<close> nearest
  to the six-digit decimal, which is the original for whole numbers below a million.
\<close>

subsection \<open>Reading\<close>

definition is_space :: "char \<Rightarrow> bool" where
  "is_space c \<longleftrightarrow> c = CHR '' '' \<or> c = CHR 0x09 \<or> c = CHR 0x0A \<or> c = CHR 0x0B \<or> c = CHR 0x0C \<or> c = CHR 0x0D"

definition skip_ws :: "string \<Rightarrow> string" where
  "skip_ws s = dropWhile is_space s"

text \<open>\<open>input >> std::ws; input.eof()\<close>, and also \<open>!(input >> trailing)\<close> for a string \<open>trailing\<close>.\<close>

definition at_end :: "string \<Rightarrow> bool" where
  "at_end s \<longleftrightarrow> skip_ws s = []"

definition read_char :: "string \<Rightarrow> (char \<times> string) option" where
  "read_char s = (case skip_ws s of [] \<Rightarrow> None | c # r \<Rightarrow> Some (c, r))"

fun read_sign :: "string \<Rightarrow> bool \<times> string" where
  "read_sign [] = (False, [])"
| "read_sign (c # r) = (if c = CHR ''-'' then (True, r) else if c = CHR ''+'' then (False, r) else (False, c # r))"

text \<open>The whole run of digits is consumed; a value out of range sets \<open>failbit\<close>.\<close>

definition read_int64 :: "string \<Rightarrow> (int \<times> string) option" where
  "read_int64 s =
     (let (neg, s1) = read_sign (skip_ws s); ds = takeWhile is_dec_digit s1; r = dropWhile is_dec_digit s1;
          v = (if neg then - int (digits_value ds) else int (digits_value ds)) in
      if ds = [] \<or> \<not> is_int64 v then None else Some (v, r))"

text \<open>A minus sign is accepted for an unsigned type and negates the value modulo \<open>2^64\<close>.\<close>

definition read_uint64 :: "string \<Rightarrow> (u64 \<times> string) option" where
  "read_uint64 s =
     (let (neg, s1) = read_sign (skip_ws s); ds = takeWhile is_dec_digit s1; r = dropWhile is_dec_digit s1;
          v = digits_value ds in
      if ds = [] \<or> v \<ge> 2 ^ 64 then None else Some (if neg then - of_nat v else of_nat v, r))"

definition read_exponent :: "string \<Rightarrow> (int \<times> string) option" where
  "read_exponent s =
     (case s of
        [] \<Rightarrow> Some (0, [])
      | c # r \<Rightarrow>
          if c = CHR ''e'' \<or> c = CHR ''E'' then
            let (neg, r1) = read_sign r; ds = takeWhile is_dec_digit r1 in
            if ds = [] then None
            else Some (if neg then - int (digits_value ds) else int (digits_value ds), dropWhile is_dec_digit r1)
          else Some (0, s))"

text \<open>\<open>mantissa * 10^e\<close>, correctly rounded.\<close>

definition float_of_decimal :: "bool \<Rightarrow> nat \<Rightarrow> int \<Rightarrow> f32" where
  "float_of_decimal neg mantissa e = f32_pack neg (mantissa * 10 ^ nat e * f32_unit) (10 ^ nat (- e))"

definition read_float :: "string \<Rightarrow> (f32 \<times> string) option" where
  "read_float s =
     (let (neg, s1) = read_sign (skip_ws s); ip = takeWhile is_dec_digit s1; r1 = dropWhile is_dec_digit s1;
          (fp, r2) = (case r1 of
                        [] \<Rightarrow> ([], [])
                      | c # r \<Rightarrow> if c = CHR ''.'' then (takeWhile is_dec_digit r, dropWhile is_dec_digit r) else ([], r1)) in
      if ip @ fp = [] then None
      else case read_exponent r2 of
        None \<Rightarrow> None
      | Some (e, rest) \<Rightarrow>
          let v = float_of_decimal neg (digits_value (ip @ fp)) (e - int (length fp)) in
          if f32_isfinite v then Some (v, rest) else None)"

subsection \<open>Printing a \<open>float\<close>\<close>

text \<open>The decimal exponent of \<open>n / d\<close>: \<open>dec_up\<close> for values from one, \<open>dec_down\<close> below one.\<close>

function dec_up :: "nat \<Rightarrow> nat \<Rightarrow> nat" where
  "dec_up n d = (if d = 0 \<or> n < 10 * d then 0 else Suc (dec_up n (10 * d)))"
  by pat_completeness auto
termination by (relation "measure (\<lambda>(n, d). n - d)") auto

function dec_down :: "nat \<Rightarrow> nat \<Rightarrow> nat" where
  "dec_down n d = (if n = 0 \<or> d \<le> n then 0 else Suc (dec_down (10 * n) d))"
  by pat_completeness auto
termination by (relation "measure (\<lambda>(n, d). d - n)") auto

declare dec_up.simps [simp del] dec_down.simps [simp del]

definition dec_exponent :: "nat \<Rightarrow> nat \<Rightarrow> int" where
  "dec_exponent n d = int (dec_up n d) - int (dec_down n d)"

text \<open>Six significant digits and the exponent of the first of them.\<close>

definition six_digits :: "nat \<Rightarrow> nat \<Rightarrow> nat \<times> int" where
  "six_digits n d =
     (let x = dec_exponent n d; k = 5 - x; v = round_even (n * 10 ^ nat k) (d * 10 ^ nat (- k)) in
      if v = 1000000 then (100000, x + 1) else (v, x))"

fun show_pad :: "nat \<Rightarrow> nat \<Rightarrow> string" where
  "show_pad 0 v = []"
| "show_pad (Suc k) v = show_pad k (v div 10) @ [digit_char (v mod 10)]"

definition strip_zeros :: "string \<Rightarrow> string" where
  "strip_zeros s = rev (dropWhile (\<lambda>c. c = CHR ''0'') (rev s))"

definition show_fraction :: "string \<Rightarrow> string" where
  "show_fraction fp = (let s = strip_zeros fp in if s = [] then [] else CHR ''.'' # s)"

definition show_exponent :: "int \<Rightarrow> string" where
  "show_exponent x = ''e'' @ (if x < 0 then ''-'' else ''+'') @ (if \<bar>x\<bar> < 10 then ''0'' else []) @ show_nat (nat \<bar>x\<bar>)"

definition show_general :: "nat \<Rightarrow> int \<Rightarrow> string" where
  "show_general v x =
     (if - 4 \<le> x \<and> x < 6 then
        let k = nat (5 - x) in show_nat (v div 10 ^ k) @ show_fraction (show_pad k (v mod 10 ^ k))
      else show_nat (v div 100000) @ show_fraction (show_pad 5 (v mod 100000)) @ show_exponent x)"

definition show_float :: "f32 \<Rightarrow> string" where
  "show_float x =
     (case x of
        F_NaN \<Rightarrow> ''nan''
      | F_Inf s \<Rightarrow> (if s then ''-inf'' else ''inf'')
      | F_Fin s m \<Rightarrow> (if s then ''-'' else []) @
          (if m = 0 then ''0'' else case six_digits m f32_unit of (v, e) \<Rightarrow> show_general v e))"

text \<open>What a finite value is after printing and reading back.\<close>

definition six_digit_value :: "f32 \<Rightarrow> f32" where
  "six_digit_value x =
     (case x of F_Fin s m \<Rightarrow> (case six_digits m f32_unit of (v, e) \<Rightarrow> float_of_decimal s v (e - 5)) | _ \<Rightarrow> x)"

subsection \<open>Searching\<close>

text \<open>\<open>s.find(c)\<close>, as the text before the first \<open>c\<close> and the text after it.\<close>

definition split_at :: "char \<Rightarrow> string \<Rightarrow> (string \<times> string) option" where
  "split_at c s = (if c \<in> set s then Some (takeWhile (\<lambda>x. x \<noteq> c) s, tl (dropWhile (\<lambda>x. x \<noteq> c) s)) else None)"

text \<open>\<open>s.find(p)\<close> for a string \<open>p\<close>: the text after the first occurrence.\<close>

fun after_first :: "string \<Rightarrow> string \<Rightarrow> string option" where
  "after_first p s =
     (if take (length p) s = p then Some (drop (length p) s)
      else case s of [] \<Rightarrow> None | c # r \<Rightarrow> after_first p r)"

declare after_first.simps [simp del]

text \<open>The pieces that successive \<open>std::getline(s, piece, c)\<close> calls return.\<close>

function getlines :: "char \<Rightarrow> string \<Rightarrow> string list" where
  "getlines c s =
     (if s = [] then []
      else takeWhile (\<lambda>x. x \<noteq> c) s # getlines c (tl (dropWhile (\<lambda>x. x \<noteq> c) s)))"
  by pat_completeness auto
termination
proof (relation "measure (\<lambda>(c, s). length s)", goal_cases)
  case (2 c s)
  then show ?case using length_dropWhile_le [of "\<lambda>x. x \<noteq> c" s] by (cases s) (auto simp: less_Suc_eq_le)
qed simp

declare getlines.simps [simp del]

subsection \<open>Rounding depends on the quotient only\<close>

lemma round_even_scale: "0 < c \<Longrightarrow> round_even (n * c) (d * c) = round_even n d"
  by (simp add: round_even_def Let_def mult.commute [of _ c] mult.left_commute [of 2 c])

lemma round_mag_scale: "0 < c \<Longrightarrow> round_mag p (n * c) (d * c) = round_mag p n d"
proof -
  assume c: "0 < c"
  have "round_even (n * c) (d * c * k) = round_even n (d * k)" for k
    using round_even_scale [OF c, of n "d * k"] by (simp add: ac_simps)
  then show ?thesis using c round_even_scale [OF c, of n d] by (simp add: round_mag_def Let_def)
qed

lemma f32_pack_scale: "0 < c \<Longrightarrow> f32_pack s (n * c) (d * c) = f32_pack s n d"
  by (simp add: f32_pack_def round_mag_scale)

lemma float_of_decimal_shift: "float_of_decimal s (v * 10 ^ z) e = float_of_decimal s v (e + int z)"
proof (cases "0 \<le> e")
  case True
  then have "nat (e + int z) = z + nat e" "nat (- e) = 0" "nat (- (e + int z)) = 0" by auto
  then show ?thesis by (simp add: float_of_decimal_def power_add mult.assoc)
next
  case False
  define k where "k = nat (- e)"
  have e: "e = - int k" using False by (simp add: k_def)
  show ?thesis
  proof (cases "k \<le> z")
    case True
    then have n: "nat (int z - int k) = z - k" "nat (int k - int z) = 0" by auto
    have "(10 :: nat) ^ z = 10 ^ (z - k) * 10 ^ k" using True by (simp flip: power_add)
    then show ?thesis using f32_pack_scale [of "10 ^ k" s "v * 10 ^ (z - k) * f32_unit" 1]
      by (simp add: float_of_decimal_def e n mult.assoc mult.left_commute mult.commute)
  next
    case gt: False
    then have n: "nat (int z - int k) = 0" "nat (int k - int z) = k - z" by auto
    have "(10 :: nat) ^ k = 10 ^ (k - z) * 10 ^ z" using gt by (simp flip: power_add)
    then show ?thesis using f32_pack_scale [of "10 ^ z" s "v * f32_unit" "10 ^ (k - z)"]
      by (simp add: float_of_decimal_def e n ac_simps)
  qed
qed

subsection \<open>Digits\<close>

lemma digits_value_zeros: "digits_value (a @ replicate z CHR ''0'') = digits_value a * 10 ^ z"
proof (induction z)
  case (Suc z)
  have "a @ replicate (Suc z) CHR ''0'' = (a @ replicate z CHR ''0'') @ [CHR ''0'']" by (simp add: replicate_append_same)
  then show ?case using Suc digit_value_char [of 0] by (simp only: digits_value_snoc) simp
qed simp

lemma digits_value_pad: "v < 10 ^ k \<Longrightarrow> digits_value (a @ show_pad k v) = digits_value a * 10 ^ k + v"
proof (induction k arbitrary: v)
  case (Suc k)
  have "v div 10 < 10 ^ k" using Suc.prems by auto
  from Suc.IH [OF this] show ?case
    by (simp add: digits_value_snoc append_assoc [symmetric] algebra_simps del: append_assoc)
qed simp

lemma show_pad_digits: "list_all is_dec_digit (show_pad k v)"
  by (induction k arbitrary: v) auto

lemma length_show_pad [simp]: "length (show_pad k v) = k"
  by (induction k arbitrary: v) auto

lemma strip_zeros_split: "\<exists>z. fp = strip_zeros fp @ replicate z CHR ''0''"
proof -
  have "rev fp = takeWhile (\<lambda>c. c = CHR ''0'') (rev fp) @ dropWhile (\<lambda>c. c = CHR ''0'') (rev fp)" by simp
  then have "fp = strip_zeros fp @ rev (takeWhile (\<lambda>c. c = CHR ''0'') (rev fp))"
    unfolding strip_zeros_def by (metis rev_append rev_rev_ident)
  moreover have "set (takeWhile (\<lambda>c. c = CHR ''0'') (rev fp)) \<subseteq> {CHR ''0''}" by (auto dest: set_takeWhileD)
  then have "takeWhile (\<lambda>c. c = CHR ''0'') (rev fp) = replicate (length (takeWhile (\<lambda>c. c = CHR ''0'') (rev fp))) CHR ''0''"
    by (intro replicate_eqI) auto
  ultimately show ?thesis by (metis rev_replicate)
qed

lemma strip_zeros_digits: "list_all is_dec_digit fp \<Longrightarrow> list_all is_dec_digit (strip_zeros fp)"
  using strip_zeros_split [of fp] by (metis list_all_append)

subsection \<open>Reading back what was printed\<close>

text \<open>A text that ends a number: empty, or starting with a character no number contains.\<close>

definition ends_number :: "string \<Rightarrow> bool" where
  "ends_number rest \<longleftrightarrow> (case rest of [] \<Rightarrow> True
     | c # _ \<Rightarrow> \<not> is_dec_digit c \<and> c \<noteq> CHR ''.'' \<and> c \<noteq> CHR ''e'' \<and> c \<noteq> CHR ''E'')"

lemma ends_number_simps [simp]:
  "ends_number []" "ends_number (CHR '';'' # r)" "ends_number (CHR '','' # r)"
  by (simp_all add: ends_number_def)

lemma takeWhile_digits:
  assumes "list_all is_dec_digit ds" and "r = [] \<or> \<not> is_dec_digit (hd r)"
  shows "takeWhile is_dec_digit (ds @ r) = ds \<and> dropWhile is_dec_digit (ds @ r) = r"
  using assms by (induction ds) (cases r; auto)+

lemma digit_not_space: "is_dec_digit c \<Longrightarrow> \<not> is_space c"
  by (auto simp: is_space_def is_dec_digit_def)

lemma skip_ws_nonspace: "s = [] \<or> \<not> is_space (hd s) \<Longrightarrow> skip_ws s = s"
  by (cases s) (auto simp: skip_ws_def)

lemma hd_show_nat: "is_dec_digit (hd (show_nat n @ r))"
  using show_nat_digits [of n] by (cases "show_nat n") auto

text \<open>The sign of a printed number.\<close>

lemma read_sign_digits:
  assumes "list_all is_dec_digit ds" "ds \<noteq> []"
  shows "read_sign (skip_ws ((if neg then ''-'' else []) @ ds @ r)) = (neg, ds @ r)"
proof -
  obtain c ds' where ds: "ds = c # ds'" "is_dec_digit c" using assms by (cases ds) auto
  have "c \<noteq> CHR ''-''" "c \<noteq> CHR ''+''" using ds(2) by (auto simp: is_dec_digit_def)
  moreover have "\<not> is_space CHR ''-''" by (simp add: is_space_def)
  ultimately show ?thesis using digit_not_space [OF ds(2)] by (simp add: ds(1) skip_ws_nonspace)
qed

lemma ends_number_digit: "ends_number r \<Longrightarrow> r = [] \<or> \<not> is_dec_digit (hd r)"
  by (cases r) (auto simp: ends_number_def)

lemma show_int_eq: "show_int i = (if i < 0 then ''-'' else []) @ show_nat (nat \<bar>i\<bar>)"
  by (simp add: show_int_def)

lemma read_show_int64:
  assumes "is_int64 i" "ends_number r"
  shows "read_int64 (show_int i @ r) = Some (i, r)"
proof -
  have "takeWhile is_dec_digit (show_nat n @ r) = show_nat n" "dropWhile is_dec_digit (show_nat n @ r) = r" for n
    using takeWhile_digits [OF show_nat_digits ends_number_digit [OF assms(2)]] by auto
  then show ?thesis using assms(1) read_sign_digits [OF show_nat_digits, of "nat \<bar>i\<bar>" "i < 0" r]
    by (auto simp: read_int64_def show_int_eq Let_def)
qed

lemma read_show_uint64:
  assumes "ends_number r"
  shows "read_uint64 (show_u64 w @ r) = Some (w, r)"
proof -
  have "takeWhile is_dec_digit (show_nat n @ r) = show_nat n" "dropWhile is_dec_digit (show_nat n @ r) = r" for n
    using takeWhile_digits [OF show_nat_digits ends_number_digit [OF assms]] by auto
  moreover have "unat w < 2 ^ 64" using unsigned_less [of w, where 'a = nat] by simp
  ultimately show ?thesis using read_sign_digits [OF show_nat_digits, of "unat w" False r]
    by (simp add: read_uint64_def show_u64_def)
qed

text \<open>A printed exponent, or none.\<close>

lemma read_show_exponent:
  assumes "ends_number r"
  shows "read_exponent (show_exponent x @ r) = Some (x, r)" "read_exponent r = Some (0, r)"
proof -
  let ?ds = "(if \<bar>x\<bar> < 10 then ''0'' else []) @ show_nat (nat \<bar>x\<bar>)"
  have ds: "list_all is_dec_digit ?ds" "?ds \<noteq> []" using show_nat_digits by (auto simp: is_dec_digit_def)
  have v: "digits_value ?ds = nat \<bar>x\<bar>"
    using digits_value_pad [of 0 0] digits_value_show [of "nat \<bar>x\<bar>"] by (auto simp: digits_value_def digit_value_def)
  have s: "read_sign ((if x < 0 then ''-'' else ''+'') @ ?ds @ r) = (x < 0, ?ds @ r)" by simp
  have e: "show_exponent x @ r = CHR ''e'' # ((if x < 0 then ''-'' else ''+'') @ ?ds @ r)"
    by (simp add: show_exponent_def)
  show "read_exponent (show_exponent x @ r) = Some (x, r)"
    unfolding e read_exponent_def list.case Let_def s using takeWhile_digits [OF ds(1) ends_number_digit [OF assms]] ds(2) v
    by auto
  show "read_exponent r = Some (0, r)" using assms by (auto simp: read_exponent_def ends_number_def split: list.splits)
qed

text \<open>Integer part, fraction and exponent as \<open>read_float\<close> takes them apart.\<close>

lemma read_float_parts:
  assumes ip: "list_all is_dec_digit ip" "ip \<noteq> []" and fp: "list_all is_dec_digit fp"
    and tl: "tail = [] \<or> \<not> is_dec_digit (hd tail) \<and> hd tail \<noteq> CHR ''.''" and ex: "read_exponent tail = Some (e, r)"
  shows "read_float ((if neg then ''-'' else []) @ ip @ show_fraction fp @ tail) =
    (let v = float_of_decimal neg (digits_value (ip @ fp)) (e - int (length fp)) in
     if f32_isfinite v then Some (v, r) else None)"
proof -
  obtain z where z: "fp = strip_zeros fp @ replicate z CHR ''0''" using strip_zeros_split by blast
  define q where "q = strip_zeros fp"
  have q: "list_all is_dec_digit q" using strip_zeros_digits [OF fp] by (simp add: q_def)
  have len: "length fp = length q + z" using z by (metis length_append length_replicate q_def)
  have "digits_value (ip @ fp) = digits_value ((ip @ q) @ replicate z CHR ''0'')" using z by (simp add: q_def)
  then have val: "float_of_decimal neg (digits_value (ip @ fp)) (e - int (length fp)) =
      float_of_decimal neg (digits_value (ip @ q)) (e - int (length q))"
    by (simp add: digits_value_zeros [of "ip @ q", simplified] float_of_decimal_shift len)
  have t1: "takeWhile is_dec_digit (ip @ tail) = ip" "dropWhile is_dec_digit (ip @ tail) = tail"
    using takeWhile_digits [OF ip(1)] tl by auto
  have t2: "takeWhile is_dec_digit (ip @ CHR ''.'' # w) = ip" "dropWhile is_dec_digit (ip @ CHR ''.'' # w) = CHR ''.'' # w" for w
    using takeWhile_digits [OF ip(1), of "CHR ''.'' # w"] by auto
  have t3: "takeWhile is_dec_digit (q @ tail) = q" "dropWhile is_dec_digit (q @ tail) = tail"
    using takeWhile_digits [OF q] tl by auto
  show ?thesis unfolding val
  proof (cases "q = []")
    case True
    then have "show_fraction fp = []" by (simp add: show_fraction_def q_def)
    then show "read_float ((if neg then ''-'' else []) @ ip @ show_fraction fp @ tail) =
        (let v = float_of_decimal neg (digits_value (ip @ q)) (e - int (length q)) in if f32_isfinite v then Some (v, r) else None)"
      unfolding read_float_def using read_sign_digits [OF ip, of neg tail] t1 tl ex ip(2) True
      by (auto split: list.splits)
  next
    case False
    then have "show_fraction fp = CHR ''.'' # q" by (simp add: show_fraction_def q_def Let_def)
    then show "read_float ((if neg then ''-'' else []) @ ip @ show_fraction fp @ tail) =
        (let v = float_of_decimal neg (digits_value (ip @ q)) (e - int (length q)) in if f32_isfinite v then Some (v, r) else None)"
      unfolding read_float_def using read_sign_digits [OF ip, of neg "CHR ''.'' # q @ tail"] t2 t3 ex ip(2)
      by auto
  qed
qed

lemma ends_number_tail: "ends_number r \<Longrightarrow> r = [] \<or> \<not> is_dec_digit (hd r) \<and> hd r \<noteq> CHR ''.''"
  by (cases r) (auto simp: ends_number_def)

lemma read_show_zero:
  assumes "ends_number r"
  shows "six_digit_value (F_Fin s 0) = F_Fin s 0" "read_float (show_float (F_Fin s 0) @ r) = Some (F_Fin s 0, r)"
proof -
  have "six_digits 0 f32_unit = (0, 0)"
    by (simp add: six_digits_def round_even_def dec_exponent_def dec_up.simps dec_down.simps Let_def)
  then show "six_digit_value (F_Fin s 0) = F_Fin s 0"
    by (simp add: six_digit_value_def float_of_decimal_def f32_pack_def round_mag_def round_even_def)
  have "float_of_decimal s 0 0 = F_Fin s 0"
    by (simp add: float_of_decimal_def f32_pack_def round_mag_def round_even_def)
  then show "read_float (show_float (F_Fin s 0) @ r) = Some (F_Fin s 0, r)"
    using read_float_parts [of "''0''" "[]" r 0 r s, OF _ _ _ ends_number_tail [OF assms] read_show_exponent(2) [OF assms]]
    by (simp add: show_float_def show_fraction_def strip_zeros_def is_dec_digit_def digits_value_def digit_value_def)
qed

text \<open>Both forms of \<open>%g\<close>: without and with an exponent.\<close>

lemma read_show_general:
  assumes "ends_number r"
  shows "read_float ((if s then ''-'' else []) @ show_general v e @ r) =
    (let x = float_of_decimal s v (e - 5) in if f32_isfinite x then Some (x, r) else None)"
proof -
  have pad: "digits_value (show_nat (v div 10 ^ k) @ show_pad k (v mod 10 ^ k)) = v" for k
    by (simp add: digits_value_pad div_mult_mod_eq)
  show ?thesis
  proof (cases "- 4 \<le> e \<and> e < 6")
    case True
    define k where "k = nat (5 - e)"
    have "e - 5 = 0 - int k" using True by (simp add: k_def)
    then show ?thesis using True
        read_float_parts [of "show_nat (v div 10 ^ k)" "show_pad k (v mod 10 ^ k)" r 0 r s,
          OF show_nat_digits show_nat_nonempty show_pad_digits ends_number_tail [OF assms] read_show_exponent(2) [OF assms]]
      by (simp add: show_general_def pad k_def [symmetric] Let_def)
  next
    case sci: False
    have t: "show_exponent e @ r = [] \<or> \<not> is_dec_digit (hd (show_exponent e @ r)) \<and> hd (show_exponent e @ r) \<noteq> CHR ''.''"
      by (simp add: show_exponent_def is_dec_digit_def)
    have sg: "show_general v e = show_nat (v div 100000) @ show_fraction (show_pad 5 (v mod 100000)) @ show_exponent e"
      using sci by (simp only: show_general_def if_False)
    have p5: "digits_value (show_nat (v div 100000) @ show_pad 5 (v mod 100000)) = v" using pad [of 5] by simp
    from read_float_parts [of "show_nat (v div 100000)" "show_pad 5 (v mod 100000)" "show_exponent e @ r" e r s,
        OF show_nat_digits show_nat_nonempty show_pad_digits t read_show_exponent(1) [OF assms]]
    show ?thesis by (simp only: sg p5 append_assoc length_show_pad of_nat_numeral Let_def)
  qed
qed

lemma read_show_float:
  assumes "f32_isfinite x" "ends_number r"
  shows "read_float (show_float x @ r) =
    (if f32_isfinite (six_digit_value x) then Some (six_digit_value x, r) else None)"
proof -
  obtain s m where x: "x = F_Fin s m" using assms(1) by (auto simp: f32_isfinite_iff)
  show ?thesis
  proof (cases "m = 0")
    case True
    then show ?thesis using read_show_zero [OF assms(2), of s] by (simp add: x)
  next
    case False
    obtain v e where ve: "six_digits m f32_unit = (v, e)" by force
    have "six_digit_value x = float_of_decimal s v (e - 5)" by (simp only: x six_digit_value_def f32.case ve prod.case)
    moreover have "show_float x = (if s then ''-'' else []) @ show_general v e"
      using False by (simp only: x show_float_def f32.case ve prod.case if_False)
    ultimately show ?thesis using read_show_general [OF assms(2), of s v e] by (simp only: append_assoc Let_def)
  qed
qed

subsection \<open>Whole numbers below a million survive\<close>

lemma dec_up_bounds: "0 < d \<Longrightarrow> d \<le> n \<Longrightarrow> 10 ^ dec_up n d * d \<le> n \<and> n < 10 ^ Suc (dec_up n d) * d"
proof (induction n d rule: dec_up.induct)
  case (1 n d)
  show ?case
  proof (cases "n < 10 * d")
    case True
    then show ?thesis using 1(2,3) by (simp add: dec_up.simps [of n d])
  next
    case False
    then have "10 ^ dec_up n (10 * d) * (10 * d) \<le> n \<and> n < 10 ^ Suc (dec_up n (10 * d)) * (10 * d)"
      using 1 by simp
    then show ?thesis using False 1(2) by (simp add: dec_up.simps [of n d])
  qed
qed

lemma six_digit_whole:
  assumes "k < 1000000"
  shows "six_digit_value (F_Fin s (k * f32_unit)) = F_Fin s (k * f32_unit)"
proof -
  have exact: "float_of_decimal s k 0 = F_Fin s (k * f32_unit)"
    using f32_lit_nat [of k] assms by (auto simp: float_of_decimal_def f32_lit_def f32_pack_def Let_def split: if_splits)
  have "\<exists>u \<le> 5. six_digits (k * f32_unit) f32_unit = (k * 10 ^ (5 - u), int u)"
  proof (cases "k = 0")
    case True
    have "six_digits 0 f32_unit = (0, 0)"
      by (simp add: six_digits_def round_even_def dec_exponent_def dec_up.simps dec_down.simps Let_def)
    then show ?thesis using True by (intro exI [of _ 0]) (simp only: mult_0, simp)
  next
    case False
    define U :: nat where "U = f32_unit"
    define u where "u = dec_up (k * U) U"
    have U: "0 < U" by (simp add: U_def)
    have "U \<le> k * U" using False by simp
    from dec_up_bounds [OF U this] have b: "10 ^ u \<le> k" "k < 10 ^ Suc u" using U by (simp_all add: u_def [symmetric])
    have "(10 :: nat) ^ u < 10 ^ 6" using b(1) assms by simp
    then have "u < 6" using power_less_imp_less_exp [of "10 :: nat" u 6] by linarith
    then have u5: "u \<le> 5" by simp
    have x: "dec_exponent (k * U) U = int u"
      using False U by (simp add: dec_exponent_def u_def dec_down.simps [of "k * U" U])
    have n: "nat (5 - int u) = 5 - u" "nat (int u - 5) = 0" using u5 by auto
    have r: "round_even (k * U * 10 ^ (5 - u)) U = k * 10 ^ (5 - u)"
      using U by (simp add: round_even_def mult.commute mult.left_commute [of _ U])
    have "k * 10 ^ (5 - u) < 10 ^ Suc u * 10 ^ (5 - u)" using b(2) by simp
    also have "\<dots> = 10 ^ 6" using u5 by (simp flip: power_add power_Suc)
    finally have "k * 10 ^ (5 - u) \<noteq> 1000000" by simp
    then have "six_digits (k * U) U = (k * 10 ^ (5 - u), int u)" by (simp add: six_digits_def x n r Let_def)
    then show ?thesis using u5 unfolding U_def by blast
  qed
  then obtain u where u: "u \<le> 5" "six_digits (k * f32_unit) f32_unit = (k * 10 ^ (5 - u), int u)" by blast
  have "six_digit_value (F_Fin s (k * f32_unit)) = float_of_decimal s (k * 10 ^ (5 - u)) (int u - 5)"
    by (simp only: six_digit_value_def f32.case u(2) prod.case)
  also have "\<dots> = float_of_decimal s k 0" using u(1) by (simp add: float_of_decimal_shift)
  finally show ?thesis using exact by simp
qed

subsection \<open>Reading back stays finite\<close>

lemma round_even_upper: "0 < d \<Longrightarrow> round_even n d * d \<le> n + d"
proof -
  assume d: "0 < d"
  have "round_even n d * d \<le> Suc (n div d) * d" using round_even_bounds [OF d, of n] by (intro mult_le_mono1) simp
  also have "\<dots> \<le> n + d" by simp
  finally show ?thesis .
qed

lemma float_of_decimal_finite:
  assumes "v * 10 ^ nat e * f32_unit \<le> 2 ^ 276 * 10 ^ nat (- e)"
  shows "f32_isfinite (float_of_decimal s v e)"
proof -
  have "round_mag 24 (v * 10 ^ nat e * f32_unit) (10 ^ nat (- e)) \<le> 2 ^ 276"
    using assms by (intro round_mag_le representable_pow2) simp_all
  then show ?thesis by (simp add: float_of_decimal_def f32_pack_def Let_def)
qed

lemma six_digit_value_finite:
  assumes "m \<le> 2 ^ 275"
  shows "f32_isfinite (six_digit_value (F_Fin s m))"
proof -
  define U :: nat where "U = f32_unit"
  have U: "0 < U" "U \<le> 2 ^ 275" by (simp_all add: U_def)
  define x where "x = dec_exponent m U"
  define e where "e = x - 5"
  define v where "v = round_even (m * 10 ^ nat (- e)) (U * 10 ^ nat e)"
  have "six_digits m U = (if v = 1000000 then (100000, x + 1) else (v, x))"
    by (simp add: six_digits_def v_def e_def x_def Let_def)
  moreover have "float_of_decimal s 100000 (x - 4) = float_of_decimal s 1000000 e"
    using float_of_decimal_shift [of s 100000 1 e] by (simp add: e_def)
  ultimately have six: "six_digit_value (F_Fin s m) = float_of_decimal s v e"
    unfolding six_digit_value_def f32.case U_def [symmetric] by (simp add: e_def)
  have "U * 10 ^ nat e \<le> 2 ^ 275 * 10 ^ nat (- e)"
  proof (cases "0 < e")
    case True
    then have up: "0 < dec_up m U" "nat e \<le> dec_up m U" by (auto simp: e_def x_def dec_exponent_def)
    have "U \<le> m" using up(1) by (cases "m < 10 * U") (simp_all add: dec_up.simps [of m U])
    then have "10 ^ dec_up m U * U \<le> m" using dec_up_bounds [OF U(1)] by blast
    moreover have "10 ^ nat e * U \<le> 10 ^ dec_up m U * U" using up(2) by (intro mult_le_mono1 power_increasing) simp_all
    ultimately have "U * 10 ^ nat e \<le> 2 ^ 275" using assms by (simp only: mult.commute)
    then show ?thesis using True by simp
  next
    case False
    have "U * 1 \<le> 2 ^ 275 * 10 ^ nat (- e)" by (rule mult_le_mono [OF U(2)]) simp
    then show ?thesis using False by simp
  qed
  moreover have "m * 10 ^ nat (- e) \<le> 2 ^ 275 * 10 ^ nat (- e)" using assms by simp
  moreover have "v * (U * 10 ^ nat e) \<le> m * 10 ^ nat (- e) + U * 10 ^ nat e"
    unfolding v_def using U(1) by (intro round_even_upper) simp
  moreover have "(2 :: nat) ^ 276 = 2 ^ 275 + 2 ^ 275" by simp
  ultimately have "v * (U * 10 ^ nat e) \<le> 2 ^ 276 * 10 ^ nat (- e)" by (simp only: add_mult_distrib)
  then have "v * 10 ^ nat e * f32_unit \<le> 2 ^ 276 * 10 ^ nat (- e)" by (simp only: U_def ac_simps)
  then show ?thesis unfolding six by (rule float_of_decimal_finite)
qed

end
