(* ===== verification/C_Numbers.thy ===== *)
theory C_Numbers
  imports Streams Sessions
begin

text \<open>
  Numbers in the text of arguments and forms: \<open>std::atoi\<close> and \<open>std::strtof\<close> of the C library, as
  \<open>ServerMain.cpp\<close> and \<open>AdminMain.cpp\<close> call them. Neither reports an error: text without a number is zero
  and what follows a number is ignored. \<open>atoi\<close> of a number that is no \<open>int\<close> has no defined result (\<open>None\<close>).
\<close>

definition c_str :: "string \<Rightarrow> string" where
  "c_str s = takeWhile (\<lambda>c. c \<noteq> CHR 0x00) s"

definition atoi :: "string \<Rightarrow> int option" where
  "atoi s =
     (let (neg, r) = read_sign (skip_ws s); v = int (digits_value (takeWhile is_dec_digit r)); n = (if neg then - v else v) in
      if - (2 ^ 31) \<le> n \<and> n < 2 ^ 31 then Some n else None)"

text \<open>The port of a program: its first argument, \<open>static_cast<uint16_t>(std::atoi(argv[1]))\<close>, or a default.\<close>

definition port_argument :: "u16 \<Rightarrow> string list \<Rightarrow> u16 option" where
  "port_argument port argv = (if length argv \<ge> 2 then map_option word_of_int (atoi (argv ! 1)) else Some port)"

definition is_hex_digit :: "char \<Rightarrow> bool" where
  "is_hex_digit c \<longleftrightarrow> is_dec_digit c \<or> tolower c \<in> set ''abcdef''"

definition hex_digit_value :: "char \<Rightarrow> nat" where
  "hex_digit_value c = (if is_dec_digit c then digit_value c else of_char (tolower c) - 87)"

definition hex_value :: "string \<Rightarrow> nat" where
  "hex_value s = foldl (\<lambda>n c. 16 * n + hex_digit_value c) 0 s"

definition float_of_hex :: "bool \<Rightarrow> nat \<Rightarrow> int \<Rightarrow> f32" where
  "float_of_hex neg mantissa e = f32_pack neg (mantissa * 2 ^ nat e * f32_unit) (2 ^ nat (- e))"

text \<open>The digits before and after a point, and the rest.\<close>

definition number_parts :: "(char \<Rightarrow> bool) \<Rightarrow> string \<Rightarrow> string \<times> string \<times> string" where
  "number_parts digit s =
     (case dropWhile digit s of
        [] \<Rightarrow> (takeWhile digit s, [], [])
      | c # r \<Rightarrow> if c = CHR ''.'' then (takeWhile digit s, takeWhile digit r, dropWhile digit r) else (takeWhile digit s, [], c # r))"

definition exponent_part :: "char \<Rightarrow> string \<Rightarrow> int" where
  "exponent_part mark s =
     (case s of
        [] \<Rightarrow> 0
      | c # r \<Rightarrow>
          if tolower c = mark then
            let (neg, r1) = read_sign r; v = int (digits_value (takeWhile is_dec_digit r1)) in if neg then - v else v
          else 0)"

definition starts_with :: "string \<Rightarrow> string \<Rightarrow> bool" where
  "starts_with p s \<longleftrightarrow> map tolower (take (length p) s) = p"

definition strtof :: "string \<Rightarrow> f32" where
  "strtof text =
     (let (neg, s) = read_sign (skip_ws (c_str text)) in
      if starts_with ''inf'' s then F_Inf neg
      else if starts_with ''nan'' s then F_NaN
      else
        let (hip, hfp, hr) = number_parts is_hex_digit (drop 2 s); (ip, fp, r) = number_parts is_dec_digit s in
        if starts_with ''0x'' s \<and> hip @ hfp \<noteq> []
        then float_of_hex neg (hex_value (hip @ hfp)) (exponent_part CHR ''p'' hr - 4 * int (length hfp))
        else if ip @ fp = [] then f32_zero
        else float_of_decimal neg (digits_value (ip @ fp)) (exponent_part CHR ''e'' r - int (length fp)))"

lemma read_sign_set: "read_sign s = (neg, t) \<Longrightarrow> set t \<subseteq> set s"
  by (cases s) (auto split: if_splits)

lemma tolower_number: "is_dec_digit c \<or> c = CHR ''.'' \<Longrightarrow> tolower c = c"
  by (auto simp: tolower_def is_upper_def is_dec_digit_def less_eq_char_def)

lemma tolower_e: "tolower c = CHR ''e'' \<longleftrightarrow> c = CHR ''e'' \<or> c = CHR ''E''"
proof (cases "is_upper c")
  case True
  then have b: "(of_char c :: nat) + 32 < 256" by (auto simp: is_upper_def less_eq_char_def)
  have "tolower c = CHR ''e'' \<longleftrightarrow> (of_char (tolower c) :: nat) = of_char CHR ''e''" by (rule of_char_eq_iff [symmetric])
  also have "\<dots> \<longleftrightarrow> (of_char c :: nat) = of_char CHR ''E''" using True b by (simp add: tolower_def)
  also have "\<dots> \<longleftrightarrow> c = CHR ''E''" by (rule of_char_eq_iff)
  finally show ?thesis using True by (auto simp: is_upper_def less_eq_char_def)
next
  case False
  then have "c \<noteq> CHR ''E''" by (auto simp: is_upper_def less_eq_char_def)
  with False show ?thesis by (simp add: tolower_def)
qed

text \<open>Whatever a stream reads as a finite decimal number, \<open>strtof\<close> reads as the same number.\<close>

lemma read_float_strtof:
  assumes "read_float s = Some (v, rest)" and "CHR 0x00 \<notin> set s" and "CHR ''x'' \<notin> tolower ` set s"
  shows "strtof s = v"
proof -
  obtain neg t where t: "read_sign (skip_ws s) = (neg, t)" by fastforce
  obtain ip fp r where parts: "number_parts is_dec_digit t = (ip, fp, r)" by (metis prod_cases3)
  obtain e where e: "ip @ fp \<noteq> []" "read_exponent r = Some (e, rest)" "v = float_of_decimal neg (digits_value (ip @ fp)) (e - int (length fp))"
    using assms(1) t parts
    by (auto simp: read_float_def number_parts_def Let_def split: prod.splits option.splits list.splits if_splits)
  have "set t \<subseteq> set s"
    using read_sign_set [OF t] by (auto simp: skip_ws_def dest: set_dropWhileD)
  then have x: "\<not> starts_with ''0x'' t" using assms(3) by (cases t; cases "tl t") (auto simp: starts_with_def image_iff)
  have d: "t \<noteq> [] \<and> (is_dec_digit (hd t) \<or> hd t = CHR ''.'')"
    using e(1) parts by (cases t) (auto simp: number_parts_def split: if_splits list.splits)
  then have "tolower (hd t) \<noteq> CHR ''i''" "tolower (hd t) \<noteq> CHR ''n''"
    using tolower_number [OF conjunct2 [OF d]] by (auto simp: is_dec_digit_def)
  then have nn: "\<not> starts_with ''inf'' t" "\<not> starts_with ''nan'' t"
    by (cases t; simp add: starts_with_def)+
  have "exponent_part CHR ''e'' r = e"
    using e(2) by (auto simp: exponent_part_def read_exponent_def tolower_e Let_def split: list.splits if_splits prod.splits)
  moreover have "c_str s = s" using assms(2) by (auto simp: c_str_def takeWhile_eq_all_conv)
  ultimately show ?thesis using t parts nn x e by (auto simp: strtof_def)
qed

end
