(* ===== verification/Admin.thy ===== *)
theory Admin
  imports Alias_Database C_Numbers
begin

text \<open>
  The admin server: \<open>AdminSessionStore.cpp\<close>, \<open>AdminLoginLockout.cpp\<close> and \<open>AdminMain.cpp\<close> with its five handlers over
  the alias table of the database. The credential check is a query on the database: the parameter
  \<open>verify\<close> (the admin id of a correct pair, or \<open>None\<close>). The bytes read from \<open>/dev/urandom\<close> and the clock
  are arguments. A request is what the handlers ask the HTTP library of it: the value of the header
  \<open>Authorization\<close> (empty without one) and the parameters. A response is its status code (200 where the
  handler sets none) and its body; an exception that leaves a handler is \<open>Inl\<close>.
\<close>

subsection \<open>AdminSessionStore\<close>

definition hex_digit :: "nat \<Rightarrow> char" where
  "hex_digit n = (if n < 10 then char_of (48 + n) else char_of (87 + n))"

definition hex_byte :: "u8 \<Rightarrow> string" where
  "hex_byte b = [hex_digit (unat b div 16), hex_digit (unat b mod 16)]"

text \<open>\<open>None\<close> when the device cannot be opened or read to the end.\<close>

definition generateTokenFromUrandom :: "u8 list option \<Rightarrow> string" where
  "generateTokenFromUrandom bytes = (case bytes of None \<Rightarrow> [] | Some bs \<Rightarrow> concat (map hex_byte bs))"

record AdminSession =
  as_adminUserId :: int
  as_expiresAtEpochSeconds :: u64

type_synonym AdminSessionStore = "(string, AdminSession) std_map"

definition AdminSessionStore_createSession ::
    "string \<Rightarrow> int \<Rightarrow> u64 \<Rightarrow> u64 \<Rightarrow> AdminSessionStore \<Rightarrow> string \<times> AdminSessionStore" where
  "AdminSessionStore_createSession token adminUserId now ttl sessions =
     (if token = [] then (token, sessions)
      else (token, map_put token \<lparr>as_adminUserId = adminUserId, as_expiresAtEpochSeconds = now + ttl\<rparr> sessions))"

definition AdminSessionStore_validate :: "string \<Rightarrow> u64 \<Rightarrow> AdminSessionStore \<Rightarrow> int option" where
  "AdminSessionStore_validate token now sessions =
     (if token = [] then None
      else case map_of sessions token of
        None \<Rightarrow> None
      | Some s \<Rightarrow> if as_expiresAtEpochSeconds s \<le> now then None else Some (as_adminUserId s))"

definition AdminSessionStore_invalidate :: "string \<Rightarrow> AdminSessionStore \<Rightarrow> bool \<times> AdminSessionStore" where
  "AdminSessionStore_invalidate token sessions = (map_of sessions token \<noteq> None, map_erase token sessions)"

subsection \<open>AdminLoginLockout\<close>

record LockoutState =
  lo_consecutiveFailures :: nat
  lo_lockedUntilEpochSeconds :: u64

record AdminLoginLockout =
  al_maxAttempts :: nat
  al_lockoutSeconds :: u64
  al_states :: "(string, LockoutState) std_map"

definition AdminLoginLockout_new :: "nat \<Rightarrow> u64 \<Rightarrow> AdminLoginLockout" where
  "AdminLoginLockout_new maxAttempts lockoutSeconds =
     \<lparr>al_maxAttempts = maxAttempts, al_lockoutSeconds = lockoutSeconds, al_states = []\<rparr>"

definition AdminLoginLockout_isLocked :: "string \<Rightarrow> u64 \<Rightarrow> AdminLoginLockout \<Rightarrow> bool" where
  "AdminLoginLockout_isLocked username now l =
     (case map_of (al_states l) username of
        None \<Rightarrow> False
      | Some st \<Rightarrow> lo_consecutiveFailures st \<ge> al_maxAttempts l \<and> now < lo_lockedUntilEpochSeconds st)"

definition AdminLoginLockout_recordFailure :: "string \<Rightarrow> u64 \<Rightarrow> AdminLoginLockout \<Rightarrow> AdminLoginLockout" where
  "AdminLoginLockout_recordFailure username now l =
     (let st = (case map_of (al_states l) username of
                  None \<Rightarrow> \<lparr>lo_consecutiveFailures = 0, lo_lockedUntilEpochSeconds = 0\<rparr> | Some st \<Rightarrow> st);
          st1 = st\<lparr>lo_consecutiveFailures := Suc (lo_consecutiveFailures st)\<rparr>;
          st2 = (if lo_consecutiveFailures st1 \<ge> al_maxAttempts l
                 then st1\<lparr>lo_lockedUntilEpochSeconds := now + al_lockoutSeconds l\<rparr> else st1)
      in l\<lparr>al_states := map_put username st2 (al_states l)\<rparr>)"

definition AdminLoginLockout_recordSuccess :: "string \<Rightarrow> AdminLoginLockout \<Rightarrow> AdminLoginLockout" where
  "AdminLoginLockout_recordSuccess username l = l\<lparr>al_states := map_erase username (al_states l)\<rparr>"

subsection \<open>The handlers of AdminMain\<close>

definition kAdminSessionTtlSeconds :: u64 where "kAdminSessionTtlSeconds = 60 * 60"
definition kMaxLoginAttempts :: nat where "kMaxLoginAttempts = 3"
definition kLockoutSeconds :: u64 where "kLockoutSeconds = 15 * 60"

fun jsonEscape :: "string \<Rightarrow> string" where
  "jsonEscape [] = []"
| "jsonEscape (c # cs) =
     (if c = CHR 0x22 \<or> c = CHR 0x5C then [CHR 0x5C, c] else [c]) @ jsonEscape cs"

text \<open>The copy of \<open>SessionRegistry::canonicalClaimedId\<close>, with its loop over the characters.\<close>

fun admin_canonicalClaimedId :: "string \<Rightarrow> string" where
  "admin_canonicalClaimedId [] = []"
| "admin_canonicalClaimedId (c # cs) = tolower c # admin_canonicalClaimedId cs"

definition parseReviewStatus :: "string \<Rightarrow> AliasReviewStatus option" where
  "parseReviewStatus name =
     (if name = ''confirmed'' then Some HumanConfirmed else if name = ''rejected'' then Some HumanRejected else None)"

primrec reviewStatusName :: "AliasReviewStatus \<Rightarrow> string" where
  "reviewStatusName HumanConfirmed = ''confirmed''"
| "reviewStatusName HumanRejected = ''rejected''"
| "reviewStatusName Unreviewed = ''unreviewed''"

definition requireSession :: "string \<Rightarrow> u64 \<Rightarrow> AdminSessionStore \<Rightarrow> int option" where
  "requireSession header now sessions =
     (let prefix = ''Bearer '' in
      if length header \<le> length prefix \<or> take (length prefix) header \<noteq> prefix then None
      else AdminSessionStore_validate (drop (length prefix) header) now sessions)"

record AdminState =
  ad_sessions :: AdminSessionStore
  ad_lockout :: AdminLoginLockout
  ad_table :: AliasTable

definition AdminState_init :: "AliasTable \<Rightarrow> AdminState" where
  "AdminState_init table = \<lparr>ad_sessions = [], ad_lockout = AdminLoginLockout_new kMaxLoginAttempts kLockoutSeconds, ad_table = table\<rparr>"

record AdminRequest =
  rq_authorization :: string
  rq_param :: "string \<Rightarrow> string option"

definition get_param_value :: "string \<Rightarrow> AdminRequest \<Rightarrow> string" where
  "get_param_value name req = (case rq_param req name of None \<Rightarrow> [] | Some v \<Rightarrow> v)"

definition quoted :: "string \<Rightarrow> string" where
  "quoted s = CHR 0x22 # s @ [CHR 0x22]"

definition json_field :: "string \<Rightarrow> string \<Rightarrow> string" where
  "json_field name value = ''{'' @ quoted name @ '':'' @ quoted value @ ''}''"

definition admin_login ::
    "(string \<Rightarrow> string \<Rightarrow> int option) \<Rightarrow> u8 list option \<Rightarrow> string \<Rightarrow> string \<Rightarrow> u64 \<Rightarrow> AdminState \<Rightarrow> (int \<times> string) \<times> AdminState" where
  "admin_login verify bytes username password now st =
     (if username = [] \<or> AdminLoginLockout_isLocked username now (ad_lockout st)
      then ((423, json_field ''error'' ''account locked, try again later''), st)
      else case (if password = [] then None else verify username password) of
        None \<Rightarrow> ((401, json_field ''error'' ''invalid credentials''),
                 st\<lparr>ad_lockout := AdminLoginLockout_recordFailure username now (ad_lockout st)\<rparr>)
      | Some adminUserId \<Rightarrow>
          (case AdminSessionStore_createSession (generateTokenFromUrandom bytes) adminUserId now kAdminSessionTtlSeconds (ad_sessions st) of
             (token, sessions) \<Rightarrow>
               ((200, json_field ''token'' (jsonEscape token)),
                st\<lparr>ad_lockout := AdminLoginLockout_recordSuccess username (ad_lockout st), ad_sessions := sessions\<rparr>)))"

definition admin_logout :: "string \<Rightarrow> u64 \<Rightarrow> AdminState \<Rightarrow> (int \<times> string) \<times> AdminState" where
  "admin_logout header now st =
     (case requireSession header now (ad_sessions st) of
        None \<Rightarrow> ((401, []), st)
      | Some _ \<Rightarrow> ((204, []), st\<lparr>ad_sessions := snd (AdminSessionStore_invalidate (drop (length ''Bearer '') header) (ad_sessions st))\<rparr>))"

definition record_json :: "IdentityAliasRecord \<Rightarrow> string" where
  "record_json r = ''{'' @
     quoted ''aliasId'' @ '':'' @ show_int (ia_aliasId r) @ '','' @
     quoted ''canonicalClaimedId'' @ '':'' @ quoted (jsonEscape (ia_canonicalClaimedId r)) @ '','' @
     quoted ''createdTick'' @ '':'' @ show_u64 (ia_createdTick r) @ '','' @
     quoted ''lastUsedTick'' @ '':'' @ show_u64 (ia_lastUsedTick r) @ '','' @
     quoted ''confidence'' @ '':'' @ show_float (ia_confidence r) @ '','' @
     quoted ''reviewStatus'' @ '':'' @ quoted (reviewStatusName (ia_reviewStatus r)) @ ''}''"

text \<open>The loop from an index on: every record but the first is preceded by a comma.\<close>

fun records_json :: "nat \<Rightarrow> IdentityAliasRecord list \<Rightarrow> string" where
  "records_json i [] = []"
| "records_json i (r # rs) = (if i > 0 then '','' else []) @ record_json r @ records_json (Suc i) rs"

definition recordsToJson :: "IdentityAliasRecord list \<Rightarrow> string" where
  "recordsToJson rs = ''['' @ records_json 0 rs @ '']''"

type_synonym AdminAnswer = "(int \<times> string) sql"

text \<open>A listing of the table: the handlers of \<open>/aliases/export\<close> and \<open>/aliases/review-queue\<close>.\<close>

definition admin_export :: "string \<Rightarrow> u64 \<Rightarrow> AdminState \<Rightarrow> AdminAnswer" where
  "admin_export header now st =
     (case requireSession header now (ad_sessions st) of
        None \<Rightarrow> Inr (401, [])
      | Some _ \<Rightarrow> (case PgAlias_exportRecords (ad_table st) of Inl e \<Rightarrow> Inl e | Inr rs \<Rightarrow> Inr (200, recordsToJson rs)))"

definition review_queue :: "string \<Rightarrow> u64 \<Rightarrow> AdminState \<Rightarrow> AdminAnswer" where
  "review_queue header now st =
     (case requireSession header now (ad_sessions st) of
        None \<Rightarrow> Inr (401, [])
      | Some _ \<Rightarrow>
          (case PgAlias_exportRecords (ad_table st) of
             Inl e \<Rightarrow> Inl e
           | Inr rs \<Rightarrow> Inr (200, recordsToJson (filter (\<lambda>r. ia_reviewStatus r = Unreviewed) rs))))"

text \<open>\<open>/aliases/review\<close>; \<open>confidence\<close> is the text of the parameter, \<open>None\<close> when the request has none.\<close>

definition admin_review :: "string \<Rightarrow> u64 \<Rightarrow> string \<Rightarrow> string \<Rightarrow> string option \<Rightarrow> AdminState \<Rightarrow> AdminAnswer \<times> AdminState" where
  "admin_review header now claimedId statusName confidence st =
     (case requireSession header now (ad_sessions st) of
        None \<Rightarrow> (Inr (401, []), st)
      | Some _ \<Rightarrow>
          (case (if claimedId = [] then None else parseReviewStatus statusName) of
             None \<Rightarrow> (Inr (400, json_field ''error'' ''claimedId and status(confirmed|rejected) are required''), st)
           | Some status \<Rightarrow>
               (case PgAlias_reviewAlias (admin_canonicalClaimedId claimedId) status
                       (case confidence of None \<Rightarrow> f32_lit 1 1 | Some c \<Rightarrow> strtof c) (ad_table st) of
                  Inl e \<Rightarrow> (Inl e, st)
                | Inr (False, _) \<Rightarrow> (Inr (404, json_field ''error'' ''alias not found or confidence out of range''), st)
                | Inr (True, table) \<Rightarrow> (Inr (204, []), st\<lparr>ad_table := table\<rparr>))))"

subsection \<open>The server\<close>

text \<open>The routes \<open>main\<close> registers, and the handler of each.\<close>

datatype AdminRoute = PostLogin | PostLogout | GetExport | GetReviewQueue | PostReview

fun admin_handler ::
    "(string \<Rightarrow> string \<Rightarrow> int option) \<Rightarrow> AdminRoute \<Rightarrow> AdminRequest \<Rightarrow> u64 \<Rightarrow> u8 list option \<Rightarrow> AdminState \<Rightarrow> AdminAnswer \<times> AdminState" where
  "admin_handler verify PostLogin req now bytes st =
     (case admin_login verify bytes (get_param_value ''username'' req) (get_param_value ''password'' req) now st of (resp, st') \<Rightarrow> (Inr resp, st'))"
| "admin_handler verify PostLogout req now bytes st = (case admin_logout (rq_authorization req) now st of (resp, st') \<Rightarrow> (Inr resp, st'))"
| "admin_handler verify GetExport req now bytes st = (admin_export (rq_authorization req) now st, st)"
| "admin_handler verify GetReviewQueue req now bytes st = (review_queue (rq_authorization req) now st, st)"
| "admin_handler verify PostReview req now bytes st =
     admin_review (rq_authorization req) now (get_param_value ''claimedId'' req) (get_param_value ''status'' req) (rq_param req ''confidence'') st"

text \<open>
  A history of the server: its requests with their answers, last first. The game server works on the same
  alias table and may change it between any two requests.
\<close>

record AdminEvent =
  ev_route :: AdminRoute
  ev_request :: AdminRequest
  ev_now :: u64
  ev_bytes :: "u8 list option"
  ev_answer :: AdminAnswer

inductive admin_run :: "(string \<Rightarrow> string \<Rightarrow> int option) \<Rightarrow> AdminEvent list \<Rightarrow> AdminState \<Rightarrow> bool"
  for verify :: "string \<Rightarrow> string \<Rightarrow> int option" where
  start: "admin_run verify [] (AdminState_init table)"
| request: "admin_run verify tr st \<Longrightarrow> admin_handler verify route req now bytes st = (answer, st') \<Longrightarrow>
    admin_run verify (\<lparr>ev_route = route, ev_request = req, ev_now = now, ev_bytes = bytes, ev_answer = answer\<rparr> # tr) st'"
| database: "admin_run verify tr st \<Longrightarrow> admin_run verify tr (st\<lparr>ad_table := table\<rparr>)"

subsection \<open>Lockout\<close>

text \<open>The login attempts of a history: username, time and status code.\<close>

type_synonym attempt = "string \<times> u64 \<times> int"

fun answer_code :: "AdminAnswer \<Rightarrow> int option" where
  "answer_code (Inl e) = None"
| "answer_code (Inr (code, body)) = Some code"

definition ev_username :: "AdminEvent \<Rightarrow> string" where
  "ev_username e = get_param_value ''username'' (ev_request e)"

fun logins :: "AdminEvent list \<Rightarrow> attempt list" where
  "logins [] = []"
| "logins (e # tr) =
     (case answer_code (ev_answer e) of
        Some code \<Rightarrow> if ev_route e = PostLogin then (ev_username e, ev_now e, code) # logins tr else logins tr
      | None \<Rightarrow> logins tr)"

text \<open>The failures of a user since the last success, and the time of the last one.\<close>

fun failures :: "string \<Rightarrow> attempt list \<Rightarrow> nat" where
  "failures u [] = 0"
| "failures u ((u', t, code) # tr) =
     (if u' = u \<and> code = 401 then Suc (failures u tr) else if u' = u \<and> code = 200 then 0 else failures u tr)"

fun last_failure :: "string \<Rightarrow> attempt list \<Rightarrow> u64" where
  "last_failure u [] = 0"
| "last_failure u ((u', t, code) # tr) = (if u' = u \<and> code = 401 then t else last_failure u tr)"

definition user_matches :: "nat \<Rightarrow> u64 \<Rightarrow> LockoutState option \<Rightarrow> bool" where
  "user_matches n t entry \<longleftrightarrow>
     (case entry of
        None \<Rightarrow> n = 0
      | Some st \<Rightarrow> lo_consecutiveFailures st = n \<and>
          (kMaxLoginAttempts \<le> n \<longrightarrow> lo_lockedUntilEpochSeconds st = t + kLockoutSeconds))"

definition lockout_matches :: "attempt list \<Rightarrow> AdminLoginLockout \<Rightarrow> bool" where
  "lockout_matches tr l \<longleftrightarrow> al_maxAttempts l = kMaxLoginAttempts \<and> al_lockoutSeconds l = kLockoutSeconds \<and>
     (\<forall>u. user_matches (failures u tr) (last_failure u tr) (map_of (al_states l) u))"

lemma lockout_matchesD: "lockout_matches tr l \<Longrightarrow> user_matches (failures u tr) (last_failure u tr) (map_of (al_states l) u)"
  by (simp add: lockout_matches_def)

lemma lockout_matches_failure:
  assumes "lockout_matches tr l"
  shows "lockout_matches ((u, t, 401) # tr) (AdminLoginLockout_recordFailure u t l)"
proof -
  have params: "al_maxAttempts l = kMaxLoginAttempts" "al_lockoutSeconds l = kLockoutSeconds"
    using assms by (auto simp: lockout_matches_def)
  have "user_matches (failures v ((u, t, 401) # tr)) (last_failure v ((u, t, 401) # tr))
      (map_of (al_states (AdminLoginLockout_recordFailure u t l)) v)" for v
    using lockout_matchesD [OF assms, of v] params
    by (auto simp: user_matches_def AdminLoginLockout_recordFailure_def Let_def split: option.splits)
  moreover have "al_maxAttempts (AdminLoginLockout_recordFailure u t l) = kMaxLoginAttempts"
    "al_lockoutSeconds (AdminLoginLockout_recordFailure u t l) = kLockoutSeconds"
    using params by (simp_all add: AdminLoginLockout_recordFailure_def Let_def)
  ultimately show ?thesis unfolding lockout_matches_def by blast
qed

lemma lockout_matches_success:
  assumes "lockout_matches tr l"
  shows "lockout_matches ((u, t, 200) # tr) (AdminLoginLockout_recordSuccess u l)"
  using assms by (simp add: lockout_matches_def AdminLoginLockout_recordSuccess_def user_matches_def)

lemma lockout_matches_other: "lockout_matches tr l \<Longrightarrow> lockout_matches ((u, t, 423) # tr) l"
  by (simp add: lockout_matches_def)

lemma admin_login_cases:
  assumes "admin_login verify bytes u p t st = (resp, st')"
  obtains "fst resp = 423" "ad_lockout st' = ad_lockout st"
  | "fst resp = 401" "ad_lockout st' = AdminLoginLockout_recordFailure u t (ad_lockout st)"
  | "fst resp = 200" "ad_lockout st' = AdminLoginLockout_recordSuccess u (ad_lockout st)"
  using assms by (auto simp: admin_login_def split: if_splits option.splits prod.splits)

text \<open>The handler of a request, by its route; for a login with the response as the answer.\<close>

fun_cases admin_handlerE: "admin_handler verify route req now bytes st = (answer, st')"

lemma admin_handler_login:
  assumes "admin_handler verify PostLogin req now bytes st = (answer, st')"
  obtains resp where "admin_login verify bytes (get_param_value ''username'' req) (get_param_value ''password'' req) now st = (resp, st')"
    "answer = Inr resp" "answer_code answer = Some (fst resp)"
  using assms by (elim admin_handlerE) (auto split: prod.splits)

lemma admin_handler_lockout:
  assumes "admin_handler verify route req now bytes st = (answer, st')" and "route \<noteq> PostLogin"
  shows "ad_lockout st' = ad_lockout st"
  using assms by (elim admin_handlerE) (auto simp: admin_logout_def admin_review_def split: option.splits sum.splits prod.splits bool.splits if_splits)

lemma admin_run_lockout: "admin_run verify tr st \<Longrightarrow> lockout_matches (logins tr) (ad_lockout st)"
proof (induction rule: admin_run.induct)
  case (start table)
  then show ?case by (simp add: lockout_matches_def AdminState_init_def AdminLoginLockout_new_def user_matches_def)
next
  case (request tr st route req now bytes answer st')
  show ?case
  proof (cases "route = PostLogin")
    case True
    then obtain resp where "admin_login verify bytes (get_param_value ''username'' req) (get_param_value ''password'' req) now st = (resp, st')"
      and code: "answer_code answer = Some (fst resp)"
      using request.hyps(2) admin_handler_login by metis
    then show ?thesis using request.IH True code
      by (cases rule: admin_login_cases)
        (auto simp: ev_username_def intro: lockout_matches_failure lockout_matches_success lockout_matches_other)
  next
    case False
    then show ?thesis using request.IH admin_handler_lockout [OF request.hyps(2)] by (auto split: option.splits)
  qed
qed simp


definition root_request :: AdminRequest where
  "root_request = \<lparr>rq_authorization = [], rq_param = [''username'' \<mapsto> ''root'', ''password'' \<mapsto> ''x'']\<rparr>"

lemma root_params: "get_param_value ''username'' root_request = ''root''" "get_param_value ''password'' root_request = ''x''"
  by (simp_all add: root_request_def get_param_value_def)

lemma failed_run: "\<exists>tr st. admin_run (\<lambda>_ _. None) tr st \<and> logins tr = [(''root'', 12, 401), (''root'', 11, 401), (''root'', 10, 401)]"
proof -
  have step: "\<exists>tr' st'. admin_run (\<lambda>_ _. None) tr' st' \<and> logins tr' = (''root'', t, 401) # logins tr"
    if run: "admin_run (\<lambda>_ _. None) tr st" and "failures ''root'' (logins tr) < 3" for t tr st
  proof -
    have "\<not> AdminLoginLockout_isLocked ''root'' t (ad_lockout st)"
      using admin_run_lockout [OF run] lockout_matchesD [OF admin_run_lockout [OF run], of "''root''"] that(2)
      by (auto simp: lockout_matches_def user_matches_def AdminLoginLockout_isLocked_def kMaxLoginAttempts_def split: option.splits)
    then have "\<exists>st' body. admin_handler (\<lambda>_ _. None) PostLogin root_request t None st = (Inr (401, body), st')"
      by (simp add: admin_login_def root_params)
    then obtain st' body where "admin_handler (\<lambda>_ _. None) PostLogin root_request t None st = (Inr (401, body), st')" by blast
    from admin_run.request [OF run this] show ?thesis
      by (intro exI conjI, assumption) (simp add: ev_username_def root_params)
  qed
  obtain tr st where "admin_run (\<lambda>_ _. None) tr st" "logins tr = [(''root'', 10, 401)]"
    using step [OF admin_run.start, of 10] by auto
  then obtain tr st where "admin_run (\<lambda>_ _. None) tr st" "logins tr = [(''root'', 11, 401), (''root'', 10, 401)]"
    using step [of tr st 11] by auto
  then show ?thesis using step [of tr st 12] by auto
qed


subsection \<open>Tokens and sessions\<close>

lemma of_char_hex_digit: "k < 16 \<Longrightarrow> of_char (hex_digit k) = (if k < 10 then 48 + k else 87 + k :: nat)"
  by (simp add: hex_digit_def)

lemma hex_digit_inj:
  assumes "m < 16" "n < 16"
  shows "hex_digit m = hex_digit n \<longleftrightarrow> m = n"
proof
  assume "hex_digit m = hex_digit n"
  then have "(of_char (hex_digit m) :: nat) = of_char (hex_digit n)" by simp
  then show "m = n" using assms by (simp add: of_char_hex_digit split: if_splits)
qed simp

lemma length_hex_byte [simp]: "length (hex_byte b) = 2"
  by (simp add: hex_byte_def)

lemma hex_byte_inj: "hex_byte a = hex_byte b \<longleftrightarrow> a = b"
proof
  assume "hex_byte a = hex_byte b"
  moreover have "unat x div 16 < 16" "unat x mod 16 < 16" for x :: u8 using unat_u8_less [of x] by (simp_all add: less_mult_imp_div_less)
  ultimately have "unat a div 16 = unat b div 16" "unat a mod 16 = unat b mod 16" by (auto simp: hex_byte_def hex_digit_inj)
  then have "unat a = unat b" by (metis div_mult_mod_eq)
  then show "a = b" by (simp add: word_unat_eq_iff)
qed simp

text \<open>
  Tokens made from the random bytes are injective and twice as long as the bytes: two
  draws of the same length give the same token only if all their bytes agree, so no entropy is lost in
  the hexadecimal encoding.
\<close>

theorem token_injective:
  "(length as = length bs \<and> generateTokenFromUrandom (Some as) = generateTokenFromUrandom (Some bs) \<longleftrightarrow> as = bs) \<and>
   length (generateTokenFromUrandom (Some as)) = 2 * length as"
proof
  show "length as = length bs \<and> generateTokenFromUrandom (Some as) = generateTokenFromUrandom (Some bs) \<longleftrightarrow> as = bs"
  proof (induction as arbitrary: bs)
    case (Cons a as)
    then show ?case by (cases bs) (auto simp: generateTokenFromUrandom_def hex_byte_inj append_eq_append_conv)
  qed (auto simp: generateTokenFromUrandom_def)
  show "length (generateTokenFromUrandom (Some as)) = 2 * length as"
    by (induction as) (auto simp: generateTokenFromUrandom_def)
qed

text \<open>
  A token returned by a successful login authorises requests of that admin for exactly
  one hour, unless the clock wraps, and no longer after it is logged out.
\<close>

theorem admin_session_ttl:
  assumes "admin_login verify (Some bytes) u p now st = ((200, body), st')" and "bytes \<noteq> []"
    and "now \<le> now + kAdminSessionTtlSeconds"
  defines "header \<equiv> ''Bearer '' @ generateTokenFromUrandom (Some bytes)"
  shows "requireSession header t (ad_sessions st') =
      (if t < now + kAdminSessionTtlSeconds then verify u p else None) \<and>
    requireSession header t (ad_sessions (snd (admin_logout header now st'))) = None"
proof -
  define token where "token = generateTokenFromUrandom (Some bytes)"
  have token: "token \<noteq> []" using assms(2) by (cases bytes) (auto simp: token_def generateTokenFromUrandom_def hex_byte_def)
  obtain i where i: "verify u p = Some i"
    "ad_sessions st' = map_put token \<lparr>as_adminUserId = i, as_expiresAtEpochSeconds = now + kAdminSessionTtlSeconds\<rparr> (ad_sessions st)"
    using assms(1) token
    by (auto simp: admin_login_def AdminSessionStore_createSession_def token_def [symmetric] split: if_splits option.splits)
  have req: "requireSession header t s = AdminSessionStore_validate token t s" for t s
    using token by (simp add: requireSession_def header_def token_def [symmetric] Let_def)
  have drop: "drop (length ''Bearer '') header = token" by (simp add: header_def token_def)
  have "now < now + kAdminSessionTtlSeconds" using assms(3) by (auto simp: kAdminSessionTtlSeconds_def order_le_less)
  then show ?thesis using i token drop
    by (auto simp: req AdminSessionStore_validate_def admin_logout_def AdminSessionStore_invalidate_def not_le)
qed

theorem admin_session_ttl_witness:
  "\<exists>st'. admin_login (\<lambda>_ _. Some 9) (Some [7]) ''root'' ''pw'' 10 (AdminState_init []) = ((200, json_field ''token'' ''07''), st') \<and>
     requireSession (''Bearer '' @ generateTokenFromUrandom (Some [7])) 11 (ad_sessions st') = Some 9"
proof -
  obtain st' where l: "admin_login (\<lambda>_ _. Some 9) (Some [7]) ''root'' ''pw'' 10 (AdminState_init []) = ((200, json_field ''token'' ''07''), st')"
  proof -
    have "generateTokenFromUrandom (Some [7]) = ''07''" by code_simp
    then show ?thesis using that
      by (simp add: admin_login_def AdminState_init_def AdminLoginLockout_isLocked_def AdminLoginLockout_new_def
          AdminSessionStore_createSession_def)
  qed
  show ?thesis using admin_session_ttl [OF l] l by (auto simp: kAdminSessionTtlSeconds_def)
qed

end
