(* ===== verification/World_Input.thy ===== *)
theory World_Input
  imports Sessions Text Entities
begin

text \<open>
  The inputs of a world frame: \<open>ClientInputSequenceTracker\<close> (\<open>ClientInputSequence.cpp\<close>),
  \<open>WorldInputQueue.cpp\<close>, \<open>WorldInputTick.cpp\<close> and the client's \<open>PendingInputBuffer.cpp\<close>. The mutex of the
  queue makes each operation atomic, so any use of it from several threads is a sequence of
  operations: the relation \<open>input_run\<close>, with the frames taken, the request ids and the client sequence
  numbers accepted so far.
\<close>

subsection \<open>ClientInputSequenceTracker\<close>

datatype ClientInputAdmission = Accept | IgnoreStale | RejectTooFarAhead | RejectInvalid

datatype MovementEnqueueResult = Enqueued | IgnoredStale | Rejected

record ClientInputSequenceTracker =
  it_lastAccepted :: "(int, u64) std_map"
  it_lastProcessedBySession :: "(int, u64) std_map"

definition MAX_CLIENT_INPUT_AHEAD :: u64 where
  "MAX_CLIENT_INPUT_AHEAD = 64"

definition InputTracker_init :: ClientInputSequenceTracker where
  "InputTracker_init = \<lparr>it_lastAccepted = [], it_lastProcessedBySession = []\<rparr>"

definition lookup_or_zero :: "(int, u64) std_map \<Rightarrow> int \<Rightarrow> u64" where
  "lookup_or_zero m k = (case map_of m k of None \<Rightarrow> 0 | Some v \<Rightarrow> v)"

definition InputTracker_admit :: "int \<Rightarrow> u64 \<Rightarrow> ClientInputSequenceTracker \<Rightarrow> ClientInputAdmission" where
  "InputTracker_admit sessionId clientInputSequence tr =
     (if sessionId \<le> 0 \<or> clientInputSequence = 0 then RejectInvalid
      else let previous = lookup_or_zero (it_lastAccepted tr) sessionId in
        if clientInputSequence \<le> previous then IgnoreStale
        else if clientInputSequence - previous > MAX_CLIENT_INPUT_AHEAD then RejectTooFarAhead
        else Accept)"

definition InputTracker_noteAccepted :: "int \<Rightarrow> u64 \<Rightarrow> ClientInputSequenceTracker \<Rightarrow> ClientInputSequenceTracker" where
  "InputTracker_noteAccepted sessionId clientInputSequence tr =
     tr\<lparr>it_lastAccepted := map_put sessionId clientInputSequence (it_lastAccepted tr)\<rparr>"

definition InputTracker_noteProcessed :: "int \<Rightarrow> u64 \<Rightarrow> ClientInputSequenceTracker \<Rightarrow> ClientInputSequenceTracker" where
  "InputTracker_noteProcessed sessionId clientInputSequence tr =
     (if clientInputSequence = 0 then tr
      else let v = lookup_or_zero (it_lastProcessedBySession tr) sessionId in
        tr\<lparr>it_lastProcessedBySession :=
             map_put sessionId (if clientInputSequence > v then clientInputSequence else v) (it_lastProcessedBySession tr)\<rparr>)"

definition InputTracker_lastProcessed :: "ClientInputSequenceTracker \<Rightarrow> int \<Rightarrow> u64" where
  "InputTracker_lastProcessed tr sessionId = lookup_or_zero (it_lastProcessedBySession tr) sessionId"

definition InputTracker_rebase :: "int \<Rightarrow> u64 \<Rightarrow> ClientInputSequenceTracker \<Rightarrow> ClientInputSequenceTracker" where
  "InputTracker_rebase sessionId lastProcessedInputSequence tr =
     tr\<lparr>it_lastAccepted := map_put sessionId lastProcessedInputSequence (it_lastAccepted tr),
        it_lastProcessedBySession := map_put sessionId lastProcessedInputSequence (it_lastProcessedBySession tr)\<rparr>"

subsection \<open>WorldInput\<close>

record CombatIntent =
  ci_attackerId :: int
  ci_targetId :: int
  ci_power :: f32
  ci_requestId :: string

record SpellIntent =
  sp_casterId :: int
  sp_targetId :: int
  sp_element :: string
  sp_power :: f32
  sp_requestId :: string

record ChatIntent =
  ct_senderId :: int
  ct_audience :: string
  ct_message :: string

text \<open>A \<open>WorldInput\<close> is its sequence and the member that its kind selects; the others hold defaults.\<close>

datatype WorldInputBody = ActionInput Action | MovementInput MovementIntent | CombatInput CombatIntent
  | SpellInput SpellIntent | ChatInput ChatIntent

record WorldInput =
  wi_sequence :: u64
  wi_body :: WorldInputBody

subsection \<open>WorldInputQueue\<close>

definition MAX_PENDING_INPUTS :: nat where
  "MAX_PENDING_INPUTS = 8192"

record WorldInputQueue =
  wq_pending :: "WorldInput list"
  wq_acceptedCombatRequests :: "string std_set"
  wq_nextSequence :: u64
  wq_inputSequenceTracker :: ClientInputSequenceTracker

definition WorldInputQueue_init :: WorldInputQueue where
  "WorldInputQueue_init = \<lparr>wq_pending = [], wq_acceptedCombatRequests = [], wq_nextSequence = 1,
     wq_inputSequenceTracker = InputTracker_init\<rparr>"

definition name_char :: "char \<Rightarrow> bool" where
  "name_char c \<longleftrightarrow> isalnum c \<or> c = CHR ''_'' \<or> c = CHR ''-''"

definition isValidRequestId :: "string \<Rightarrow> bool" where
  "isValidRequestId requestId = (if requestId = [] \<or> length requestId > 64 then False else list_all name_char requestId)"

definition queue_full :: "WorldInputQueue \<Rightarrow> bool" where
  "queue_full q \<longleftrightarrow> length (wq_pending q) \<ge> MAX_PENDING_INPUTS \<or> wq_nextSequence q = UINT64_MAX"

definition push_input :: "WorldInputBody \<Rightarrow> WorldInputQueue \<Rightarrow> WorldInputQueue" where
  "push_input body q =
     q\<lparr>wq_pending := wq_pending q @ [\<lparr>wi_sequence = wq_nextSequence q, wi_body = body\<rparr>],
       wq_nextSequence := wq_nextSequence q + 1\<rparr>"

definition WorldInputQueue_enqueueAction :: "Action \<Rightarrow> WorldInputQueue \<Rightarrow> WorldInputQueue option" where
  "WorldInputQueue_enqueueAction action q =
     (if \<not> ac_valid action then None
      else if queue_full q then None
      else Some (push_input (ActionInput action) q))"

definition WorldInputQueue_enqueueSequencedMovement ::
    "int \<Rightarrow> f32 \<Rightarrow> f32 \<Rightarrow> f32 \<Rightarrow> u64 \<Rightarrow> WorldInputQueue \<Rightarrow> MovementEnqueueResult \<times> WorldInputQueue" where
  "WorldInputQueue_enqueueSequencedMovement sessionId dx dy dz clientInputSequence q =
     (if sessionId \<le> 0 \<or> \<not> isValidMovementDelta dx dy dz then (Rejected, q)
      else let admission = (if clientInputSequence = 0 then Accept
                            else InputTracker_admit sessionId clientInputSequence (wq_inputSequenceTracker q)) in
        if admission = IgnoreStale then (IgnoredStale, q)
        else if admission \<noteq> Accept then (Rejected, q)
        else if queue_full q then (Rejected, q)
        else let q1 = push_input (MovementInput \<lparr>mi_sequence = 0, mi_sessionId = sessionId, mi_dx = dx, mi_dy = dy,
                        mi_dz = dz, mi_clientInputSequence = clientInputSequence\<rparr>) q in
          (Enqueued, if clientInputSequence = 0 then q1
                     else q1\<lparr>wq_inputSequenceTracker :=
                             InputTracker_noteAccepted sessionId clientInputSequence (wq_inputSequenceTracker q1)\<rparr>))"

definition WorldInputQueue_enqueueMovement ::
    "int \<Rightarrow> f32 \<Rightarrow> f32 \<Rightarrow> f32 \<Rightarrow> WorldInputQueue \<Rightarrow> bool \<times> WorldInputQueue" where
  "WorldInputQueue_enqueueMovement sessionId dx dy dz q =
     (case WorldInputQueue_enqueueSequencedMovement sessionId dx dy dz 0 q of (r, q') \<Rightarrow> (r = Enqueued, q'))"

definition request_key :: "int \<Rightarrow> string \<Rightarrow> string" where
  "request_key actorId requestId = show_int actorId @ '':'' @ requestId"

text \<open>The test and the bookkeeping of request ids that \<open>enqueueCombat\<close> and \<open>enqueueSpell\<close> share.\<close>

definition enqueue_requested :: "int \<Rightarrow> string \<Rightarrow> WorldInputBody \<Rightarrow> WorldInputQueue \<Rightarrow> WorldInputQueue option" where
  "enqueue_requested actorId requestId body q =
     (if queue_full q then None
      else if (requestId \<noteq> [] \<and> \<not> isValidRequestId requestId) \<or>
              (requestId \<noteq> [] \<and> request_key actorId requestId \<in> set (wq_acceptedCombatRequests q)) then None
      else let q1 = push_input body q in
        Some (if requestId = [] then q1
              else q1\<lparr>wq_acceptedCombatRequests := set_insert (request_key actorId requestId) (wq_acceptedCombatRequests q1)\<rparr>))"

definition WorldInputQueue_enqueueCombat :: "int \<Rightarrow> int \<Rightarrow> f32 \<Rightarrow> string \<Rightarrow> WorldInputQueue \<Rightarrow> WorldInputQueue option" where
  "WorldInputQueue_enqueueCombat attackerId targetId pwr requestId q =
     (if attackerId \<le> 0 \<or> targetId \<le> 0 \<or> \<not> f32_isfinite pwr \<or> f32_le pwr f32_zero then None
      else enqueue_requested attackerId requestId
             (CombatInput \<lparr>ci_attackerId = attackerId, ci_targetId = targetId, ci_power = pwr, ci_requestId = requestId\<rparr>) q)"

definition WorldInputQueue_enqueueSpell ::
    "int \<Rightarrow> int \<Rightarrow> string \<Rightarrow> f32 \<Rightarrow> string \<Rightarrow> WorldInputQueue \<Rightarrow> WorldInputQueue option" where
  "WorldInputQueue_enqueueSpell casterId targetId element pwr requestId q =
     (if casterId \<le> 0 \<or> targetId \<le> 0 \<or> element = [] \<or> length element > 32 \<or> \<not> f32_isfinite pwr \<or> f32_le pwr f32_zero then None
      else if \<not> list_all name_char element then None
      else enqueue_requested casterId requestId
             (SpellInput \<lparr>sp_casterId = casterId, sp_targetId = targetId, sp_element = element, sp_power = pwr,
                          sp_requestId = requestId\<rparr>) q)"

definition message_char :: "char \<Rightarrow> bool" where
  "message_char c \<longleftrightarrow> \<not> ((of_char c :: nat) < 0x20 \<or> c = CHR 0x7F)"

definition WorldInputQueue_enqueueChat :: "int \<Rightarrow> string \<Rightarrow> string \<Rightarrow> WorldInputQueue \<Rightarrow> WorldInputQueue option" where
  "WorldInputQueue_enqueueChat senderId audience message q =
     (if senderId \<le> 0 \<or> audience = [] \<or> length audience > 16 \<or> message = [] \<or> length message > 512 then None
      else if \<not> list_all name_char audience then None
      else if \<not> list_all message_char message then None
      else if queue_full q then None
      else Some (push_input (ChatInput \<lparr>ct_senderId = senderId, ct_audience = audience, ct_message = message\<rparr>) q))"

definition WorldInputQueue_takeFrame :: "WorldInputQueue \<Rightarrow> WorldInput list \<times> WorldInputQueue" where
  "WorldInputQueue_takeFrame q =
     (let (frame, pending) = drain_front [] (wq_pending q) in (frame, q\<lparr>wq_pending := pending\<rparr>))"

definition WorldInputQueue_clear :: "WorldInputQueue \<Rightarrow> WorldInputQueue" where
  "WorldInputQueue_clear q = q\<lparr>wq_pending := [], wq_acceptedCombatRequests := []\<rparr>"

definition WorldInputQueue_pendingCount :: "WorldInputQueue \<Rightarrow> nat" where
  "WorldInputQueue_pendingCount q = length (wq_pending q)"

subsection \<open>WorldInputTick\<close>

record WorldFrameInputs =
  wf_worldTick :: u64
  wf_inputs :: "WorldInput list"

record WorldInputTick =
  wt_inputQueue :: WorldInputQueue
  wt_worldTick :: u64

definition WorldInputTick_new :: "WorldInputQueue \<Rightarrow> WorldInputTick" where
  "WorldInputTick_new q = \<lparr>wt_inputQueue = q, wt_worldTick = 0\<rparr>"

definition WorldInputTick_submitAction :: "Action \<Rightarrow> WorldInputTick \<Rightarrow> bool \<times> WorldInputTick" where
  "WorldInputTick_submitAction action t =
     (case WorldInputQueue_enqueueAction action (wt_inputQueue t) of
        None \<Rightarrow> (False, t) | Some q \<Rightarrow> (True, t\<lparr>wt_inputQueue := q\<rparr>))"

definition WorldInputTick_submitMovement :: "int \<Rightarrow> f32 \<Rightarrow> f32 \<Rightarrow> f32 \<Rightarrow> WorldInputTick \<Rightarrow> bool \<times> WorldInputTick" where
  "WorldInputTick_submitMovement sessionId dx dy dz t =
     (case WorldInputQueue_enqueueMovement sessionId dx dy dz (wt_inputQueue t) of
        (r, q) \<Rightarrow> (r, t\<lparr>wt_inputQueue := q\<rparr>))"

definition WorldInputTick_advanceFrame :: "WorldInputTick \<Rightarrow> WorldFrameInputs \<times> WorldInputTick" where
  "WorldInputTick_advanceFrame t =
     (let tick = wt_worldTick t + 1; (inputs, q) = WorldInputQueue_takeFrame (wt_inputQueue t) in
      (\<lparr>wf_worldTick = tick, wf_inputs = inputs\<rparr>, t\<lparr>wt_inputQueue := q, wt_worldTick := tick\<rparr>))"

subsection \<open>PendingInputBuffer\<close>

definition MAX_PENDING_PREDICTION_INPUTS :: nat where
  "MAX_PENDING_PREDICTION_INPUTS = 64"

record PendingMoveInput =
  pm_clientInputSequence :: u64
  pm_dx :: f32
  pm_dy :: f32
  pm_dz :: f32

type_synonym PendingInputBuffer = "PendingMoveInput list"

definition PendingInputBuffer_push :: "PendingMoveInput \<Rightarrow> PendingInputBuffer \<Rightarrow> PendingInputBuffer option" where
  "PendingInputBuffer_push input pending =
     (if pm_clientInputSequence input = 0 \<or> length pending \<ge> MAX_PENDING_PREDICTION_INPUTS then None
      else if pending \<noteq> [] \<and> pm_clientInputSequence input \<le> pm_clientInputSequence (last pending) then None
      else Some (pending @ [input]))"

fun PendingInputBuffer_acknowledgeUpTo :: "u64 \<Rightarrow> PendingInputBuffer \<Rightarrow> PendingInputBuffer" where
  "PendingInputBuffer_acknowledgeUpTo n [] = []"
| "PendingInputBuffer_acknowledgeUpTo n (input # pending) =
     (if pm_clientInputSequence input \<le> n then PendingInputBuffer_acknowledgeUpTo n pending else input # pending)"

definition PendingInputBuffer_unacked :: "PendingInputBuffer \<Rightarrow> PendingMoveInput list" where
  "PendingInputBuffer_unacked pending = pending"

subsection \<open>Histories of the queue\<close>

text \<open>
  A state of the queue with the inputs taken so far (in order), the request ids accepted since the
  last \<open>clear\<close> and the sequenced movements accepted so far (both last first).
\<close>

inductive input_run :: "WorldInputQueue \<Rightarrow> WorldInput list \<Rightarrow> (int \<times> string) list \<Rightarrow> (int \<times> u64) list \<Rightarrow> bool" where
  start: "input_run WorldInputQueue_init [] [] []"
| action: "input_run q tk rq sq \<Longrightarrow> WorldInputQueue_enqueueAction a q = Some q' \<Longrightarrow> input_run q' tk rq sq"
| movement: "input_run q tk rq sq \<Longrightarrow> WorldInputQueue_enqueueSequencedMovement sid dx dy dz c q = (r, q') \<Longrightarrow>
    input_run q' tk rq (if r = Enqueued \<and> c \<noteq> 0 then (sid, c) # sq else sq)"
| combat: "input_run q tk rq sq \<Longrightarrow> WorldInputQueue_enqueueCombat a t p req q = Some q' \<Longrightarrow>
    input_run q' tk (if req = [] then rq else (a, req) # rq) sq"
| spell: "input_run q tk rq sq \<Longrightarrow> WorldInputQueue_enqueueSpell a t e p req q = Some q' \<Longrightarrow>
    input_run q' tk (if req = [] then rq else (a, req) # rq) sq"
| chat: "input_run q tk rq sq \<Longrightarrow> WorldInputQueue_enqueueChat s au m q = Some q' \<Longrightarrow> input_run q' tk rq sq"
| frame: "input_run q tk rq sq \<Longrightarrow> WorldInputQueue_takeFrame q = (f, q') \<Longrightarrow> input_run q' (tk @ f) rq sq"
| clear: "input_run q tk rq sq \<Longrightarrow> input_run (WorldInputQueue_clear q) tk [] sq"

definition ordered_below :: "u64 list \<Rightarrow> u64 \<Rightarrow> bool" where
  "ordered_below seqs n \<longleftrightarrow> sorted_wrt (<) seqs \<and> list_all (\<lambda>s. s < n) seqs"

lemma ordered_below_snoc: "ordered_below seqs n \<Longrightarrow> n \<noteq> UINT64_MAX \<Longrightarrow> ordered_below (seqs @ [n]) (n + 1)"
  using u64_less_Suc [of n] by (auto simp: ordered_below_def sorted_wrt_append list_all_iff intro: order_less_trans)

lemma ordered_below_prefix: "ordered_below (xs @ ys) n \<Longrightarrow> ordered_below xs n"
  by (simp add: ordered_below_def sorted_wrt_append)

text \<open>What every operation keeps of the numbering: \<open>tk\<close> are the inputs already taken.\<close>

definition queue_inv :: "WorldInput list \<Rightarrow> WorldInputQueue \<Rightarrow> bool" where
  "queue_inv tk q \<longleftrightarrow> ordered_below (map wi_sequence (tk @ wq_pending q)) (wq_nextSequence q) \<and>
     length (wq_pending q) \<le> MAX_PENDING_INPUTS"

lemma push_input_inv: "queue_inv tk q \<Longrightarrow> \<not> queue_full q \<Longrightarrow> queue_inv tk (push_input b q)"
  using ordered_below_snoc [of "map wi_sequence (tk @ wq_pending q)" "wq_nextSequence q"]
  by (auto simp: queue_inv_def queue_full_def push_input_def)

lemma push_input_simps [simp]:
  "wq_acceptedCombatRequests (push_input b q) = wq_acceptedCombatRequests q"
  "wq_inputSequenceTracker (push_input b q) = wq_inputSequenceTracker q"
  by (simp_all add: push_input_def)

lemma queue_inv_upd [simp]:
  "queue_inv tk (q\<lparr>wq_acceptedCombatRequests := x\<rparr>) = queue_inv tk q"
  "queue_inv tk (q\<lparr>wq_inputSequenceTracker := y\<rparr>) = queue_inv tk q"
  by (simp_all add: queue_inv_def)

lemma enqueue_requested_Some:
  assumes "enqueue_requested a req b q = Some q'"
  shows "\<not> queue_full q" "wq_inputSequenceTracker q' = wq_inputSequenceTracker q"
    "queue_inv tk (push_input b q) \<Longrightarrow> queue_inv tk q'"
    "req = [] \<Longrightarrow> wq_acceptedCombatRequests q' = wq_acceptedCombatRequests q"
    "req \<noteq> [] \<Longrightarrow> request_key a req \<notin> set (wq_acceptedCombatRequests q) \<and>
       set (wq_acceptedCombatRequests q') = insert (request_key a req) (set (wq_acceptedCombatRequests q))"
  using assms by (auto simp: enqueue_requested_def Let_def split: if_splits)

lemma enqueue_combat_spell:
  assumes "WorldInputQueue_enqueueCombat a t p req q = Some q' \<or> WorldInputQueue_enqueueSpell a t e p req q = Some q'"
  shows "\<exists>b. enqueue_requested a req b q = Some q'"
  using assms by (auto simp: WorldInputQueue_enqueueCombat_def WorldInputQueue_enqueueSpell_def split: if_splits)

lemma movement_cases:
  assumes "WorldInputQueue_enqueueSequencedMovement sid dx dy dz c q = (r, q')"
  obtains "r \<noteq> Enqueued" "q' = q"
  | b where "r = Enqueued" "c = 0" "\<not> queue_full q" "q' = push_input b q"
  | b where "r = Enqueued" "c \<noteq> 0" "\<not> queue_full q"
      "InputTracker_admit sid c (wq_inputSequenceTracker q) = Accept"
      "q' = (push_input b q)\<lparr>wq_inputSequenceTracker := InputTracker_noteAccepted sid c (wq_inputSequenceTracker q)\<rparr>"
proof (cases "sid \<le> 0 \<or> \<not> isValidMovementDelta dx dy dz \<or>
    (c \<noteq> 0 \<and> InputTracker_admit sid c (wq_inputSequenceTracker q) \<noteq> Accept) \<or> queue_full q")
  case True
  then have "r \<noteq> Enqueued \<and> q' = q"
    using assms by (auto simp: WorldInputQueue_enqueueSequencedMovement_def Let_def split: if_splits)
  then show ?thesis using that(1) by blast
next
  case False
  then show ?thesis using assms that(2,3)
    by (cases "c = 0") (auto simp: WorldInputQueue_enqueueSequencedMovement_def Let_def)
qed

lemma requested_inv: "queue_inv tk q \<Longrightarrow> enqueue_requested a req b q = Some q' \<Longrightarrow> queue_inv tk q'"
  using enqueue_requested_Some(1,3) push_input_inv by metis

lemma input_run_numbered: "input_run q tk rq sq \<Longrightarrow> queue_inv tk q"
proof (induction rule: input_run.induct)
  case start
  then show ?case by (simp add: queue_inv_def ordered_below_def WorldInputQueue_init_def)
next
  case (action q tk rq sq a q')
  then show ?case by (auto simp: WorldInputQueue_enqueueAction_def push_input_inv split: if_splits)
next
  case (movement q tk rq sq sid dx dy dz c r q')
  from movement.hyps(2) show ?case by (cases rule: movement_cases) (use movement.IH push_input_inv in auto)
next
  case (combat q tk rq sq a t p req q')
  then obtain b where "enqueue_requested a req b q = Some q'" using enqueue_combat_spell by metis
  then show ?case using requested_inv combat.IH by blast
next
  case (spell q tk rq sq a t e p req q')
  then obtain b where "enqueue_requested a req b q = Some q'" using enqueue_combat_spell by metis
  then show ?case using requested_inv spell.IH by blast
next
  case (chat q tk rq sq s au m q')
  then show ?case by (auto simp: WorldInputQueue_enqueueChat_def push_input_inv split: if_splits)
next
  case (frame q tk rq sq f q')
  then show ?case by (auto simp: WorldInputQueue_takeFrame_def queue_inv_def)
next
  case (clear q tk rq sq)
  then show ?case using ordered_below_prefix by (auto simp: WorldInputQueue_clear_def queue_inv_def)
qed

text \<open>
  Property C21. Every input leaves the queue at most once and in the order of acceptance: over every
  history, the sequence numbers of all inputs ever taken, followed by those still pending, are strictly
  increasing, and never more than \<open>MAX_PENDING_INPUTS\<close> are pending.
\<close>

theorem inputs_taken_in_order:
  assumes "input_run q tk rq sq"
  shows "sorted_wrt (<) (map wi_sequence (tk @ wq_pending q)) \<and> length (wq_pending q) \<le> MAX_PENDING_INPUTS"
  using input_run_numbered [OF assms] by (simp add: queue_inv_def ordered_below_def)

subsection \<open>Request ids\<close>

lemma request_key_inj: "request_key a r = request_key b s \<longleftrightarrow> a = b \<and> r = s"
proof
  assume "request_key a r = request_key b s"
  then have "show_int a @ CHR '':'' # r = show_int b @ CHR '':'' # s" by (simp add: request_key_def)
  then have "show_int a = show_int b \<and> r = s" by (rule split_unique) (simp_all add: show_int_not_in)
  then show "a = b \<and> r = s" by (simp add: show_int_inj)
qed simp

definition requests_inv :: "(int \<times> string) list \<Rightarrow> WorldInputQueue \<Rightarrow> bool" where
  "requests_inv rq q \<longleftrightarrow> distinct rq \<and> set (wq_acceptedCombatRequests q) = (\<lambda>(a, r). request_key a r) ` set rq"

lemma requests_inv_requested:
  assumes "requests_inv rq q" "enqueue_requested a req b q = Some q'"
  shows "requests_inv (if req = [] then rq else (a, req) # rq) q'"
  using assms enqueue_requested_Some(4,5) [OF assms(2)] by (auto simp: requests_inv_def request_key_inj)

lemma input_run_requests: "input_run q tk rq sq \<Longrightarrow> requests_inv rq q"
proof (induction rule: input_run.induct)
  case start
  then show ?case by (simp add: requests_inv_def WorldInputQueue_init_def)
next
  case (action q tk rq sq a q')
  then show ?case by (auto simp: WorldInputQueue_enqueueAction_def requests_inv_def split: if_splits)
next
  case (movement q tk rq sq sid dx dy dz c r q')
  from movement.hyps(2) show ?case
    by (cases rule: movement_cases) (use movement.IH in \<open>auto simp: requests_inv_def\<close>)
next
  case (combat q tk rq sq a t p req q')
  then obtain b where "enqueue_requested a req b q = Some q'" using enqueue_combat_spell by metis
  then show ?case using requests_inv_requested combat.IH by blast
next
  case (spell q tk rq sq a t e p req q')
  then obtain b where "enqueue_requested a req b q = Some q'" using enqueue_combat_spell by metis
  then show ?case using requests_inv_requested spell.IH by blast
next
  case (chat q tk rq sq s au m q')
  then show ?case by (auto simp: WorldInputQueue_enqueueChat_def requests_inv_def split: if_splits)
next
  case (frame q tk rq sq f q')
  then show ?case by (auto simp: WorldInputQueue_takeFrame_def requests_inv_def)
next
  case (clear q tk rq sq)
  then show ?case by (simp add: WorldInputQueue_clear_def requests_inv_def)
qed

text \<open>
  Property C22. A retried attack or spell is applied once: until the queue is cleared, no two accepted
  attacks or spells have the same actor and the same request id, and a request that was accepted is
  refused by both operations from then on.
\<close>

theorem requests_accepted_once:
  assumes "input_run q tk rq sq"
  shows "distinct rq \<and>
    list_all (\<lambda>(a, req). WorldInputQueue_enqueueCombat a t p req q = None \<and> WorldInputQueue_enqueueSpell a t e p req q = None) rq"
proof -
  have inv: "requests_inv rq q" using assms by (rule input_run_requests)
  have "req \<noteq> []" if "(a, req) \<in> set rq" for a req
    using assms that by (induction rule: input_run.induct) (auto split: if_splits)
  moreover have "request_key a req \<in> set (wq_acceptedCombatRequests q)" if "(a, req) \<in> set rq" for a req
    using inv that by (force simp: requests_inv_def)
  ultimately show ?thesis using inv
    by (auto simp: requests_inv_def list_all_iff WorldInputQueue_enqueueCombat_def WorldInputQueue_enqueueSpell_def enqueue_requested_def)
qed

subsection \<open>Client input sequences\<close>

definition sequences_of :: "int \<Rightarrow> (int \<times> u64) list \<Rightarrow> u64 list" where
  "sequences_of sid sq = map snd (filter (\<lambda>e. fst e = sid) sq)"

definition sequence_inv :: "(int \<times> u64) list \<Rightarrow> ClientInputSequenceTracker \<Rightarrow> bool" where
  "sequence_inv sq tr \<longleftrightarrow> (\<forall>sid. sorted_wrt (>) (sequences_of sid sq) \<and>
     lookup_or_zero (it_lastAccepted tr) sid = (case sequences_of sid sq of [] \<Rightarrow> 0 | s # _ \<Rightarrow> s))"

lemma admit_Accept:
  "InputTracker_admit sid c tr = Accept \<longleftrightarrow> 0 < sid \<and> c \<noteq> 0 \<and> lookup_or_zero (it_lastAccepted tr) sid < c \<and>
     c - lookup_or_zero (it_lastAccepted tr) sid \<le> MAX_CLIENT_INPUT_AHEAD"
  by (auto simp: InputTracker_admit_def Let_def)

lemma sequence_inv_accept:
  assumes "sequence_inv sq tr" "InputTracker_admit sid c tr = Accept"
  shows "sequence_inv ((sid, c) # sq) (InputTracker_noteAccepted sid c tr)"
proof -
  have "\<forall>x \<in> set (sequences_of sid sq). x < c"
    using assms by (auto simp: sequence_inv_def admit_Accept split: list.splits dest!: spec [of _ sid]) (metis less_trans sorted_wrt.simps(2))+
  then show ?thesis
    using assms(1) by (auto simp: sequence_inv_def sequences_of_def InputTracker_noteAccepted_def lookup_or_zero_def)
qed

lemma input_run_sequences: "input_run q tk rq sq \<Longrightarrow> sequence_inv sq (wq_inputSequenceTracker q)"
proof (induction rule: input_run.induct)
  case start
  then show ?case by (simp add: sequence_inv_def sequences_of_def WorldInputQueue_init_def InputTracker_init_def lookup_or_zero_def)
next
  case (action q tk rq sq a q')
  then show ?case by (auto simp: WorldInputQueue_enqueueAction_def split: if_splits)
next
  case (movement q tk rq sq sid dx dy dz c r q')
  from movement.hyps(2) show ?case
    by (cases rule: movement_cases) (use movement.IH sequence_inv_accept in auto)
next
  case (combat q tk rq sq a t p req q')
  then show ?case using enqueue_combat_spell [of a t p req q q'] enqueue_requested_Some(2) by metis
next
  case (spell q tk rq sq a t e p req q')
  then show ?case using enqueue_combat_spell [of a t p req q q' e] enqueue_requested_Some(2) by metis
next
  case (chat q tk rq sq s au m q')
  then show ?case by (auto simp: WorldInputQueue_enqueueChat_def split: if_splits)
next
  case (frame q tk rq sq f q')
  then show ?case by (auto simp: WorldInputQueue_takeFrame_def)
next
  case (clear q tk rq sq)
  then show ?case by (simp add: WorldInputQueue_clear_def)
qed

text \<open>
  Property C23. The sequenced movements a session gets accepted carry strictly increasing numbers, so no
  movement is applied twice or out of order however often the client resends, and a number is accepted
  exactly when it is at most 64 ahead of the last accepted one, the delta is valid and there is room.
\<close>

theorem movement_sequences_increase:
  assumes "input_run q tk rq sq" and "c \<noteq> 0"
  shows "sorted_wrt (>) (sequences_of sid sq) \<and>
    (fst (WorldInputQueue_enqueueSequencedMovement sid dx dy dz c q) = Enqueued \<longleftrightarrow>
       0 < sid \<and> isValidMovementDelta dx dy dz \<and> \<not> queue_full q \<and>
       (let previous = (case sequences_of sid sq of [] \<Rightarrow> 0 | s # _ \<Rightarrow> s) in previous < c \<and> c - previous \<le> 64))"
  using input_run_sequences [OF assms(1)] assms(2)
  by (auto simp: sequence_inv_def WorldInputQueue_enqueueSequencedMovement_def Let_def InputTracker_admit_def
      MAX_CLIENT_INPUT_AHEAD_def not_le not_less split: if_splits)

subsection \<open>The client's pending inputs\<close>

definition pending_ok :: "PendingInputBuffer \<Rightarrow> bool" where
  "pending_ok b \<longleftrightarrow> length b \<le> MAX_PENDING_PREDICTION_INPUTS \<and> sorted_wrt (<) (map pm_clientInputSequence b)"

lemma push_ok: "pending_ok b \<Longrightarrow> PendingInputBuffer_push i b = Some b' \<Longrightarrow> pending_ok b'"
proof -
  assume b: "pending_ok b" and p: "PendingInputBuffer_push i b = Some b'"
  have "\<forall>x \<in> set b. pm_clientInputSequence x < pm_clientInputSequence i"
  proof (cases b rule: rev_cases)
    case (snoc ys y)
    then show ?thesis using b p by (force simp: pending_ok_def PendingInputBuffer_push_def sorted_wrt_append split: if_splits)
  qed simp
  then show "pending_ok b'" using b p
    by (auto simp: pending_ok_def PendingInputBuffer_push_def sorted_wrt_append split: if_splits)
qed

lemma acknowledge_filter:
  "sorted_wrt (<) (map pm_clientInputSequence b) \<Longrightarrow>
     PendingInputBuffer_acknowledgeUpTo n b = filter (\<lambda>i. n < pm_clientInputSequence i) b"
proof (induction n b rule: PendingInputBuffer_acknowledgeUpTo.induct)
  case (2 n i b)
  then show ?case by (auto simp: not_le intro!: filter_True [symmetric] dest: less_trans)
qed simp

lemma acknowledge_ok: "pending_ok b \<Longrightarrow> pending_ok (PendingInputBuffer_acknowledgeUpTo n b)"
proof -
  assume b: "pending_ok b"
  then have "PendingInputBuffer_acknowledgeUpTo n b = filter (\<lambda>i. n < pm_clientInputSequence i) b"
    by (intro acknowledge_filter) (simp add: pending_ok_def)
  moreover have "length (filter (\<lambda>i. n < pm_clientInputSequence i) b) \<le> length b" by simp
  ultimately show ?thesis using b unfolding pending_ok_def
    by (metis (no_types, lifting) le_trans sorted_wrt_filter sorted_wrt_map)
qed

subsection \<open>Witnesses\<close>

lemma sample_run:
  "\<exists>q. input_run q [] [(3, ''r1'')] [(3, 1)]"
proof -
  have v: "isValidMovementDelta f32_zero f32_zero f32_zero" by (rule zero_delta_valid)
  obtain q1 where m: "WorldInputQueue_enqueueSequencedMovement 3 f32_zero f32_zero f32_zero 1 WorldInputQueue_init = (Enqueued, q1)"
    "length (wq_pending q1) = 1" "wq_nextSequence q1 = 2" "wq_acceptedCombatRequests q1 = []"
    using v by (simp add: WorldInputQueue_enqueueSequencedMovement_def WorldInputQueue_init_def InputTracker_admit_def
        InputTracker_init_def lookup_or_zero_def MAX_CLIENT_INPUT_AHEAD_def queue_full_def MAX_PENDING_INPUTS_def push_input_def)
  have valid: "isValidRequestId ''r1''" by code_simp
  obtain q2 where c: "WorldInputQueue_enqueueCombat 3 4 (F_Fin False 1) ''r1'' q1 = Some q2"
    using m(2-4) valid
    by (simp add: WorldInputQueue_enqueueCombat_def enqueue_requested_def queue_full_def MAX_PENDING_INPUTS_def f32_le_def)
  show ?thesis
    using input_run.combat [OF input_run.movement [OF input_run.start m(1)] c] by auto
qed

theorem inputs_taken_in_order_witness:
  "\<exists>q. input_run q [] [(3, ''r1'')] [(3, 1)] \<and> sorted_wrt (<) (map wi_sequence (wq_pending q))"
  using sample_run inputs_taken_in_order by fastforce

theorem requests_accepted_once_witness:
  "\<exists>q. input_run q [] [(3, ''r1'')] [(3, 1)] \<and> WorldInputQueue_enqueueCombat 3 4 (F_Fin False 1) ''r1'' q = None"
proof -
  obtain q where "input_run q [] [(3, ''r1'')] [(3, 1)]" using sample_run by blast
  then show ?thesis using requests_accepted_once [of q "[]" "[(3, ''r1'')]" "[(3, 1)]" 4 "F_Fin False 1"] by auto
qed

theorem movement_sequences_increase_witness:
  "\<exists>q. input_run q [] [(3, ''r1'')] [(3, 1)] \<and>
     fst (WorldInputQueue_enqueueSequencedMovement 3 f32_zero f32_zero f32_zero 1 q) \<noteq> Enqueued"
proof -
  obtain q where q: "input_run q [] [(3, ''r1'')] [(3, 1)]" using sample_run by blast
  have "sequences_of 3 [(3, 1)] = [1]" by (simp add: sequences_of_def)
  then show ?thesis using movement_sequences_increase [OF q, of 1 3 f32_zero f32_zero f32_zero] q by auto
qed

end
