(* ===== verification/Field.thy ===== *)
theory Field
  imports World_Input Ether
begin

text \<open>
  \<open>Field.cpp\<close>: the world. One record holds the members of the class; each method is one definition.
  A method that dereferences a pointer or an iterator, or converts a \<open>float\<close> to \<open>long\<close>, returns an
  \<open>option\<close> whose \<open>None\<close> is undefined behaviour in C++ (a null or end iterator, a value out of range);
  that it never happens is proved, not assumed. \<open>Field::getInstance\<close> is a singleton, so the static
  methods act on the one field.
\<close>

subsection \<open>Data\<close>

record NpcRespawnState =
  rs_status :: Status
  rs_position :: Position
  rs_respawnTick :: u64

record CombatResolution =
  cr_spell :: bool
  cr_inputSequence :: u64
  cr_actorId :: int
  cr_targetId :: int
  cr_element :: string
  cr_requestId :: string
  cr_basePower :: f32
  cr_effectivePower :: f32
  cr_damage :: int
  cr_remainingHp :: int
  cr_mpSpent :: int
  cr_cooldownUntil :: u64
  cr_etherDelta :: "f32 list"

record NpcSnapshot =
  ns_id :: int
  ns_type :: string
  ns_x :: f32
  ns_y :: f32
  ns_z :: f32
  ns_hp :: int
  ns_alive :: bool

record PlayerPoseSnapshot =
  pp_sessionId :: int
  pp_x :: f32
  pp_y :: f32
  pp_z :: f32
  pp_gameplayId :: int
  pp_name :: string

record Field =
  fd_playerList :: "(int, Player) std_map"
  fd_npcList :: "(int, Npc) std_map"
  fd_positionQueue :: "Position list"
  fd_actionQueue :: "Action list"
  fd_fieldStatus :: Status
  fd_fieldEther :: EnvironmentEther
  fd_lastEtherHazard :: f32
  fd_nextAttackTick :: "(int, u64) std_map"
  fd_nextSpellTick :: "(int, u64) std_map"
  fd_npcRespawns :: "(int, NpcRespawnState) std_map"
  fd_sessionToPlayerId :: "(int, int) std_map"
  fd_playerToSessionId :: "(int, int) std_map"
  fd_nextGameplayId :: int

definition Field_init :: Field where
  "Field_init = \<lparr>fd_playerList = [], fd_npcList = [], fd_positionQueue = [], fd_actionQueue = [],
     fd_fieldStatus = Status_default, fd_fieldEther = EnvironmentEther_init, fd_lastEtherHazard = f32_zero,
     fd_nextAttackTick = [], fd_nextSpellTick = [], fd_npcRespawns = [], fd_sessionToPlayerId = [],
     fd_playerToSessionId = [], fd_nextGameplayId = 1\<rparr>"

subsection \<open>Helpers of the translation unit\<close>

definition kAttackCooldownTicks :: u64 where "kAttackCooldownTicks = 1"
definition kSpellCooldownTicks :: u64 where "kSpellCooldownTicks = 2"

text \<open>
  \<open>std::ceil(static_cast<double>(power) / 10.0)\<close>: a \<open>float\<close> of \<open>m\<close> units of \<open>2^-149\<close> divided by ten is
  rounded to 53 bits (in units of \<open>2^-1074\<close>; the quotient is never subnormal) and then up.
\<close>

definition ceil_tenth :: "nat \<Rightarrow> nat" where
  "ceil_tenth m = (round_mag 53 (m * 2 ^ 925) 10 + (2 ^ 1074 - 1)) div 2 ^ 1074"

text \<open>\<open>Some None\<close> is the result \<open>false\<close>; \<open>None\<close> an out-of-range conversion (a cost of exactly \<open>2^63\<close>).\<close>

fun spellMpCost :: "f32 \<Rightarrow> int option option" where
  "spellMpCost (F_Fin False m) =
     (let raw = ceil_tenth m in
      if raw < 1 \<or> raw > 2 ^ 63 then Some None
      else if raw = 2 ^ 63 then None
      else Some (Some (int raw)))"
| "spellMpCost _ = Some None"

definition tickAfter :: "u64 \<Rightarrow> u64 \<Rightarrow> u64 option" where
  "tickAfter tick duration = (if tick > UINT64_MAX - duration then None else Some (tick + duration))"

subsection \<open>Players, sessions and lookups\<close>

definition Field_gainStatus :: "Status \<Rightarrow> Field \<Rightarrow> Field" where
  "Field_gainStatus status f = f\<lparr>fd_fieldStatus := gain_status status (fd_fieldStatus f)\<rparr>"

definition Field_resolvePlayerId :: "Field \<Rightarrow> int \<Rightarrow> int" where
  "Field_resolvePlayerId f i =
     (if i \<le> 0 then 0
      else if map_of (fd_playerList f) i \<noteq> None then i
      else case map_of (fd_sessionToPlayerId f) i of None \<Rightarrow> 0 | Some playerId \<Rightarrow> playerId)"

definition Field_hasPlayer :: "Field \<Rightarrow> int \<Rightarrow> bool" where
  "Field_hasPlayer f playerId \<longleftrightarrow> Field_resolvePlayerId f playerId > 0"

definition Field_findPlayer :: "Field \<Rightarrow> int \<Rightarrow> Player option" where
  "Field_findPlayer f playerId = map_of (fd_playerList f) (Field_resolvePlayerId f playerId)"

definition Field_findNpc :: "Field \<Rightarrow> int \<Rightarrow> Npc option" where
  "Field_findNpc f npcId = map_of (fd_npcList f) npcId"

text \<open>Writing through the pointer that \<open>findPlayer\<close> returned.\<close>

definition update_player :: "int \<Rightarrow> (Player \<Rightarrow> Player) \<Rightarrow> Field \<Rightarrow> Field" where
  "update_player key g f =
     (case map_of (fd_playerList f) key of
        None \<Rightarrow> f | Some p \<Rightarrow> f\<lparr>fd_playerList := map_put key (g p) (fd_playerList f)\<rparr>)"

definition Field_forgetBindingsForPlayer :: "int \<Rightarrow> Field \<Rightarrow> Field" where
  "Field_forgetBindingsForPlayer gameplayId f =
     (case map_of (fd_playerToSessionId f) gameplayId of
        None \<Rightarrow> f
      | Some sid \<Rightarrow> f\<lparr>fd_sessionToPlayerId := map_erase sid (fd_sessionToPlayerId f),
                     fd_playerToSessionId := map_erase gameplayId (fd_playerToSessionId f)\<rparr>)"

definition Field_unbindSession :: "int \<Rightarrow> Field \<Rightarrow> bool \<times> Field" where
  "Field_unbindSession sessionId f =
     (if sessionId \<le> 0 then (False, f)
      else case map_of (fd_sessionToPlayerId f) sessionId of
        None \<Rightarrow> (False, f)
      | Some gid \<Rightarrow> (True, f\<lparr>fd_playerToSessionId := map_erase gid (fd_playerToSessionId f),
                            fd_sessionToPlayerId := map_erase sessionId (fd_sessionToPlayerId f)\<rparr>))"

definition Field_bindSession :: "int \<Rightarrow> int \<Rightarrow> Field \<Rightarrow> bool \<times> Field" where
  "Field_bindSession sessionId gameplayId f =
     (if sessionId \<le> 0 \<or> gameplayId \<le> 0 then (False, f)
      else if map_of (fd_playerList f) gameplayId = None then (False, f)
      else let f1 = snd (Field_unbindSession sessionId f);
               f2 = Field_forgetBindingsForPlayer gameplayId f1 in
        (True, f2\<lparr>fd_sessionToPlayerId := map_put sessionId gameplayId (fd_sessionToPlayerId f2),
                  fd_playerToSessionId := map_put gameplayId sessionId (fd_playerToSessionId f2)\<rparr>))"

definition Field_playerIdForSession :: "Field \<Rightarrow> int \<Rightarrow> int" where
  "Field_playerIdForSession f sessionId = (case map_of (fd_sessionToPlayerId f) sessionId of None \<Rightarrow> 0 | Some g \<Rightarrow> g)"

definition Field_sessionIdForPlayer :: "Field \<Rightarrow> int \<Rightarrow> int" where
  "Field_sessionIdForPlayer f gameplayId = (case map_of (fd_playerToSessionId f) gameplayId of None \<Rightarrow> 0 | Some s \<Rightarrow> s)"

text \<open>The loop of \<open>allocateGameplayId\<close>: the id (0 when the range is used up) and the next counter.\<close>

definition id_taken :: "Field \<Rightarrow> int \<Rightarrow> bool" where
  "id_taken f candidate \<longleftrightarrow> map_of (fd_playerList f) candidate \<noteq> None \<or> Field_findNpc f candidate \<noteq> None \<or>
     map_of (fd_sessionToPlayerId f) candidate \<noteq> None"

function allocate_loop :: "Field \<Rightarrow> int \<Rightarrow> int \<times> int" where
  "allocate_loop f counter =
     (if counter < INT64_MAX
      then (if id_taken f counter then allocate_loop f (counter + 1) else (counter, counter + 1))
      else (0, counter))"
  by pat_completeness auto
termination by (relation "measure (\<lambda>(f, c). nat (INT64_MAX - c))") auto

declare allocate_loop.simps [simp del]

definition Field_allocateGameplayId :: "Field \<Rightarrow> int \<times> Field" where
  "Field_allocateGameplayId f =
     (case allocate_loop f (fd_nextGameplayId f) of (i, counter) \<Rightarrow> (i, f\<lparr>fd_nextGameplayId := counter\<rparr>))"

definition Field_findPlayerByAuthId :: "Field \<Rightarrow> int \<Rightarrow> Player option" where
  "Field_findPlayerByAuthId f authPlayerId =
     (if authPlayerId \<le> 0 then None
      else List.find (\<lambda>p. pl_authPlayerId p = authPlayerId) (map snd (fd_playerList f)))"

definition Field_hasPlayerName :: "Field \<Rightarrow> string \<Rightarrow> bool" where
  "Field_hasPlayerName f displayName =
     (let trimmed = trimPlayerName displayName in
      if trimmed = [] then False
      else list_ex (\<lambda>(k, p). Player_getPlayerName p = trimmed) (fd_playerList f))"

definition Field_residentPlayerIds :: "Field \<Rightarrow> int list" where
  "Field_residentPlayerIds f = map fst (fd_playerList f)"

definition Field_putPlayer :: "Player \<Rightarrow> Field \<Rightarrow> bool \<times> Field" where
  "Field_putPlayer player f =
     (if pl_id player \<le> 0 \<or> Field_findNpc f (pl_id player) \<noteq> None then (False, f)
      else (True, f\<lparr>fd_playerList := map_put (pl_id player) player (fd_playerList f)\<rparr>))"

definition Field_putNpc :: "Npc \<Rightarrow> Field \<Rightarrow> bool \<times> Field" where
  "Field_putNpc npc f =
     (if npc_id npc \<le> 0 \<or> Field_hasPlayer f (npc_id npc) \<or> Field_findNpc f (npc_id npc) \<noteq> None then (False, f)
      else (True, f\<lparr>fd_npcList := map_put (npc_id npc) npc (fd_npcList f)\<rparr>))"

definition Field_unsetPlayer :: "Player \<Rightarrow> Field \<Rightarrow> bool \<times> Field" where
  "Field_unsetPlayer player f =
     (let playerId = Field_resolvePlayerId f (pl_id player) in
      if playerId \<le> 0 then (False, f)
      else let f1 = Field_forgetBindingsForPlayer playerId f in
        (map_of (fd_playerList f1) playerId \<noteq> None,
         f1\<lparr>fd_nextAttackTick := map_erase playerId (fd_nextAttackTick f1),
            fd_nextSpellTick := map_erase playerId (fd_nextSpellTick f1),
            fd_playerList := map_erase playerId (fd_playerList f1)\<rparr>))"

definition Field_unsetNpc :: "Npc \<Rightarrow> Field \<Rightarrow> bool \<times> Field" where
  "Field_unsetNpc npc f =
     (map_of (fd_npcList f) (npc_id npc) \<noteq> None,
      f\<lparr>fd_npcRespawns := map_erase (npc_id npc) (fd_npcRespawns f), fd_npcList := map_erase (npc_id npc) (fd_npcList f)\<rparr>)"

definition Field_scheduleNpcRespawn :: "int \<Rightarrow> u64 \<Rightarrow> Status \<Rightarrow> Position \<Rightarrow> Field \<Rightarrow> bool \<times> Field" where
  "Field_scheduleNpcRespawn npcId respawnTick status position f =
     (case Field_findNpc f npcId of
        None \<Rightarrow> (False, f)
      | Some npc \<Rightarrow>
          if Npc_isAlive npc \<or> respawnTick = 0 \<or> st_hp status \<le> 0 \<or>
             \<not> f32_isfinite (pos_x position) \<or> \<not> f32_isfinite (pos_y position) \<or> \<not> f32_isfinite (pos_z position) \<or>
             beyond_world (pos_x position) \<or> beyond_world (pos_y position) \<or> beyond_world (pos_z position) \<or>
             map_of (fd_npcRespawns f) npcId \<noteq> None
          then (False, f)
          else (True, f\<lparr>fd_npcRespawns := map_put npcId
                  \<lparr>rs_status = status, rs_position = Position_copy position, rs_respawnTick = respawnTick\<rparr> (fd_npcRespawns f)\<rparr>))"

definition Field_queueMovement :: "int \<Rightarrow> f32 \<Rightarrow> f32 \<Rightarrow> f32 \<Rightarrow> Field \<Rightarrow> bool \<times> Field" where
  "Field_queueMovement playerId dx dy dz f =
     (case map_of (fd_playerList f) (Field_resolvePlayerId f playerId) of
        None \<Rightarrow> (False, f)
      | Some player \<Rightarrow>
          let pos = Position_copy (pl_position player) in
          (case integrateMovement (pos_x pos) (pos_y pos) (pos_z pos) dx dy dz of
             None \<Rightarrow> (False, f)
           | Some (x, y, z) \<Rightarrow> (True, f\<lparr>fd_positionQueue := fd_positionQueue f @ [Position_setPosition x y z pos]\<rparr>)))"

definition Field_queueNpcMovement :: "int \<Rightarrow> f32 \<Rightarrow> f32 \<Rightarrow> f32 \<Rightarrow> Field \<Rightarrow> bool \<times> Field" where
  "Field_queueNpcMovement npcId dx dy dz f =
     (case Field_findNpc f npcId of
        None \<Rightarrow> (False, f)
      | Some npc \<Rightarrow>
          if \<not> Npc_isAlive npc then (False, f)
          else let pos = Position_copy (npc_position npc) in
            (case integrateMovement (pos_x pos) (pos_y pos) (pos_z pos) dx dy dz of
               None \<Rightarrow> (False, f)
             | Some (x, y, z) \<Rightarrow> (True, f\<lparr>fd_positionQueue := fd_positionQueue f @ [Position_setPosition x y z pos]\<rparr>)))"

definition Field_publicNpcSnapshots :: "Field \<Rightarrow> NpcSnapshot list" where
  "Field_publicNpcSnapshots f =
     map (\<lambda>(k, npc). \<lparr>ns_id = npc_id npc, ns_type = npc_type npc, ns_x = pos_x (npc_position npc), ns_y = pos_y (npc_position npc),
            ns_z = pos_z (npc_position npc), ns_hp = st_hp (npc_status npc), ns_alive = True\<rparr>)
       (filter (\<lambda>(k, npc). Npc_isAlive npc) (fd_npcList f))"

definition Field_publicPlayerPoses :: "Field \<Rightarrow> PlayerPoseSnapshot list" where
  "Field_publicPlayerPoses f =
     map (\<lambda>(k, player).
            let boundSession = Field_sessionIdForPlayer f (pl_id player); pose = pl_position player in
            \<lparr>pp_sessionId = (if boundSession > 0 then boundSession else pl_id player),
             pp_x = pos_x pose, pp_y = pos_y pose, pp_z = pos_z pose, pp_gameplayId = pl_id player,
             pp_name = Player_getPlayerName player\<rparr>)
       (filter (\<lambda>(k, player). \<not> (pl_authPlayerId player > 0 \<and> Field_sessionIdForPlayer f (pl_id player) \<le> 0)) (fd_playerList f))"

subsection \<open>Combat\<close>

definition Field_findTargetPosition :: "Field \<Rightarrow> int \<Rightarrow> Position option" where
  "Field_findTargetPosition f targetId =
     (case Field_findPlayer f targetId of
        Some player \<Rightarrow> Some (pl_position player)
      | None \<Rightarrow> map_option npc_position (Field_findNpc f targetId))"

definition Field_targetIsAlive :: "Field \<Rightarrow> int \<Rightarrow> bool" where
  "Field_targetIsAlive f targetId =
     (case Field_findPlayer f targetId of
        Some player \<Rightarrow> st_hp (pl_status player) > 0
      | None \<Rightarrow> (case Field_findNpc f targetId of None \<Rightarrow> False | Some npc \<Rightarrow> Npc_isAlive npc))"

definition Field_targetHp :: "Field \<Rightarrow> int \<Rightarrow> int" where
  "Field_targetHp f targetId =
     (case Field_findPlayer f targetId of
        Some player \<Rightarrow> st_hp (pl_status player)
      | None \<Rightarrow> (case Field_findNpc f targetId of None \<Rightarrow> 0 | Some npc \<Rightarrow> st_hp (npc_status npc)))"

text \<open>\<open>None\<close> is the result \<open>false\<close>, which changes nothing.\<close>

definition Field_applyDamageToTarget :: "int \<Rightarrow> int \<Rightarrow> Field \<Rightarrow> Field option" where
  "Field_applyDamageToTarget targetId damage f =
     (case Field_findPlayer f targetId of
        Some player \<Rightarrow>
          if st_hp (pl_status player) \<le> 0 \<or> damage \<le> 0 then None
          else Some (update_player (Field_resolvePlayerId f targetId)
                       (\<lambda>p. p\<lparr>pl_status := Status_gainHp (- damage) (pl_status p)\<rparr>) f)
      | None \<Rightarrow>
          (case Field_findNpc f targetId of
             None \<Rightarrow> None
           | Some npc \<Rightarrow> map_option (\<lambda>n. f\<lparr>fd_npcList := map_put targetId n (fd_npcList f)\<rparr>) (Npc_applyDamage damage npc)))"

definition Field_validateCombat :: "CombatIntent \<Rightarrow> Field \<Rightarrow> unit result" where
  "Field_validateCombat intent f =
     (case (Field_findPlayer f (ci_attackerId intent), Field_findTargetPosition f (ci_targetId intent)) of
        (Some attacker, Some targetPosition) \<Rightarrow>
          if \<not> Field_targetIsAlive f (ci_targetId intent) then Inl ''combat actor or target is not present''
          else let dx = f32_sub (pos_x (pl_position attacker)) (pos_x targetPosition);
                   dy = f32_sub (pos_y (pl_position attacker)) (pos_y targetPosition);
                   dz = f32_sub (pos_z (pl_position attacker)) (pos_z targetPosition) in
            if f32_lt (f32_lit 10000 1) (norm2 dx dy dz) then Inl ''combat target is out of range''
            else if \<not> f32_isfinite (ci_power intent) \<or> f32_le (ci_power intent) f32_zero \<or>
                    f32_lt (f32_lit 100000 1) (ci_power intent)
            then Inl ''combat power is invalid''
            else Inr ()
      | _ \<Rightarrow> Inl ''combat actor or target is not present'')"

definition Field_validateSpell :: "SpellIntent \<Rightarrow> Field \<Rightarrow> unit result" where
  "Field_validateSpell intent f =
     (if sp_element intent = [] \<or> length (sp_element intent) > 32 then Inl ''spell element is invalid''
      else if \<not> isKnownElement (sp_element intent) then Inl ''spell element is unknown''
      else if \<not> list_all name_char (sp_element intent) then Inl ''spell element contains invalid characters''
      else Field_validateCombat \<lparr>ci_attackerId = sp_casterId intent, ci_targetId = sp_targetId intent,
             ci_power = sp_power intent, ci_requestId = sp_requestId intent\<rparr> f)"

definition Field_applyCombat :: "CombatIntent \<Rightarrow> Field \<Rightarrow> (Field \<times> unit result) option" where
  "Field_applyCombat intent f =
     (case Field_validateCombat intent f of
        Inl error \<Rightarrow> Some (f, Inl error)
      | Inr _ \<Rightarrow>
          (case f32_to_long (ci_power intent) of
             None \<Rightarrow> None
           | Some damage \<Rightarrow>
               (case Field_applyDamageToTarget (ci_targetId intent) damage f of
                  None \<Rightarrow> Some (f, Inl ''combat target is not alive'')
                | Some f' \<Rightarrow> Some (f', Inr ()))))"

definition Field_applySpell :: "SpellIntent \<Rightarrow> Field \<Rightarrow> (Field \<times> unit result) option" where
  "Field_applySpell intent f =
     (case Field_validateSpell intent f of
        Inl error \<Rightarrow> Some (f, Inl error)
      | Inr _ \<Rightarrow>
          (case EnvironmentEther_resolveSpell (sp_element intent) (sp_power intent) (fd_fieldEther f) of
             (ether, Inl error) \<Rightarrow> Some (f\<lparr>fd_fieldEther := ether\<rparr>, Inl error)
           | (ether, Inr effectivePower) \<Rightarrow>
               (case f32_to_long effectivePower of
                  None \<Rightarrow> None
                | Some damage \<Rightarrow>
                    (case Field_applyDamageToTarget (sp_targetId intent) damage (f\<lparr>fd_fieldEther := ether\<rparr>) of
                       None \<Rightarrow> Some (f\<lparr>fd_fieldEther := ether\<rparr>, Inl ''spell target is not alive'')
                     | Some f' \<Rightarrow> Some (f', Inr ())))))"

subsection \<open>Actions and frames\<close>

text \<open>The \<open>switch\<close> on the action type, which \<open>applyAction\<close> and \<open>processFrame\<close> both have.\<close>

definition Field_applyAction :: "Action \<Rightarrow> Field \<Rightarrow> Field" where
  "Field_applyAction action f =
     (if \<not> ac_valid action then f
      else if ac_actionType action = 0 then Field_gainStatus (ac_status action) f
      else if ac_actionType action = 1
      then update_player (pl_id (ac_playerTo action)) (\<lambda>p. p\<lparr>pl_status := gain_status (ac_status action) (pl_status p)\<rparr>) f
      else if ac_actionType action = 2 \<or> ac_actionType action = 3
      then update_player (pl_id (ac_playerFrom action)) (\<lambda>p. p\<lparr>pl_status := gain_status (ac_status action) (pl_status p)\<rparr>) f
      else f)"

definition apply_position :: "Position \<Rightarrow> Field \<Rightarrow> Field" where
  "apply_position pos f =
     (if map_of (fd_playerList f) (pos_playerId pos) \<noteq> None then update_player (pos_playerId pos) (Player_setPosition pos) f
      else case map_of (fd_npcList f) (pos_playerId pos) of
        None \<Rightarrow> f
      | Some npc \<Rightarrow> if Npc_isAlive npc
                   then f\<lparr>fd_npcList := map_put (pos_playerId pos) (Npc_setPosition pos npc) (fd_npcList f)\<rparr> else f)"

definition apply_respawn :: "u64 \<Rightarrow> int \<times> NpcRespawnState \<Rightarrow> Field \<Rightarrow> Field" where
  "apply_respawn worldTick entry f =
     (case entry of (npcId, rs) \<Rightarrow>
        if rs_respawnTick rs > worldTick then f
        else let f1 = (case Field_findNpc f npcId of
                         None \<Rightarrow> f
                       | Some npc \<Rightarrow>
                           if Npc_isAlive npc then f
                           else case Npc_respawn (rs_status rs) (rs_position rs) npc of
                             None \<Rightarrow> f | Some n \<Rightarrow> f\<lparr>fd_npcList := map_put npcId n (fd_npcList f)\<rparr>)
             in f1\<lparr>fd_npcRespawns := map_erase npcId (fd_npcRespawns f1)\<rparr>)"

definition Field_processFrame :: "u64 \<Rightarrow> Field \<Rightarrow> Field" where
  "Field_processFrame worldTick f =
     (let f1 = (fold apply_position (fd_positionQueue f) f)\<lparr>fd_positionQueue := []\<rparr>;
          f2 = (fold Field_applyAction (fd_actionQueue f1) f1)\<lparr>fd_actionQueue := []\<rparr>
      in fold (apply_respawn worldTick) (fd_npcRespawns f2) f2)"

definition Field_putPositionQueue :: "Position \<Rightarrow> Field \<Rightarrow> Field" where
  "Field_putPositionQueue position f = f\<lparr>fd_positionQueue := fd_positionQueue f @ [position]\<rparr>"

definition Field_putActionQueue :: "Action \<Rightarrow> Field \<Rightarrow> Field" where
  "Field_putActionQueue action f = f\<lparr>fd_actionQueue := fd_actionQueue f @ [action]\<rparr>"

subsection \<open>The invariant of the field\<close>

definition players_ok :: "(int, Player) std_map \<Rightarrow> bool" where
  "players_ok ps \<longleftrightarrow> map_wf ps \<and> (\<forall>k p. map_of ps k = Some p \<longrightarrow> 0 < k \<and> pl_id p = k \<and> status_ok (pl_status p))"

definition npcs_ok :: "(int, Npc) std_map \<Rightarrow> bool" where
  "npcs_ok ns \<longleftrightarrow> map_wf ns \<and> (\<forall>k n. map_of ns k = Some n \<longrightarrow> 0 < k \<and> npc_id n = k \<and> npc_ok n)"

text \<open>The two binding maps are each other's inverse and every bound player is in the field.\<close>

definition bindings_ok :: "(int, 'a) std_map \<Rightarrow> (int, int) std_map \<Rightarrow> (int, int) std_map \<Rightarrow> bool" where
  "bindings_ok ps s2p p2s \<longleftrightarrow> map_wf s2p \<and> map_wf p2s \<and> inverse_maps (map_of s2p) (map_of p2s) \<and>
     (\<forall>s g. map_of s2p s = Some g \<longrightarrow> 0 < s \<and> g \<in> dom (map_of ps))"

definition respawns_ok :: "(int, NpcRespawnState) std_map \<Rightarrow> bool" where
  "respawns_ok rs \<longleftrightarrow> map_wf rs \<and> (\<forall>k r. map_of rs k = Some r \<longrightarrow> 0 < st_hp (rs_status r) \<and> status_ok (rs_status r))"

definition field_inv :: "Field \<Rightarrow> bool" where
  "field_inv f \<longleftrightarrow> players_ok (fd_playerList f) \<and> npcs_ok (fd_npcList f) \<and>
     dom (map_of (fd_playerList f)) \<inter> dom (map_of (fd_npcList f)) = {} \<and>
     bindings_ok (fd_playerList f) (fd_sessionToPlayerId f) (fd_playerToSessionId f) \<and>
     respawns_ok (fd_npcRespawns f) \<and> status_ok (fd_fieldStatus f) \<and> ether_ok (fd_fieldEther f) \<and>
     1 \<le> fd_nextGameplayId f \<and> fd_nextGameplayId f \<le> INT64_MAX"

lemma players_ok_put: "players_ok ps \<Longrightarrow> 0 < k \<Longrightarrow> pl_id p = k \<Longrightarrow> status_ok (pl_status p) \<Longrightarrow> players_ok (map_put k p ps)"
  by (simp add: players_ok_def)

lemma players_ok_erase: "players_ok ps \<Longrightarrow> players_ok (map_erase k ps)"
  by (simp add: players_ok_def)

lemma npcs_ok_put: "npcs_ok ns \<Longrightarrow> 0 < k \<Longrightarrow> npc_id n = k \<Longrightarrow> npc_ok n \<Longrightarrow> npcs_ok (map_put k n ns)"
  by (simp add: npcs_ok_def)

lemma npcs_ok_erase: "npcs_ok ns \<Longrightarrow> npcs_ok (map_erase k ns)"
  by (simp add: npcs_ok_def)

lemma respawns_ok_erase: "respawns_ok rs \<Longrightarrow> respawns_ok (map_erase k rs)"
  by (simp add: respawns_ok_def)

lemma players_okD: "players_ok ps \<Longrightarrow> map_of ps k = Some p \<Longrightarrow> 0 < k \<and> pl_id p = k \<and> status_ok (pl_status p)"
  by (simp add: players_ok_def)

lemma npcs_okD: "npcs_ok ns \<Longrightarrow> map_of ns k = Some n \<Longrightarrow> 0 < k \<and> npc_id n = k \<and> npc_ok n"
  by (simp add: npcs_ok_def)

lemma bindings_ok_players: "bindings_ok ps a b \<Longrightarrow> dom (map_of ps) \<subseteq> dom (map_of qs) \<Longrightarrow> bindings_ok qs a b"
  unfolding bindings_ok_def by blast

lemma bindings_ok_unlink:
  assumes "bindings_ok ps s2p p2s" "map_of s2p s = Some g"
  shows "bindings_ok ps (map_erase s s2p) (map_erase g p2s)"
  using assms inverse_maps_unlink [of "map_of s2p" "map_of p2s" s g] by (auto simp: bindings_ok_def)

lemma bindings_ok_link:
  assumes "bindings_ok ps s2p p2s" "map_of s2p s = None" "map_of p2s g = None" "0 < s" "g \<in> dom (map_of ps)"
  shows "bindings_ok ps (map_put s g s2p) (map_put g s p2s)"
  using assms inverse_maps_link [of "map_of s2p" "map_of p2s" s g] by (auto simp: bindings_ok_def)

lemma bindings_inverse: "bindings_ok ps s2p p2s \<Longrightarrow> map_of s2p s = Some g \<longleftrightarrow> map_of p2s g = Some s"
  by (simp add: bindings_ok_def inverse_mapsD)

text \<open>Erasing a player together with its binding.\<close>

lemma bindings_ok_erase_player:
  assumes "bindings_ok ps s2p p2s" "map_of p2s g = None"
  shows "bindings_ok (map_erase g ps) s2p p2s"
proof -
  have "g' \<noteq> g" if "map_of s2p s = Some g'" for s g'
    using that assms bindings_inverse [OF assms(1), of s g'] by auto
  then show ?thesis using assms by (auto simp: bindings_ok_def)
qed

lemma field_inv_init: "field_inv Field_init"
  by (simp add: field_inv_def Field_init_def players_ok_def npcs_ok_def bindings_ok_def respawns_ok_def ether_init_ok)

lemma update_player_simps [simp]:
  "fd_npcList (update_player k g f) = fd_npcList f" "fd_positionQueue (update_player k g f) = fd_positionQueue f"
  "fd_actionQueue (update_player k g f) = fd_actionQueue f" "fd_fieldStatus (update_player k g f) = fd_fieldStatus f"
  "fd_fieldEther (update_player k g f) = fd_fieldEther f" "fd_lastEtherHazard (update_player k g f) = fd_lastEtherHazard f"
  "fd_nextAttackTick (update_player k g f) = fd_nextAttackTick f" "fd_nextSpellTick (update_player k g f) = fd_nextSpellTick f"
  "fd_npcRespawns (update_player k g f) = fd_npcRespawns f" "fd_sessionToPlayerId (update_player k g f) = fd_sessionToPlayerId f"
  "fd_playerToSessionId (update_player k g f) = fd_playerToSessionId f" "fd_nextGameplayId (update_player k g f) = fd_nextGameplayId f"
  by (simp_all add: update_player_def split: option.splits)

lemma map_of_update_player:
  "map_of (fd_playerList (update_player k g f)) = (map_of (fd_playerList f))(k := map_option g (map_of (fd_playerList f) k))"
  by (auto simp: update_player_def split: option.splits)

lemma dom_update_player [simp]: "dom (map_of (fd_playerList (update_player k g f))) = dom (map_of (fd_playerList f))"
  by (auto simp: map_of_update_player)

lemma update_player_inv:
  assumes "field_inv f" "\<And>p. pl_id (g p) = pl_id p" "\<And>p. status_ok (pl_status p) \<Longrightarrow> status_ok (pl_status (g p))"
  shows "field_inv (update_player k g f)"
proof (cases "map_of (fd_playerList f) k")
  case (Some p)
  then have "players_ok (fd_playerList (update_player k g f))"
    using assms players_okD [of "fd_playerList f" k p] by (auto simp: update_player_def field_inv_def intro!: players_ok_put)
  moreover have "bindings_ok (fd_playerList (update_player k g f)) (fd_sessionToPlayerId f) (fd_playerToSessionId f)"
    by (rule bindings_ok_players [of "fd_playerList f"]) (use assms(1) in \<open>auto simp: field_inv_def\<close>)
  ultimately show ?thesis using assms(1) by (auto simp: field_inv_def)
qed (use assms in \<open>simp add: update_player_def\<close>)

lemma put_npc_inv:
  assumes "field_inv f" "map_of (fd_npcList f) k = Some n" "npc_id n' = npc_id n" "npc_ok n'"
  shows "field_inv (f\<lparr>fd_npcList := map_put k n' (fd_npcList f)\<rparr>)"
proof -
  have "npcs_ok (map_put k n' (fd_npcList f))"
    using assms npcs_okD [of "fd_npcList f" k n] by (intro npcs_ok_put) (auto simp: field_inv_def)
  then show ?thesis using assms(1,2) by (auto simp: field_inv_def)
qed

lemma resolve_present:
  assumes "field_inv f" "Field_resolvePlayerId f i > 0"
  shows "\<exists>p. map_of (fd_playerList f) (Field_resolvePlayerId f i) = Some p"
  using assms by (auto simp: Field_resolvePlayerId_def field_inv_def bindings_ok_def split: if_splits option.splits)

lemma forgetBindings_inv:
  assumes "field_inv f"
  shows "field_inv (Field_forgetBindingsForPlayer g f)" "map_of (fd_playerToSessionId (Field_forgetBindingsForPlayer g f)) g = None"
    "fd_playerList (Field_forgetBindingsForPlayer g f) = fd_playerList f"
    "map_of (fd_sessionToPlayerId f) s = None \<Longrightarrow> map_of (fd_sessionToPlayerId (Field_forgetBindingsForPlayer g f)) s = None"
proof -
  have b: "bindings_ok (fd_playerList f) (fd_sessionToPlayerId f) (fd_playerToSessionId f)" using assms by (simp add: field_inv_def)
  show "field_inv (Field_forgetBindingsForPlayer g f)"
    using assms bindings_ok_unlink [OF b] bindings_inverse [OF b]
    by (auto simp: Field_forgetBindingsForPlayer_def field_inv_def split: option.splits)
qed (auto simp: Field_forgetBindingsForPlayer_def split: option.splits)

lemma unbindSession_inv:
  assumes "field_inv f"
  shows "field_inv (snd (Field_unbindSession s f))" "fd_playerList (snd (Field_unbindSession s f)) = fd_playerList f"
    "0 < s \<Longrightarrow> map_of (fd_sessionToPlayerId (snd (Field_unbindSession s f))) s = None"
proof -
  have b: "bindings_ok (fd_playerList f) (fd_sessionToPlayerId f) (fd_playerToSessionId f)" using assms by (simp add: field_inv_def)
  show "field_inv (snd (Field_unbindSession s f))"
    using assms bindings_ok_unlink [OF b] by (auto simp: Field_unbindSession_def field_inv_def split: option.splits)
qed (auto simp: Field_unbindSession_def split: option.splits)

lemma bindSession_inv:
  assumes "field_inv f"
  shows "field_inv (snd (Field_bindSession s g f))"
proof (cases "s \<le> 0 \<or> g \<le> 0 \<or> map_of (fd_playerList f) g = None")
  case True
  then show ?thesis using assms by (auto simp: Field_bindSession_def)
next
  case False
  define f1 where "f1 = snd (Field_unbindSession s f)"
  define f2 where "f2 = Field_forgetBindingsForPlayer g f1"
  have f1: "field_inv f1" "fd_playerList f1 = fd_playerList f" "map_of (fd_sessionToPlayerId f1) s = None"
    using unbindSession_inv [OF assms, of s] False by (auto simp: f1_def)
  have f2: "field_inv f2" "fd_playerList f2 = fd_playerList f" "map_of (fd_sessionToPlayerId f2) s = None"
    "map_of (fd_playerToSessionId f2) g = None"
    using forgetBindings_inv(1-3) [OF f1(1), of g] forgetBindings_inv(4) [OF f1(1,3), of g] f1 by (auto simp: f2_def)
  have "bindings_ok (fd_playerList f2) (map_put s g (fd_sessionToPlayerId f2)) (map_put g s (fd_playerToSessionId f2))"
    using f2 False by (intro bindings_ok_link) (auto simp: field_inv_def)
  then show ?thesis using False f2(1) by (auto simp: Field_bindSession_def f1_def [symmetric] f2_def [symmetric] Let_def field_inv_def)
qed

subsection \<open>Allocation of gameplay ids\<close>

lemma allocate_loop_spec:
  assumes "allocate_loop f c = (i, c')" "1 \<le> c" "c \<le> INT64_MAX"
  shows "c \<le> c' \<and> c' \<le> INT64_MAX \<and>
    (if i = 0 then c' = INT64_MAX \<and> (\<forall>j. c \<le> j \<and> j < INT64_MAX \<longrightarrow> id_taken f j)
     else c \<le> i \<and> c' = i + 1 \<and> \<not> id_taken f i \<and> (\<forall>j. c \<le> j \<and> j < i \<longrightarrow> id_taken f j))"
  using assms
proof (induction f c rule: allocate_loop.induct)
  case (1 f c)
  show ?case
  proof (cases "c < INT64_MAX \<and> id_taken f c")
    case True
    then have "allocate_loop f (c + 1) = (i, c')" using "1.prems" by (simp add: allocate_loop.simps [of f c])
    note IH = "1.IH" [OF _ _ this]
    have all: "(\<forall>j. c \<le> j \<and> j < b \<longrightarrow> id_taken f j) \<longleftrightarrow> (\<forall>j. c + 1 \<le> j \<and> j < b \<longrightarrow> id_taken f j)" for b
      using True by (metis add1_zle_eq order_le_less)
    show ?thesis using IH True "1.prems" unfolding all by (auto split: if_splits)
  next
    case False
    then show ?thesis using "1.prems" by (auto simp: allocate_loop.simps [of f c] split: if_splits)
  qed
qed

lemma allocate_free:
  assumes "field_inv f" and "Field_allocateGameplayId f = (i, f')"
  shows "field_inv f' \<and>
    (if i = 0 then fd_nextGameplayId f' = INT64_MAX
     else 0 < i \<and> fd_nextGameplayId f \<le> i \<and> i < fd_nextGameplayId f' \<and> map_of (fd_playerList f) i = None \<and>
       Field_findNpc f i = None \<and> map_of (fd_sessionToPlayerId f) i = None)"
proof -
  obtain c where c: "allocate_loop f (fd_nextGameplayId f) = (i, c)" "f' = f\<lparr>fd_nextGameplayId := c\<rparr>"
    using assms(2) by (auto simp: Field_allocateGameplayId_def split: prod.splits)
  have n: "1 \<le> fd_nextGameplayId f" "fd_nextGameplayId f \<le> INT64_MAX" using assms(1) by (auto simp: field_inv_def)
  have id: "\<not> id_taken f i \<longleftrightarrow> map_of (fd_playerList f) i = None \<and> Field_findNpc f i = None \<and> map_of (fd_sessionToPlayerId f) i = None"
    by (auto simp: id_taken_def)
  show ?thesis using allocate_loop_spec [OF c(1) n] n assms(1) id by (auto simp: c(2) field_inv_def split: if_splits)
qed

text \<open>
  An allocated gameplay id is positive and free: no player, no NPC and no bound session
  has it, it is at least the counter, the counter moves past it, and 0 is returned only when no id is
  left below the maximum.
\<close>

theorem allocated_id_is_free:
  assumes "field_inv f" and "Field_allocateGameplayId f = (i, f')"
  shows "field_inv f' \<and>
    (if i = 0 then fd_nextGameplayId f' = INT64_MAX
     else 0 < i \<and> fd_nextGameplayId f \<le> i \<and> i < fd_nextGameplayId f' \<and> map_of (fd_playerList f) i = None \<and>
       Field_findNpc f i = None \<and> map_of (fd_sessionToPlayerId f) i = None)"
  using assms by (rule allocate_free)

theorem allocated_id_is_free_witness: "\<exists>f'. Field_allocateGameplayId Field_init = (1, f') \<and> field_inv f'"
proof -
  have a: "Field_allocateGameplayId Field_init = (1, Field_init\<lparr>fd_nextGameplayId := 2\<rparr>)"
    by (simp add: Field_allocateGameplayId_def allocate_loop.simps [of _ 1] Field_init_def id_taken_def Field_findNpc_def)
  show ?thesis using allocated_id_is_free [OF field_inv_init a] a by blast
qed

subsection \<open>Every operation keeps the invariant\<close>

lemma putPlayer_inv:
  assumes "field_inv f" "status_ok (pl_status p)"
  shows "field_inv (snd (Field_putPlayer p f))"
proof -
  have "bindings_ok (map_put (pl_id p) p (fd_playerList f)) (fd_sessionToPlayerId f) (fd_playerToSessionId f)"
    by (rule bindings_ok_players [of "fd_playerList f"]) (use assms(1) in \<open>auto simp: field_inv_def\<close>)
  then show ?thesis using assms
    by (auto simp: Field_putPlayer_def field_inv_def Field_findNpc_def intro: players_ok_put)
qed

lemma putNpc_inv:
  assumes "field_inv f" "npc_ok n"
  shows "field_inv (snd (Field_putNpc n f))"
proof -
  have "map_of (fd_playerList f) (npc_id n) = None" if "0 < npc_id n" "\<not> Field_hasPlayer f (npc_id n)"
    using that by (auto simp: Field_hasPlayer_def Field_resolvePlayerId_def split: if_splits)
  then show ?thesis using assms
    by (auto simp: Field_putNpc_def field_inv_def intro: npcs_ok_put)
qed

lemma unsetPlayer_inv:
  assumes "field_inv f"
  shows "field_inv (snd (Field_unsetPlayer p f))"
proof -
  define g where "g = Field_resolvePlayerId f (pl_id p)"
  define f1 where "f1 = Field_forgetBindingsForPlayer g f"
  have f1: "field_inv f1" "map_of (fd_playerToSessionId f1) g = None" using forgetBindings_inv [OF assms, of g] by (auto simp: f1_def)
  have "bindings_ok (map_erase g (fd_playerList f1)) (fd_sessionToPlayerId f1) (fd_playerToSessionId f1)"
    using f1 by (intro bindings_ok_erase_player) (auto simp: field_inv_def)
  then show ?thesis using assms f1
    by (auto simp: Field_unsetPlayer_def g_def [symmetric] f1_def [symmetric] Let_def field_inv_def intro: players_ok_erase)
qed

lemma unsetNpc_inv: "field_inv f \<Longrightarrow> field_inv (snd (Field_unsetNpc n f))"
  by (auto simp: Field_unsetNpc_def field_inv_def intro: npcs_ok_erase respawns_ok_erase)

lemma scheduleNpcRespawn_inv:
  assumes "field_inv f" "status_ok st"
  shows "field_inv (snd (Field_scheduleNpcRespawn i t st pos f))"
  using assms by (auto simp: Field_scheduleNpcRespawn_def field_inv_def respawns_ok_def split: option.splits)

lemma queue_ops_inv:
  "field_inv f \<Longrightarrow> field_inv (snd (Field_queueMovement i dx dy dz f))"
  "field_inv f \<Longrightarrow> field_inv (snd (Field_queueNpcMovement i dx dy dz f))"
  "field_inv f \<Longrightarrow> field_inv (Field_putPositionQueue pos f)" "field_inv f \<Longrightarrow> field_inv (Field_putActionQueue a f)"
  by (auto simp: Field_queueMovement_def Field_queueNpcMovement_def Field_putPositionQueue_def Field_putActionQueue_def
      field_inv_def Let_def split: option.splits)

lemma gainStatus_inv: "field_inv f \<Longrightarrow> field_inv (Field_gainStatus s f)"
  by (auto simp: Field_gainStatus_def field_inv_def)

lemma applyAction_inv: "field_inv f \<Longrightarrow> field_inv (Field_applyAction a f)"
  by (auto simp: Field_applyAction_def intro!: update_player_inv gainStatus_inv)

lemma apply_position_inv:
  assumes "field_inv f"
  shows "field_inv (apply_position pos f)"
proof (cases "map_of (fd_playerList f) (pos_playerId pos)")
  case None
  then show ?thesis using assms npcs_okD [of "fd_npcList f" "pos_playerId pos"]
    by (auto simp: apply_position_def field_inv_def [of f] split: option.splits intro!: put_npc_inv)
qed (use assms in \<open>auto simp: apply_position_def Player_setPosition_def intro!: update_player_inv\<close>)

lemma apply_respawn_inv:
  assumes "field_inv f" "status_ok (rs_status r)"
  shows "field_inv (apply_respawn t (i, r) f)"
proof -
  define f1 where "f1 = (case Field_findNpc f i of
                         None \<Rightarrow> f
                       | Some npc \<Rightarrow>
                           if Npc_isAlive npc then f
                           else case Npc_respawn (rs_status r) (rs_position r) npc of
                             None \<Rightarrow> f | Some n \<Rightarrow> f\<lparr>fd_npcList := map_put i n (fd_npcList f)\<rparr>)"
  have "field_inv (f\<lparr>fd_npcList := map_put i n (fd_npcList f)\<rparr>)"
    if "Field_findNpc f i = Some npc" "Npc_respawn (rs_status r) (rs_position r) npc = Some n" for npc n
  proof -
    have "npc_ok npc" using assms(1) npcs_okD [of "fd_npcList f" i npc] that(1) by (simp add: field_inv_def Field_findNpc_def)
    then show ?thesis
      using put_npc_inv [OF assms(1), of i npc n] Npc_respawn_ok [OF _ assms(2) that(2)] that(1) by (simp add: Field_findNpc_def)
  qed
  then have "field_inv f1" using assms(1) by (auto simp: f1_def split: option.splits)
  then have "field_inv (f1\<lparr>fd_npcRespawns := map_erase i (fd_npcRespawns f1)\<rparr>)"
    by (auto simp: field_inv_def intro: respawns_ok_erase)
  then show ?thesis using assms(1) by (simp only: apply_respawn_def f1_def Let_def prod.case split: if_splits) simp
qed

lemma fold_inv: "field_inv f \<Longrightarrow> (\<And>x f. x \<in> set xs \<Longrightarrow> field_inv f \<Longrightarrow> field_inv (g x f)) \<Longrightarrow> field_inv (fold g xs f)"
  by (induction xs arbitrary: f) auto

lemma processFrame_inv:
  assumes "field_inv f"
  shows "field_inv (Field_processFrame t f)"
proof -
  define f1 where "f1 = (fold apply_position (fd_positionQueue f) f)\<lparr>fd_positionQueue := []\<rparr>"
  define f2 where "f2 = (fold Field_applyAction (fd_actionQueue f1) f1)\<lparr>fd_actionQueue := []\<rparr>"
  have "field_inv (fold apply_position (fd_positionQueue f) f)" using assms apply_position_inv by (intro fold_inv) auto
  then have "field_inv f1" by (simp add: f1_def field_inv_def)
  then have "field_inv (fold Field_applyAction (fd_actionQueue f1) f1)" using applyAction_inv by (intro fold_inv) auto
  then have f2: "field_inv f2" by (simp add: f2_def field_inv_def)
  then have "status_ok (rs_status r)" if "(i, r) \<in> set (fd_npcRespawns f2)" for i r
    using that map_wf_entry [of "fd_npcRespawns f2" i r] by (auto simp: field_inv_def respawns_ok_def)
  then have "field_inv (fold (apply_respawn t) (fd_npcRespawns f2) f2)"
    using f2 apply_respawn_inv by (intro fold_inv) auto
  then show ?thesis by (simp only: Field_processFrame_def f1_def f2_def Let_def)
qed

end
