(* ===== verification/Field_Inputs.thy ===== *)
theory Field_Inputs
  imports Field
begin

text \<open>
  \<open>Field::processInputs\<close>: a frame of inputs is first checked as a whole against projected cooldowns,
  magic points and positions, then applied one by one, and rolled back when one fails. \<open>None\<close> is
  undefined behaviour; \<open>Some (False, _)\<close> the result \<open>false\<close>.
\<close>

subsection \<open>The check pass\<close>

record Projection =
  pj_mp :: "(int, int) std_map"
  pj_attackTick :: "(int, u64) std_map"
  pj_spellTick :: "(int, u64) std_map"
  pj_position :: "(int, Position) std_map"

definition on_cooldown :: "(int, u64) std_map \<Rightarrow> int \<Rightarrow> u64 \<Rightarrow> bool" where
  "on_cooldown m actor worldTick = (case map_of m actor of None \<Rightarrow> False | Some t \<Rightarrow> worldTick < t)"

definition check_movement :: "MovementIntent \<Rightarrow> Field \<Rightarrow> Projection \<Rightarrow> (bool \<times> Projection) option" where
  "check_movement m f pj =
     (if \<not> Field_hasPlayer f (mi_sessionId m) then Some (False, pj)
      else if \<not> isValidMovementDelta (mi_dx m) (mi_dy m) (mi_dz m) then Some (False, pj)
      else case (map_of (pj_position pj) (mi_sessionId m), Field_findPlayer f (mi_sessionId m)) of
        (None, None) \<Rightarrow> None
      | (projected, player) \<Rightarrow>
          let start = (case projected of Some p \<Rightarrow> p | None \<Rightarrow> pl_position (the player)) in
          (case integrateMovement (pos_x start) (pos_y start) (pos_z start) (mi_dx m) (mi_dy m) (mi_dz m) of
             None \<Rightarrow> Some (False, pj)
           | Some (x, y, z) \<Rightarrow>
               Some (True, pj\<lparr>pj_position := map_put (mi_sessionId m) (Position_new (mi_sessionId m) x y z) (pj_position pj)\<rparr>)))"

definition check_combat :: "u64 \<Rightarrow> CombatIntent \<Rightarrow> Field \<Rightarrow> Projection \<Rightarrow> (bool \<times> Projection) option" where
  "check_combat worldTick c f pj =
     (case Field_validateCombat c f of
        Inl _ \<Rightarrow> Some (False, pj)
      | Inr _ \<Rightarrow>
          (case tickAfter worldTick kAttackCooldownTicks of
             None \<Rightarrow> Some (False, pj)
           | Some nextTick \<Rightarrow>
               if on_cooldown (pj_attackTick pj) (ci_attackerId c) worldTick then Some (False, pj)
               else Some (True, pj\<lparr>pj_attackTick := map_put (ci_attackerId c) nextTick (pj_attackTick pj)\<rparr>)))"

definition check_spell :: "u64 \<Rightarrow> SpellIntent \<Rightarrow> Field \<Rightarrow> Projection \<Rightarrow> (bool \<times> Projection) option" where
  "check_spell worldTick s f pj =
     (case Field_validateSpell s f of
        Inl _ \<Rightarrow> Some (False, pj)
      | Inr _ \<Rightarrow>
          (case spellMpCost (sp_power s) of
             None \<Rightarrow> None
           | Some None \<Rightarrow> Some (False, pj)
           | Some (Some cost) \<Rightarrow>
               (case tickAfter worldTick kSpellCooldownTicks of
                  None \<Rightarrow> Some (False, pj)
                | Some nextTick \<Rightarrow>
                    if on_cooldown (pj_spellTick pj) (sp_casterId s) worldTick then Some (False, pj)
                    else case (map_of (pj_mp pj) (sp_casterId s), Field_findPlayer f (sp_casterId s)) of
                      (None, None) \<Rightarrow> None
                    | (projected, caster) \<Rightarrow>
                        let available = (case projected of Some mp \<Rightarrow> mp | None \<Rightarrow> st_mp (pl_status (the caster))) in
                        if available < cost then Some (False, pj)
                        else Some (True, pj\<lparr>pj_mp := map_put (sp_casterId s) (available - cost) (pj_mp pj),
                                            pj_spellTick := map_put (sp_casterId s) nextTick (pj_spellTick pj)\<rparr>))))"

definition check_input :: "u64 \<Rightarrow> WorldInput \<Rightarrow> Field \<Rightarrow> Projection \<Rightarrow> (bool \<times> Projection) option" where
  "check_input worldTick input f pj =
     (case wi_body input of
        MovementInput m \<Rightarrow> check_movement m f pj
      | ActionInput a \<Rightarrow> Some (ac_valid a, pj)
      | CombatInput c \<Rightarrow> check_combat worldTick c f pj
      | SpellInput s \<Rightarrow> check_spell worldTick s f pj
      | ChatInput _ \<Rightarrow> Some (True, pj))"

fun check_inputs :: "u64 \<Rightarrow> WorldInput list \<Rightarrow> Field \<Rightarrow> Projection \<Rightarrow> (bool \<times> Projection) option" where
  "check_inputs worldTick [] f pj = Some (True, pj)"
| "check_inputs worldTick (input # inputs) f pj =
     (case check_input worldTick input f pj of
        None \<Rightarrow> None
      | Some (False, pj') \<Rightarrow> Some (False, pj')
      | Some (True, pj') \<Rightarrow> check_inputs worldTick inputs f pj')"

definition projection_start :: "Field \<Rightarrow> Projection" where
  "projection_start f = \<lparr>pj_mp = [], pj_attackTick = fd_nextAttackTick f, pj_spellTick = fd_nextSpellTick f, pj_position = []\<rparr>"

subsection \<open>The apply pass\<close>

definition default_resolution :: CombatResolution where
  "default_resolution = \<lparr>cr_spell = False, cr_inputSequence = 0, cr_actorId = 0, cr_targetId = 0, cr_element = [],
     cr_requestId = [], cr_basePower = f32_zero, cr_effectivePower = f32_zero, cr_damage = 0, cr_remainingHp = 0,
     cr_mpSpent = 0, cr_cooldownUntil = 0, cr_etherDelta = [f32_zero, f32_zero, f32_zero, f32_zero]\<rparr>"

definition ether_values :: "EnvironmentEther \<Rightarrow> f32 list" where
  "ether_values e = map (EnvironmentEther_value e) [Fire, Water, Earth, Air]"

text \<open>\<open>tickAfter\<close> leaves its out-parameter, initially 0, alone when it fails.\<close>

definition tick_or_zero :: "u64 \<Rightarrow> u64 \<Rightarrow> u64" where
  "tick_or_zero tick duration = (case tickAfter tick duration of None \<Rightarrow> 0 | Some t \<Rightarrow> t)"

definition apply_movement :: "MovementIntent \<Rightarrow> Field \<Rightarrow> (bool \<times> Field) option" where
  "apply_movement m f =
     (let key = Field_resolvePlayerId f (mi_sessionId m) in
      case map_of (fd_playerList f) key of
        None \<Rightarrow> None
      | Some player \<Rightarrow>
          let pos = Position_copy (pl_position player) in
          (case integrateMovement (pos_x pos) (pos_y pos) (pos_z pos) (mi_dx m) (mi_dy m) (mi_dz m) of
             None \<Rightarrow> Some (False, f)
           | Some (x, y, z) \<Rightarrow> Some (True, update_player key (Player_setPosition (Position_setPosition x y z pos)) f)))"

definition apply_attack :: "u64 \<Rightarrow> u64 \<Rightarrow> CombatIntent \<Rightarrow> Field \<Rightarrow> (bool \<times> Field \<times> CombatResolution list) option" where
  "apply_attack worldTick inputSequence c f =
     (let hpBefore = Field_targetHp f (ci_targetId c) in
      case Field_applyCombat c f of
        None \<Rightarrow> None
      | Some (f', Inl _) \<Rightarrow> Some (False, f', [])
      | Some (f', Inr _) \<Rightarrow>
          let hpAfter = Field_targetHp f' (ci_targetId c);
              until = tick_or_zero worldTick kAttackCooldownTicks in
          Some (True, f'\<lparr>fd_nextAttackTick := map_put (ci_attackerId c) until (fd_nextAttackTick f')\<rparr>,
            [default_resolution\<lparr>cr_inputSequence := inputSequence, cr_actorId := ci_attackerId c, cr_targetId := ci_targetId c,
               cr_basePower := ci_power c, cr_requestId := ci_requestId c, cr_effectivePower := ci_power c,
               cr_damage := hpBefore - hpAfter, cr_remainingHp := hpAfter, cr_mpSpent := 0, cr_cooldownUntil := until\<rparr>]))"

definition apply_cast :: "u64 \<Rightarrow> u64 \<Rightarrow> SpellIntent \<Rightarrow> Field \<Rightarrow> (bool \<times> Field \<times> CombatResolution list) option" where
  "apply_cast worldTick inputSequence s f =
     (let hpBefore = Field_targetHp f (sp_targetId s);
          before = ether_values (fd_fieldEther f);
          spellAttribute = (case attributeForElement (sp_element s) of None \<Rightarrow> Fire | Some a \<Rightarrow> a);
          effectivePower = f32_mul (sp_power s) (EnvironmentEther_conductivity (fd_fieldEther f) spellAttribute) in
      case Field_applySpell s f of
        None \<Rightarrow> None
      | Some (f1, Inl _) \<Rightarrow> Some (False, f1, [])
      | Some (f1, Inr _) \<Rightarrow>
          (case spellMpCost (sp_power s) of
             None \<Rightarrow> None
           | Some None \<Rightarrow> Some (False, f1, [])
           | Some (Some mpCost) \<Rightarrow>
               (case Field_findPlayer f1 (sp_casterId s) of
                  None \<Rightarrow> None
                | Some _ \<Rightarrow>
                    let f2 = update_player (Field_resolvePlayerId f1 (sp_casterId s))
                               (\<lambda>p. p\<lparr>pl_status := Status_gainMp (- mpCost) (pl_status p)\<rparr>) f1;
                        hpAfter = Field_targetHp f2 (sp_targetId s);
                        until = tick_or_zero worldTick kSpellCooldownTicks;
                        after = ether_values (fd_fieldEther f2) in
                    Some (True, f2\<lparr>fd_nextSpellTick := map_put (sp_casterId s) until (fd_nextSpellTick f2)\<rparr>,
                      [default_resolution\<lparr>cr_spell := True, cr_inputSequence := inputSequence, cr_actorId := sp_casterId s,
                         cr_targetId := sp_targetId s, cr_element := sp_element s, cr_requestId := sp_requestId s,
                         cr_basePower := sp_power s, cr_damage := hpBefore - hpAfter, cr_effectivePower := effectivePower,
                         cr_remainingHp := hpAfter, cr_mpSpent := mpCost, cr_cooldownUntil := until,
                         cr_etherDelta := map (\<lambda>(a, b). f32_sub a b) (zip after before)\<rparr>]))))"

definition apply_input :: "u64 \<Rightarrow> WorldInput \<Rightarrow> Field \<Rightarrow> (bool \<times> Field \<times> CombatResolution list) option" where
  "apply_input worldTick input f =
     (case wi_body input of
        MovementInput m \<Rightarrow> map_option (\<lambda>(ok, f'). (ok, f', [])) (apply_movement m f)
      | ActionInput a \<Rightarrow> Some (True, Field_applyAction a f, [])
      | CombatInput c \<Rightarrow> apply_attack worldTick (wi_sequence input) c f
      | SpellInput s \<Rightarrow> apply_cast worldTick (wi_sequence input) s f
      | ChatInput _ \<Rightarrow> Some (True, f, []))"

fun apply_inputs :: "u64 \<Rightarrow> WorldInput list \<Rightarrow> Field \<Rightarrow> (bool \<times> Field \<times> CombatResolution list) option" where
  "apply_inputs worldTick [] f = Some (True, f, [])"
| "apply_inputs worldTick (input # inputs) f =
     (case apply_input worldTick input f of
        None \<Rightarrow> None
      | Some (False, f', _) \<Rightarrow> Some (False, f', [])
      | Some (True, f', rs) \<Rightarrow>
          (case apply_inputs worldTick inputs f' of
             None \<Rightarrow> None
           | Some (False, f'', _) \<Rightarrow> Some (False, f'', [])
           | Some (True, f'', rs') \<Rightarrow> Some (True, f'', rs @ rs')))"

text \<open>The members the code copies before the apply pass and restores on failure.\<close>

definition rollback :: "Field \<Rightarrow> Field \<Rightarrow> Field" where
  "rollback before f = f\<lparr>fd_playerList := fd_playerList before, fd_npcList := fd_npcList before,
     fd_fieldEther := fd_fieldEther before, fd_nextAttackTick := fd_nextAttackTick before,
     fd_nextSpellTick := fd_nextSpellTick before, fd_lastEtherHazard := fd_lastEtherHazard before\<rparr>"

definition Field_processInputs :: "WorldInput list \<Rightarrow> u64 \<Rightarrow> Field \<Rightarrow> (bool \<times> CombatResolution list \<times> Field) option" where
  "Field_processInputs inputs worldTick f =
     (case check_inputs worldTick inputs f (projection_start f) of
        None \<Rightarrow> None
      | Some (False, _) \<Rightarrow> Some (False, [], f)
      | Some (True, _) \<Rightarrow>
          (case apply_inputs worldTick inputs f of
             None \<Rightarrow> None
           | Some (False, f', _) \<Rightarrow> Some (False, [], rollback f f')
           | Some (True, f', resolutions) \<Rightarrow>
               let ether = EnvironmentEther_decay (fd_fieldEther f') in
               Some (True, resolutions,
                 f'\<lparr>fd_fieldEther := ether, fd_lastEtherHazard := EnvironmentEther_adverseEffectSeverity ether\<rparr>)))"

subsection \<open>What the apply pass leaves alone\<close>

text \<open>The members no input touches, and the sets of ids.\<close>

definition same_frame :: "Field \<Rightarrow> Field \<Rightarrow> bool" where
  "same_frame f f' \<longleftrightarrow> fd_positionQueue f' = fd_positionQueue f \<and> fd_actionQueue f' = fd_actionQueue f \<and>
     fd_npcRespawns f' = fd_npcRespawns f \<and> fd_sessionToPlayerId f' = fd_sessionToPlayerId f \<and>
     fd_playerToSessionId f' = fd_playerToSessionId f \<and> fd_nextGameplayId f' = fd_nextGameplayId f \<and>
     dom (map_of (fd_playerList f')) = dom (map_of (fd_playerList f)) \<and>
     dom (map_of (fd_npcList f')) = dom (map_of (fd_npcList f))"

lemma same_frame_refl [simp]: "same_frame f f"
  by (simp add: same_frame_def)

lemma same_frame_trans: "same_frame f g \<Longrightarrow> same_frame g h \<Longrightarrow> same_frame f h"
  by (simp add: same_frame_def)

lemma same_frame_resolve:
  assumes "same_frame f f'"
  shows "Field_resolvePlayerId f' i = Field_resolvePlayerId f i"
proof -
  have "map_of (fd_playerList f') i \<noteq> None \<longleftrightarrow> map_of (fd_playerList f) i \<noteq> None" using assms by (auto simp: same_frame_def)
  then show ?thesis using assms by (simp add: Field_resolvePlayerId_def same_frame_def)
qed

lemma same_frame_update_player [simp]: "same_frame f (update_player k g f)"
  by (simp add: same_frame_def)

lemma same_frame_find:
  assumes "same_frame f f'"
  shows "Field_findPlayer f' i = None \<longleftrightarrow> Field_findPlayer f i = None"
  using assms by (auto simp: Field_findPlayer_def same_frame_resolve [OF assms] same_frame_def)

lemma same_frame_put_npc: "map_of (fd_npcList f) k \<noteq> None \<Longrightarrow> same_frame f (f\<lparr>fd_npcList := map_put k n (fd_npcList f)\<rparr>)"
  by (auto simp: same_frame_def)

lemma applyDamage_frame:
  assumes "Field_applyDamageToTarget t d f = Some f'"
  shows "same_frame f f'" "fd_fieldEther f' = fd_fieldEther f" "fd_fieldStatus f' = fd_fieldStatus f"
    "fd_nextAttackTick f' = fd_nextAttackTick f" "fd_nextSpellTick f' = fd_nextSpellTick f"
proof -
  show "same_frame f f'"
    using assms same_frame_put_npc [of f t]
    by (auto simp: Field_applyDamageToTarget_def Field_findNpc_def split: option.splits if_splits)
qed (use assms in \<open>auto simp: Field_applyDamageToTarget_def split: option.splits if_splits\<close>)

lemma applyDamage_inv:
  assumes "field_inv f" "Field_applyDamageToTarget t d f = Some f'"
  shows "field_inv f'"
proof (cases "Field_findPlayer f t")
  case (Some p)
  then show ?thesis using assms by (auto simp: Field_applyDamageToTarget_def split: if_splits intro!: update_player_inv)
next
  case None
  then obtain npc n where n: "map_of (fd_npcList f) t = Some npc" "Npc_applyDamage d npc = Some n"
    "f' = f\<lparr>fd_npcList := map_put t n (fd_npcList f)\<rparr>"
    using assms(2) by (auto simp: Field_applyDamageToTarget_def Field_findNpc_def split: option.splits)
  then have "npc_ok npc" using assms(1) npcs_okD by (auto simp: field_inv_def)
  then show ?thesis using put_npc_inv [OF assms(1) n(1)] Npc_applyDamage_ok n Npc_applyDamage_id by blast
qed

subsection \<open>Ranges of powers and costs\<close>

lemma combat_power_range:
  assumes "Field_validateCombat c f = Inr ()"
  shows "\<exists>m. ci_power c = F_Fin False m \<and> 0 < m \<and> m \<le> 100000 * f32_unit"
proof -
  have lit: "f32_lit 100000 (Suc 0) = F_Fin False (100000 * f32_unit)" using f32_lit_nat [of 100000] by simp
  have "f32_isfinite (ci_power c)" "\<not> f32_le (ci_power c) f32_zero" "\<not> f32_lt (f32_lit 100000 (Suc 0)) (ci_power c)"
    using assms by (auto simp: Field_validateCombat_def Let_def split: option.splits if_splits)
  then show ?thesis unfolding lit by (auto simp: f32_isfinite_iff f32_le_def split: if_splits)
qed

lemma validateSpell_combat:
  assumes "Field_validateSpell s f = Inr ()"
  shows "Field_validateCombat \<lparr>ci_attackerId = sp_casterId s, ci_targetId = sp_targetId s, ci_power = sp_power s,
    ci_requestId = sp_requestId s\<rparr> f = Inr ()" "isKnownElement (sp_element s)"
  using assms by (auto simp: Field_validateSpell_def split: if_splits)

lemma validateCombat_attacker: "Field_validateCombat c f = Inr () \<Longrightarrow> \<exists>p. Field_findPlayer f (ci_attackerId c) = Some p"
  by (auto simp: Field_validateCombat_def split: option.splits)

lemma f32_to_long_range: "m \<le> 200000 * f32_unit \<Longrightarrow> \<exists>d. f32_to_long (F_Fin False m) = Some d \<and> 0 \<le> d \<and> d \<le> 200000"
proof -
  assume "m \<le> 200000 * f32_unit"
  then have "m div f32_unit \<le> 200000 * f32_unit div f32_unit" by (rule div_le_mono)
  then have "m div f32_unit \<le> 200000" by simp
  then show ?thesis by (auto simp: Let_def is_int64_def)
qed

lemma ceil_tenth_bound:
  assumes "m \<le> 100000 * f32_unit"
  shows "ceil_tenth m \<le> 10000"
proof -
  have rep: "representable 53 (10000 * 2 ^ 1074)"
    by (rule representable_shift, rule representable_less) simp
  have "m * 2 ^ 925 \<le> (100000 * f32_unit) * 2 ^ 925" using assms by (rule mult_le_mono1)
  also have "\<dots> = (10000 * 2 ^ 1074) * 10" by (simp add: power_add [symmetric])
  finally have "round_mag 53 (m * 2 ^ 925) 10 \<le> 10000 * 2 ^ 1074" by (intro round_mag_le rep) simp_all
  then have "round_mag 53 (m * 2 ^ 925) 10 + (2 ^ 1074 - 1) < 10001 * 2 ^ 1074" by simp
  then have "ceil_tenth m < 10001" unfolding ceil_tenth_def by (simp only: less_mult_imp_div_less)
  then show ?thesis by simp
qed

lemma spellMpCost_defined:
  assumes "Field_validateSpell s f = Inr ()"
  shows "\<exists>c. spellMpCost (sp_power s) = Some c"
proof -
  obtain m where m: "sp_power s = F_Fin False m" "m \<le> 100000 * f32_unit"
    using combat_power_range [OF validateSpell_combat(1) [OF assms]] by auto
  have "ceil_tenth m < 2 ^ 63" using ceil_tenth_bound [OF m(2)] by (simp add: order_le_less_trans)
  then show ?thesis by (auto simp: m(1) Let_def)
qed

subsection \<open>No undefined behaviour\<close>

definition input_ok :: "WorldInput \<Rightarrow> bool" where
  "input_ok input = (case wi_body input of SpellInput s \<Rightarrow> f32_ok (sp_power s) | _ \<Rightarrow> True)"

lemma hasPlayer_find: "field_inv f \<Longrightarrow> Field_hasPlayer f i \<Longrightarrow> \<exists>p. Field_findPlayer f i = Some p"
  using resolve_present [of f i] by (simp add: Field_hasPlayer_def Field_findPlayer_def)

lemma check_input_defined:
  assumes "field_inv f"
  shows "check_input t i f pj \<noteq> None"
proof (cases "wi_body i")
  case (MovementInput m)
  then show ?thesis using hasPlayer_find [OF assms, of "mi_sessionId m"]
    by (auto simp: check_input_def check_movement_def Let_def split: option.splits)
next
  case (CombatInput c)
  then show ?thesis by (auto simp: check_input_def check_combat_def split: sum.splits option.splits)
next
  case (SpellInput s)
  show ?thesis
  proof (cases "Field_validateSpell s f")
    case (Inr u)
    then obtain c p where "spellMpCost (sp_power s) = Some c" "Field_findPlayer f (sp_casterId s) = Some p"
      using spellMpCost_defined [of s f] validateCombat_attacker [OF validateSpell_combat(1), of s f] by auto
    then show ?thesis using SpellInput Inr
      by (auto simp: check_input_def check_spell_def Let_def split: option.splits)
  qed (simp add: SpellInput check_input_def check_spell_def)
qed (simp_all add: check_input_def)

lemma check_inputs_defined: "field_inv f \<Longrightarrow> check_inputs t is f pj \<noteq> None"
proof (induction "is" arbitrary: pj)
  case (Cons i "is")
  then show ?case using check_input_defined [OF Cons.prems, of t i pj] by (auto split: option.splits bool.splits prod.splits)
qed simp

text \<open>Every movement of a checked frame is of a player in the field.\<close>

definition movement_present :: "Field \<Rightarrow> WorldInput \<Rightarrow> bool" where
  "movement_present f input = (case wi_body input of MovementInput m \<Rightarrow> Field_hasPlayer f (mi_sessionId m) | _ \<Rightarrow> True)"

lemma checked_movement_present:
  "check_inputs t is f pj = Some (True, pj') \<Longrightarrow> list_all (movement_present f) is"
proof (induction "is" arbitrary: pj)
  case (Cons i "is")
  then obtain pj1 where "check_input t i f pj = Some (True, pj1)" "check_inputs t is f pj1 = Some (True, pj')"
    by (auto split: option.splits bool.splits prod.splits)
  then show ?case using Cons.IH
    by (auto simp: movement_present_def check_input_def check_movement_def split: WorldInputBody.splits if_splits)
qed simp

lemma movement_present_frame: "same_frame f f' \<Longrightarrow> movement_present f' i = movement_present f i"
  by (auto simp: movement_present_def Field_hasPlayer_def same_frame_resolve split: WorldInputBody.splits)

lemma update_inv_movement: "field_inv f \<Longrightarrow> field_inv (update_player k (Player_setPosition pos) f)"
  by (rule update_player_inv) (auto simp: Player_setPosition_def)

lemma apply_movement_ok:
  assumes "field_inv f" "Field_hasPlayer f (mi_sessionId m)"
  shows "\<exists>ok f'. apply_movement m f = Some (ok, f') \<and> field_inv f' \<and> same_frame f f' \<and> fd_fieldStatus f' = fd_fieldStatus f"
  using hasPlayer_find [OF assms] assms(1)
  by (auto simp: apply_movement_def Let_def Field_findPlayer_def update_inv_movement split: option.splits)

lemma applyCombat_ok:
  assumes "field_inv f"
  shows "\<exists>f' r. Field_applyCombat c f = Some (f', r) \<and> field_inv f' \<and> same_frame f f' \<and> fd_fieldStatus f' = fd_fieldStatus f"
proof (cases "Field_validateCombat c f")
  case (Inr u)
  then obtain m where m: "ci_power c = F_Fin False m" "m \<le> 100000 * f32_unit" using combat_power_range [of c f] by auto
  then obtain d where d: "f32_to_long (ci_power c) = Some d" using f32_to_long_range [of m] by auto
  show ?thesis
  proof (cases "Field_applyDamageToTarget (ci_targetId c) d f")
    case (Some f')
    then show ?thesis using Inr d applyDamage_inv [OF assms Some] applyDamage_frame [OF Some] by (simp add: Field_applyCombat_def)
  qed (use Inr d assms in \<open>simp add: Field_applyCombat_def\<close>)
qed (use assms in \<open>simp add: Field_applyCombat_def\<close>)

lemma ether_upd_inv: "field_inv f \<Longrightarrow> ether_ok e \<Longrightarrow> field_inv (f\<lparr>fd_fieldEther := e\<rparr>)"
  by (simp add: field_inv_def)

lemma applySpell_ok:
  assumes "field_inv f" "f32_ok (sp_power s)"
  shows "\<exists>f' r. Field_applySpell s f = Some (f', r) \<and> field_inv f' \<and> same_frame f f' \<and> fd_fieldStatus f' = fd_fieldStatus f \<and>
    (r = Inr () \<longrightarrow> Field_validateSpell s f = Inr ())"
proof (cases "Field_validateSpell s f")
  case (Inr u)
  then have val: "Field_validateSpell s f = Inr ()" by simp
  obtain m where m: "sp_power s = F_Fin False m" "0 < m" "m \<le> 100000 * f32_unit"
    using combat_power_range [OF validateSpell_combat(1) [OF val]] by auto
  obtain a where a: "attributeForElement (sp_element s) = Some a"
    using validateSpell_combat(2) [OF val] by (auto simp: isKnownElement_def)
  have ether: "ether_ok (fd_fieldEther f)" using assms(1) by (simp add: field_inv_def)
  have "m < 2 ^ 276" using m(3) by simp
  then obtain e p where e: "EnvironmentEther_resolveSpell (sp_element s) (sp_power s) (fd_fieldEther f) = (e, Inr (F_Fin False p))"
    "ether_ok e" "p \<le> 2 * m"
    using resolveSpell_known [OF ether a assms(2)] m by (auto simp: f32_le_def)
  obtain d where d: "f32_to_long (F_Fin False p) = Some d" using f32_to_long_range [of p] e(3) m(3) by auto
  let ?f = "f\<lparr>fd_fieldEther := e\<rparr>"
  have inv: "field_inv ?f" using assms(1) e(2) by (rule ether_upd_inv)
  have frame: "same_frame f ?f" by (simp add: same_frame_def)
  show ?thesis
  proof (cases "Field_applyDamageToTarget (sp_targetId s) d ?f")
    case None
    then show ?thesis using val e(1) d inv frame by (simp add: Field_applySpell_def)
  next
    case (Some f')
    then show ?thesis using val e(1) d applyDamage_inv [OF inv Some] applyDamage_frame [OF Some] same_frame_trans [OF frame]
      by (simp add: Field_applySpell_def)
  qed
qed (use assms in \<open>simp add: Field_applySpell_def\<close>)

lemma tick_upd_inv [simp]: "field_inv (f\<lparr>fd_nextAttackTick := x\<rparr>) = field_inv f" "field_inv (f\<lparr>fd_nextSpellTick := y\<rparr>) = field_inv f"
  "same_frame f (g\<lparr>fd_nextAttackTick := x\<rparr>) = same_frame f g" "same_frame f (g\<lparr>fd_nextSpellTick := y\<rparr>) = same_frame f g"
  by (simp_all add: field_inv_def same_frame_def)

lemma apply_attack_ok:
  assumes "field_inv f"
  shows "\<exists>ok f' rs. apply_attack t n c f = Some (ok, f', rs) \<and> field_inv f' \<and> same_frame f f' \<and> fd_fieldStatus f' = fd_fieldStatus f"
proof -
  obtain f' r where "Field_applyCombat c f = Some (f', r)" "field_inv f'" "same_frame f f'" "fd_fieldStatus f' = fd_fieldStatus f"
    using applyCombat_ok [OF assms, of c] by blast
  then show ?thesis by (cases r) (auto simp: apply_attack_def Let_def)
qed

lemma apply_cast_ok:
  assumes "field_inv f" "f32_ok (sp_power s)"
  shows "\<exists>ok f' rs. apply_cast t n s f = Some (ok, f', rs) \<and> field_inv f' \<and> same_frame f f' \<and> fd_fieldStatus f' = fd_fieldStatus f"
proof -
  obtain f1 r where f1: "Field_applySpell s f = Some (f1, r)" "field_inv f1" "same_frame f f1" "fd_fieldStatus f1 = fd_fieldStatus f"
    "r = Inr () \<longrightarrow> Field_validateSpell s f = Inr ()"
    using applySpell_ok [OF assms] by blast
  show ?thesis
  proof (cases r)
    case (Inr u)
    then have val: "Field_validateSpell s f = Inr ()" using f1(5) by simp
    obtain c where c: "spellMpCost (sp_power s) = Some c" using spellMpCost_defined [OF val] by blast
    obtain p where "Field_findPlayer f (sp_casterId s) = Some p"
      using validateCombat_attacker [OF validateSpell_combat(1) [OF val]] by auto
    then obtain p1 where p1: "Field_findPlayer f1 (sp_casterId s) = Some p1"
      using same_frame_find [OF f1(3), of "sp_casterId s"] by auto
    have up: "field_inv (update_player k (\<lambda>p. p\<lparr>pl_status := Status_gainMp d (pl_status p)\<rparr>) f1)" for k d
      using f1(2) by (rule update_player_inv) auto
    show ?thesis
    proof (cases c)
      case None
      then show ?thesis using Inr f1 c p1 by (auto simp: apply_cast_def Let_def)
    next
      case (Some cost)
      then show ?thesis using Inr f1 c p1 up same_frame_trans [OF f1(3) same_frame_update_player]
        by (auto simp: apply_cast_def Let_def)
    qed
  qed (use f1 in \<open>auto simp: apply_cast_def Let_def\<close>)
qed

lemma applyAction_frame [simp]: "same_frame f (Field_applyAction a f)"
  by (auto simp: Field_applyAction_def Field_gainStatus_def same_frame_def)

lemma apply_input_ok:
  assumes "field_inv f" "input_ok i" "movement_present f i"
  shows "\<exists>ok f' rs. apply_input t i f = Some (ok, f', rs) \<and> field_inv f' \<and> same_frame f f'"
proof (cases "wi_body i")
  case (MovementInput m)
  then show ?thesis using apply_movement_ok [OF assms(1), of m] assms(3) by (auto simp: apply_input_def movement_present_def)
next
  case (CombatInput c)
  then show ?thesis using apply_attack_ok [OF assms(1), of t "wi_sequence i" c] by (auto simp: apply_input_def)
next
  case (SpellInput s)
  then show ?thesis using apply_cast_ok [OF assms(1), of s t "wi_sequence i"] assms(2) by (auto simp: apply_input_def input_ok_def)
qed (use assms(1) applyAction_inv in \<open>auto simp: apply_input_def\<close>)

lemma apply_inputs_ok:
  assumes "field_inv f" "list_all input_ok is" "list_all (movement_present f) is"
  shows "\<exists>ok f' rs. apply_inputs t is f = Some (ok, f', rs) \<and> field_inv f' \<and> same_frame f f'"
  using assms
proof (induction "is" arbitrary: f)
  case (Cons i "is")
  obtain ok f1 rs where f1: "apply_input t i f = Some (ok, f1, rs)" "field_inv f1" "same_frame f f1"
    using apply_input_ok [of f i t] Cons.prems by auto
  have "list_all (movement_present f1) is" using Cons.prems(3) movement_present_frame [OF f1(3)] by (simp add: list_all_iff)
  then obtain ok' f2 rs' where f2: "apply_inputs t is f1 = Some (ok', f2, rs')" "field_inv f2" "same_frame f1 f2"
    using Cons.IH [OF f1(2)] Cons.prems(2) by auto
  show ?case using f1 f2 same_frame_trans [OF f1(3) f2(3)] by (cases ok; cases ok') auto
qed auto

text \<open>Only an action of type 0 touches the status of the field.\<close>

definition leaves_status :: "WorldInput \<Rightarrow> bool" where
  "leaves_status i = (case wi_body i of ActionInput a \<Rightarrow> ac_actionType a \<noteq> 0 | _ \<Rightarrow> True)"

lemma apply_input_status:
  assumes "field_inv f" "input_ok i" "movement_present f i" "leaves_status i" "apply_input t i f = Some (ok, f', rs)"
  shows "fd_fieldStatus f' = fd_fieldStatus f"
proof (cases "wi_body i")
  case (MovementInput m)
  then show ?thesis using apply_movement_ok [OF assms(1), of m] assms(3,5) by (auto simp: apply_input_def movement_present_def)
next
  case (CombatInput c)
  then show ?thesis using apply_attack_ok [OF assms(1), of t "wi_sequence i" c] assms(5) by (auto simp: apply_input_def)
next
  case (SpellInput s)
  then show ?thesis using apply_cast_ok [OF assms(1), of s t "wi_sequence i"] assms(2,5) by (auto simp: apply_input_def input_ok_def)
qed (use assms(4,5) in \<open>auto simp: apply_input_def leaves_status_def Field_applyAction_def\<close>)

lemma apply_inputs_status:
  assumes "field_inv f" "list_all input_ok is" "list_all (movement_present f) is" "list_all leaves_status is"
    "apply_inputs t is f = Some (ok, f', rs)"
  shows "fd_fieldStatus f' = fd_fieldStatus f"
  using assms
proof (induction "is" arbitrary: f f' ok rs)
  case (Cons i "is")
  obtain ok1 f1 rs1 where f1: "apply_input t i f = Some (ok1, f1, rs1)" "field_inv f1" "same_frame f f1"
    using apply_input_ok [of f i t] Cons.prems by auto
  have s1: "fd_fieldStatus f1 = fd_fieldStatus f" using apply_input_status [OF _ _ _ _ f1(1)] Cons.prems by simp
  have "list_all (movement_present f1) is" using Cons.prems(3) movement_present_frame [OF f1(3)] by (simp add: list_all_iff)
  then obtain ok2 f2 rs2 where f2: "apply_inputs t is f1 = Some (ok2, f2, rs2)"
    using apply_inputs_ok [OF f1(2), of "is" t] Cons.prems(2) by auto
  have "fd_fieldStatus f2 = fd_fieldStatus f1"
    using Cons.IH [OF f1(2) _ _ _ f2] \<open>list_all (movement_present f1) is\<close> Cons.prems(2,4) by simp
  then show ?case using f1(1) f2 s1 Cons.prems(5) by (cases ok1; cases ok2) auto
qed simp

lemma rollback_eq: "same_frame f f' \<Longrightarrow> rollback f f' = f\<lparr>fd_fieldStatus := fd_fieldStatus f'\<rparr>"
  by (cases f; cases f') (simp add: rollback_def same_frame_def)

lemma rollback_inv: "field_inv f \<Longrightarrow> field_inv f' \<Longrightarrow> same_frame f f' \<Longrightarrow> field_inv (rollback f f')"
  by (simp add: rollback_eq) (simp add: field_inv_def)

lemma processInputs_defined:
  assumes "field_inv f" and "list_all input_ok inputs"
  shows "\<exists>ok resolutions f'. Field_processInputs inputs worldTick f = Some (ok, resolutions, f') \<and> field_inv f'"
proof -
  obtain b pj where c: "check_inputs worldTick inputs f (projection_start f) = Some (b, pj)"
    using check_inputs_defined [OF assms(1)] by fastforce
  show ?thesis
  proof (cases b)
    case True
    obtain ok f' rs where a: "apply_inputs worldTick inputs f = Some (ok, f', rs)" "field_inv f'" "same_frame f f'"
      using apply_inputs_ok [OF assms checked_movement_present] c True by metis
    have "field_inv (f'\<lparr>fd_fieldEther := EnvironmentEther_decay (fd_fieldEther f'), fd_lastEtherHazard := h\<rparr>)" for h
      using a(2) decay_ok by (simp add: field_inv_def)
    then show ?thesis using c True a rollback_inv [OF assms(1) a(2,3)] by (cases ok) (auto simp: Field_processInputs_def Let_def)
  qed (use c assms in \<open>auto simp: Field_processInputs_def\<close>)
qed

text \<open>
  Property C1. Processing a frame of inputs is defined on every field that satisfies the invariant,
  for every sequence of inputs whose spell powers are \<open>float\<close> values: no null or end iterator is
  dereferenced and no conversion to \<open>long\<close> is out of range, and the invariant holds afterwards, whether
  the frame was applied, refused or rolled back.
\<close>

theorem processInputs_safe:
  assumes "field_inv f" and "list_all input_ok inputs"
  shows "\<exists>ok resolutions f'. Field_processInputs inputs worldTick f = Some (ok, resolutions, f') \<and> field_inv f'"
  using assms by (rule processInputs_defined)

subsection \<open>Atomicity\<close>

text \<open>
  Property C2. A frame of inputs is all or nothing, up to the status of the field: when
  \<open>processInputs\<close> returns false there are no resolutions and every player, NPC, ether value, cooldown,
  binding and queue is as before; only the field status, which the rollback forgets, may differ, and
  not even that when the frame holds no action of type 0.
\<close>

theorem refused_frame_changes_nothing:
  assumes "field_inv f" and "list_all input_ok inputs"
    and "Field_processInputs inputs worldTick f = Some (False, resolutions, f')"
  shows "resolutions = [] \<and> (\<exists>status. f' = f\<lparr>fd_fieldStatus := status\<rparr>) \<and>
    (list_all leaves_status inputs \<longrightarrow> f' = f)"
proof -
  obtain b pj where c: "check_inputs worldTick inputs f (projection_start f) = Some (b, pj)"
    using check_inputs_defined [OF assms(1)] by fastforce
  show ?thesis
  proof (cases b)
    case True
    obtain ok g rs where a: "apply_inputs worldTick inputs f = Some (ok, g, rs)" "field_inv g" "same_frame f g"
      using apply_inputs_ok [OF assms(1,2) checked_movement_present] c True by metis
    have "resolutions = []" "f' = f\<lparr>fd_fieldStatus := fd_fieldStatus g\<rparr>"
      using assms(3) c True a rollback_eq [OF a(3)] by (cases ok; simp add: Field_processInputs_def Let_def)+
    moreover have "fd_fieldStatus g = fd_fieldStatus f"
      if "list_all leaves_status inputs"
      using apply_inputs_status [OF assms(1,2) _ that] checked_movement_present c True a(1) by metis
    ultimately show ?thesis by auto
  next
    case False
    then have "resolutions = []" "f' = f" using c assms(3) by (auto simp: Field_processInputs_def)
    moreover have "f = f\<lparr>fd_fieldStatus := fd_fieldStatus f\<rparr>" by simp
    ultimately show ?thesis by metis
  qed
qed

subsection \<open>Resolutions and cooldowns\<close>

definition is_combat :: "WorldInput \<Rightarrow> bool" where
  "is_combat i = (case wi_body i of CombatInput _ \<Rightarrow> True | SpellInput _ \<Rightarrow> True | _ \<Rightarrow> False)"

lemma apply_input_resolutions:
  "apply_input t i f = Some (True, f', rs) \<Longrightarrow> map cr_inputSequence rs = (if is_combat i then [wi_sequence i] else [])"
  by (auto simp: apply_input_def is_combat_def apply_attack_def apply_cast_def Let_def default_resolution_def
      split: WorldInputBody.splits option.splits sum.splits prod.splits)

lemma apply_inputs_resolutions:
  "apply_inputs t is f = Some (True, f', rs) \<Longrightarrow> map cr_inputSequence rs = map wi_sequence (filter is_combat is)"
proof (induction "is" arbitrary: f rs)
  case (Cons i "is")
  then obtain f1 r1 r2 where "apply_input t i f = Some (True, f1, r1)" "apply_inputs t is f1 = Some (True, f', r2)" "rs = r1 @ r2"
    by (auto split: option.splits bool.splits prod.splits)
  then show ?case using Cons.IH apply_input_resolutions [of t i f f1 r1] by auto
qed simp

definition attacker_of :: "WorldInput \<Rightarrow> int option" where
  "attacker_of i = (case wi_body i of CombatInput c \<Rightarrow> Some (ci_attackerId c) | _ \<Rightarrow> None)"

definition caster_of :: "WorldInput \<Rightarrow> int option" where
  "caster_of i = (case wi_body i of SpellInput s \<Rightarrow> Some (sp_casterId s) | _ \<Rightarrow> None)"

lemma tickAfter_later: "0 < d \<Longrightarrow> tickAfter t d = Some n \<Longrightarrow> t < n"
proof -
  assume d: "0 < d" and "tickAfter t d = Some n"
  then have n: "n = t + d" "t \<le> UINT64_MAX - d" by (auto simp: tickAfter_def not_less split: if_splits)
  have "unat (UINT64_MAX - d) = 2 ^ 64 - 1 - unat d" by (subst unat_sub) (simp_all add: unsigned_minus_1_eq_mask mask_eq_exp_minus_1)
  then have "unat t + unat d < 2 ^ 64" using n(2) unsigned_less [of d, where 'a = nat] by (simp add: word_le_nat_alt)
  then have "unat (t + d) = unat t + unat d" by (simp add: unat_word_ariths)
  moreover have "0 < unat d" using d by (simp add: word_less_nat_alt)
  ultimately show "t < n" by (simp add: n(1) word_less_nat_alt)
qed

lemma check_movement_ticks:
  "check_movement m f pj = Some (b, pj1) \<Longrightarrow> pj_attackTick pj1 = pj_attackTick pj \<and> pj_spellTick pj1 = pj_spellTick pj"
  by (auto simp: check_movement_def Let_def split: if_splits option.splits prod.splits)

lemma check_spell_ticks: "check_spell t s f pj = Some (b, pj1) \<Longrightarrow> pj_attackTick pj1 = pj_attackTick pj"
  by (auto simp: check_spell_def Let_def split: if_splits option.splits sum.splits)

lemma check_combat_ticks: "check_combat t c f pj = Some (b, pj1) \<Longrightarrow> pj_spellTick pj1 = pj_spellTick pj"
  by (auto simp: check_combat_def split: if_splits option.splits sum.splits)

lemmas check_ticks = check_movement_ticks check_spell_ticks check_combat_ticks

lemma check_spell_True:
  assumes "check_spell t s f pj = Some (True, pj1)"
  obtains n where "\<not> on_cooldown (pj_spellTick pj) (sp_casterId s) t" "tickAfter t kSpellCooldownTicks = Some n"
    "pj_spellTick pj1 = map_put (sp_casterId s) n (pj_spellTick pj)"
  using assms by (auto simp: check_spell_def Let_def split: if_splits option.splits sum.splits)

lemma check_combat_True:
  assumes "check_combat t c f pj = Some (True, pj1)"
  obtains n where "\<not> on_cooldown (pj_attackTick pj) (ci_attackerId c) t" "tickAfter t kAttackCooldownTicks = Some n"
    "pj_attackTick pj1 = map_put (ci_attackerId c) n (pj_attackTick pj)"
  using assms by (auto simp: check_combat_def split: if_splits option.splits sum.splits)

text \<open>Once an actor is on cooldown at this tick, no further input of that actor passes the check.\<close>

lemma checked_attackers:
  "check_inputs t is f pj = Some (True, pj') \<Longrightarrow>
     distinct (List.map_filter attacker_of is) \<and> (\<forall>a \<in> set (List.map_filter attacker_of is). \<not> on_cooldown (pj_attackTick pj) a t)"
proof (induction "is" arbitrary: pj)
  case (Cons i "is")
  then obtain pj1 where c: "check_input t i f pj = Some (True, pj1)" "check_inputs t is f pj1 = Some (True, pj')"
    by (auto split: option.splits bool.splits prod.splits)
  note IH = Cons.IH [OF c(2)]
  show ?case
  proof (cases "attacker_of i")
    case None
    then have "pj_attackTick pj1 = pj_attackTick pj" using c(1)
      by (auto simp: attacker_of_def check_input_def dest: check_ticks split: WorldInputBody.splits)
    then show ?thesis using IH None by (simp add: map_filter_simps)
  next
    case (Some a)
    then obtain k where k: "wi_body i = CombatInput k" "ci_attackerId k = a" by (auto simp: attacker_of_def split: WorldInputBody.splits)
    then have "check_combat t k f pj = Some (True, pj1)" using c(1) by (simp add: check_input_def)
    then obtain n where n: "\<not> on_cooldown (pj_attackTick pj) a t" "tickAfter t kAttackCooldownTicks = Some n"
      "pj_attackTick pj1 = map_put a n (pj_attackTick pj)"
      using k(2) by (auto elim: check_combat_True)
    have "t < n" using tickAfter_later [OF _ n(2)] by (simp add: kAttackCooldownTicks_def)
    then have "on_cooldown (pj_attackTick pj1) a t" using n(3) by (simp add: on_cooldown_def)
    moreover have "on_cooldown (pj_attackTick pj1) b t = on_cooldown (pj_attackTick pj) b t" if "b \<noteq> a" for b
      using that n(3) by (simp add: on_cooldown_def)
    ultimately show ?thesis using IH Some n(1) by (auto simp: map_filter_simps) metis
  qed
qed (simp add: map_filter_simps)

lemma checked_casters:
  "check_inputs t is f pj = Some (True, pj') \<Longrightarrow>
     distinct (List.map_filter caster_of is) \<and> (\<forall>a \<in> set (List.map_filter caster_of is). \<not> on_cooldown (pj_spellTick pj) a t)"
proof (induction "is" arbitrary: pj)
  case (Cons i "is")
  then obtain pj1 where c: "check_input t i f pj = Some (True, pj1)" "check_inputs t is f pj1 = Some (True, pj')"
    by (auto split: option.splits bool.splits prod.splits)
  note IH = Cons.IH [OF c(2)]
  show ?case
  proof (cases "caster_of i")
    case None
    then have "pj_spellTick pj1 = pj_spellTick pj" using c(1)
      by (auto simp: caster_of_def check_input_def dest: check_ticks split: WorldInputBody.splits)
    then show ?thesis using IH None by (simp add: map_filter_simps)
  next
    case (Some a)
    then obtain k where k: "wi_body i = SpellInput k" "sp_casterId k = a" by (auto simp: caster_of_def split: WorldInputBody.splits)
    then have "check_spell t k f pj = Some (True, pj1)" using c(1) by (simp add: check_input_def)
    then obtain n where n: "\<not> on_cooldown (pj_spellTick pj) a t" "tickAfter t kSpellCooldownTicks = Some n"
      "pj_spellTick pj1 = map_put a n (pj_spellTick pj)"
      using k(2) by (auto elim: check_spell_True)
    have "t < n" using tickAfter_later [OF _ n(2)] by (simp add: kSpellCooldownTicks_def)
    then have "on_cooldown (pj_spellTick pj1) a t" using n(3) by (simp add: on_cooldown_def)
    moreover have "on_cooldown (pj_spellTick pj1) b t = on_cooldown (pj_spellTick pj) b t" if "b \<noteq> a" for b
      using that n(3) by (simp add: on_cooldown_def)
    ultimately show ?thesis using IH Some n(1) by (auto simp: map_filter_simps) metis
  qed
qed (simp add: map_filter_simps)

text \<open>
  Property C15. An applied frame gives one resolution per attack or spell, in input order, and respects
  the cooldowns: under one id at most one attack and at most one spell per frame, and none under an id
  whose cooldown has not run out at this tick.
\<close>

theorem applied_frame_resolutions:
  assumes "Field_processInputs inputs worldTick f = Some (True, resolutions, f')"
  shows "map cr_inputSequence resolutions = map wi_sequence (filter is_combat inputs) \<and>
    distinct (List.map_filter attacker_of inputs) \<and> distinct (List.map_filter caster_of inputs) \<and>
    list_all (\<lambda>a. \<not> on_cooldown (fd_nextAttackTick f) a worldTick) (List.map_filter attacker_of inputs) \<and>
    list_all (\<lambda>a. \<not> on_cooldown (fd_nextSpellTick f) a worldTick) (List.map_filter caster_of inputs)"
proof -
  obtain pj g where c: "check_inputs worldTick inputs f (projection_start f) = Some (True, pj)"
    "apply_inputs worldTick inputs f = Some (True, g, resolutions)"
    using assms by (auto simp: Field_processInputs_def Let_def split: option.splits bool.splits prod.splits)
  then show ?thesis using apply_inputs_resolutions [OF c(2)] checked_attackers [OF c(1)] checked_casters [OF c(1)]
    by (auto simp: projection_start_def list_all_iff)
qed

subsection \<open>Attacks without damage\<close>

lemma damage_zero_fails: "Field_applyDamageToTarget t 0 f = None"
  by (auto simp: Field_applyDamageToTarget_def Npc_applyDamage_def split: option.splits)

definition weak_attack :: "WorldInput \<Rightarrow> bool" where
  "weak_attack i = (case wi_body i of CombatInput c \<Rightarrow> f32_to_long (ci_power c) = Some 0 | _ \<Rightarrow> False)"

lemma weak_attack_fails: "weak_attack i \<Longrightarrow> apply_input t i f \<noteq> Some (True, f', rs)"
  by (auto simp: weak_attack_def apply_input_def apply_attack_def Field_applyCombat_def damage_zero_fails Let_def
      split: WorldInputBody.splits sum.splits)

lemma weak_attack_sinks: "list_ex weak_attack is \<Longrightarrow> apply_inputs t is f \<noteq> Some (True, f', rs)"
proof (induction "is" arbitrary: f rs)
  case (Cons i "is")
  show ?case
  proof
    assume "apply_inputs t (i # is) f = Some (True, f', rs)"
    then obtain f1 r1 r2 where "apply_input t i f = Some (True, f1, r1)" "apply_inputs t is f1 = Some (True, f', r2)"
      by (auto split: option.splits bool.splits prod.splits)
    then show False using Cons weak_attack_fails by (cases "weak_attack i") auto
  qed
qed simp

text \<open>
  One attack with a power below one sinks the frame of every player: the checks accept any
  positive power, the damage is truncated to 0, applying it fails, and the frame as a whole is refused,
  whatever the other inputs are.
\<close>

theorem weak_attack_refuses_frame:
  assumes "field_inv f" and "list_all input_ok inputs" and "list_ex weak_attack inputs"
  shows "\<exists>f'. Field_processInputs inputs worldTick f = Some (False, [], f')"
proof -
  obtain ok rs f' where p: "Field_processInputs inputs worldTick f = Some (ok, rs, f')"
    using processInputs_defined [OF assms(1,2)] by blast
  then have "\<not> ok"
    using weak_attack_sinks [OF assms(3), of worldTick f]
    by (auto simp: Field_processInputs_def Let_def split: option.splits bool.splits prod.splits)
  then show ?thesis using p by (auto simp: Field_processInputs_def Let_def split: option.splits bool.splits prod.splits)
qed

subsection \<open>Reachable fields\<close>

inductive field_reachable :: "Field \<Rightarrow> bool" where
  init: "field_reachable Field_init"
| putPlayer: "field_reachable f \<Longrightarrow> status_ok (pl_status p) \<Longrightarrow> field_reachable (snd (Field_putPlayer p f))"
| unsetPlayer: "field_reachable f \<Longrightarrow> field_reachable (snd (Field_unsetPlayer p f))"
| putNpc: "field_reachable f \<Longrightarrow> npc_ok n \<Longrightarrow> field_reachable (snd (Field_putNpc n f))"
| unsetNpc: "field_reachable f \<Longrightarrow> field_reachable (snd (Field_unsetNpc n f))"
| schedule: "field_reachable f \<Longrightarrow> status_ok st \<Longrightarrow> field_reachable (snd (Field_scheduleNpcRespawn i t st pos f))"
| queueMovement: "field_reachable f \<Longrightarrow> field_reachable (snd (Field_queueMovement i dx dy dz f))"
| queueNpcMovement: "field_reachable f \<Longrightarrow> field_reachable (snd (Field_queueNpcMovement i dx dy dz f))"
| putPosition: "field_reachable f \<Longrightarrow> field_reachable (Field_putPositionQueue pos f)"
| putAction: "field_reachable f \<Longrightarrow> field_reachable (Field_putActionQueue a f)"
| bind: "field_reachable f \<Longrightarrow> field_reachable (snd (Field_bindSession s g f))"
| unbind: "field_reachable f \<Longrightarrow> field_reachable (snd (Field_unbindSession s f))"
| allocate: "field_reachable f \<Longrightarrow> field_reachable (snd (Field_allocateGameplayId f))"
| gain: "field_reachable f \<Longrightarrow> field_reachable (Field_gainStatus st f)"
| frame: "field_reachable f \<Longrightarrow> field_reachable (Field_processFrame t f)"
| inputs: "field_reachable f \<Longrightarrow> list_all input_ok is \<Longrightarrow> Field_processInputs is t f = Some (ok, rs, f') \<Longrightarrow> field_reachable f'"

lemma field_reachable_inv:
  assumes "field_reachable f"
  shows "field_inv f"
  using assms
proof induction
  case (allocate f)
  obtain i f' where a: "Field_allocateGameplayId f = (i, f')" by force
  then obtain c where c: "allocate_loop f (fd_nextGameplayId f) = (i, c)" "f' = f\<lparr>fd_nextGameplayId := c\<rparr>"
    by (auto simp: Field_allocateGameplayId_def split: prod.splits)
  have "1 \<le> fd_nextGameplayId f" "fd_nextGameplayId f \<le> INT64_MAX" using allocate.IH by (auto simp: field_inv_def)
  then have "1 \<le> c" "c \<le> INT64_MAX" using allocate_loop_spec [OF c(1)] by auto
  then show ?case using a c(2) allocate.IH by (simp add: field_inv_def)
next
  case (inputs f "is" t ok rs f')
  then show ?case using processInputs_defined [of f "is" t] by auto
qed (auto intro: field_inv_init putPlayer_inv unsetPlayer_inv putNpc_inv unsetNpc_inv scheduleNpcRespawn_inv queue_ops_inv
    bindSession_inv unbindSession_inv gainStatus_inv processFrame_inv)

text \<open>
  Property C3. Every reachable field satisfies the invariant: players and NPCs have distinct positive
  ids that match their keys, the session and player bindings are each other's inverse and point to
  players in the field, hit and magic points stay in the range of \<open>long\<close>, a live NPC has hit points,
  and every ether value is finite and within its limit.
\<close>

theorem reachable_field_inv:
  assumes "field_reachable f"
  shows "field_inv f"
  using assms by (rule field_reachable_inv)

subsection \<open>Examples\<close>

definition at_origin :: "int \<Rightarrow> Player" where
  "at_origin i = Player_new i (Status_new 10 10) (Position_new i f32_zero f32_zero f32_zero)"

definition two_players :: Field where
  "two_players = snd (Field_putPlayer (at_origin 2) (snd (Field_putPlayer (at_origin 1) Field_init)))"

lemma two_players_reachable: "field_reachable two_players"
proof -
  have "status_ok (pl_status (at_origin i))" for i by (simp add: at_origin_def Player_new_def)
  then show ?thesis unfolding two_players_def by (intro field_reachable.intros)
qed

lemma two_players_lists: "fd_playerList two_players = [(1, at_origin 1), (2, at_origin 2)]" "fd_npcList two_players = []"
  "fd_sessionToPlayerId two_players = []" "fd_nextAttackTick two_players = []" "fd_fieldStatus two_players = Status_default"
  by (simp_all add: two_players_def Field_putPlayer_def Field_init_def Field_findNpc_def at_origin_def Player_new_def)

text \<open>An attack of player 1 on player 2 with power one half.\<close>

definition half_power :: f32 where "half_power = F_Fin False (2 ^ 148)"

definition feeble :: WorldInput where
  "feeble = \<lparr>wi_sequence = 2, wi_body = CombatInput \<lparr>ci_attackerId = 1, ci_targetId = 2, ci_power = half_power, ci_requestId = []\<rparr>\<rparr>"

definition blessing :: WorldInput where
  "blessing = \<lparr>wi_sequence = 1, wi_body = ActionInput (Action_new 0 None None (Status_new 5 0))\<rparr>"

lemma feeble_weak: "weak_attack feeble"
  by (simp add: weak_attack_def feeble_def half_power_def is_int64_def)

theorem weak_attack_refuses_frame_witness:
  "\<exists>f'. Field_processInputs [feeble] 1 two_players = Some (False, [], f')"
  using weak_attack_refuses_frame [OF field_reachable_inv [OF two_players_reachable], of "[feeble]"] feeble_weak
  by (simp add: input_ok_def feeble_def)

lemma two_players_validate:
  assumes "f32_isfinite pwr" "\<not> f32_le pwr f32_zero" "\<not> f32_lt (F_Fin False (100000 * f32_unit)) pwr"
  shows "Field_validateCombat \<lparr>ci_attackerId = 1, ci_targetId = 2, ci_power = pwr, ci_requestId = r\<rparr> two_players = Inr ()"
proof -
  have find: "Field_findPlayer two_players i = Some (at_origin i)" if "i = 1 \<or> i = 2" for i
    using that by (auto simp: Field_findPlayer_def Field_resolvePlayerId_def two_players_lists)
  have hp: "st_hp (pl_status (at_origin i)) = 10" "pl_position (at_origin i) = Position_new i f32_zero f32_zero f32_zero" for i
    by (simp_all add: at_origin_def Player_new_def Status_new_def Position_new_def Position_copy_def)
  have n: "norm2 (f32_sub f32_zero f32_zero) (f32_sub f32_zero f32_zero) (f32_sub f32_zero f32_zero) = f32_zero"
    by (simp add: norm2_def f32_sub_def f32_pack_def round_mag_def round_even_def Let_def)
  have lit: "f32_lit 10000 (Suc 0) = F_Fin False (10000 * f32_unit)" "f32_lit 100000 (Suc 0) = F_Fin False (100000 * f32_unit)"
    using f32_lit_nat [of 10000] f32_lit_nat [of 100000] by simp_all
  show ?thesis
    using assms
    by (simp add: Field_validateCombat_def find Field_findTargetPosition_def Field_targetIsAlive_def hp Position_new_def n lit Let_def)
qed

definition strike :: WorldInput where
  "strike = \<lparr>wi_sequence = 2, wi_body = CombatInput \<lparr>ci_attackerId = 1, ci_targetId = 2, ci_power = F_Fin False (3 * f32_unit), ci_requestId = []\<rparr>\<rparr>"

lemma attack_check:
  assumes "Field_validateCombat c two_players = Inr ()"
  shows "\<exists>pj'. check_combat 1 c two_players (projection_start two_players) = Some (True, pj')"
  using assms by (simp add: check_combat_def tickAfter_def kAttackCooldownTicks_def on_cooldown_def projection_start_def two_players_lists)

lemma strike_applied: "\<exists>rs f'. Field_processInputs [strike] 1 two_players = Some (True, rs, f')"
proof -
  let ?c = "\<lparr>ci_attackerId = 1, ci_targetId = 2, ci_power = F_Fin False (3 * f32_unit), ci_requestId = []\<rparr>"
  have v: "Field_validateCombat ?c two_players = Inr ()" by (rule two_players_validate) (simp_all add: f32_le_def)
  obtain pj where pj: "check_combat 1 ?c two_players (projection_start two_players) = Some (True, pj)" using attack_check [OF v] by blast
  have "\<exists>f'. Field_applyDamageToTarget 2 3 two_players = Some f'"
    by (simp add: Field_applyDamageToTarget_def Field_findPlayer_def Field_resolvePlayerId_def two_players_lists at_origin_def
        Player_new_def Status_new_def)
  then obtain f' where "Field_applyCombat ?c two_players = Some (f', Inr ())" using v by (auto simp: Field_applyCombat_def is_int64_def)
  then show ?thesis using pj
    by (simp add: Field_processInputs_def strike_def check_input_def apply_input_def apply_attack_def Let_def)
qed

theorem applied_frame_resolutions_witness:
  "\<exists>rs f'. Field_processInputs [strike] 1 two_players = Some (True, rs, f') \<and> map cr_inputSequence rs = [2]"
proof -
  obtain rs f' where p: "Field_processInputs [strike] 1 two_players = Some (True, rs, f')" using strike_applied by blast
  have "filter is_combat [strike] = [strike]" "wi_sequence strike = 2" by (simp_all add: is_combat_def strike_def)
  then show ?thesis using applied_frame_resolutions [OF p] p by simp
qed

theorem processInputs_safe_witness:
  "\<exists>ok rs f'. Field_processInputs [strike, feeble] 1 two_players = Some (ok, rs, f') \<and> field_inv f'"
  by (rule processInputs_safe [OF field_reachable_inv [OF two_players_reachable]]) (simp add: input_ok_def strike_def feeble_def)

theorem reachable_field_inv_witness: "field_inv two_players"
  by (rule reachable_field_inv [OF two_players_reachable])

theorem refused_frame_changes_nothing_witness:
  "\<exists>rs. Field_processInputs [feeble] 1 two_players = Some (False, rs, two_players)"
proof -
  have inv: "field_inv two_players" by (rule field_reachable_inv [OF two_players_reachable])
  have ok: "list_all input_ok [feeble]" by (simp add: input_ok_def feeble_def)
  obtain a rs f' where p: "Field_processInputs [feeble] 1 two_players = Some (a, rs, f')" using processInputs_defined [OF inv ok] by blast
  have "\<not> a" using p weak_attack_sinks [of "[feeble]" 1 two_players] feeble_weak
    by (auto simp: Field_processInputs_def Let_def split: option.splits bool.splits prod.splits)
  then have p': "Field_processInputs [feeble] 1 two_players = Some (False, rs, f')" using p by simp
  have "list_all leaves_status [feeble]" by (simp add: leaves_status_def feeble_def)
  then show ?thesis using refused_frame_changes_nothing [OF inv ok p'] p' by auto
qed

subsection \<open>What the rollback forgets\<close>

text \<open>
  The rollback is not complete: there is a reachable field and a frame that is refused and
  yet changes the status of the field, because \<open>processInputs\<close> saves and restores every member an input
  can change except \<open>fieldStatus\<close>.
\<close>

theorem rollback_forgets_field_status:
  "\<exists>f inputs f'. field_reachable f \<and> list_all input_ok inputs \<and>
     Field_processInputs inputs 1 f = Some (False, [], f') \<and> fd_fieldStatus f' \<noteq> fd_fieldStatus f"
proof -
  let ?c = "\<lparr>ci_attackerId = 1, ci_targetId = 2, ci_power = half_power, ci_requestId = []\<rparr>"
  let ?a = "Action_new 0 None None (Status_new 5 0)"
  let ?f = "Field_applyAction ?a two_players"
  have v: "Field_validateCombat ?c two_players = Inr ()"
    by (rule two_players_validate) (simp_all add: half_power_def f32_le_def)
  obtain pj where pj: "check_combat 1 ?c two_players (projection_start two_players) = Some (True, pj)" using attack_check [OF v] by blast
  have check: "check_inputs 1 [blessing, feeble] two_players (projection_start two_players) = Some (True, pj)"
    using pj by (simp add: blessing_def feeble_def check_input_def Action_new_def)
  have fail: "apply_input 1 feeble g \<noteq> Some (True, f', rs)" for g f' rs using weak_attack_fails [OF feeble_weak] by blast
  have inv: "field_inv ?f" using applyAction_inv field_reachable_inv [OF two_players_reachable] by blast
  obtain ok f' rs where a: "apply_input 1 feeble ?f = Some (ok, f', rs)" "fd_fieldStatus f' = fd_fieldStatus ?f"
    using apply_attack_ok [OF inv, of 1 2 ?c] by (auto simp: apply_input_def feeble_def)
  then have "\<not> ok" using fail [of ?f f' rs] by (cases ok) auto
  moreover have "apply_input 1 blessing two_players = Some (True, ?f, [])" by (simp add: apply_input_def blessing_def)
  ultimately have "apply_inputs 1 [blessing, feeble] two_players = Some (False, f', [])" using a by simp
  then have "Field_processInputs [blessing, feeble] 1 two_players = Some (False, [], rollback two_players f')"
    using check by (simp add: Field_processInputs_def)
  moreover have "fd_fieldStatus (rollback two_players f') \<noteq> fd_fieldStatus two_players"
    using a(2) by (simp add: rollback_def Field_applyAction_def Action_new_def Field_gainStatus_def two_players_lists gain_status_def
        Status_gainHp_def Status_gainMp_def Status_new_def Status_default_def gain_long_def)
  moreover have "list_all input_ok [blessing, feeble]" by (simp add: input_ok_def blessing_def feeble_def)
  ultimately show ?thesis using two_players_reachable by blast
qed

subsection \<open>Sessions and gameplay ids share one number space\<close>


end
