(* ===== verification/Presence.thy ===== *)
theory Presence
  imports Field_Inputs Sessions
begin

text \<open>
  \<open>FieldSessionPresence.cpp\<close>, with \<open>LoginFieldSpawnSettings.h\<close> and
  \<open>InMemoryAuthenticatedPlayerIdStub.cpp\<close>: how an authenticated session gets a player in the field and
  gives it up again. The file-level variables of the source and the field singleton are one record.
  \<open>presence_inv\<close> says that an account has one player and that display names are unique.
\<close>

subsection \<open>Spawn settings\<close>

record LoginFieldSpawnSettings =
  ls_x :: f32
  ls_y :: f32
  ls_z :: f32
  ls_hp :: int
  ls_mp :: int
  ls_maxHp :: int
  ls_maxMp :: int
  ls_playerName :: string

definition LoginFieldSpawnSettings_default :: LoginFieldSpawnSettings where
  "LoginFieldSpawnSettings_default = \<lparr>ls_x = f32_zero, ls_y = f32_zero, ls_z = f32_zero, ls_hp = 10, ls_mp = 10,
     ls_maxHp = 1024, ls_maxMp = 1024, ls_playerName = []\<rparr>"

definition LoginFieldSpawnSettings_new :: "f32 \<Rightarrow> f32 \<Rightarrow> f32 \<Rightarrow> int \<Rightarrow> int \<Rightarrow> int \<Rightarrow> int \<Rightarrow> LoginFieldSpawnSettings" where
  "LoginFieldSpawnSettings_new x y z hp mp maxHp maxMp = \<lparr>ls_x = x, ls_y = y, ls_z = z, ls_hp = hp, ls_mp = mp,
     ls_maxHp = maxHp, ls_maxMp = maxMp, ls_playerName = []\<rparr>"

definition clampSpawnResource :: "int \<Rightarrow> int \<Rightarrow> int" where
  "clampSpawnResource value maxValue =
     (let floored = (if value < 0 then 0 else value); cap = (if maxValue < 0 then 0 else maxValue) in
      if floored > cap then cap else floored)"

definition clampedHp :: "LoginFieldSpawnSettings \<Rightarrow> int" where
  "clampedHp settings = clampSpawnResource (ls_hp settings) (ls_maxHp settings)"

definition clampedMp :: "LoginFieldSpawnSettings \<Rightarrow> int" where
  "clampedMp settings = clampSpawnResource (ls_mp settings) (ls_maxMp settings)"

subsection \<open>The account id of a session\<close>

record PlayerIdStub =
  stub_byClaimedId :: "(string, int) std_map"
  stub_nextPlayerId :: int

definition PlayerIdStub_init :: PlayerIdStub where
  "PlayerIdStub_init = \<lparr>stub_byClaimedId = [], stub_nextPlayerId = 1000001\<rparr>"

definition PlayerIdStub_resolvePlayerId :: "string \<Rightarrow> PlayerIdStub \<Rightarrow> int \<times> PlayerIdStub" where
  "PlayerIdStub_resolvePlayerId claimedId stub =
     (if claimedId \<noteq> [] then
        (case map_of (stub_byClaimedId stub) claimedId of
           Some playerId \<Rightarrow> (playerId, stub)
         | None \<Rightarrow> (stub_nextPlayerId stub,
             stub\<lparr>stub_nextPlayerId := stub_nextPlayerId stub + 1,
                  stub_byClaimedId := map_put claimedId (stub_nextPlayerId stub) (stub_byClaimedId stub)\<rparr>))
      else (stub_nextPlayerId stub, stub\<lparr>stub_nextPlayerId := stub_nextPlayerId stub + 1\<rparr>))"

text \<open>
  \<open>pr_playerIdPort\<close> is the port an embedding program supplies: a function of session id and claimed
  id, \<open>None\<close> when it refuses. Without one the stub answers.
\<close>

record Presence =
  pr_field :: Field
  pr_playerIdPort :: "(int \<Rightarrow> string \<Rightarrow> int option) option"
  pr_spawnSettings :: LoginFieldSpawnSettings
  pr_stub :: PlayerIdStub
  pr_operatorNames :: "(int, string) std_map"

definition Presence_init :: Presence where
  "Presence_init = \<lparr>pr_field = Field_init, pr_playerIdPort = None, pr_spawnSettings = LoginFieldSpawnSettings_default,
     pr_stub = PlayerIdStub_init, pr_operatorNames = []\<rparr>"

definition activePort_resolve :: "int \<Rightarrow> string \<Rightarrow> Presence \<Rightarrow> int option \<times> Presence" where
  "activePort_resolve sessionId claimedId ps =
     (case pr_playerIdPort ps of
        Some port \<Rightarrow> (port sessionId claimedId, ps)
      | None \<Rightarrow> (case PlayerIdStub_resolvePlayerId claimedId (pr_stub ps) of (i, stub) \<Rightarrow> (Some i, ps\<lparr>pr_stub := stub\<rparr>)))"

definition usePlayerIdPort :: "(int \<Rightarrow> string \<Rightarrow> int option) option \<Rightarrow> Presence \<Rightarrow> Presence" where
  "usePlayerIdPort port ps =
     ps\<lparr>pr_playerIdPort := port, pr_operatorNames := (if port = None then [] else pr_operatorNames ps)\<rparr>"

definition useSpawnSettings :: "LoginFieldSpawnSettings \<Rightarrow> Presence \<Rightarrow> Presence" where
  "useSpawnSettings settings ps = ps\<lparr>pr_spawnSettings := settings\<rparr>"

subsection \<open>Names\<close>

definition nameClaimedByOtherAuth :: "string \<Rightarrow> int \<Rightarrow> Presence \<Rightarrow> bool" where
  "nameClaimedByOtherAuth trimmedName authPlayerId ps =
     list_ex (\<lambda>(k, v). k \<noteq> authPlayerId \<and> v = trimmedName) (pr_operatorNames ps)"

definition nameTakenOnFieldByOther :: "Field \<Rightarrow> string \<Rightarrow> Player option \<Rightarrow> bool" where
  "nameTakenOnFieldByOther f trimmedName existing =
     (case existing of
        Some p \<Rightarrow> if Player_getPlayerName p = trimmedName then False else Field_hasPlayerName f trimmedName
      | None \<Rightarrow> Field_hasPlayerName f trimmedName)"

subsection \<open>Arriving and leaving\<close>

definition display_name :: "int \<Rightarrow> LoginFieldSpawnSettings \<Rightarrow> Presence \<Rightarrow> string" where
  "display_name authPlayerId settings ps =
     (case map_of (pr_operatorNames ps) authPlayerId of
        Some assigned \<Rightarrow> assigned | None \<Rightarrow> trimPlayerName (ls_playerName settings))"

text \<open>The part of \<open>placeAfterLogin\<close> that creates a player.\<close>

definition spawn_player :: "int \<Rightarrow> int \<Rightarrow> LoginFieldSpawnSettings \<Rightarrow> Presence \<Rightarrow> bool \<times> Presence" where
  "spawn_player sessionId authPlayerId settings ps =
     (let displayName = display_name authPlayerId settings ps in
      if displayName = [] \<or> nameClaimedByOtherAuth displayName authPlayerId ps \<or>
         Field_hasPlayerName (pr_field ps) displayName
      then (False, ps)
      else case Field_allocateGameplayId (pr_field ps) of (gameplayId, f1) \<Rightarrow>
        let ps1 = ps\<lparr>pr_field := f1\<rparr> in
        if gameplayId \<le> 0 then (False, ps1)
        else
          let status = Status_new (clampedHp settings) (clampedMp settings);
              pose = Position_new gameplayId (ls_x settings) (ls_y settings) (ls_z settings);
              player = Player_setAuthPlayerId authPlayerId (Player_new gameplayId status pose) in
          (case Player_setPlayerName displayName player of
             None \<Rightarrow> (False, ps1)
           | Some named \<Rightarrow>
               (case Field_putPlayer named f1 of
                  (False, f2) \<Rightarrow> (False, ps1\<lparr>pr_field := f2\<rparr>)
                | (True, f2) \<Rightarrow>
                    (case Field_bindSession sessionId gameplayId f2 of (ok, f3) \<Rightarrow>
                       (ok, ps1\<lparr>pr_field := f3,
                                pr_operatorNames := map_put authPlayerId displayName (pr_operatorNames ps1)\<rparr>)))))"

definition placeAfterLogin_with :: "int \<Rightarrow> string \<Rightarrow> LoginFieldSpawnSettings \<Rightarrow> Presence \<Rightarrow> bool \<times> Presence" where
  "placeAfterLogin_with sessionId claimedId settings ps =
     (if sessionId \<le> 0 then (False, ps)
      else case activePort_resolve sessionId claimedId ps of
        (None, ps1) \<Rightarrow> (False, ps1)
      | (Some authPlayerId, ps1) \<Rightarrow>
          if authPlayerId \<le> 0 then (False, ps1)
          else (case Field_findPlayerByAuthId (pr_field ps1) authPlayerId of
              Some existing \<Rightarrow>
                (case Field_bindSession sessionId (pl_id existing) (pr_field ps1) of (ok, f) \<Rightarrow> (ok, ps1\<lparr>pr_field := f\<rparr>))
            | None \<Rightarrow> spawn_player sessionId authPlayerId settings ps1))"

definition placeAfterLogin :: "int \<Rightarrow> string \<Rightarrow> Presence \<Rightarrow> bool \<times> Presence" where
  "placeAfterLogin sessionId claimedId ps = placeAfterLogin_with sessionId claimedId (pr_spawnSettings ps) ps"

definition operatorSetPlayerName :: "int \<Rightarrow> string \<Rightarrow> Presence \<Rightarrow> bool \<times> Presence" where
  "operatorSetPlayerName authPlayerId displayName ps =
     (if authPlayerId \<le> 0 then (False, ps)
      else let trimmedName = trimPlayerName displayName in
        if Player_setPlayerName trimmedName Player_default = None then (False, ps)
        else if nameClaimedByOtherAuth trimmedName authPlayerId ps then (False, ps)
        else let existing = Field_findPlayerByAuthId (pr_field ps) authPlayerId in
          if nameTakenOnFieldByOther (pr_field ps) trimmedName existing then (False, ps)
          else if (case existing of None \<Rightarrow> False | Some p \<Rightarrow> Player_setPlayerName trimmedName p = None) then (False, ps)
          else let f1 = (case existing of
                           None \<Rightarrow> pr_field ps
                         | Some p \<Rightarrow> update_player (pl_id p)
                             (\<lambda>q. case Player_setPlayerName trimmedName q of None \<Rightarrow> q | Some q' \<Rightarrow> q') (pr_field ps)) in
            (True, ps\<lparr>pr_field := f1, pr_operatorNames := map_put authPlayerId trimmedName (pr_operatorNames ps)\<rparr>))"

definition playerSetPlayerName :: "int \<Rightarrow> string \<Rightarrow> Presence \<Rightarrow> bool \<times> Presence" where
  "playerSetPlayerName sessionId displayName ps = (False, ps)"

definition removeAfterLogout :: "int \<Rightarrow> Presence \<Rightarrow> bool \<times> Presence" where
  "removeAfterLogout sessionId ps =
     (if sessionId \<le> 0 then (False, ps)
      else case Field_unbindSession sessionId (pr_field ps) of (ok, f) \<Rightarrow> (ok, ps\<lparr>pr_field := f\<rparr>))"

definition releaseAfterStop :: "int \<Rightarrow> Presence \<Rightarrow> bool \<times> Presence" where
  "releaseAfterStop sessionId ps =
     (if sessionId \<le> 0 then (False, ps)
      else let gameplayId = Field_playerIdForSession (pr_field ps) sessionId;
               f1 = snd (Field_unbindSession sessionId (pr_field ps)) in
        if gameplayId \<le> 0 then (True, ps\<lparr>pr_field := f1\<rparr>)
        else case Field_unsetPlayer (Player_new gameplayId Status_default (Position_new gameplayId f32_zero f32_zero f32_zero)) f1 of
          (ok, f2) \<Rightarrow> (ok, ps\<lparr>pr_field := f2\<rparr>))"

subsection \<open>Accounts and names in the field\<close>

text \<open>The account id and the display name of each player.\<close>

definition people :: "Field \<Rightarrow> int \<Rightarrow> (int \<times> string) option" where
  "people f i = map_option (\<lambda>p. (pl_authPlayerId p, Player_getPlayerName p)) (map_of (fd_playerList f) i)"

lemma people_Some: "people f i = Some (a, n) \<longleftrightarrow>
    (\<exists>p. map_of (fd_playerList f) i = Some p \<and> pl_authPlayerId p = a \<and> Player_getPlayerName p = n)"
  by (auto simp: people_def)

lemma people_eqI: "fd_playerList f' = fd_playerList f \<Longrightarrow> people f' = people f"
  by (simp add: people_def fun_eq_iff)

lemma people_update_player:
  assumes "\<And>p. pl_authPlayerId (g p) = pl_authPlayerId p" "\<And>p. pl_name (g p) = pl_name p"
  shows "people (update_player k g f) = people f"
  using assms by (auto simp: people_def fun_eq_iff map_of_update_player Player_getPlayerName_def option.map_comp comp_def)

lemma people_ops [simp]:
  "people (f\<lparr>fd_npcList := a\<rparr>) = people f" "people (f\<lparr>fd_positionQueue := b\<rparr>) = people f"
  "people (f\<lparr>fd_actionQueue := c\<rparr>) = people f" "people (f\<lparr>fd_npcRespawns := d\<rparr>) = people f"
  "people (f\<lparr>fd_fieldEther := e\<rparr>) = people f" "people (f\<lparr>fd_nextAttackTick := t\<rparr>) = people f"
  "people (f\<lparr>fd_nextSpellTick := t\<rparr>) = people f" "people (f\<lparr>fd_lastEtherHazard := h\<rparr>) = people f"
  "people (f\<lparr>fd_fieldStatus := st\<rparr>) = people f" "people (f\<lparr>fd_nextGameplayId := n\<rparr>) = people f"
  by (simp_all add: people_def fun_eq_iff)

lemma people_applyAction [simp]: "people (Field_applyAction a f) = people f"
  by (simp add: Field_applyAction_def Field_gainStatus_def people_update_player)

lemma people_apply_position [simp]: "people (apply_position pos f) = people f"
  by (auto simp: apply_position_def people_update_player Player_setPosition_def split: option.splits)

lemma people_apply_respawn [simp]: "people (apply_respawn t e f) = people f"
  by (auto simp: apply_respawn_def Let_def split: prod.splits option.splits)

lemma people_fold: "(\<And>x f. people (g x f) = people f) \<Longrightarrow> people (fold g xs f) = people f"
  by (induction xs arbitrary: f) auto

lemma people_processFrame [simp]: "people (Field_processFrame t f) = people f"
  by (simp add: Field_processFrame_def Let_def people_fold)

lemma people_applyDamage: "Field_applyDamageToTarget t d f = Some f' \<Longrightarrow> people f' = people f"
  by (auto simp: Field_applyDamageToTarget_def people_update_player split: option.splits if_splits)

lemma people_applyCombat: "Field_applyCombat c f = Some (f', r) \<Longrightarrow> people f' = people f"
  by (auto simp: Field_applyCombat_def people_applyDamage split: sum.splits option.splits)

lemma people_applySpell:
  assumes "Field_applySpell s f = Some (f', r)"
  shows "people f' = people f"
  using assms people_applyDamage [of _ _ "f\<lparr>fd_fieldEther := _\<rparr>"]
  by (auto simp: Field_applySpell_def split: sum.splits option.splits prod.splits)

lemma people_apply_cast: "apply_cast t n s f = Some (ok, f', rs) \<Longrightarrow> people f' = people f"
  by (auto simp: apply_cast_def Let_def people_update_player dest!: people_applySpell split: sum.splits option.splits)

lemma people_apply_attack: "apply_attack t n c f = Some (ok, f', rs) \<Longrightarrow> people f' = people f"
  by (auto simp: apply_attack_def Let_def dest!: people_applyCombat split: sum.splits option.splits)

lemma people_apply_movement: "apply_movement m f = Some (ok, f') \<Longrightarrow> people f' = people f"
  by (auto simp: apply_movement_def Let_def people_update_player Player_setPosition_def split: option.splits)

lemma people_apply_input: "apply_input t i f = Some (ok, f', rs) \<Longrightarrow> people f' = people f"
  by (auto simp: apply_input_def people_apply_movement people_apply_attack people_apply_cast split: WorldInputBody.splits)

lemma people_apply_inputs: "apply_inputs t is f = Some (ok, f', rs) \<Longrightarrow> people f' = people f"
proof (induction "is" arbitrary: f ok f' rs)
  case (Cons i "is")
  then show ?case by (auto dest!: people_apply_input split: option.splits prod.splits bool.splits)
qed simp

lemma people_processInputs: "Field_processInputs is t f = Some (ok, rs, f') \<Longrightarrow> people f' = people f"
  by (auto simp: Field_processInputs_def Let_def rollback_def people_def dest!: people_apply_inputs
      split: option.splits bool.splits prod.splits)

lemma playerList_unbind [simp]: "fd_playerList (snd (Field_unbindSession s f)) = fd_playerList f"
  by (auto simp: Field_unbindSession_def split: option.splits)

lemma playerList_forget [simp]: "fd_playerList (Field_forgetBindingsForPlayer g f) = fd_playerList f"
  by (auto simp: Field_forgetBindingsForPlayer_def split: option.splits)

lemma playerList_bind [simp]: "fd_playerList (snd (Field_bindSession s g f)) = fd_playerList f"
  by (auto simp: Field_bindSession_def Let_def)

lemma bind_succeeds: "0 < s \<Longrightarrow> 0 < g \<Longrightarrow> map_of (fd_playerList f) g \<noteq> None \<Longrightarrow> fst (Field_bindSession s g f)"
  by (simp add: Field_bindSession_def Let_def)

lemma bind_binds: "fst (Field_bindSession s g f) \<Longrightarrow> map_of (fd_sessionToPlayerId (snd (Field_bindSession s g f))) s = Some g"
  by (auto simp: Field_bindSession_def Let_def split: if_splits)

subsection \<open>One player per account, one holder per name\<close>

definition people_ok :: "Field \<Rightarrow> bool" where
  "people_ok f \<longleftrightarrow> (\<forall>i a n. people f i = Some (a, n) \<longrightarrow> 0 < a \<and> n \<noteq> []) \<and>
     (\<forall>i j a n b m. people f i = Some (a, n) \<longrightarrow> people f j = Some (b, m) \<longrightarrow> i \<noteq> j \<longrightarrow> a \<noteq> b \<and> n \<noteq> m)"

definition names_ok :: "(int, string) std_map \<Rightarrow> bool" where
  "names_ok names \<longleftrightarrow> map_wf names \<and> (\<forall>a n. map_of names a = Some n \<longrightarrow> trimPlayerName n = n \<and> NUL \<notin> set n) \<and>
     (\<forall>a b n. map_of names a = Some n \<longrightarrow> map_of names b = Some n \<longrightarrow> a = b)"

definition spawn_ok :: "LoginFieldSpawnSettings \<Rightarrow> bool" where
  "spawn_ok settings \<longleftrightarrow> NUL \<notin> set (ls_playerName settings) \<and> ls_hp settings \<le> INT64_MAX \<and> ls_mp settings \<le> INT64_MAX"

definition presence_inv :: "Presence \<Rightarrow> bool" where
  "presence_inv ps \<longleftrightarrow> field_inv (pr_field ps) \<and> people_ok (pr_field ps) \<and> names_ok (pr_operatorNames ps) \<and>
     spawn_ok (pr_spawnSettings ps)"

lemma people_ok_unique: "people_ok f \<Longrightarrow> people f i = Some (a, n) \<Longrightarrow> people f j = Some (a, m) \<Longrightarrow> i = j"
  unfolding people_ok_def by blast

lemma people_ok_eq: "people_ok f \<Longrightarrow> people f' = people f \<Longrightarrow> people_ok f'"
  by (simp add: people_ok_def)

lemma people_ok_put:
  assumes "people_ok f" "people f' = (people f)(i \<mapsto> (a, n))" "0 < a" "n \<noteq> []"
    "\<And>j b m. people f j = Some (b, m) \<Longrightarrow> j \<noteq> i \<Longrightarrow> b \<noteq> a \<and> m \<noteq> n"
  shows "people_ok f'"
proof -
  have "b \<noteq> c \<and> m \<noteq> l" if "people f' j = Some (b, m)" "people f' k = Some (c, l)" "j \<noteq> k" for j k b m c l
  proof (cases "j = i \<or> k = i")
    case True
    then show ?thesis using that assms(2) assms(5) [of j b m] assms(5) [of k c l] by auto
  next
    case False
    then have "people f j = Some (b, m)" "people f k = Some (c, l)" using that assms(2) by simp_all
    then show ?thesis using assms(1) that(3) unfolding people_ok_def by blast
  qed
  moreover have "0 < b \<and> m \<noteq> []" if "people f' j = Some (b, m)" for j b m
    using that assms(1-4) by (cases "j = i") (auto simp: people_ok_def)
  ultimately show ?thesis unfolding people_ok_def by blast
qed

lemma names_ok_put:
  assumes "names_ok names" "trimPlayerName n = n" "NUL \<notin> set n" "\<And>b. map_of names b = Some n \<Longrightarrow> b = a"
  shows "names_ok (map_put a n names)"
  using assms by (auto simp: names_ok_def)

lemma trim_idem [simp]: "trimPlayerName (trimPlayerName raw) = trimPlayerName raw"
  by (simp add: trimPlayerName_eq trimmed_idem)

lemma trim_NUL: "NUL \<notin> set raw \<Longrightarrow> NUL \<notin> set (trimPlayerName raw)"
  unfolding trimPlayerName_eq trimmed_def by (metis set_dropWhileD set_rev)

lemma findPlayerByAuthId_iff:
  assumes "field_inv f" "people_ok f"
  shows "Field_findPlayerByAuthId f a = Some p \<longleftrightarrow> 0 < a \<and> map_of (fd_playerList f) (pl_id p) = Some p \<and> pl_authPlayerId p = a"
proof
  have wf: "map_wf (fd_playerList f)" and ok: "players_ok (fd_playerList f)"
    using assms(1) by (auto simp: field_inv_def players_ok_def)
  have found: "0 < a \<and> map_of (fd_playerList f) (pl_id q) = Some q \<and> pl_authPlayerId q = a"
    if q: "Field_findPlayerByAuthId f a = Some q" for q
  proof -
    have "0 < a" and c: "List.find (\<lambda>p. pl_authPlayerId p = a) (map snd (fd_playerList f)) = Some q"
      using q by (auto simp: Field_findPlayerByAuthId_def split: if_splits)
    have "q \<in> snd ` set (fd_playerList f)" "pl_authPlayerId q = a"
      using c by (auto simp: find_Some_iff)
    then obtain k where "map_of (fd_playerList f) k = Some q" using map_wf_entry [OF wf] by force
    then show ?thesis using players_okD [OF ok] \<open>0 < a\<close> \<open>pl_authPlayerId q = a\<close> by auto
  qed
  then show "0 < a \<and> map_of (fd_playerList f) (pl_id p) = Some p \<and> pl_authPlayerId p = a"
    if "Field_findPlayerByAuthId f a = Some p" using that .
  assume p: "0 < a \<and> map_of (fd_playerList f) (pl_id p) = Some p \<and> pl_authPlayerId p = a"
  then have "(pl_id p, p) \<in> set (fd_playerList f)" using map_wf_entry [OF wf] by blast
  then have "p \<in> set (map snd (fd_playerList f))" by force
  then have "List.find (\<lambda>q. pl_authPlayerId q = a) (map snd (fd_playerList f)) \<noteq> None"
    using p unfolding find_None_iff by blast
  then have "Field_findPlayerByAuthId f a \<noteq> None" using p by (simp add: Field_findPlayerByAuthId_def)
  then obtain q where q: "Field_findPlayerByAuthId f a = Some q" by blast
  have "people f (pl_id q) = Some (a, Player_getPlayerName q)" "people f (pl_id p) = Some (a, Player_getPlayerName p)"
    using found [OF q] p unfolding people_def by simp_all
  then have "pl_id q = pl_id p" by (rule people_ok_unique [OF assms(2)])
  then have "q = p" using found [OF q] p by (metis option.inject)
  then show "Field_findPlayerByAuthId f a = Some p" using q by blast
qed

lemma hasPlayerName_iff:
  assumes "field_inv f" "n \<noteq> []" "trimPlayerName n = n"
  shows "Field_hasPlayerName f n \<longleftrightarrow> (\<exists>i a. people f i = Some (a, n))"
proof -
  have "map_wf (fd_playerList f)" using assms(1) by (simp add: field_inv_def players_ok_def)
  then have e: "(k, p) \<in> set (fd_playerList f) \<longleftrightarrow> map_of (fd_playerList f) k = Some p" for k p by (rule map_wf_entry)
  show ?thesis using assms(2,3) e by (auto simp: Field_hasPlayerName_def list_ex_iff people_Some)
qed

lemma nameClaimed_iff:
  "names_ok (pr_operatorNames ps) \<Longrightarrow>
    nameClaimedByOtherAuth n a ps \<longleftrightarrow> (\<exists>b. b \<noteq> a \<and> map_of (pr_operatorNames ps) b = Some n)"
  by (auto simp: nameClaimedByOtherAuth_def list_ex_iff names_ok_def map_wf_entry)

subsection \<open>The operations keep the invariant\<close>

lemma people_putPlayer:
  "fst (Field_putPlayer p f) \<Longrightarrow> people (snd (Field_putPlayer p f)) =
    (people f)(pl_id p \<mapsto> (pl_authPlayerId p, Player_getPlayerName p))"
  by (auto simp: Field_putPlayer_def people_def fun_eq_iff split: if_splits)

lemma people_erase:
  assumes "people_ok f" "fd_playerList f' = map_erase i (fd_playerList f)"
  shows "people_ok f'"
proof -
  have "people f' = (people f)(i := None)" using assms(2) by (simp add: people_def fun_eq_iff)
  then have "people f j = x" if "people f' j = x" "x \<noteq> None" for j x using that by (auto split: if_splits)
  then show ?thesis using assms(1) unfolding people_ok_def by blast
qed

lemma clampSpawn_bounds: "0 \<le> clampSpawnResource v m \<and> (v \<le> INT64_MAX \<longrightarrow> clampSpawnResource v m \<le> INT64_MAX)"
  by (auto simp: clampSpawnResource_def Let_def)

lemma spawn_status_ok: "spawn_ok settings \<Longrightarrow> status_ok (Status_new (clampedHp settings) (clampedMp settings))"
  using clampSpawn_bounds by (simp add: spawn_ok_def clampedHp_def clampedMp_def status_ok_def Status_new_def)

lemma display_name_ok:
  "presence_inv ps \<Longrightarrow> spawn_ok settings \<Longrightarrow>
    trimPlayerName (display_name a settings ps) = display_name a settings ps \<and> NUL \<notin> set (display_name a settings ps)"
  by (auto simp: display_name_def presence_inv_def names_ok_def spawn_ok_def trim_NUL split: option.splits)

text \<open>The player that \<open>spawn_player\<close> creates.\<close>

definition spawned :: "int \<Rightarrow> int \<Rightarrow> LoginFieldSpawnSettings \<Rightarrow> string \<Rightarrow> Player" where
  "spawned gameplayId authPlayerId settings name =
     \<lparr>pl_id = gameplayId, pl_authPlayerId = authPlayerId, pl_name = name @ replicate (64 - length name) NUL,
      pl_status = Status_new (clampedHp settings) (clampedMp settings), pl_buffs = [],
      pl_position = Position_new gameplayId (ls_x settings) (ls_y settings) (ls_z settings)\<rparr>"

lemma spawned_simps [simp]:
  "pl_id (spawned g a st n) = g" "pl_authPlayerId (spawned g a st n) = a"
  "pl_status (spawned g a st n) = Status_new (clampedHp st) (clampedMp st)"
  "pl_position (spawned g a st n) = Position_new g (ls_x st) (ls_y st) (ls_z st)"
  by (simp_all add: spawned_def)

lemma spawned_eq:
  assumes "0 < a" "trimPlayerName n = n"
    and "Player_setPlayerName n (Player_setAuthPlayerId a
      (Player_new g (Status_new (clampedHp st) (clampedMp st)) (Position_new g (ls_x st) (ls_y st) (ls_z st)))) = Some p"
  shows "p = spawned g a st n"
  using assms by (auto simp: Player_setPlayerName_def Player_setAuthPlayerId_def Player_new_def Position_copy_def
      Position_new_def spawned_def Let_def split: if_splits)

lemma allocate_frame:
  assumes "presence_inv ps" and "Field_allocateGameplayId (pr_field ps) = (g, f1)"
  shows "\<exists>c. f1 = (pr_field ps)\<lparr>fd_nextGameplayId := c\<rparr>" "fd_playerList f1 = fd_playerList (pr_field ps)" "people f1 = people (pr_field ps)"
    "field_inv f1" "0 < g \<Longrightarrow> map_of (fd_playerList (pr_field ps)) g = None \<and> Field_findNpc (pr_field ps) g = None"
    "presence_inv (ps\<lparr>pr_field := f1\<rparr>)"
proof -
  obtain c where f1: "f1 = (pr_field ps)\<lparr>fd_nextGameplayId := c\<rparr>"
    using assms(2) by (auto simp: Field_allocateGameplayId_def split: prod.splits)
  have fi: "field_inv (pr_field ps)" "people_ok (pr_field ps)" using assms(1) by (auto simp: presence_inv_def)
  show "\<exists>c. f1 = (pr_field ps)\<lparr>fd_nextGameplayId := c\<rparr>" "fd_playerList f1 = fd_playerList (pr_field ps)" and
    people: "people f1 = people (pr_field ps)" using f1 by auto
  show inv: "field_inv f1" and "0 < g \<Longrightarrow> map_of (fd_playerList (pr_field ps)) g = None \<and> Field_findNpc (pr_field ps) g = None"
    using allocate_free [OF fi(1) assms(2)] by (auto split: if_splits)
  show "presence_inv (ps\<lparr>pr_field := f1\<rparr>)" using assms(1) inv people_ok_eq [OF fi(2) people] by (simp add: presence_inv_def)
qed

text \<open>A refused spawn may have used up gameplay ids, nothing else.\<close>

lemma spawn_refused:
  assumes "presence_inv ps" and "ps' = ps \<or> ps' = ps\<lparr>pr_field := f1\<rparr>" and "Field_allocateGameplayId (pr_field ps) = (g, f1)"
  shows "presence_inv ps' \<and> (\<exists>c. ps' = ps\<lparr>pr_field := (pr_field ps)\<lparr>fd_nextGameplayId := c\<rparr>\<rparr>)"
proof -
  have "\<exists>c. ps = ps\<lparr>pr_field := (pr_field ps)\<lparr>fd_nextGameplayId := c\<rparr>\<rparr>"
    by (rule exI [of _ "fd_nextGameplayId (pr_field ps)"]) simp
  then show ?thesis using assms(1,2) allocate_frame(1,6) [OF assms(1,3)] by blast
qed

text \<open>A new player of an account that has none, under a name nobody in the field has.\<close>

lemma people_ok_new:
  assumes inv: "field_inv f" "people_ok f" and a: "0 < a" and new: "Field_findPlayerByAuthId f a = None"
    and n: "n \<noteq> []" "trimPlayerName n = n" "\<not> Field_hasPlayerName f n" and people: "people f' = (people f)(g \<mapsto> (a, n))"
  shows "people_ok f'"
proof (rule people_ok_put [OF inv(2) people a n(1)])
  fix j b m
  assume j: "people f j = Some (b, m)"
  then obtain q where q: "map_of (fd_playerList f) j = Some q" "pl_authPlayerId q = b" by (auto simp: people_Some)
  moreover have "pl_id q = j" using q(1) inv(1) players_okD by (auto simp: field_inv_def)
  ultimately have "b \<noteq> a" using new findPlayerByAuthId_iff [OF inv, of a q] a by auto
  then show "b \<noteq> a \<and> m \<noteq> n" using j n hasPlayerName_iff [OF inv(1) n(1,2)] by blast
qed

lemma spawn_outcome:
  assumes inv: "presence_inv ps" and st: "spawn_ok settings" and pos: "0 < sid" "0 < a"
    and new: "Field_findPlayerByAuthId (pr_field ps) a = None"
    and run: "spawn_player sid a settings ps = (ok, ps')"
  shows "presence_inv ps' \<and>
    (if ok then \<exists>g f1. let p = spawned g a settings (display_name a settings ps) in
        Field_allocateGameplayId (pr_field ps) = (g, f1) \<and> 0 < g \<and> Player_getPlayerName p = display_name a settings ps \<and>
        fd_playerList (pr_field ps') = map_put g p (fd_playerList (pr_field ps)) \<and>
        pr_field ps' = snd (Field_bindSession sid g (f1\<lparr>fd_playerList := map_put g p (fd_playerList (pr_field ps))\<rparr>))
     else \<exists>c. ps' = ps\<lparr>pr_field := (pr_field ps)\<lparr>fd_nextGameplayId := c\<rparr>\<rparr>)"
proof -
  let ?n = "display_name a settings ps" and ?f = "pr_field ps"
  have n: "trimPlayerName ?n = ?n" "NUL \<notin> set ?n" using display_name_ok [OF inv st] by auto
  have fi: "field_inv ?f" "people_ok ?f" "names_ok (pr_operatorNames ps)" using inv by (auto simp: presence_inv_def)
  obtain g f1 where g: "Field_allocateGameplayId ?f = (g, f1)" by force
  note fr = allocate_frame [OF inv g]
  let ?base = "Player_setAuthPlayerId a (Player_new g (Status_new (clampedHp settings) (clampedMp settings))
    (Position_new g (ls_x settings) (ls_y settings) (ls_z settings)))"
  let ?guard = "?n = [] \<or> nameClaimedByOtherAuth ?n a ps \<or> Field_hasPlayerName ?f ?n"
  show ?thesis
  proof (cases "?guard \<or> g \<le> 0 \<or> Player_setPlayerName ?n ?base = None")
    case True
    then have "\<not> ok" "ps' = ps \<or> ps' = ps\<lparr>pr_field := f1\<rparr>"
      using run by (auto simp: spawn_player_def g Let_def split: if_splits)
    then show ?thesis using spawn_refused [OF inv _ g] by auto
  next
    case False
    let ?p = "spawned g a settings ?n"
    let ?f2 = "f1\<lparr>fd_playerList := map_put g ?p (fd_playerList ?f)\<rparr>"
    have set: "Player_setPlayerName ?n ?base = Some ?p"
      using False spawned_eq [OF pos(2) n(1)] by (metis not_None_eq)
    have name: "Player_getPlayerName ?p = ?n" using setPlayerName_reads [OF set n(2)] n(1) by simp
    have put: "Field_putPlayer ?p f1 = (True, ?f2)"
      using False fr(1,2,5) by (auto simp: Field_putPlayer_def Field_findNpc_def)
    have eq: "ok = fst (Field_bindSession sid g ?f2)"
      "ps' = ps\<lparr>pr_field := snd (Field_bindSession sid g ?f2), pr_operatorNames := map_put a ?n (pr_operatorNames ps)\<rparr>"
      using run False by (simp_all add: spawn_player_def g Let_def set put split: prod.splits)
    have ok: ok using False pos by (simp add: eq(1) bind_succeeds)
    have "people (pr_field ps') = (people ?f)(g \<mapsto> (a, ?n))"
      using people_putPlayer [of ?p f1] people_eqI [OF playerList_bind, of sid g ?f2] by (simp add: eq(2) put name fr(3))
    then have "people_ok (pr_field ps')" using people_ok_new [OF fi(1,2) pos(2) new _ n(1)] False by blast
    moreover have "field_inv ?f2" using putPlayer_inv [OF fr(4), of ?p] spawn_status_ok [OF st] put by simp
    then have "field_inv (pr_field ps')" using bindSession_inv by (simp add: eq(2))
    moreover have "names_ok (map_put a ?n (pr_operatorNames ps))"
      using False nameClaimed_iff [OF fi(3)] by (intro names_ok_put fi(3) n) blast
    ultimately have "presence_inv ps'" using inv by (simp add: presence_inv_def eq(2))
    then show ?thesis using ok False g name by (auto simp: eq(2) Let_def)
  qed
qed

lemma resolve_frame:
  assumes "activePort_resolve sid cid ps = (r, ps1)"
  shows "pr_field ps1 = pr_field ps" "pr_operatorNames ps1 = pr_operatorNames ps" "pr_spawnSettings ps1 = pr_spawnSettings ps"
    "presence_inv ps1 = presence_inv ps"
  using assms by (auto simp: activePort_resolve_def presence_inv_def split: option.splits prod.splits)

lemma display_name_eq: "pr_operatorNames ps1 = pr_operatorNames ps \<Longrightarrow> display_name a st ps1 = display_name a st ps"
  by (simp add: display_name_def)

text \<open>A login of an account whose player is in the field, and of one whose player is not.\<close>

lemma place_known:
  assumes inv: "presence_inv ps" and r: "activePort_resolve sid cid ps = (Some a, ps1)" and pos: "0 < a" "0 < sid"
    and q: "Field_findPlayerByAuthId (pr_field ps) a = Some q" and run: "placeAfterLogin_with sid cid settings ps = (ok, ps')"
  shows "ok" "presence_inv ps'" "Field_findPlayerByAuthId (pr_field ps') a = Some q" "Field_playerIdForSession (pr_field ps') sid = pl_id q"
    "fd_playerList (pr_field ps') = fd_playerList (pr_field ps)"
proof -
  note fr = resolve_frame [OF r]
  have m: "map_of (fd_playerList (pr_field ps)) (pl_id q) = Some q" "pl_authPlayerId q = a"
    using q findPlayerByAuthId_iff inv by (auto simp: presence_inv_def)
  then have "0 < pl_id q" using inv players_okD by (auto simp: presence_inv_def field_inv_def)
  then have bnd: "fst (Field_bindSession sid (pl_id q) (pr_field ps))" using pos(2) m(1) by (simp add: bind_succeeds)
  have eq: "ok" "ps' = ps1\<lparr>pr_field := snd (Field_bindSession sid (pl_id q) (pr_field ps))\<rparr>"
    using run bnd pos q by (auto simp: placeAfterLogin_with_def r fr split: prod.splits)
  show ok by (fact eq(1))
  show ps': "fd_playerList (pr_field ps') = fd_playerList (pr_field ps)" by (simp add: eq(2))
  show i': "presence_inv ps'"
    using inv bindSession_inv [of "pr_field ps" sid "pl_id q"] people_ok_eq [OF _ people_eqI [OF playerList_bind]]
    by (auto simp: presence_inv_def eq(2) fr)
  then show "Field_findPlayerByAuthId (pr_field ps') a = Some q"
    using findPlayerByAuthId_iff [of "pr_field ps'" a q] pos(1) m ps' by (simp add: presence_inv_def)
  show "Field_playerIdForSession (pr_field ps') sid = pl_id q" using bind_binds [OF bnd] by (simp add: eq(2) Field_playerIdForSession_def)
qed

lemma place_new:
  assumes inv: "presence_inv ps" and st: "spawn_ok settings" and r: "activePort_resolve sid cid ps = (Some a, ps1)" and pos: "0 < a" "0 < sid"
    and new: "Field_findPlayerByAuthId (pr_field ps) a = None" and run: "placeAfterLogin_with sid cid settings ps = (ok, ps')"
  shows "presence_inv ps' \<and> (if ok then \<exists>p. Field_findPlayerByAuthId (pr_field ps') a = Some p \<and>
      Field_playerIdForSession (pr_field ps') sid = pl_id p \<and> map_of (fd_playerList (pr_field ps)) (pl_id p) = None \<and>
      p = spawned (pl_id p) a settings (display_name a settings ps) \<and>
      fd_playerList (pr_field ps') = map_put (pl_id p) p (fd_playerList (pr_field ps))
    else \<exists>c. ps' = ps1\<lparr>pr_field := (pr_field ps1)\<lparr>fd_nextGameplayId := c\<rparr>\<rparr>)"
proof -
  note fr = resolve_frame [OF r]
  define n where "n = display_name a settings ps"
  have "presence_inv ps1" "Field_findPlayerByAuthId (pr_field ps1) a = None" "spawn_player sid a settings ps1 = (ok, ps')"
    using inv new run pos fr by (simp_all add: placeAfterLogin_with_def r)
  note out = spawn_outcome [OF this(1) st pos(2,1) this(2,3)]
  show ?thesis
  proof (cases ok)
    case True
    obtain g f1 where g: "Field_allocateGameplayId (pr_field ps) = (g, f1)" "0 < g"
      "fd_playerList (pr_field ps') = map_put g (spawned g a settings n) (fd_playerList (pr_field ps))"
      "pr_field ps' = snd (Field_bindSession sid g (f1\<lparr>fd_playerList := map_put g (spawned g a settings n) (fd_playerList (pr_field ps))\<rparr>))"
      "presence_inv ps'"
      using out True fr(1) display_name_eq [OF fr(2)] by (auto simp: Let_def n_def)
    have fresh: "map_of (fd_playerList (pr_field ps)) g = None" using allocate_frame(5) [OF inv g(1,2)] by blast
    have fnd: "Field_findPlayerByAuthId (pr_field ps') a = Some (spawned g a settings n)"
      using findPlayerByAuthId_iff [of "pr_field ps'" a] g(3,5) pos(1) by (simp add: presence_inv_def)
    have "fst (Field_bindSession sid g (f1\<lparr>fd_playerList := map_put g (spawned g a settings n) (fd_playerList (pr_field ps))\<rparr>))"
      using pos(2) g(2) by (intro bind_succeeds) simp_all
    from bind_binds [OF this] have "map_of (fd_sessionToPlayerId (pr_field ps')) sid = Some g" using g(4) by simp
    then show ?thesis using True g(3,5) fnd fresh unfolding n_def by (auto simp: Field_playerIdForSession_def)
  qed (use out in auto)
qed

lemma place_outcome:
  assumes inv: "presence_inv ps" and st: "spawn_ok settings" and run: "placeAfterLogin_with sid cid settings ps = (ok, ps')"
  shows "presence_inv ps' \<and> (if ok then
      \<exists>a p. fst (activePort_resolve sid cid ps) = Some a \<and> Field_findPlayerByAuthId (pr_field ps') a = Some p \<and>
        Field_playerIdForSession (pr_field ps') sid = pl_id p \<and>
        (case Field_findPlayerByAuthId (pr_field ps) a of
           Some q \<Rightarrow> p = q \<and> fd_playerList (pr_field ps') = fd_playerList (pr_field ps)
         | None \<Rightarrow> map_of (fd_playerList (pr_field ps)) (pl_id p) = None \<and>
             p = spawned (pl_id p) a settings (display_name a settings ps) \<and>
             fd_playerList (pr_field ps') = map_put (pl_id p) p (fd_playerList (pr_field ps)))
    else fd_playerList (pr_field ps') = fd_playerList (pr_field ps) \<and>
      fd_sessionToPlayerId (pr_field ps') = fd_sessionToPlayerId (pr_field ps) \<and> pr_operatorNames ps' = pr_operatorNames ps)"
proof -
  obtain r ps1 where r: "activePort_resolve sid cid ps = (r, ps1)" by force
  note fr = resolve_frame [OF r]
  show ?thesis
  proof (cases "sid \<le> 0 \<or> r = None \<or> the r \<le> 0")
    case True
    then have "\<not> ok" "ps' = ps \<or> ps' = ps1"
      using run r by (auto simp: placeAfterLogin_with_def split: if_splits option.splits)
    then show ?thesis using inv fr by auto
  next
    case False
    then obtain a where a: "r = Some a" "0 < a" "0 < sid" by auto
    show ?thesis
    proof (cases "Field_findPlayerByAuthId (pr_field ps) a")
      case (Some q)
      then show ?thesis using place_known [OF inv r [unfolded a(1)] a(2,3) Some run] a(1) by (auto simp: r)
    next
      case None
      show ?thesis using place_new [OF inv st r [unfolded a(1)] a(2,3) None run] a(1) fr None
        by (cases ok) (auto simp: r)
    qed
  qed
qed

lemma operator_inv:
  assumes inv: "presence_inv ps" and nul: "NUL \<notin> set raw"
  shows "presence_inv (snd (operatorSetPlayerName a raw ps))"
proof (cases "fst (operatorSetPlayerName a raw ps)")
  case False
  then have "snd (operatorSetPlayerName a raw ps) = ps"
    by (auto simp: operatorSetPlayerName_def Let_def split: if_splits)
  then show ?thesis using inv by simp
next
  case True
  let ?n = "trimPlayerName raw" and ?f = "pr_field ps" and ?e = "Field_findPlayerByAuthId (pr_field ps) a"
  let ?upd = "\<lambda>q. case Player_setPlayerName ?n q of None \<Rightarrow> q | Some q' \<Rightarrow> q'"
  let ?f1 = "case ?e of None \<Rightarrow> ?f | Some p \<Rightarrow> update_player (pl_id p) ?upd ?f"
  have c: "0 < a" "Player_setPlayerName ?n Player_default \<noteq> None" "\<not> nameClaimedByOtherAuth ?n a ps"
    "\<not> nameTakenOnFieldByOther ?f ?n ?e"
    "snd (operatorSetPlayerName a raw ps) = ps\<lparr>pr_field := ?f1, pr_operatorNames := map_put a ?n (pr_operatorNames ps)\<rparr>"
    using True by (auto simp: operatorSetPlayerName_def Let_def split: if_splits)
  have n: "?n \<noteq> []" "NUL \<notin> set ?n" using c(2) trim_NUL [OF nul] by (auto simp: Player_setPlayerName_def Let_def)
  have fi: "field_inv ?f" "people_ok ?f" "names_ok (pr_operatorNames ps)" using inv by (auto simp: presence_inv_def)
  have upd: "Player_setPlayerName ?n q = Some (q\<lparr>pl_name := ?n @ replicate (64 - length ?n) NUL\<rparr>)" for q
    using c(2) by (auto simp: Player_setPlayerName_def Let_def split: if_splits)
  have "field_inv ?f1 \<and> people_ok ?f1"
  proof (cases ?e)
    case (Some p)
    have p: "map_of (fd_playerList ?f) (pl_id p) = Some p" "pl_authPlayerId p = a"
      using Some findPlayerByAuthId_iff [OF fi(1,2)] by auto
    have name: "Player_getPlayerName (?upd p) = ?n" using setPlayerName_reads [OF upd n(2), of p] upd [of p] by simp
    have "people ?f1 = (people ?f)(pl_id p \<mapsto> (a, ?n))"
      using p name upd by (auto simp: Some people_def map_of_update_player fun_eq_iff)
    moreover have "b \<noteq> a \<and> m \<noteq> ?n" if "people ?f j = Some (b, m)" "j \<noteq> pl_id p" for j b m
    proof (cases "Player_getPlayerName p = ?n")
      case True
      then have "people ?f (pl_id p) = Some (a, ?n)" using p by (simp add: people_def)
      then show ?thesis using fi(2) that unfolding people_ok_def by blast
    next
      case False
      then have "\<not> Field_hasPlayerName ?f ?n" using c(4) Some by (simp add: nameTakenOnFieldByOther_def)
      moreover have "people ?f (pl_id p) = Some (a, Player_getPlayerName p)" using p by (simp add: people_def)
      ultimately show ?thesis using fi(2) that hasPlayerName_iff [OF fi(1) n(1)] unfolding people_ok_def by auto
    qed
    ultimately have "people_ok ?f1" using people_ok_put [OF fi(2) _ c(1) n(1)] by blast
    moreover have "field_inv (update_player (pl_id p) ?upd ?f)" by (rule update_player_inv [OF fi(1)]) (simp_all add: upd)
    ultimately show ?thesis using Some by simp
  qed (use fi in simp)
  moreover have "names_ok (map_put a ?n (pr_operatorNames ps))"
    using c(3) nameClaimed_iff [OF fi(3)] n(2) by (intro names_ok_put fi(3)) auto
  ultimately show ?thesis using inv by (simp add: c(5) presence_inv_def)
qed

lemma snd_removeAfterLogout: "snd (removeAfterLogout sid ps) = (if sid \<le> 0 then ps else ps\<lparr>pr_field := snd (Field_unbindSession sid (pr_field ps))\<rparr>)"
  by (simp add: removeAfterLogout_def split: prod.splits)

lemma snd_releaseAfterStop: "snd (releaseAfterStop sid ps) =
    (let f1 = snd (Field_unbindSession sid (pr_field ps)); g = Field_playerIdForSession (pr_field ps) sid in
     if sid \<le> 0 then ps else if g \<le> 0 then ps\<lparr>pr_field := f1\<rparr>
     else ps\<lparr>pr_field := snd (Field_unsetPlayer (Player_new g Status_default (Position_new g f32_zero f32_zero f32_zero)) f1)\<rparr>)"
  by (simp add: releaseAfterStop_def Let_def split: prod.splits)

lemma remove_inv: "presence_inv ps \<Longrightarrow> presence_inv (snd (removeAfterLogout sid ps))"
  using unbindSession_inv(1) [of "pr_field ps" sid] people_ok_eq [OF _ people_eqI [OF playerList_unbind]]
  by (auto simp: snd_removeAfterLogout presence_inv_def)

lemma playerList_unsetPlayer:
  "fd_playerList (snd (Field_unsetPlayer p f)) = fd_playerList f \<or>
   (\<exists>i. fd_playerList (snd (Field_unsetPlayer p f)) = map_erase i (fd_playerList f))"
  by (auto simp: Field_unsetPlayer_def Let_def)

lemma release_inv:
  assumes "presence_inv ps"
  shows "presence_inv (snd (releaseAfterStop sid ps))"
proof -
  let ?f1 = "snd (Field_unbindSession sid (pr_field ps))"
  have f1: "field_inv ?f1" "people_ok ?f1"
    using assms unbindSession_inv(1) people_ok_eq [OF _ people_eqI [OF playerList_unbind]] by (auto simp: presence_inv_def)
  have "field_inv (snd (Field_unsetPlayer p ?f1)) \<and> people_ok (snd (Field_unsetPlayer p ?f1))" for p
    using unsetPlayer_inv [OF f1(1), of p] playerList_unsetPlayer [of p ?f1] people_erase [OF f1(2)] people_ok_eq [OF f1(2) people_eqI]
    by blast
  then show ?thesis using assms f1
    by (auto simp: snd_releaseAfterStop presence_inv_def Let_def)
qed

subsection \<open>Histories\<close>

inductive presence_reachable :: "Presence \<Rightarrow> bool" where
  init: "presence_reachable Presence_init"
| port: "presence_reachable ps \<Longrightarrow> presence_reachable (usePlayerIdPort port ps)"
| spawn: "presence_reachable ps \<Longrightarrow> spawn_ok settings \<Longrightarrow> presence_reachable (useSpawnSettings settings ps)"
| place: "presence_reachable ps \<Longrightarrow> placeAfterLogin sid cid ps = (ok, ps') \<Longrightarrow> presence_reachable ps'"
| rename: "presence_reachable ps \<Longrightarrow> NUL \<notin> set name \<Longrightarrow> presence_reachable (snd (operatorSetPlayerName a name ps))"
| remove: "presence_reachable ps \<Longrightarrow> presence_reachable (snd (removeAfterLogout sid ps))"
| release: "presence_reachable ps \<Longrightarrow> presence_reachable (snd (releaseAfterStop sid ps))"
| inputs: "presence_reachable ps \<Longrightarrow> list_all input_ok is \<Longrightarrow> Field_processInputs is t (pr_field ps) = Some (ok, rs, f') \<Longrightarrow>
    presence_reachable (ps\<lparr>pr_field := f'\<rparr>)"
| frame: "presence_reachable ps \<Longrightarrow> presence_reachable (ps\<lparr>pr_field := Field_processFrame t (pr_field ps)\<rparr>)"

lemma presence_reachable_inv:
  assumes "presence_reachable ps"
  shows "presence_inv ps"
  using assms
proof induction
  case init
  have "people_ok Field_init" by (simp add: people_ok_def people_def Field_init_def)
  then show ?case by (simp add: presence_inv_def Presence_init_def field_inv_init names_ok_def spawn_ok_def LoginFieldSpawnSettings_default_def)
next
  case (place ps sid cid ok ps')
  then show ?case using place_outcome [of ps "pr_spawnSettings ps" sid cid ok ps']
    by (simp add: placeAfterLogin_def presence_inv_def)
next
  case (inputs ps "is" t ok rs f')
  then have "field_inv f'" using processInputs_defined [of "pr_field ps" "is" t] by (auto simp: presence_inv_def)
  then show ?case using inputs people_ok_eq [OF _ people_processInputs] by (auto simp: presence_inv_def)
next
  case (rename ps name a)
  then show ?case using operator_inv by blast
next
  case (frame ps t)
  then show ?case using people_ok_eq [OF _ people_processFrame] by (auto simp: presence_inv_def processFrame_inv)
next
  case (remove ps sid)
  then show ?case by (intro remove_inv)
next
  case (release ps sid)
  then show ?case by (intro release_inv)
qed (auto simp: presence_inv_def usePlayerIdPort_def useSpawnSettings_def names_ok_def)

text \<open>
  Property C25. In every history of logins, renames, logouts, stops and world frames, an account has at
  most one player in the field, no two players have the same display name, and no name is empty (names
  given by operators and settings hold no NUL).
\<close>

theorem one_player_per_account:
  assumes "presence_reachable ps" and "map_of (fd_playerList (pr_field ps)) i = Some p"
    and "map_of (fd_playerList (pr_field ps)) j = Some q" and "i \<noteq> j"
  shows "pl_authPlayerId p \<noteq> pl_authPlayerId q \<and> Player_getPlayerName p \<noteq> Player_getPlayerName q \<and>
    0 < pl_authPlayerId p \<and> Player_getPlayerName p \<noteq> []"
proof -
  have ok: "people_ok (pr_field ps)" using presence_reachable_inv [OF assms(1)] by (simp add: presence_inv_def)
  have "people (pr_field ps) i = Some (pl_authPlayerId p, Player_getPlayerName p)"
    "people (pr_field ps) j = Some (pl_authPlayerId q, Player_getPlayerName q)" using assms(2,3) by (simp_all add: people_def)
  then show ?thesis using ok assms(4) unfolding people_ok_def by blast
qed

definition two_names :: Presence where
  "two_names = snd (operatorSetPlayerName 1000002 ''Bo'' (snd (operatorSetPlayerName 1000001 ''Ada'' Presence_init)))"

definition two_logins :: Presence where
  "two_logins = snd (placeAfterLogin 2 ''bo'' (snd (placeAfterLogin 1 ''ada'' two_names)))"

lemma two_names_reachable: "presence_reachable two_names"
  unfolding two_names_def by (intro presence_reachable.rename presence_reachable.init) code_simp+

lemma two_logins_reachable: "presence_reachable two_logins"
  unfolding two_logins_def by (rule presence_reachable.place, rule presence_reachable.place, rule two_names_reachable) (rule prod.collapse [symmetric])+

lemma two_logins_players:
  "map_of (fd_playerList (pr_field two_logins)) 1 \<noteq> None \<and> map_of (fd_playerList (pr_field two_logins)) 2 \<noteq> None"
  by code_simp

theorem one_player_per_account_witness:
  "\<exists>p q. map_of (fd_playerList (pr_field two_logins)) 1 = Some p \<and> map_of (fd_playerList (pr_field two_logins)) 2 = Some q \<and>
    pl_authPlayerId p \<noteq> pl_authPlayerId q \<and> Player_getPlayerName p \<noteq> Player_getPlayerName q"
proof -
  obtain p q where "map_of (fd_playerList (pr_field two_logins)) 1 = Some p" "map_of (fd_playerList (pr_field two_logins)) 2 = Some q"
    using two_logins_players by auto
  then show ?thesis using one_player_per_account [OF two_logins_reachable, of 1 p 2 q] by auto
qed

text \<open>
  What \<open>placeAfterLogin\<close> does. A placed session is bound to the player of the account that
  the port names: the resident player, with nothing in the player list changed, or a new one with a
  fresh id, the clamped starting values and the name of the account. A refused login changes no player,
  no binding and no name.
\<close>

theorem login_places_account:
  assumes "presence_reachable ps" and "placeAfterLogin sid cid ps = (ok, ps')"
  shows "if ok then
      \<exists>a p. fst (activePort_resolve sid cid ps) = Some a \<and> Field_findPlayerByAuthId (pr_field ps') a = Some p \<and>
        Field_playerIdForSession (pr_field ps') sid = pl_id p \<and>
        (case Field_findPlayerByAuthId (pr_field ps) a of
           Some q \<Rightarrow> p = q \<and> fd_playerList (pr_field ps') = fd_playerList (pr_field ps)
         | None \<Rightarrow> map_of (fd_playerList (pr_field ps)) (pl_id p) = None \<and>
             p = spawned (pl_id p) a (pr_spawnSettings ps) (display_name a (pr_spawnSettings ps) ps) \<and>
             fd_playerList (pr_field ps') = map_put (pl_id p) p (fd_playerList (pr_field ps)))
    else fd_playerList (pr_field ps') = fd_playerList (pr_field ps) \<and>
      fd_sessionToPlayerId (pr_field ps') = fd_sessionToPlayerId (pr_field ps) \<and> pr_operatorNames ps' = pr_operatorNames ps"
proof -
  have "presence_inv ps" "spawn_ok (pr_spawnSettings ps)"
    using presence_reachable_inv [OF assms(1)] by (auto simp: presence_inv_def)
  from place_outcome [OF this assms(2) [unfolded placeAfterLogin_def]] show ?thesis by blast
qed

theorem login_places_account_witness:
  "\<exists>a. fst (activePort_resolve 1 ''ada'' two_names) = Some a \<and>
    Field_findPlayerByAuthId (pr_field (snd (placeAfterLogin 1 ''ada'' two_names))) a \<noteq> None"
proof -
  have ok: "fst (placeAfterLogin 1 ''ada'' two_names) = True" by code_simp
  obtain ps' where ps': "placeAfterLogin 1 ''ada'' two_names = (True, ps')"
    using ok by (metis prod.collapse)
  show ?thesis using login_places_account [OF two_names_reachable ps'] by (auto simp: ps')
qed

text \<open>
  What the server program does: it starts from \<open>Presence_init\<close> and calls \<open>placeAfterLogin\<close>,
  \<open>removeAfterLogout\<close> and \<open>releaseAfterStop\<close>; nothing outside the tests sets a port, spawn settings or
  a name.
\<close>

inductive production_run :: "Presence \<Rightarrow> bool" where
  start: "production_run Presence_init"
| login: "production_run ps \<Longrightarrow> placeAfterLogin sid cid ps = (ok, ps') \<Longrightarrow> production_run ps'"
| logout: "production_run ps \<Longrightarrow> production_run (snd (removeAfterLogout sid ps))"
| stop: "production_run ps \<Longrightarrow> production_run (snd (releaseAfterStop sid ps))"

definition nobody_home :: "Presence \<Rightarrow> bool" where
  "nobody_home ps \<longleftrightarrow> fd_playerList (pr_field ps) = [] \<and> pr_operatorNames ps = [] \<and> ls_playerName (pr_spawnSettings ps) = []"

lemma nobody_home_place:
  assumes "nobody_home ps" "placeAfterLogin sid cid ps = (ok, ps')"
  shows "\<not> ok \<and> nobody_home ps'"
proof -
  obtain r ps1 where r: "activePort_resolve sid cid ps = (r, ps1)" by force
  have "nobody_home ps1" using assms(1) resolve_frame [OF r] by (simp add: nobody_home_def)
  moreover have "spawn_player sid a (pr_spawnSettings ps) ps1 = (False, ps1)" for a
    using assms(1) resolve_frame [OF r]
    by (simp add: nobody_home_def spawn_player_def display_name_def trimPlayerName_eq trimmed_def)
  moreover have "Field_findPlayerByAuthId (pr_field ps1) a = None" for a
    using assms(1) resolve_frame [OF r] by (simp add: nobody_home_def Field_findPlayerByAuthId_def)
  ultimately show ?thesis using assms
    by (auto simp: placeAfterLogin_def placeAfterLogin_with_def r split: if_splits option.splits)
qed

lemma production_run_nobody: "production_run ps \<Longrightarrow> nobody_home ps"
proof (induction rule: production_run.induct)
  case start
  show ?case by (simp add: nobody_home_def Presence_init_def Field_init_def LoginFieldSpawnSettings_default_def)
next
  case (login ps sid cid ok ps')
  then show ?case using nobody_home_place by blast
next
  case (logout ps sid)
  then show ?case by (simp add: nobody_home_def snd_removeAfterLogout)
next
  case (stop ps sid)
  have "fd_playerList (snd (Field_unsetPlayer p f)) = []" if "fd_playerList f = []" for p f
    using playerList_unsetPlayer [of p f] that by (auto simp: map_erase_def)
  then show ?case using stop by (simp add: nobody_home_def snd_releaseAfterStop Let_def)
qed

text \<open>
  With the defaults the server program runs with, no login is ever placed: the spawn
  settings name no player, no operator has named one, and \<open>placeAfterLogin\<close> refuses an empty name, for
  every session and claimed id, after any history of logins and logouts.
\<close>

theorem production_login_never_placed:
  assumes "production_run ps"
  shows "fst (placeAfterLogin sid cid ps) = False"
  using nobody_home_place [OF production_run_nobody [OF assms], of sid cid] by (cases "placeAfterLogin sid cid ps") auto

theorem production_login_never_placed_witness: "fst (placeAfterLogin 1 ''ada'' Presence_init) = False"
  by (rule production_login_never_placed [OF production_run.start])

end
