(* ===== verification/Move_Text.thy ===== *)
theory Move_Text
  imports Streams World_Input
begin

text \<open>
  The text formats of \<open>ClientInputSequence.cpp\<close>: the payload of a move command, the movement ack, and
  the ack or pose attached to a movement event. \<open>None\<close> is the result \<open>false\<close>. A formatted ack is read
  back as the same ack with its coordinates rounded to six digits.
\<close>

definition parseFiniteFloat :: "string \<Rightarrow> f32 option" where
  "parseFiniteFloat text =
     (case read_float text of None \<Rightarrow> None | Some (v, rest) \<Rightarrow> if at_end rest \<and> f32_isfinite v then Some v else None)"

definition parseUint64 :: "string \<Rightarrow> u64 option" where
  "parseUint64 text =
     (if text = [] \<or> hd text = CHR ''-'' then None
      else case read_uint64 text of None \<Rightarrow> None | Some (v, rest) \<Rightarrow> if at_end rest then Some v else None)"

definition parseInt64 :: "string \<Rightarrow> int option" where
  "parseInt64 text = (case read_int64 text of None \<Rightarrow> None | Some (v, rest) \<Rightarrow> if at_end rest then Some v else None)"

text \<open>The text up to the next separator, which need not occur.\<close>

definition upto_semicolon :: "string \<Rightarrow> string" where
  "upto_semicolon s = takeWhile (\<lambda>c. c \<noteq> CHR '';'') s"

definition parseAckField :: "string \<Rightarrow> string \<Rightarrow> string option" where
  "parseAckField body key =
     (case after_first (key @ '':'') body of
        None \<Rightarrow> None
      | Some s \<Rightarrow> let value = upto_semicolon s in if value = [] then None else Some value)"

text \<open>\<open>input >> value >> separator\<close> with the test that the separator is a comma.\<close>

definition read_float_comma :: "string \<Rightarrow> (f32 \<times> string) option" where
  "read_float_comma s =
     (case read_float s of
        None \<Rightarrow> None
      | Some (v, r) \<Rightarrow> (case read_char r of None \<Rightarrow> None | Some (c, r') \<Rightarrow> if c = CHR '','' then Some (v, r') else None))"

definition parse_deltas :: "string \<Rightarrow> (f32 \<times> f32 \<times> f32) option" where
  "parse_deltas s =
     (case read_float_comma s of
        None \<Rightarrow> None
      | Some (dx, s1) \<Rightarrow>
          (case read_float_comma s1 of
             None \<Rightarrow> None
           | Some (dy, s2) \<Rightarrow>
               (case read_float s2 of
                  None \<Rightarrow> None
                | Some (dz, s3) \<Rightarrow>
                    if at_end s3 \<and> f32_isfinite dx \<and> f32_isfinite dy \<and> f32_isfinite dz
                    then Some (dx, dy, dz) else None)))"

definition parseMovePayload :: "string \<Rightarrow> (u64 \<times> f32 \<times> f32 \<times> f32) option" where
  "parseMovePayload payload =
     (case split_at CHR '':'' payload of
        Some (pre, post) \<Rightarrow>
          if CHR '','' \<notin> set pre then
            (case parseUint64 pre of
               None \<Rightarrow> None
             | Some clientInputSequence \<Rightarrow>
                 if clientInputSequence = 0 then None
                 else map_option (\<lambda>d. (clientInputSequence, d)) (parse_deltas post))
          else map_option (\<lambda>d. (0, d)) (parse_deltas payload)
      | None \<Rightarrow> map_option (\<lambda>d. (0, d)) (parse_deltas payload))"

record MovementAck =
  ma_sessionId :: int
  ma_x :: f32
  ma_y :: f32
  ma_z :: f32
  ma_worldTick :: u64
  ma_lastProcessedInputSequence :: u64

text \<open>The fields after the session, which \<open>attachOwnerAckFields\<close> of \<open>WorldFrameUpdateBuilder.cpp\<close> prints as well.\<close>

definition ack_fields :: "MovementAck \<Rightarrow> string" where
  "ack_fields ack = '';x:'' @ show_float (ma_x ack) @ '';y:'' @ show_float (ma_y ack) @ '';z:'' @ show_float (ma_z ack) @
     '';worldTick:'' @ show_u64 (ma_worldTick ack) @
     '';lastProcessedInputSequence:'' @ show_u64 (ma_lastProcessedInputSequence ack)"

definition formatMovementAck :: "MovementAck \<Rightarrow> string result" where
  "formatMovementAck ack =
     (if ma_sessionId ack \<le> 0 \<or> \<not> f32_isfinite (ma_x ack) \<or> \<not> f32_isfinite (ma_y ack) \<or> \<not> f32_isfinite (ma_z ack)
      then Inl ''movement ack contains invalid state''
      else Inr (''movementAck=session:'' @ show_int (ma_sessionId ack) @ ack_fields ack))"

text \<open>The five fields both ack parsers read after the session.\<close>

definition parse_ack_fields :: "string \<Rightarrow> (f32 \<times> f32 \<times> f32 \<times> u64 \<times> u64) option" where
  "parse_ack_fields body =
     (case (parseAckField body ''x'', parseAckField body ''y'', parseAckField body ''z'',
            parseAckField body ''worldTick'', parseAckField body ''lastProcessedInputSequence'') of
        (Some xText, Some yText, Some zText, Some tickText, Some seqText) \<Rightarrow>
          (case (parseFiniteFloat xText, parseFiniteFloat yText, parseFiniteFloat zText, parseUint64 tickText, parseUint64 seqText) of
             (Some x, Some y, Some z, Some tick, Some sq) \<Rightarrow> Some (x, y, z, tick, sq)
           | _ \<Rightarrow> None)
      | _ \<Rightarrow> None)"

definition parseMovementAck :: "string \<Rightarrow> MovementAck result" where
  "parseMovementAck payload =
     (if take 12 payload \<noteq> ''movementAck='' then Inl ''world update is not a movement ack''
      else let body = drop 12 payload in
        case parseAckField body ''session'' of
          None \<Rightarrow> Inl ''movement ack contains invalid fields''
        | Some sessionText \<Rightarrow>
            (case (parseInt64 sessionText, parse_ack_fields body) of
               (Some sid, Some (x, y, z, tick, sq)) \<Rightarrow>
                 if sid \<le> 0 then Inl ''movement ack contains invalid fields''
                 else Inr \<lparr>ma_sessionId = sid, ma_x = x, ma_y = y, ma_z = z, ma_worldTick = tick,
                           ma_lastProcessedInputSequence = sq\<rparr>
             | _ \<Rightarrow> Inl ''movement ack contains invalid fields''))"

definition parseMovementEventSession :: "string \<Rightarrow> int option" where
  "parseMovementEventSession payload =
     (if take 17 payload \<noteq> ''movement=session:'' then None
      else case parseInt64 (upto_semicolon (drop 17 payload)) of
        None \<Rightarrow> None | Some sid \<Rightarrow> if sid > 0 then Some sid else None)"

definition tryParseAttachedMovementAck :: "string \<Rightarrow> MovementAck option" where
  "tryParseAttachedMovementAck payload =
     (case (parseMovementEventSession payload, parse_ack_fields payload) of
        (Some sid, Some (x, y, z, tick, sq)) \<Rightarrow>
          Some \<lparr>ma_sessionId = sid, ma_x = x, ma_y = y, ma_z = z, ma_worldTick = tick, ma_lastProcessedInputSequence = sq\<rparr>
      | _ \<Rightarrow> None)"

record PublicMovementPose =
  pm_sessionId :: int
  pm_x :: f32
  pm_y :: f32
  pm_z :: f32

text \<open>The loop over the fields: the coordinates seen so far, \<open>None\<close> after a bad one.\<close>

fun pose_loop :: "string list \<Rightarrow> f32 option \<times> f32 option \<times> f32 option \<Rightarrow> (f32 option \<times> f32 option \<times> f32 option) option" where
  "pose_loop [] st = Some st"
| "pose_loop (field # rest) (x, y, z) =
     (case split_at CHR ''='' field of
        None \<Rightarrow> pose_loop rest (x, y, z)
      | Some (key, value) \<Rightarrow>
          if key = ''x'' then (case parseFiniteFloat value of None \<Rightarrow> None | v \<Rightarrow> pose_loop rest (v, y, z))
          else if key = ''y'' then (case parseFiniteFloat value of None \<Rightarrow> None | v \<Rightarrow> pose_loop rest (x, v, z))
          else if key = ''z'' then (case parseFiniteFloat value of None \<Rightarrow> None | v \<Rightarrow> pose_loop rest (x, y, v))
          else pose_loop rest (x, y, z))"

definition tryParsePublicMovementPose :: "string \<Rightarrow> PublicMovementPose option" where
  "tryParsePublicMovementPose payload =
     (case parseMovementEventSession payload of
        None \<Rightarrow> None
      | Some sid \<Rightarrow>
          (case pose_loop (getlines CHR '';'' payload) (None, None, None) of
             Some (Some x, Some y, Some z) \<Rightarrow> Some \<lparr>pm_sessionId = sid, pm_x = x, pm_y = y, pm_z = z\<rparr>
           | _ \<Rightarrow> None))"

subsection \<open>Printed numbers read back\<close>

lemma at_end_Nil [simp]: "at_end []"
  by (simp add: at_end_def skip_ws_def)

lemma parse_show_float:
  "f32_isfinite x \<Longrightarrow> f32_isfinite (six_digit_value x) \<Longrightarrow> parseFiniteFloat (show_float x) = Some (six_digit_value x)"
  using read_show_float [of x "[]"] by (simp add: parseFiniteFloat_def)

lemma parse_show_uint64 [simp]: "parseUint64 (show_u64 w) = Some w"
proof -
  have "hd (show_u64 w) \<noteq> CHR ''-''" "show_u64 w \<noteq> []"
    using hd_show_nat [of "unat w" "[]"] by (auto simp: show_u64_def)
  then show ?thesis using read_show_uint64 [of "[]" w] by (simp add: parseUint64_def)
qed

lemma parse_show_int64: "is_int64 i \<Longrightarrow> parseInt64 (show_int i) = Some i"
  using read_show_int64 [of i "[]"] by (simp add: parseInt64_def)

definition number_char :: "char \<Rightarrow> bool" where
  "number_char c \<longleftrightarrow> is_dec_digit c \<or> c = CHR ''-'' \<or> c = CHR ''+'' \<or> c = CHR ''.'' \<or> c = CHR ''e''"

lemma number_char_simps [simp]:
  "\<not> number_char CHR '';''" "\<not> number_char CHR '':''" "\<not> number_char CHR ''=''" "\<not> number_char CHR ''x''"
  "\<not> number_char CHR ''y''" "\<not> number_char CHR ''z''" "\<not> number_char CHR ''w''" "\<not> number_char CHR ''l''"
  "\<not> number_char CHR ''s''" "\<not> number_char CHR '',''"
  by (simp_all add: number_char_def is_dec_digit_def)

lemma digits_number_char: "list_all is_dec_digit ds \<Longrightarrow> \<not> number_char c \<Longrightarrow> c \<notin> set ds"
  by (auto simp: list_all_iff number_char_def)

lemma show_int_chars: "\<not> number_char c \<Longrightarrow> c \<notin> set (show_int i)"
  by (rule show_int_not_in) (auto simp: number_char_def)

lemma show_u64_chars: "\<not> number_char c \<Longrightarrow> c \<notin> set (show_u64 w)"
  using digits_number_char [OF show_nat_digits] by (simp add: show_u64_def)

lemma show_float_chars: "f32_isfinite x \<Longrightarrow> \<not> number_char c \<Longrightarrow> c \<notin> set (show_float x)"
proof -
  assume x: "f32_isfinite x" and c: "\<not> number_char c"
  have n: "c \<notin> set (show_nat k)" "c \<notin> set (strip_zeros (show_pad j k))" for j k
    using digits_number_char [OF _ c] show_nat_digits strip_zeros_digits [OF show_pad_digits] by auto
  have z: "c \<noteq> CHR ''0''" "c \<noteq> CHR ''-''" "c \<noteq> CHR ''+''" "c \<noteq> CHR ''.''" "c \<noteq> CHR ''e''"
    using c by (auto simp: number_char_def is_dec_digit_def)
  then have "c \<notin> set (show_general v e)" for v e
    using n by (auto simp: show_general_def show_fraction_def show_exponent_def Let_def)
  then show ?thesis using x z by (cases x) (auto simp: show_float_def split: prod.splits)
qed

subsection \<open>Finding a field\<close>

lemma after_first_Cons:
  "after_first (c # p) (x # s) = (if x = c \<and> take (length p) s = p then Some (drop (length p) s) else after_first (c # p) s)"
  by (subst after_first.simps) simp

lemma after_first_skip: "c \<notin> set a \<Longrightarrow> after_first (c # p) (a @ s) = after_first (c # p) s"
  by (induction a) (auto simp: after_first_Cons)

lemma upto_semicolon_Cons [simp]: "CHR '';'' \<notin> set v \<Longrightarrow> upto_semicolon (v @ CHR '';'' # r) = v"
  by (induction v) (auto simp: upto_semicolon_def)

lemma upto_semicolon_all [simp]: "CHR '';'' \<notin> set v \<Longrightarrow> upto_semicolon v = v"
  by (auto simp: upto_semicolon_def takeWhile_eq_all_conv)

lemma show_float_nonempty [simp]: "show_float x \<noteq> []"
  by (auto simp: show_float_def show_general_def Let_def split: f32.splits prod.splits)

lemma show_u64_nonempty [simp]: "show_u64 w \<noteq> []"
  by (simp add: show_u64_def)

text \<open>A coordinate that can be printed and read back.\<close>

definition printable :: "f32 \<Rightarrow> bool" where
  "printable x \<longleftrightarrow> f32_isfinite x \<and> f32_isfinite (six_digit_value x)"

lemma printable_Fin: "m \<le> 2 ^ 275 \<Longrightarrow> printable (F_Fin s m)"
  by (simp add: printable_def six_digit_value_finite del: power_numeral)

lemmas scan_simps = after_first_Cons after_first_skip show_float_chars show_int_chars show_u64_chars

definition ack_six :: "MovementAck \<Rightarrow> MovementAck" where
  "ack_six ack = ack\<lparr>ma_x := six_digit_value (ma_x ack), ma_y := six_digit_value (ma_y ack), ma_z := six_digit_value (ma_z ack)\<rparr>"

definition ack_printable :: "MovementAck \<Rightarrow> bool" where
  "ack_printable ack \<longleftrightarrow> 0 < ma_sessionId ack \<and> is_int64 (ma_sessionId ack) \<and> printable (ma_x ack) \<and> printable (ma_y ack) \<and>
     printable (ma_z ack)"

lemma parse_ack_fields_eq:
  assumes "ack_printable ack"
    and "\<And>r. after_first ''x:'' (pre @ CHR '';'' # r) = after_first ''x:'' r" "\<And>r. after_first ''y:'' (pre @ CHR '';'' # r) = after_first ''y:'' r"
      "\<And>r. after_first ''z:'' (pre @ CHR '';'' # r) = after_first ''z:'' r"
      "\<And>r. after_first ''worldTick:'' (pre @ CHR '';'' # r) = after_first ''worldTick:'' r"
      "\<And>r. after_first ''lastProcessedInputSequence:'' (pre @ CHR '';'' # r) = after_first ''lastProcessedInputSequence:'' r"
  shows "parse_ack_fields (pre @ ack_fields ack) = Some (six_digit_value (ma_x ack), six_digit_value (ma_y ack),
    six_digit_value (ma_z ack), ma_worldTick ack, ma_lastProcessedInputSequence ack)"
proof -
  have fin: "f32_isfinite (ma_x ack)" "f32_isfinite (ma_y ack)" "f32_isfinite (ma_z ack)"
    and six: "parseFiniteFloat (show_float (ma_x ack)) = Some (six_digit_value (ma_x ack))"
      "parseFiniteFloat (show_float (ma_y ack)) = Some (six_digit_value (ma_y ack))"
      "parseFiniteFloat (show_float (ma_z ack)) = Some (six_digit_value (ma_z ack))"
    using assms(1) by (auto simp: ack_printable_def printable_def parse_show_float)
  have "parseAckField (pre @ ack_fields ack) ''x'' = Some (show_float (ma_x ack))"
    "parseAckField (pre @ ack_fields ack) ''y'' = Some (show_float (ma_y ack))"
    "parseAckField (pre @ ack_fields ack) ''z'' = Some (show_float (ma_z ack))"
    "parseAckField (pre @ ack_fields ack) ''worldTick'' = Some (show_u64 (ma_worldTick ack))"
    "parseAckField (pre @ ack_fields ack) ''lastProcessedInputSequence'' = Some (show_u64 (ma_lastProcessedInputSequence ack))"
    using fin by (simp_all add: parseAckField_def ack_fields_def assms(2-) scan_simps)
  then show ?thesis using six by (simp add: parse_ack_fields_def)
qed

text \<open>
  Formatting a movement ack and parsing it gives the ack back, its coordinates rounded to
  six significant digits: the session, the tick and the sequence number survive exactly.
\<close>

theorem movement_ack_roundtrip:
  assumes "ack_printable ack"
  shows "\<exists>text. formatMovementAck ack = Inr text \<and> parseMovementAck text = Inr (ack_six ack)"
proof -
  let ?s = "show_int (ma_sessionId ack)"
  have a: "0 < ma_sessionId ack" "is_int64 (ma_sessionId ack)" "f32_isfinite (ma_x ack)" "f32_isfinite (ma_y ack)" "f32_isfinite (ma_z ack)"
    using assms by (auto simp: ack_printable_def printable_def)
  have "parse_ack_fields ((''session:'' @ ?s) @ ack_fields ack) = Some (six_digit_value (ma_x ack), six_digit_value (ma_y ack),
      six_digit_value (ma_z ack), ma_worldTick ack, ma_lastProcessedInputSequence ack)"
    by (rule parse_ack_fields_eq [OF assms]) (simp_all add: scan_simps)
  moreover have "parseAckField (''session:'' @ ?s @ ack_fields ack) ''session'' = Some ?s"
    by (simp add: parseAckField_def scan_simps ack_fields_def)
  ultimately show ?thesis using a
    by (simp add: formatMovementAck_def parseMovementAck_def parse_show_int64 ack_six_def)
qed

definition sample_ack :: MovementAck where
  "sample_ack = \<lparr>ma_sessionId = 7, ma_x = F_Fin False (3 * f32_unit), ma_y = F_Fin True (250000 * f32_unit),
     ma_z = F_Fin False (0 * f32_unit), ma_worldTick = 12, ma_lastProcessedInputSequence = 5\<rparr>"

lemma sample_ack_six: "ack_six sample_ack = sample_ack"
  unfolding ack_six_def sample_ack_def by (simp only: six_digit_whole MovementAck.simps)

lemma sample_ack_printable: "ack_printable sample_ack"
  unfolding ack_printable_def sample_ack_def by (simp add: printable_Fin is_int64_def)

theorem movement_ack_roundtrip_witness:
  "\<exists>text. formatMovementAck sample_ack = Inr text \<and> parseMovementAck text = Inr sample_ack"
  using movement_ack_roundtrip [OF sample_ack_printable] by (simp add: sample_ack_six)

end
