(* ===== verification/Frame_Updates.thy ===== *)
theory Frame_Updates
  imports Move_Text World_Update Field_Inputs
begin

text \<open>
  \<open>ServerTick.cpp\<close>, \<open>WorldFrameUpdateBuilder.cpp\<close> and \<open>WorldSnapshotBuilder.cpp\<close>: how the inputs and
  the outcome of a world frame become numbered updates, and how a published update is completed for
  its recipient. The vector of updates that the C++ functions fill is returned with the builder;
  \<open>Inl\<close> carries the message of a failure, after which the updates and the counters are as the source
  leaves them.
\<close>

subsection \<open>ServerTick\<close>

record FrameActions =
  fa_worldTick :: u64
  fa_actions :: "QueuedAction list"

record ServerTick =
  tk_actionQueue :: ActionQueue
  tk_worldTick :: u64

definition ServerTick_new :: "ActionQueue \<Rightarrow> ServerTick" where
  "ServerTick_new q = \<lparr>tk_actionQueue = q, tk_worldTick = 0\<rparr>"

definition ServerTick_submit :: "Action \<Rightarrow> ServerTick \<Rightarrow> bool \<times> ServerTick" where
  "ServerTick_submit action t =
     (case ActionQueue_enqueue action (tk_actionQueue t) of
        None \<Rightarrow> (False, t) | Some q \<Rightarrow> (True, t\<lparr>tk_actionQueue := q\<rparr>))"

definition ServerTick_advanceFrame :: "ServerTick \<Rightarrow> FrameActions \<times> ServerTick" where
  "ServerTick_advanceFrame t =
     (let tick = tk_worldTick t + 1; (actions, q) = ActionQueue_takeFrame (tk_actionQueue t) in
      (\<lparr>fa_worldTick = tick, fa_actions = actions\<rparr>, t\<lparr>tk_actionQueue := q, tk_worldTick := tick\<rparr>))"

subsection \<open>WorldFrameUpdateBuilder\<close>

record UpdateBuilder =
  ub_updateSequence :: u64
  ub_eventId :: u64

definition UpdateBuilder_init :: UpdateBuilder where
  "UpdateBuilder_init = \<lparr>ub_updateSequence = 1, ub_eventId = 1\<rparr>"

type_synonym build_result = "WorldUpdate list \<times> UpdateBuilder \<times> unit result"

definition appendEvent :: "u64 \<Rightarrow> string \<Rightarrow> WorldUpdate list \<Rightarrow> UpdateBuilder \<Rightarrow> build_result" where
  "appendEvent worldTick payload updates b =
     (if ub_updateSequence b = UINT64_MAX \<or> ub_eventId b = UINT64_MAX then ([], b, Inl ''world update identity exhausted'')
      else
        let update = \<lparr>wu_version = CURRENT_PROTOCOL_VERSION, wu_kind = Event, wu_worldTick = worldTick,
                      wu_sequence = ub_updateSequence b, wu_eventId = ub_eventId b, wu_payload = payload\<rparr>;
            b' = b\<lparr>ub_updateSequence := ub_updateSequence b + 1, ub_eventId := ub_eventId b + 1\<rparr> in
        (case validateWorldUpdate update of
           Inl error \<Rightarrow> ([], b', Inl error)
         | Inr _ \<Rightarrow> (updates @ [update], b', Inr ())))"

text \<open>The loop of both \<open>build\<close> functions, over the payloads of the frame.\<close>

fun append_events :: "u64 \<Rightarrow> string list \<Rightarrow> WorldUpdate list \<Rightarrow> UpdateBuilder \<Rightarrow> build_result" where
  "append_events worldTick [] updates b = (updates, b, Inr ())"
| "append_events worldTick (payload # payloads) updates b =
     (case appendEvent worldTick payload updates b of
        (updates', b', Inl error) \<Rightarrow> (updates', b', Inl error)
      | (updates', b', Inr _) \<Rightarrow> append_events worldTick payloads updates' b')"

definition action_payload :: "QueuedAction \<Rightarrow> string" where
  "action_payload qa = ''action='' @ show_int (ac_actionType (qa_action qa)) @ '';actionSequence='' @ show_u64 (qa_sequence qa)"

definition build_actions :: "FrameActions \<Rightarrow> UpdateBuilder \<Rightarrow> build_result" where
  "build_actions frame b =
     (if length (fa_actions frame) > MAX_UPDATE_PAYLOAD then ([], b, Inl ''world frame contains too many actions'')
      else if of_nat (length (fa_actions frame)) \<ge> UINT64_MAX - ub_updateSequence b \<or>
              of_nat (length (fa_actions frame)) \<ge> UINT64_MAX - ub_eventId b
      then ([], b, Inl ''world update identity exhausted'')
      else append_events (fa_worldTick frame) (map action_payload (fa_actions frame)) [] b)"

definition movement_payload :: "MovementIntent \<Rightarrow> string" where
  "movement_payload m = ''movement=session:'' @ show_int (mi_sessionId m) @ '';dx='' @ show_float (mi_dx m) @
     '';dy='' @ show_float (mi_dy m) @ '';dz='' @ show_float (mi_dz m) @
     '';clientInputSequence='' @ show_u64 (mi_clientInputSequence m)"

definition input_payload :: "WorldInput \<Rightarrow> string" where
  "input_payload i =
     (case wi_body i of
        ActionInput a \<Rightarrow> ''action='' @ show_int (ac_actionType a)
      | MovementInput m \<Rightarrow> movement_payload m
      | CombatInput c \<Rightarrow> ''combat=attacker:'' @ show_int (ci_attackerId c) @ '';target:'' @ show_int (ci_targetId c) @
          '';power:'' @ show_float (ci_power c) @ '';requestId:'' @ ci_requestId c
      | SpellInput s \<Rightarrow> ''spell=caster:'' @ show_int (sp_casterId s) @ '';target:'' @ show_int (sp_targetId s) @
          '';element:'' @ sp_element s @ '';power:'' @ show_float (sp_power s) @ '';requestId:'' @ sp_requestId s
      | ChatInput c \<Rightarrow> ''chat=sender:'' @ show_int (ct_senderId c) @ '';audience:'' @ ct_audience c @
          '';message:'' @ ct_message c) @
     '';inputSequence='' @ show_u64 (wi_sequence i)"

definition build_inputs :: "WorldFrameInputs \<Rightarrow> UpdateBuilder \<Rightarrow> build_result" where
  "build_inputs frame b =
     (if length (wf_inputs frame) > MAX_UPDATE_PAYLOAD then ([], b, Inl ''world frame contains too many inputs'')
      else append_events (wf_worldTick frame) (map input_payload (wf_inputs frame)) [] b)"

definition appendHazard :: "u64 \<Rightarrow> f32 \<Rightarrow> f32 \<Rightarrow> WorldUpdate list \<Rightarrow> UpdateBuilder \<Rightarrow> build_result" where
  "appendHazard worldTick severity instability updates b =
     (if \<not> f32_isfinite severity \<or> \<not> f32_isfinite instability \<or> f32_le severity f32_zero \<or> f32_le instability (f32_lit 1 1)
      then (updates, b, Inl ''world hazard is invalid'')
      else appendEvent worldTick
        (''etherHazard=severity:'' @ show_float severity @ '';instability:'' @ show_float instability) updates b)"

definition resolution_payload :: "CombatResolution \<Rightarrow> string" where
  "resolution_payload r =
     (if \<not> cr_spell r then
        ''combatResult=attacker:'' @ show_int (cr_actorId r) @ '';target:'' @ show_int (cr_targetId r) @
        '';damage:'' @ show_int (cr_damage r) @ '';remainingHp:'' @ show_int (cr_remainingHp r) @
        '';mpSpent:'' @ show_int (cr_mpSpent r) @ '';cooldownUntil:'' @ show_u64 (cr_cooldownUntil r) @
        '';requestId:'' @ cr_requestId r @ '';inputSequence:'' @ show_u64 (cr_inputSequence r)
      else
        ''spellResult=caster:'' @ show_int (cr_actorId r) @ '';target:'' @ show_int (cr_targetId r) @
        '';element:'' @ cr_element r @ '';basePower:'' @ show_float (cr_basePower r) @
        '';effectivePower:'' @ show_float (cr_effectivePower r) @ '';damage:'' @ show_int (cr_damage r) @
        '';remainingHp:'' @ show_int (cr_remainingHp r) @ '';mpSpent:'' @ show_int (cr_mpSpent r) @
        '';cooldownUntil:'' @ show_u64 (cr_cooldownUntil r) @ '';requestId:'' @ cr_requestId r @
        '';etherDelta:fire='' @ show_float (cr_etherDelta r ! 0) @ '',water='' @ show_float (cr_etherDelta r ! 1) @
        '',earth='' @ show_float (cr_etherDelta r ! 2) @ '',air='' @ show_float (cr_etherDelta r ! 3) @
        '';inputSequence:'' @ show_u64 (cr_inputSequence r))"

definition appendCombatResolution :: "u64 \<Rightarrow> CombatResolution \<Rightarrow> WorldUpdate list \<Rightarrow> UpdateBuilder \<Rightarrow> build_result" where
  "appendCombatResolution worldTick resolution updates b = appendEvent worldTick (resolution_payload resolution) updates b"

definition appendSnapshot :: "u64 \<Rightarrow> string \<Rightarrow> WorldUpdate list \<Rightarrow> UpdateBuilder \<Rightarrow> build_result" where
  "appendSnapshot worldTick payload updates b =
     (if ub_updateSequence b = UINT64_MAX then (updates, b, Inl ''world update identity exhausted'')
      else
        let update = \<lparr>wu_version = CURRENT_PROTOCOL_VERSION, wu_kind = Snapshot, wu_worldTick = worldTick,
                      wu_sequence = ub_updateSequence b, wu_eventId = 0, wu_payload = payload\<rparr>;
            b' = b\<lparr>ub_updateSequence := ub_updateSequence b + 1\<rparr> in
        (case validateWorldUpdate update of
           Inl error \<Rightarrow> (updates, b', Inl error)
         | Inr _ \<Rightarrow> (updates @ [update], b', Inr ())))"

subsection \<open>The copy for one session\<close>

text \<open>\<open>update.payload.append(extra); validateWorldUpdate(update, error)\<close>\<close>

definition attach :: "string \<Rightarrow> WorldUpdate \<Rightarrow> WorldUpdate result" where
  "attach extra update =
     (let u = update\<lparr>wu_payload := wu_payload update @ extra\<rparr> in
      case validateWorldUpdate u of Inl error \<Rightarrow> Inl error | Inr _ \<Rightarrow> Inr u)"

definition attachOwnerAckFields :: "WorldUpdate \<Rightarrow> MovementAck \<Rightarrow> WorldUpdate result" where
  "attachOwnerAckFields update ack =
     (case formatMovementAck ack of Inl error \<Rightarrow> Inl error | Inr _ \<Rightarrow> attach (ack_fields ack) update)"

definition attachPublicPoseFields :: "WorldUpdate \<Rightarrow> MovementAck \<Rightarrow> WorldUpdate result" where
  "attachPublicPoseFields update ack =
     (if \<not> f32_isfinite (ma_x ack) \<or> \<not> f32_isfinite (ma_y ack) \<or> \<not> f32_isfinite (ma_z ack)
      then Inl ''public movement pose contains invalid state''
      else attach ('';x='' @ show_float (ma_x ack) @ '';y='' @ show_float (ma_y ack) @ '';z='' @ show_float (ma_z ack)) update)"

definition attachLocalSnapshotFields :: "WorldUpdate \<Rightarrow> MovementAck \<Rightarrow> WorldUpdate result" where
  "attachLocalSnapshotFields update ack =
     (if \<not> f32_isfinite (ma_x ack) \<or> \<not> f32_isfinite (ma_y ack) \<or> \<not> f32_isfinite (ma_z ack)
      then Inl ''snapshot local pose contains invalid state''
      else attach ('';local.x='' @ show_float (ma_x ack) @ '';local.y='' @ show_float (ma_y ack) @
        '';local.z='' @ show_float (ma_z ack) @
        '';local.lastProcessedInputSequence='' @ show_u64 (ma_lastProcessedInputSequence ack)) update)"

definition findOwnerAck :: "MovementAck list \<Rightarrow> int \<Rightarrow> MovementAck option" where
  "findOwnerAck ownerAcks sessionId = List.find (\<lambda>ack. ma_sessionId ack = sessionId) ownerAcks"

definition copyWorldUpdateForSession :: "WorldUpdate \<Rightarrow> int \<Rightarrow> MovementAck list \<Rightarrow> WorldUpdate result" where
  "copyWorldUpdateForSession publicUpdate recipientSessionId ownerAcks =
     (if wu_kind publicUpdate = Snapshot then
        (case findOwnerAck ownerAcks recipientSessionId of
           None \<Rightarrow> Inr publicUpdate | Some ack \<Rightarrow> attachLocalSnapshotFields publicUpdate ack)
      else case parseMovementEventSession (wu_payload publicUpdate) of
        None \<Rightarrow> Inr publicUpdate
      | Some movementSession \<Rightarrow>
          (case findOwnerAck ownerAcks movementSession of
             None \<Rightarrow> Inr publicUpdate
           | Some ack \<Rightarrow>
               if movementSession = recipientSessionId then attachOwnerAckFields publicUpdate ack
               else attachPublicPoseFields publicUpdate ack))"

subsection \<open>WorldSnapshotBuilder\<close>

definition npc_invalid :: "NpcSnapshot \<Rightarrow> bool" where
  "npc_invalid npc \<longleftrightarrow> ns_id npc \<le> 0 \<or> ns_type npc = [] \<or> length (ns_type npc) > 32 \<or> \<not> f32_isfinite (ns_x npc) \<or>
     \<not> f32_isfinite (ns_y npc) \<or> \<not> f32_isfinite (ns_z npc) \<or> ns_hp npc < 0 \<or> \<not> ns_alive npc"

definition npc_text :: "nat \<Rightarrow> NpcSnapshot \<Rightarrow> string" where
  "npc_text i npc = (let key = \<lambda>name. '';npc.'' @ show_nat i @ ''.'' @ name @ ''='' in
     key ''id'' @ show_int (ns_id npc) @ key ''type'' @ ns_type npc @ key ''x'' @ show_float (ns_x npc) @
     key ''y'' @ show_float (ns_y npc) @ key ''z'' @ show_float (ns_z npc) @ key ''hp'' @ show_int (ns_hp npc) @
     key ''alive'' @ ''1'')"

definition pose_invalid :: "PlayerPoseSnapshot \<Rightarrow> bool" where
  "pose_invalid p \<longleftrightarrow> pp_sessionId p \<le> 0 \<or> \<not> f32_isfinite (pp_x p) \<or> \<not> f32_isfinite (pp_y p) \<or> \<not> f32_isfinite (pp_z p) \<or>
     isEmptyPlayerName (pp_name p) \<or> CHR '';'' \<in> set (pp_name p) \<or> CHR ''='' \<in> set (pp_name p)"

definition pose_text :: "nat \<Rightarrow> PlayerPoseSnapshot \<Rightarrow> string" where
  "pose_text i p = (let key = \<lambda>name. '';player.'' @ show_nat i @ ''.'' @ name @ ''='' in
     key ''session'' @ show_int (pp_sessionId p) @ key ''x'' @ show_float (pp_x p) @ key ''y'' @ show_float (pp_y p) @
     key ''z'' @ show_float (pp_z p) @ (if pp_gameplayId p > 0 then key ''id'' @ show_int (pp_gameplayId p) else []) @
     key ''name'' @ pp_name p)"

text \<open>The two index loops: the text of all entries, or failure at the first bad one.\<close>

fun entries_text :: "('a \<Rightarrow> bool) \<Rightarrow> (nat \<Rightarrow> 'a \<Rightarrow> string) \<Rightarrow> nat \<Rightarrow> 'a list \<Rightarrow> string option" where
  "entries_text bad show_entry i [] = Some []"
| "entries_text bad show_entry i (x # xs) =
     (if bad x then None else map_option (\<lambda>s. show_entry i x @ s) (entries_text bad show_entry (Suc i) xs))"

definition formatPayload :: "EnvironmentEther \<Rightarrow> f32 \<Rightarrow> NpcSnapshot list \<Rightarrow> PlayerPoseSnapshot list \<Rightarrow> string result" where
  "formatPayload ether hazard npcs players =
     (if \<not> f32_isfinite hazard \<or> f32_lt hazard f32_zero then Inl ''snapshot hazard is invalid''
      else case entries_text npc_invalid npc_text 0 npcs of
        None \<Rightarrow> Inl ''public NPC snapshot contains invalid state''
      | Some npcText \<Rightarrow>
          (case entries_text pose_invalid pose_text 0 players of
             None \<Rightarrow> Inl ''public player snapshot contains invalid state''
           | Some playerText \<Rightarrow>
               Inr (''ether.fire='' @ show_float (EnvironmentEther_value ether Fire) @
                 '';ether.water='' @ show_float (EnvironmentEther_value ether Water) @
                 '';ether.earth='' @ show_float (EnvironmentEther_value ether Earth) @
                 '';ether.air='' @ show_float (EnvironmentEther_value ether Air) @
                 '';ether.hazard='' @ show_float hazard @ '';npc.count='' @ show_nat (length npcs) @ npcText @
                 '';player.count='' @ show_nat (length players) @ playerText)))"

text \<open>\<open>WorldSnapshotBuilder::build\<close>; the builder is its sequence number.\<close>

definition SnapshotBuilder_build :: "u64 \<Rightarrow> EnvironmentEther \<Rightarrow> f32 \<Rightarrow> NpcSnapshot list \<Rightarrow> PlayerPoseSnapshot list \<Rightarrow>
    u64 \<Rightarrow> u64 \<times> WorldUpdate result" where
  "SnapshotBuilder_build worldTick ether hazard npcs players sq =
     (if sq = UINT64_MAX then (sq, Inl ''snapshot sequence exhausted'')
      else case formatPayload ether hazard npcs players of
        Inl error \<Rightarrow> (sq, Inl error)
      | Inr payload \<Rightarrow>
          let snapshot = \<lparr>wu_version = CURRENT_PROTOCOL_VERSION, wu_kind = Snapshot, wu_worldTick = worldTick,
                          wu_sequence = sq, wu_eventId = 0, wu_payload = payload\<rparr> in
          (sq + 1, case validateWorldUpdate snapshot of Inl error \<Rightarrow> Inl error | Inr _ \<Rightarrow> Inr snapshot))"

subsection \<open>Numbering\<close>

text \<open>The valid updates \<open>us\<close> carry exactly the sequence numbers between two states of the builder.\<close>

definition emitted :: "UpdateBuilder \<Rightarrow> WorldUpdate list \<Rightarrow> UpdateBuilder \<Rightarrow> bool" where
  "emitted b us b' \<longleftrightarrow> unat (ub_updateSequence b) \<le> unat (ub_updateSequence b') \<and>
     map (unat \<circ> wu_sequence) us = [unat (ub_updateSequence b) ..< unat (ub_updateSequence b')] \<and>
     list_all (\<lambda>u. validateWorldUpdate u = Inr ()) us"

definition advanced :: "UpdateBuilder \<Rightarrow> UpdateBuilder \<Rightarrow> bool" where
  "advanced b b' \<longleftrightarrow> unat (ub_updateSequence b) \<le> unat (ub_updateSequence b')"

lemma emitted_Nil [simp]: "emitted b [] b"
  by (simp add: emitted_def)

lemma emitted_trans: "emitted b us b' \<Longrightarrow> emitted b' vs b'' \<Longrightarrow> emitted b (us @ vs) b''"
proof -
  have "[i ..< j] @ [j ..< k] = [i ..< k]" if "i \<le> j" "j \<le> k" for i j k :: nat
    using that upt_add_eq_append [of i j "k - j"] by simp
  then show "emitted b us b' \<Longrightarrow> emitted b' vs b'' \<Longrightarrow> emitted b (us @ vs) b''" by (auto simp: emitted_def)
qed

lemma emitted_length: "emitted b us b' \<Longrightarrow> unat (ub_updateSequence b') = unat (ub_updateSequence b) + length us"
  by (auto simp: emitted_def dest!: arg_cong [of _ _ length])

lemma emitted_advanced: "emitted b us b' \<Longrightarrow> advanced b b'"
  by (simp add: emitted_def advanced_def)

lemma advanced_refl [simp]: "advanced b b"
  by (simp add: advanced_def)

lemma advanced_trans: "advanced b b' \<Longrightarrow> advanced b' b'' \<Longrightarrow> advanced b b''"
  by (simp add: advanced_def)

text \<open>The two ways an append can end.\<close>

lemma appendEvent_outcome:
  assumes "appendEvent t p us b = (us', b', r)"
  shows "(r = Inr () \<and> (\<exists>u. us' = us @ [u] \<and> emitted b [u] b' \<and> wu_kind u = Event \<and> wu_worldTick u = t \<and> wu_payload u = p)) \<or>
    (r \<noteq> Inr () \<and> us' = [] \<and> advanced b b')"
  using assms u64_Suc_unat [of "ub_updateSequence b"]
  by (auto simp: appendEvent_def emitted_def advanced_def Let_def split: if_splits sum.splits)

lemma appendSnapshot_outcome:
  assumes "appendSnapshot t p us b = (us', b', r)"
  shows "(r = Inr () \<and> (\<exists>u. us' = us @ [u] \<and> emitted b [u] b' \<and> wu_kind u = Snapshot \<and> wu_worldTick u = t \<and> wu_payload u = p)) \<or>
    (r \<noteq> Inr () \<and> us' = us \<and> advanced b b')"
  using assms u64_Suc_unat [of "ub_updateSequence b"]
  by (auto simp: appendSnapshot_def emitted_def advanced_def Let_def split: if_splits sum.splits)

lemma append_events_outcome:
  assumes "append_events t ps us b = (us', b', r)"
  shows "(r = Inr () \<and> (\<exists>vs. us' = us @ vs \<and> emitted b vs b' \<and> map wu_payload vs = ps \<and>
      list_all (\<lambda>u. wu_kind u = Event \<and> wu_worldTick u = t) vs)) \<or>
    (r \<noteq> Inr () \<and> us' = [] \<and> advanced b b')"
  using assms
proof (induction ps arbitrary: us b)
  case (Cons p ps)
  obtain us1 b1 r1 where a: "appendEvent t p us b = (us1, b1, r1)" by (metis prod_cases3)
  from appendEvent_outcome [OF a] show ?case
  proof (elim disjE conjE exE)
    fix u
    assume u: "r1 = Inr ()" "us1 = us @ [u]" "emitted b [u] b1" "wu_kind u = Event" "wu_worldTick u = t" "wu_payload u = p"
    then have "append_events t ps us1 b1 = (us', b', r)" using Cons.prems a by simp
    from Cons.IH [OF this] show ?thesis
    proof (elim disjE conjE exE)
      fix vs
      assume "r = Inr ()" "us' = us1 @ vs" "emitted b1 vs b'" "map wu_payload vs = ps"
        "list_all (\<lambda>u. wu_kind u = Event \<and> wu_worldTick u = t) vs"
      then show ?thesis using u emitted_trans [of b "[u]" b1 vs b'] by (intro disjI1 conjI exI [of _ "u # vs"]) simp_all
    next
      assume "us' = []" "advanced b1 b'" "r \<noteq> Inr ()"
      then show ?thesis using emitted_advanced [OF u(3)] advanced_trans by blast
    qed
  next
    assume r1: "r1 \<noteq> Inr ()" "us1 = []" "advanced b b1"
    then obtain e where "r1 = Inl e" by (cases r1) auto
    then show ?thesis using r1 Cons.prems a by auto
  qed
qed simp

lemma build_inputs_outcome:
  assumes "build_inputs frame b = (us, b', r)"
  shows "(r = Inr () \<and> emitted b us b' \<and> map wu_payload us = map input_payload (wf_inputs frame)) \<or>
    (r \<noteq> Inr () \<and> us = [] \<and> advanced b b')"
  using assms append_events_outcome [of "wf_worldTick frame" "map input_payload (wf_inputs frame)" "[]" b us b' r]
  by (auto simp: build_inputs_def split: if_splits)

lemma build_actions_outcome:
  assumes "build_actions frame b = (us, b', r)"
  shows "(r = Inr () \<and> emitted b us b' \<and> map wu_payload us = map action_payload (fa_actions frame)) \<or>
    (r \<noteq> Inr () \<and> us = [] \<and> advanced b b')"
  using assms append_events_outcome [of "fa_worldTick frame" "map action_payload (fa_actions frame)" "[]" b us b' r]
  by (auto simp: build_actions_def split: if_splits)

lemma appendHazard_outcome:
  assumes "appendHazard t s i us b = (us', b', r)"
  shows "(r = Inr () \<and> (\<exists>u. us' = us @ [u] \<and> emitted b [u] b')) \<or> (r \<noteq> Inr () \<and> advanced b b')"
  using assms appendEvent_outcome by (fastforce simp: appendHazard_def split: if_splits)

subsection \<open>What a recipient can read\<close>

lemma split_at_Cons: "split_at c (x # s) = (if x = c then Some ([], s) else map_option (\<lambda>(a, b). (x # a, b)) (split_at c s))"
  by (auto simp: split_at_def)

lemma getlines_Cons: "c \<notin> set a \<Longrightarrow> getlines c (a @ c # s) = a # getlines c s"
  by (subst getlines.simps) (auto simp: takeWhile_append dropWhile_append)

lemma getlines_last: "c \<notin> set a \<Longrightarrow> a \<noteq> [] \<Longrightarrow> getlines c a = [a]"
proof -
  assume a: "c \<notin> set a" "a \<noteq> []"
  then have "takeWhile (\<lambda>x. x \<noteq> c) a = a" "tl (dropWhile (\<lambda>x. x \<noteq> c) a) = []"
    by (metis (mono_tags, lifting) takeWhile_eq_all_conv, metis (mono_tags, lifting) dropWhile_eq_Nil_conv list.sel(2))
  then show ?thesis using a(2) getlines.simps [of c a] getlines.simps [of c "[]"] by metis
qed

definition movement_ok :: "MovementIntent \<Rightarrow> bool" where
  "movement_ok m \<longleftrightarrow> 0 < mi_sessionId m \<and> is_int64 (mi_sessionId m) \<and> f32_isfinite (mi_dx m) \<and> f32_isfinite (mi_dy m) \<and> f32_isfinite (mi_dz m)"

lemma event_session:
  assumes "movement_ok m"
  shows "parseMovementEventSession (movement_payload m @ r) = Some (mi_sessionId m)"
  using assms by (simp add: parseMovementEventSession_def movement_payload_def movement_ok_def parse_show_int64 show_int_chars)

text \<open>The movement event of an input, before and after a copy is completed.\<close>

definition event_text :: "MovementIntent \<Rightarrow> u64 \<Rightarrow> string" where
  "event_text m sq = movement_payload m @ '';inputSequence='' @ show_u64 sq"

lemma event_text_eq: "input_payload \<lparr>wi_sequence = sq, wi_body = MovementInput m\<rparr> = event_text m sq"
  by (simp add: input_payload_def event_text_def)

lemma event_text_session: "movement_ok m \<Longrightarrow> parseMovementEventSession (event_text m sq @ r) = Some (mi_sessionId m)"
  using event_session [of m "'';inputSequence='' @ show_u64 sq @ r"] by (simp add: event_text_def)

lemma event_ack_fields:
  assumes "movement_ok m" "ack_printable ack"
  shows "parse_ack_fields (event_text m sq @ ack_fields ack) = Some (six_digit_value (ma_x ack), six_digit_value (ma_y ack),
    six_digit_value (ma_z ack), ma_worldTick ack, ma_lastProcessedInputSequence ack)"
  using assms(1)
  by (intro parse_ack_fields_eq [OF assms(2)]) (simp_all add: event_text_def movement_payload_def movement_ok_def scan_simps)

lemma after_first_None: "c \<notin> set s \<Longrightarrow> after_first (c # p) s = None"
  using after_first_skip [of c s p "[]"] by (simp add: after_first.simps)

lemma public_no_ack:
  assumes "movement_ok m" "f32_isfinite x" "f32_isfinite y" "f32_isfinite z"
  shows "parse_ack_fields (event_text m sq @ '';x='' @ show_float x @ '';y='' @ show_float y @ '';z='' @ show_float z) = None"
proof -
  have "after_first ''x:'' (event_text m sq @ '';x='' @ show_float x @ '';y='' @ show_float y @ '';z='' @ show_float z) = None"
    using assms by (simp add: event_text_def movement_payload_def movement_ok_def scan_simps after_first_None)
  then show ?thesis by (simp add: parse_ack_fields_def parseAckField_def)
qed

lemma public_pose_loop:
  assumes "movement_ok m" "printable x" "printable y" "printable z"
  shows "pose_loop (getlines CHR '';'' (event_text m sq @ '';x='' @ show_float x @ '';y='' @ show_float y @ '';z='' @ show_float z))
    (None, None, None) = Some (Some (six_digit_value x), Some (six_digit_value y), Some (six_digit_value z))"
proof -
  have fin: "f32_isfinite x" "f32_isfinite y" "f32_isfinite z" "f32_isfinite (mi_dx m)" "f32_isfinite (mi_dy m)" "f32_isfinite (mi_dz m)"
    using assms by (auto simp: printable_def movement_ok_def)
  let ?fs = "[''movement=session:'' @ show_int (mi_sessionId m), ''dx='' @ show_float (mi_dx m), ''dy='' @ show_float (mi_dy m),
    ''dz='' @ show_float (mi_dz m), ''clientInputSequence='' @ show_u64 (mi_clientInputSequence m), ''inputSequence='' @ show_u64 sq,
    ''x='' @ show_float x, ''y='' @ show_float y, ''z='' @ show_float z]"
  let ?semi = "CHR '';''"
  have "getlines ?semi (event_text m sq @ '';x='' @ show_float x @ '';y='' @ show_float y @ '';z='' @ show_float z) = ?fs"
    using fin getlines_Cons [of ?semi "''movement=session:'' @ show_int (mi_sessionId m)"] getlines_Cons [of ?semi "''dx='' @ show_float (mi_dx m)"]
      getlines_Cons [of ?semi "''dy='' @ show_float (mi_dy m)"] getlines_Cons [of ?semi "''dz='' @ show_float (mi_dz m)"]
      getlines_Cons [of ?semi "''clientInputSequence='' @ show_u64 (mi_clientInputSequence m)"]
      getlines_Cons [of ?semi "''inputSequence='' @ show_u64 sq"] getlines_Cons [of ?semi "''x='' @ show_float x"]
      getlines_Cons [of ?semi "''y='' @ show_float y"] getlines_last [of ?semi "''z='' @ show_float z"]
    by (simp add: event_text_def movement_payload_def show_int_chars show_float_chars show_u64_chars)
  moreover have "pose_loop ?fs (None, None, None) = Some (Some (six_digit_value x), Some (six_digit_value y), Some (six_digit_value z))"
    using assms fin by (simp add: split_at_Cons parse_show_float printable_def)
  ultimately show ?thesis by simp
qed

lemma attach_Inr: "attach extra u = Inr v \<Longrightarrow> v = u\<lparr>wu_payload := wu_payload u @ extra\<rparr> \<and> validateWorldUpdate v = Inr ()"
  by (auto simp: attach_def Let_def split: sum.splits)

lemma copy_movement:
  assumes m: "movement_ok m" and ack: "ack_printable ack" "findOwnerAck acks (mi_sessionId m) = Some ack"
    and u: "wu_kind u = Event" "wu_payload u = event_text m sq" and v: "copyWorldUpdateForSession u sid acks = Inr v"
  shows "v = u\<lparr>wu_payload := event_text m sq @ (if sid = mi_sessionId m then ack_fields ack
    else '';x='' @ show_float (ma_x ack) @ '';y='' @ show_float (ma_y ack) @ '';z='' @ show_float (ma_z ack))\<rparr>"
proof -
  have s: "parseMovementEventSession (event_text m sq) = Some (mi_sessionId m)" using event_text_session [OF m, of sq "[]"] by simp
  show ?thesis using v u ack
    by (auto simp: copyWorldUpdateForSession_def s attachOwnerAckFields_def attachPublicPoseFields_def
        dest!: attach_Inr split: if_splits sum.splits)
qed

text \<open>
  The copy of a movement event that a session receives. The header, the sequence number
  above all, is that of the public update. The owner's client reads the ack out of it; every other
  session reads the public pose and finds no ack (coordinates to six digits).
\<close>

theorem movement_copies:
  assumes "movement_ok m" and "ack_printable ack" and "findOwnerAck acks (mi_sessionId m) = Some ack"
    and "wu_kind u = Event" and "wu_payload u = input_payload \<lparr>wi_sequence = sq, wi_body = MovementInput m\<rparr>"
    and "copyWorldUpdateForSession u sid acks = Inr v"
  shows "v = u\<lparr>wu_payload := wu_payload v\<rparr> \<and>
    (if sid = mi_sessionId m then tryParseAttachedMovementAck (wu_payload v) = Some (ack_six ack)
     else tryParseAttachedMovementAck (wu_payload v) = None \<and>
       tryParsePublicMovementPose (wu_payload v) = Some \<lparr>pm_sessionId = mi_sessionId m, pm_x = six_digit_value (ma_x ack),
         pm_y = six_digit_value (ma_y ack), pm_z = six_digit_value (ma_z ack)\<rparr>)"
proof -
  note v = copy_movement [OF assms(1-4) _ assms(6), of sq]
  have id: "ma_sessionId ack = mi_sessionId m" using assms(3) by (auto simp: findOwnerAck_def find_Some_iff)
  have fin: "f32_isfinite (ma_x ack)" "f32_isfinite (ma_y ack)" "f32_isfinite (ma_z ack)"
    "printable (ma_x ack)" "printable (ma_y ack)" "printable (ma_z ack)"
    using assms(2) by (auto simp: ack_printable_def printable_def)
  show ?thesis
  proof (cases "sid = mi_sessionId m")
    case True
    then show ?thesis using v assms(5) event_text_session [OF assms(1)] event_ack_fields [OF assms(1,2)] id
      by (simp add: event_text_eq tryParseAttachedMovementAck_def ack_six_def)
  next
    case False
    then show ?thesis using v assms(5) event_text_session [OF assms(1)] public_no_ack [OF assms(1) fin(1-3)] public_pose_loop [OF assms(1) fin(4-6)]
      by (simp add: event_text_eq tryParseAttachedMovementAck_def tryParsePublicMovementPose_def)
  qed
qed

definition still_move :: MovementIntent where
  "still_move = \<lparr>mi_sequence = 0, mi_sessionId = 7, mi_dx = f32_zero, mi_dy = f32_zero, mi_dz = f32_zero, mi_clientInputSequence = 5\<rparr>"

definition still_ack :: MovementAck where
  "still_ack = \<lparr>ma_sessionId = 7, ma_x = f32_zero, ma_y = f32_zero, ma_z = f32_zero, ma_worldTick = 2, ma_lastProcessedInputSequence = 5\<rparr>"

definition still_event :: WorldUpdate where
  "still_event = \<lparr>wu_version = CURRENT_PROTOCOL_VERSION, wu_kind = Event, wu_worldTick = 2, wu_sequence = 3, wu_eventId = 3,
     wu_payload = input_payload \<lparr>wi_sequence = 9, wi_body = MovementInput still_move\<rparr>\<rparr>"

lemma still_ok: "movement_ok still_move" "ack_printable still_ack" "findOwnerAck [still_ack] (mi_sessionId still_move) = Some still_ack"
  by (simp_all add: movement_ok_def still_move_def still_ack_def findOwnerAck_def ack_printable_def printable_Fin is_int64_def)

lemma show_float_zero [simp]: "show_float f32_zero = ''0''"
  by (simp add: show_float_def)

lemma still_copy: "\<exists>v. copyWorldUpdateForSession still_event 8 [still_ack] = Inr v"
proof -
  have p: "wu_payload still_event = event_text still_move 9" "wu_kind still_event = Event" by (simp_all add: still_event_def event_text_eq)
  have s: "parseMovementEventSession (wu_payload still_event) = Some 7"
    using event_text_session [OF still_ok(1), of 9 "[]"] p(1) by (simp add: still_move_def)
  have "findOwnerAck [still_ack] 7 = Some still_ack" by (simp add: findOwnerAck_def still_ack_def)
  then have "copyWorldUpdateForSession still_event 8 [still_ack] = attachPublicPoseFields still_event still_ack"
    using s p(2) by (simp add: copyWorldUpdateForSession_def)
  also have "\<dots> = attach '';x=0;y=0;z=0'' still_event" by (simp add: attachPublicPoseFields_def still_ack_def)
  also have "\<exists>v. \<dots> = Inr v"
    by (simp add: attach_def validateWorldUpdate_def still_event_def isKnownUpdateKind_def event_text_eq event_text_def
        movement_payload_def still_move_def show_int_def show_u64_def show_nat.simps)
  finally show ?thesis .
qed

theorem movement_copies_witness:
  "\<exists>v. copyWorldUpdateForSession still_event 8 [still_ack] = Inr v \<and> tryParseAttachedMovementAck (wu_payload v) = None"
proof -
  obtain v where v: "copyWorldUpdateForSession still_event 8 [still_ack] = Inr v" using still_copy by blast
  have "(8 :: int) \<noteq> mi_sessionId still_move" by (simp add: still_move_def)
  then show ?thesis using movement_copies [OF still_ok _ _ v, of 9] v by (simp add: still_event_def)
qed

end
