(* ===== verification/Frame_Applier.thy ===== *)
theory Frame_Applier
  imports Frame_Updates
begin

text \<open>
  \<open>WorldFrameApplier.cpp\<close>: a frame of inputs (or of actions, movement intents and NPC decisions) is
  applied to the field and turned into numbered updates and owner acks. The field and the two optional
  queues the C++ object refers to are passed along. An outcome is the updates, the result, the applier
  and the field; \<open>None\<close> around it is undefined behaviour inside \<open>Field::processInputs\<close>.
\<close>

record Applier =
  ap_movementQueue :: "MovementIntentQueue option"
  ap_npcAiInputQueue :: "NpcAiInputQueue option"
  ap_updateBuilder :: UpdateBuilder
  ap_ownerAcks :: "MovementAck list"
  ap_snapshotAcks :: "MovementAck list"
  ap_lastProcessedBySession :: "(int, u64) std_map"

definition Applier_new :: "MovementIntentQueue option \<Rightarrow> NpcAiInputQueue option \<Rightarrow> Applier" where
  "Applier_new movementQueue npcAiInputQueue =
     \<lparr>ap_movementQueue = movementQueue, ap_npcAiInputQueue = npcAiInputQueue, ap_updateBuilder = UpdateBuilder_init,
      ap_ownerAcks = [], ap_snapshotAcks = [], ap_lastProcessedBySession = []\<rparr>"

type_synonym apply_outcome = "WorldUpdate list \<times> unit result \<times> Applier \<times> Field"

subsection \<open>Owner acks\<close>

definition recordOwnerAck :: "Field \<Rightarrow> u64 \<Rightarrow> int \<times> u64 \<Rightarrow> Applier \<Rightarrow> Applier" where
  "recordOwnerAck f worldTick entry ap =
     (case entry of (sessionId, lastProcessed) \<Rightarrow>
        case Field_findPlayer f sessionId of
          None \<Rightarrow> ap
        | Some player \<Rightarrow>
            let pose = pl_position player;
                ack = \<lparr>ma_sessionId = sessionId, ma_x = pos_x pose, ma_y = pos_y pose, ma_z = pos_z pose,
                       ma_worldTick = worldTick, ma_lastProcessedInputSequence = lastProcessed\<rparr>;
                previous = lookup_or_zero (ap_lastProcessedBySession ap) sessionId in
            ap\<lparr>ap_ownerAcks := ap_ownerAcks ap @ [ack],
               ap_lastProcessedBySession := map_put sessionId (if lastProcessed > previous then lastProcessed else previous)
                 (ap_lastProcessedBySession ap)\<rparr>)"

text \<open>The maps \<open>moved\<close> and \<open>lastProcessed\<close> have the same keys; the highest client sequence per session.\<close>

definition note_move :: "MovementIntent \<Rightarrow> (int, u64) std_map \<Rightarrow> (int, u64) std_map" where
  "note_move m acc =
     (let current = lookup_or_zero acc (mi_sessionId m) in
      map_put (mi_sessionId m) (if mi_clientInputSequence m > current then mi_clientInputSequence m else current) acc)"

definition last_processed :: "MovementIntent list \<Rightarrow> (int, u64) std_map" where
  "last_processed ms = fold note_move ms []"

definition record_acks :: "Field \<Rightarrow> u64 \<Rightarrow> MovementIntent list \<Rightarrow> Applier \<Rightarrow> Applier" where
  "record_acks f worldTick ms ap = fold (recordOwnerAck f worldTick) (last_processed ms) ap"

subsection \<open>\<open>apply(FrameActions)\<close>\<close>

definition restore_moves :: "MovementIntent list \<Rightarrow> Applier \<Rightarrow> Applier" where
  "restore_moves intents ap =
     (case ap_movementQueue ap of
        None \<Rightarrow> ap
      | Some q \<Rightarrow> (case MovementIntentQueue_restoreFrame intents q of
                     None \<Rightarrow> ap | Some q' \<Rightarrow> ap\<lparr>ap_movementQueue := Some q'\<rparr>))"

definition restore_npcs :: "NpcAiInput list \<Rightarrow> Applier \<Rightarrow> Applier" where
  "restore_npcs inputs ap =
     (case ap_npcAiInputQueue ap of
        None \<Rightarrow> ap
      | Some q \<Rightarrow> (case NpcAiInputQueue_restoreFrame inputs q of
                     None \<Rightarrow> ap | Some q' \<Rightarrow> ap\<lparr>ap_npcAiInputQueue := Some q'\<rparr>))"

definition take_moves :: "Applier \<Rightarrow> MovementIntent list \<times> Applier" where
  "take_moves ap =
     (case ap_movementQueue ap of
        None \<Rightarrow> ([], ap)
      | Some q \<Rightarrow> (case MovementIntentQueue_takeFrame q of (intents, q') \<Rightarrow> (intents, ap\<lparr>ap_movementQueue := Some q'\<rparr>)))"

definition take_npcs :: "Applier \<Rightarrow> NpcAiInput list \<times> Applier" where
  "take_npcs ap =
     (case ap_npcAiInputQueue ap of
        None \<Rightarrow> ([], ap)
      | Some q \<Rightarrow> (case NpcAiInputQueue_takeFrame q of (inputs, q') \<Rightarrow> (inputs, ap\<lparr>ap_npcAiInputQueue := Some q'\<rparr>)))"

definition npc_input_valid :: "Field \<Rightarrow> NpcAiInput \<Rightarrow> bool" where
  "npc_input_valid f input =
     (let d = ni_decision input in
      case Field_findNpc f (nd_npcId d) of
        None \<Rightarrow> False
      | Some npc \<Rightarrow> Npc_isAlive npc \<and> isValidMovementDelta (nd_dx d) (nd_dy d) (nd_dz d))"

text \<open>The two queueing loops stop at the first failure and keep what was queued before it.\<close>

fun queue_moves :: "MovementIntent list \<Rightarrow> Field \<Rightarrow> bool \<times> Field" where
  "queue_moves [] f = (True, f)"
| "queue_moves (m # ms) f =
     (case Field_queueMovement (mi_sessionId m) (mi_dx m) (mi_dy m) (mi_dz m) f of
        (False, f') \<Rightarrow> (False, f') | (True, f') \<Rightarrow> queue_moves ms f')"

fun queue_npcs :: "NpcAiInput list \<Rightarrow> Field \<Rightarrow> bool \<times> Field" where
  "queue_npcs [] f = (True, f)"
| "queue_npcs (i # is) f =
     (case Field_queueNpcMovement (nd_npcId (ni_decision i)) (nd_dx (ni_decision i)) (nd_dy (ni_decision i)) (nd_dz (ni_decision i)) f of
        (False, f') \<Rightarrow> (False, f') | (True, f') \<Rightarrow> queue_npcs is f')"

definition Applier_applyActions :: "FrameActions \<Rightarrow> Applier \<Rightarrow> Field \<Rightarrow> apply_outcome" where
  "Applier_applyActions frame ap f =
     (let ap0 = ap\<lparr>ap_ownerAcks := []\<rparr> in
      if list_ex (\<lambda>qa. \<not> ac_valid (qa_action qa)) (fa_actions frame)
      then ([], Inl ''world frame contains an invalid action'', ap0, f)
      else let (intents, ap1) = take_moves ap0 in
        if list_ex (\<lambda>m. \<not> Field_hasPlayer f (mi_sessionId m)) intents
        then ([], Inl ''movement intent session is not present in the field'', restore_moves intents ap1, f)
        else let (npcInputs, ap2) = take_npcs ap1 in
          if list_ex (\<lambda>i. \<not> npc_input_valid f i) npcInputs
          then ([], Inl ''NPC AI input is invalid for the world frame'', restore_npcs npcInputs (restore_moves intents ap2), f)
          else case build_actions frame (ap_updateBuilder ap2) of (updates, b, built) \<Rightarrow>
            let ap3 = ap2\<lparr>ap_updateBuilder := b\<rparr> in
            (case built of
               Inl error \<Rightarrow> (updates, Inl error, restore_moves intents ap3, f)
             | Inr _ \<Rightarrow>
                 (case queue_moves intents f of
                    (False, f1) \<Rightarrow> ([], Inl ''movement intent could not be queued in the field'',
                                     restore_npcs npcInputs (restore_moves intents ap3), f1)
                  | (True, f1) \<Rightarrow>
                      (case queue_npcs npcInputs f1 of
                         (False, f2) \<Rightarrow> ([], Inl ''NPC AI input could not be queued in the field'',
                                          restore_npcs npcInputs (restore_moves intents ap3), f2)
                       | (True, f2) \<Rightarrow>
                           let f3 = Field_processFrame (fa_worldTick frame)
                                      (fold (\<lambda>qa. Field_putActionQueue (qa_action qa)) (fa_actions frame) f2) in
                           (updates, Inr (), record_acks f3 (fa_worldTick frame) intents ap3, f3)))))"

subsection \<open>\<open>apply(WorldFrameInputs)\<close>\<close>

text \<open>The message of the first test an input fails.\<close>

definition input_error :: "Field \<Rightarrow> WorldInput \<Rightarrow> string option" where
  "input_error f input =
     (case wi_body input of
        ActionInput a \<Rightarrow> if \<not> ac_valid a then Some ''world input contains an invalid action'' else None
      | MovementInput m \<Rightarrow>
          if \<not> Field_hasPlayer f (mi_sessionId m) then Some ''world input movement session is not present in the field'' else None
      | CombatInput c \<Rightarrow>
          if ci_attackerId c \<le> 0 \<or> ci_targetId c \<le> 0 \<or> \<not> f32_isfinite (ci_power c) \<or> f32_le (ci_power c) f32_zero
          then Some ''world input combat intent is invalid'' else None
      | SpellInput s \<Rightarrow>
          if sp_casterId s \<le> 0 \<or> sp_targetId s \<le> 0 \<or> sp_element s = [] \<or> length (sp_element s) > 32 \<or>
             \<not> f32_isfinite (sp_power s) \<or> f32_le (sp_power s) f32_zero
          then Some ''world input spell intent is invalid'' else None
      | ChatInput c \<Rightarrow>
          if ct_senderId c \<le> 0 \<or> ct_audience c = [] \<or> ct_message c = []
          then Some ''world input chat intent is invalid'' else None)"

definition movements_of :: "WorldInput list \<Rightarrow> MovementIntent list" where
  "movements_of inputs = List.map_filter (\<lambda>i. case wi_body i of MovementInput m \<Rightarrow> Some m | _ \<Rightarrow> None) inputs"

text \<open>The loop of \<open>appendCombatResolution\<close> calls.\<close>

definition append_resolutions :: "u64 \<Rightarrow> CombatResolution list \<Rightarrow> WorldUpdate list \<Rightarrow> UpdateBuilder \<Rightarrow> build_result" where
  "append_resolutions worldTick rs updates b = append_events worldTick (map resolution_payload rs) updates b"

definition append_hazard_if :: "u64 \<Rightarrow> Field \<Rightarrow> WorldUpdate list \<Rightarrow> UpdateBuilder \<Rightarrow> build_result" where
  "append_hazard_if worldTick f updates b =
     (if EnvironmentEther_hasAdverseEffect (fd_fieldEther f)
      then appendHazard worldTick (fd_lastEtherHazard f) (EnvironmentEther_instability (fd_fieldEther f)) updates b
      else (updates, b, Inr ()))"

definition Applier_applyInputs :: "WorldFrameInputs \<Rightarrow> Applier \<Rightarrow> Field \<Rightarrow> apply_outcome option" where
  "Applier_applyInputs frame ap f =
     (let ap0 = ap\<lparr>ap_ownerAcks := []\<rparr> in
      case List.map_filter (input_error f) (wf_inputs frame) of
        error # _ \<Rightarrow> Some ([], Inl error, ap0, f)
      | [] \<Rightarrow>
          (case build_inputs frame (ap_updateBuilder ap0) of
             (updates, b, Inl error) \<Rightarrow> Some (updates, Inl error, ap0\<lparr>ap_updateBuilder := b\<rparr>, f)
           | (updates, b, Inr _) \<Rightarrow>
               (case Field_processInputs (wf_inputs frame) (wf_worldTick frame) f of
                  None \<Rightarrow> None
                | Some (False, _, f1) \<Rightarrow>
                    Some ([], Inl ''world input could not be applied in the field'', ap0\<lparr>ap_updateBuilder := b\<rparr>, f1)
                | Some (True, resolutions, f1) \<Rightarrow>
                    let ap1 = record_acks f1 (wf_worldTick frame) (movements_of (wf_inputs frame)) (ap0\<lparr>ap_updateBuilder := b\<rparr>) in
                    (case append_resolutions (wf_worldTick frame) resolutions updates b of
                       (_, b1, Inl error) \<Rightarrow> Some ([], Inl error, ap1\<lparr>ap_updateBuilder := b1, ap_ownerAcks := []\<rparr>, f1)
                     | (updates1, b1, Inr _) \<Rightarrow>
                         (case append_hazard_if (wf_worldTick frame) f1 updates1 b1 of
                            (_, b2, Inl error) \<Rightarrow> Some ([], Inl error, ap1\<lparr>ap_updateBuilder := b2, ap_ownerAcks := []\<rparr>, f1)
                          | (updates2, b2, Inr _) \<Rightarrow> Some (updates2, Inr (), ap1\<lparr>ap_updateBuilder := b2\<rparr>, f1))))))"

subsection \<open>Snapshots\<close>

definition snapshot_ack :: "u64 \<Rightarrow> (int, u64) std_map \<Rightarrow> PlayerPoseSnapshot \<Rightarrow> MovementAck" where
  "snapshot_ack worldTick lastProcessed pose =
     \<lparr>ma_sessionId = pp_sessionId pose, ma_x = pp_x pose, ma_y = pp_y pose, ma_z = pp_z pose, ma_worldTick = worldTick,
      ma_lastProcessedInputSequence = lookup_or_zero lastProcessed (pp_sessionId pose)\<rparr>"

definition capturePublicSnapshot :: "u64 \<Rightarrow> WorldUpdate list \<Rightarrow> Applier \<Rightarrow> Field \<Rightarrow> WorldUpdate list \<times> unit result \<times> Applier" where
  "capturePublicSnapshot worldTick updates ap f =
     (let ap0 = ap\<lparr>ap_snapshotAcks := []\<rparr> in
      case formatPayload (fd_fieldEther f) (fd_lastEtherHazard f) (Field_publicNpcSnapshots f) (Field_publicPlayerPoses f) of
        Inl error \<Rightarrow> (updates, Inl error, ap0)
      | Inr payload \<Rightarrow>
          (case appendSnapshot worldTick payload updates (ap_updateBuilder ap0) of
             (updates', b, Inl error) \<Rightarrow> (updates', Inl error, ap0\<lparr>ap_updateBuilder := b\<rparr>)
           | (updates', b, Inr _) \<Rightarrow>
               (updates', Inr (), ap0\<lparr>ap_updateBuilder := b,
                  ap_snapshotAcks := map (snapshot_ack worldTick (ap_lastProcessedBySession ap0)) (Field_publicPlayerPoses f)\<rparr>)))"

definition capturePublicSnapshotIfNewSessions ::
    "nat \<Rightarrow> u64 \<Rightarrow> WorldUpdate list \<Rightarrow> MovementAck list \<Rightarrow> Applier \<Rightarrow> Field \<Rightarrow>
     WorldUpdate list \<times> MovementAck list \<times> unit result \<times> Applier" where
  "capturePublicSnapshotIfNewSessions newAuthenticatedSessions worldTick updates publishAcks ap f =
     (if newAuthenticatedSessions = 0 then (updates, publishAcks, Inr (), ap)
      else case capturePublicSnapshot worldTick updates ap f of
        (updates', Inl error, ap') \<Rightarrow> (updates', publishAcks, Inl error, ap')
      | (updates', Inr _, ap') \<Rightarrow> (updates', ap_snapshotAcks ap', Inr (), ap'))"

subsection \<open>What a frame emits\<close>

lemma recordOwnerAck_builder [simp]: "ap_updateBuilder (recordOwnerAck f t e ap) = ap_updateBuilder ap"
  by (simp add: recordOwnerAck_def Let_def split: prod.splits option.splits)

lemma record_acks_builder [simp]: "ap_updateBuilder (record_acks f t ms ap) = ap_updateBuilder ap"
proof -
  have "ap_updateBuilder (fold (recordOwnerAck f t) es ap) = ap_updateBuilder ap" for es
    by (induction es arbitrary: ap) simp_all
  then show ?thesis by (simp add: record_acks_def)
qed

lemma append_hazard_if_outcome:
  assumes "append_hazard_if t f us b = (us', b', r)"
  shows "(r = Inr () \<and> (\<exists>vs. us' = us @ vs \<and> emitted b vs b')) \<or> (r \<noteq> Inr () \<and> advanced b b')"
proof (cases "EnvironmentEther_hasAdverseEffect (fd_fieldEther f)")
  case True
  then have "appendHazard t (fd_lastEtherHazard f) (EnvironmentEther_instability (fd_fieldEther f)) us b = (us', b', r)"
    using assms by (simp add: append_hazard_if_def)
  from appendHazard_outcome [OF this] show ?thesis by blast
next
  case False
  then show ?thesis using assms emitted_Nil by (auto simp: append_hazard_if_def)
qed

text \<open>The events after the field has applied a frame: all of them, or the frame fails with the numbers used up.\<close>

lemma appended_outcome:
  assumes a: "append_resolutions t rs us1 b1 = (us2, b2, r2)" and h: "append_hazard_if t f us2 b2 = (us3, b3, r3)"
  shows "r2 = Inr () \<and> r3 = Inr () \<Longrightarrow> emitted b us1 b1 \<Longrightarrow> emitted b us3 b3"
    and "advanced b b1 \<Longrightarrow> advanced b b2" and "advanced b b1 \<Longrightarrow> advanced b b3"
proof -
  note a' = append_events_outcome [OF a [unfolded append_resolutions_def]] and h' = append_hazard_if_outcome [OF h]
  show "emitted b us3 b3" if r: "r2 = Inr () \<and> r3 = Inr ()" and e: "emitted b us1 b1"
  proof -
    obtain vs ws where "us2 = us1 @ vs" "emitted b1 vs b2" "us3 = us2 @ ws" "emitted b2 ws b3" using a' h' r by auto
    then show ?thesis using emitted_trans e by blast
  qed
  have "advanced b1 b2" "advanced b2 b3" using a' h' emitted_advanced by blast+
  then show "advanced b b1 \<Longrightarrow> advanced b b2" "advanced b b1 \<Longrightarrow> advanced b b3" using advanced_trans by blast+
qed

text \<open>An applied frame emits its numbers without a gap; a refused one emits nothing but may consume numbers.\<close>

lemma applyInputs_outcome:
  assumes "Applier_applyInputs frame ap f = Some (us, r, ap', f')"
  shows "(r = Inr () \<and> emitted (ap_updateBuilder ap) us (ap_updateBuilder ap')) \<or>
    (r \<noteq> Inr () \<and> us = [] \<and> advanced (ap_updateBuilder ap) (ap_updateBuilder ap'))"
proof (cases "List.map_filter (input_error f) (wf_inputs frame)")
  case (Cons e es)
  then show ?thesis using assms by (auto simp: Applier_applyInputs_def Let_def)
next
  case Nil
  obtain us1 b1 r1 where b: "build_inputs frame (ap_updateBuilder ap) = (us1, b1, r1)" by (metis prod_cases3)
  from build_inputs_outcome [OF b] show ?thesis
  proof (elim disjE conjE)
    assume r1: "r1 \<noteq> Inr ()" "us1 = []" "advanced (ap_updateBuilder ap) b1"
    then obtain e where "r1 = Inl e" by (cases r1) auto
    then show ?thesis using assms r1 by (auto simp: Applier_applyInputs_def Let_def Nil b)
  next
    assume r1: "r1 = Inr ()" "emitted (ap_updateBuilder ap) us1 b1"
    then have adv: "advanced (ap_updateBuilder ap) b1" by (simp add: emitted_advanced)
    obtain ok rs f1 where p: "Field_processInputs (wf_inputs frame) (wf_worldTick frame) f = Some (ok, rs, f1)"
      using assms by (auto simp: Applier_applyInputs_def Let_def Nil b r1 split: option.splits)
    obtain us2 b2 r2 where a: "append_resolutions (wf_worldTick frame) rs us1 b1 = (us2, b2, r2)" by (metis prod_cases3)
    obtain us3 b3 r3 where h: "append_hazard_if (wf_worldTick frame) f1 us2 b2 = (us3, b3, r3)" by (metis prod_cases3)
    note out = appended_outcome [OF a h]
    consider "\<not> ok" | "ok" "r2 = Inr ()" "r3 = Inr ()" | e where "ok" "r2 = Inl e" | e where "ok" "r2 = Inr ()" "r3 = Inl e"
      by (cases r2; cases r3) auto
    then show ?thesis
      by cases (use assms p adv out(1) [OF _ r1(2)] out(2,3) [OF adv] in \<open>auto simp: Applier_applyInputs_def Let_def Nil b r1 a h\<close>)
  qed
qed

lemma applyInputs_defined:
  assumes "field_inv f" "list_all input_ok (wf_inputs frame)"
  shows "\<exists>us r ap' f'. Applier_applyInputs frame ap f = Some (us, r, ap', f') \<and> field_inv f'"
proof -
  obtain ok rs f1 where p: "Field_processInputs (wf_inputs frame) (wf_worldTick frame) f = Some (ok, rs, f1)" "field_inv f1"
    using processInputs_defined [OF assms] by blast
  show ?thesis using p assms(1)
    by (auto simp: Applier_applyInputs_def Let_def split: list.splits prod.splits sum.splits bool.splits)
qed

lemma capture_outcome:
  assumes "capturePublicSnapshot t us ap f = (us', r, ap')"
  shows "\<exists>vs. us' = us @ vs \<and> (if r = Inr () then emitted (ap_updateBuilder ap) vs (ap_updateBuilder ap') \<and> length vs = 1
    else vs = [] \<and> advanced (ap_updateBuilder ap) (ap_updateBuilder ap'))"
proof (cases "formatPayload (fd_fieldEther f) (fd_lastEtherHazard f) (Field_publicNpcSnapshots f) (Field_publicPlayerPoses f)")
  case (Inl e)
  then show ?thesis using assms by (auto simp: capturePublicSnapshot_def Let_def)
next
  case (Inr p)
  obtain us1 b1 r1 where a: "appendSnapshot t p us (ap_updateBuilder ap) = (us1, b1, r1)" by (metis prod_cases3)
  from appendSnapshot_outcome [OF a] show ?thesis
  proof (elim disjE conjE exE)
    fix u
    assume "r1 = Inr ()" "us1 = us @ [u]" "emitted (ap_updateBuilder ap) [u] b1"
    then show ?thesis using assms by (intro exI [of _ "[u]"]) (auto simp: capturePublicSnapshot_def Let_def Inr a)
  next
    assume r1: "r1 \<noteq> Inr ()" "us1 = us" "advanced (ap_updateBuilder ap) b1"
    then obtain e where "r1 = Inl e" by (cases r1) auto
    then show ?thesis using assms r1 by (auto simp: capturePublicSnapshot_def Let_def Inr a)
  qed
qed

subsection \<open>A client that follows the updates\<close>

lemma emitted_nth:
  assumes "emitted b us b'" "i < length us"
  shows "wu_sequence (us ! i) = ub_updateSequence b + of_nat i" "wu_sequence (us ! i) \<noteq> UINT64_MAX" "validateWorldUpdate (us ! i) = Inr ()"
proof -
  have len: "unat (ub_updateSequence b') = unat (ub_updateSequence b) + length us" using assms(1) by (rule emitted_length)
  have "map (unat \<circ> wu_sequence) us ! i = unat (ub_updateSequence b) + i"
    using assms len by (simp add: emitted_def)
  then have n: "unat (wu_sequence (us ! i)) = unat (ub_updateSequence b) + i" using assms(2) by simp
  have nat_word: "of_nat (unat w) = w" for w :: u64 by simp
  show "wu_sequence (us ! i) = ub_updateSequence b + of_nat i"
    using arg_cong [OF n, of "of_nat :: nat \<Rightarrow> u64"] by (simp only: nat_word of_nat_add)
  show "wu_sequence (us ! i) \<noteq> UINT64_MAX"
  proof
    assume "wu_sequence (us ! i) = UINT64_MAX"
    moreover have "unat (ub_updateSequence b') \<le> unat (- 1 :: u64)"
      by (metis word_le_nat_alt word_order.extremum)
    ultimately show False using n len assms(2) by (metis add_le_cancel_left not_less)
  qed
  show "validateWorldUpdate (us ! i) = Inr ()" using assms by (simp add: emitted_def list_all_length)
qed

lemma emitted_sync:
  assumes "emitted b us b'" "hasSequence t" "expectedSequence t = ub_updateSequence b"
  shows "sync_applied t us = us"
proof (rule sync_stream [OF assms(2)])
  show "\<forall>u \<in> set us. validateWorldUpdate u = Inr () \<and> wu_sequence u \<noteq> UINT64_MAX"
    using emitted_nth(2,3) [OF assms(1)] by (auto simp: in_set_conv_nth)
qed (use emitted_nth(1) [OF assms(1)] assms(3) in simp)

lemma gap_receive:
  assumes "hasSequence t" "unat (expectedSequence t) < unat (wu_sequence u)" "validateWorldUpdate u = Inr ()" "wu_sequence u \<noteq> UINT64_MAX"
  shows "SyncController_receive t u =
    (t, \<lparr>sr_decision = SyncRequestSnapshot, sr_expectedSequence = expectedSequence t, sr_error = ''world update sequence gap detected''\<rparr>)"
  using assms by (simp add: SyncController_receive_def SequenceTracker_accept_def word_less_nat_alt)

text \<open>Valid updates with numbers from \<open>n\<close> on.\<close>

definition numbered_from :: "nat \<Rightarrow> WorldUpdate list \<Rightarrow> bool" where
  "numbered_from n us \<longleftrightarrow>
     list_all (\<lambda>u. n \<le> unat (wu_sequence u) \<and> validateWorldUpdate u = Inr () \<and> wu_sequence u \<noteq> UINT64_MAX) us"

lemma numbered_from_append [simp]: "numbered_from n (us @ vs) \<longleftrightarrow> numbered_from n us \<and> numbered_from n vs"
  by (simp add: numbered_from_def)

lemma numbered_from_mono: "numbered_from n us \<Longrightarrow> m \<le> n \<Longrightarrow> numbered_from m us"
  by (auto simp: numbered_from_def elim!: list.pred_mono_strong)

lemma emitted_numbered:
  assumes "emitted b us b'"
  shows "numbered_from (unat (ub_updateSequence b)) us"
proof -
  have m: "map (unat \<circ> wu_sequence) us = [unat (ub_updateSequence b)..<unat (ub_updateSequence b')]"
    using assms by (simp add: emitted_def)
  have "unat (ub_updateSequence b) \<le> unat (wu_sequence u) \<and> validateWorldUpdate u = Inr () \<and> wu_sequence u \<noteq> UINT64_MAX"
    if u: "u \<in> set us" for u
  proof -
    obtain i where i: "i < length us" "u = us ! i" using u unfolding in_set_conv_nth by blast
    have "unat (ub_updateSequence b) \<le> unat (wu_sequence u)" using arg_cong [OF m, of set] u by auto
    then show ?thesis using emitted_nth(2,3) [OF assms i(1)] i(2) by simp
  qed
  then show ?thesis by (simp add: numbered_from_def list_all_iff)
qed

lemma numbered_gap:
  assumes "numbered_from n us" "hasSequence t" "unat (expectedSequence t) < n"
  shows "sync_applied t us = []"
  using assms(1)
proof (induction us)
  case (Cons v vs)
  then have v: "n \<le> unat (wu_sequence v)" "validateWorldUpdate v = Inr ()" "wu_sequence v \<noteq> UINT64_MAX"
    and vs: "sync_applied t vs = []" unfolding numbered_from_def list.pred_inject by blast+
  have "unat (expectedSequence t) < unat (wu_sequence v)" using assms(3) v(1) by simp
  from gap_receive [OF assms(2) this v(2,3)] vs show ?case by simp
qed simp

subsection \<open>Turns of the server loop\<close>

text \<open>
  The middle of the loop of \<open>ServerMain.cpp\<close>: apply the frame, then add a snapshot when a session is
  new or asked for one. The flag says whether both calls succeeded; the loop goes on either way.
\<close>

definition main_turn :: "WorldFrameInputs \<Rightarrow> nat \<Rightarrow> Applier \<Rightarrow> Field \<Rightarrow>
    (WorldUpdate list \<times> MovementAck list \<times> bool \<times> Applier \<times> Field) option" where
  "main_turn frame snapshotTriggers ap f =
     (case Applier_applyInputs frame ap f of
        None \<Rightarrow> None
      | Some (updates, applied, ap1, f1) \<Rightarrow>
          (case capturePublicSnapshotIfNewSessions snapshotTriggers (wf_worldTick frame) updates (ap_ownerAcks ap1) ap1 f1 of
             (updates', publishAcks, captured, ap2) \<Rightarrow>
               Some (updates', publishAcks, applied = Inr () \<and> captured = Inr (), ap2, f1)))"

fun main_turns :: "(WorldFrameInputs \<times> nat) list \<Rightarrow> Applier \<Rightarrow> Field \<Rightarrow> (WorldUpdate list \<times> bool \<times> Applier \<times> Field) option" where
  "main_turns [] ap f = Some ([], True, ap, f)"
| "main_turns ((frame, n) # turns) ap f =
     (case main_turn frame n ap f of
        None \<Rightarrow> None
      | Some (updates, _, ok, ap1, f1) \<Rightarrow>
          (case main_turns turns ap1 f1 of
             None \<Rightarrow> None
           | Some (updates', ok', ap2, f2) \<Rightarrow> Some (updates @ updates', ok \<and> ok', ap2, f2)))"

lemma main_turn_emits:
  assumes "main_turn frame n ap f = Some (us, acks, True, ap', f')"
  shows "emitted (ap_updateBuilder ap) us (ap_updateBuilder ap')"
proof -
  obtain us1 r ap1 where a: "Applier_applyInputs frame ap f = Some (us1, r, ap1, f')"
    using assms by (auto simp: main_turn_def split: option.splits prod.splits)
  have r: "r = Inr ()" using assms by (auto simp: main_turn_def a split: prod.splits)
  then have e1: "emitted (ap_updateBuilder ap) us1 (ap_updateBuilder ap1)" using applyInputs_outcome [OF a] by blast
  show ?thesis
  proof (cases "n = 0")
    case True
    then show ?thesis using assms e1 by (auto simp: main_turn_def a capturePublicSnapshotIfNewSessions_def)
  next
    case False
    obtain us2 r2 ap2 where c: "capturePublicSnapshot (wf_worldTick frame) us1 ap1 f' = (us2, r2, ap2)" by (metis prod_cases3)
    have "r2 = Inr ()" "us = us2" "ap' = ap2" using assms False
      by (auto simp: main_turn_def a capturePublicSnapshotIfNewSessions_def c split: sum.splits)
    then show ?thesis using capture_outcome [OF c] emitted_trans [OF e1] by auto
  qed
qed

lemma main_turns_emit: "main_turns turns ap f = Some (us, True, ap', f') \<Longrightarrow> emitted (ap_updateBuilder ap) us (ap_updateBuilder ap')"
proof (induction turns arbitrary: ap f us)
  case (Cons turn turns)
  obtain frame n where "turn = (frame, n)" by force
  then obtain us1 acks ap1 f1 us2 where "main_turn frame n ap f = Some (us1, acks, True, ap1, f1)"
    "main_turns turns ap1 f1 = Some (us2, True, ap', f')" "us = us1 @ us2"
    using Cons.prems by (auto split: option.splits prod.splits)
  then show ?case using main_turn_emits emitted_trans Cons.IH by blast
qed simp

text \<open>Whether or not its frame is applied, a turn publishes no number it has passed before.\<close>

lemma main_turn_numbered:
  assumes "main_turn frame n ap f = Some (us, acks, ok, ap', f')"
  shows "numbered_from (unat (ub_updateSequence (ap_updateBuilder ap))) us \<and> advanced (ap_updateBuilder ap) (ap_updateBuilder ap')"
proof -
  obtain us1 r ap1 where a: "Applier_applyInputs frame ap f = Some (us1, r, ap1, f')"
    using assms by (auto simp: main_turn_def split: option.splits prod.splits)
  have us1: "numbered_from (unat (ub_updateSequence (ap_updateBuilder ap))) us1 \<and> advanced (ap_updateBuilder ap) (ap_updateBuilder ap1)"
    using applyInputs_outcome [OF a] emitted_numbered emitted_advanced by (auto simp: numbered_from_def)
  show ?thesis
  proof (cases "n = 0")
    case True
    then show ?thesis using assms us1 by (auto simp: main_turn_def a capturePublicSnapshotIfNewSessions_def)
  next
    case False
    obtain us2 r2 ap2 where c: "capturePublicSnapshot (wf_worldTick frame) us1 ap1 f' = (us2, r2, ap2)" by (metis prod_cases3)
    then have ap2: "us = us2" "ap' = ap2" using assms False
      by (auto simp: main_turn_def a capturePublicSnapshotIfNewSessions_def split: sum.splits)
    obtain vs where vs: "us2 = us1 @ vs" "numbered_from (unat (ub_updateSequence (ap_updateBuilder ap1))) vs"
        "advanced (ap_updateBuilder ap1) (ap_updateBuilder ap2)"
      using capture_outcome [OF c] emitted_numbered emitted_advanced
      by (cases "r2 = Inr ()") (auto simp: numbered_from_def)
    moreover have "unat (ub_updateSequence (ap_updateBuilder ap)) \<le> unat (ub_updateSequence (ap_updateBuilder ap1))"
      using us1 by (simp add: advanced_def)
    ultimately show ?thesis using us1 ap2 numbered_from_mono advanced_trans numbered_from_append by blast
  qed
qed

lemma main_turns_numbered:
  "main_turns turns ap f = Some (us, ok, ap', f') \<Longrightarrow> numbered_from (unat (ub_updateSequence (ap_updateBuilder ap))) us"
proof (induction turns arbitrary: ap f us ok)
  case Nil
  then show ?case by (simp add: numbered_from_def)
next
  case (Cons turn turns)
  obtain frame n where "turn = (frame, n)" by force
  then obtain us1 acks ok1 ap1 f1 us2 ok2 where t: "main_turn frame n ap f = Some (us1, acks, ok1, ap1, f1)"
    "main_turns turns ap1 f1 = Some (us2, ok2, ap', f')" "us = us1 @ us2"
    using Cons.prems by (auto split: option.splits prod.splits)
  then show ?case using main_turn_numbered [OF t(1)] Cons.IH [OF t(2)] numbered_from_mono
    by (simp add: advanced_def)
qed

text \<open>
  As long as every frame is applied (and every snapshot that is due is taken), the updates
  of any number of turns carry consecutive numbers: a client that expects the first of them applies
  all of them.
\<close>

theorem applied_turns_keep_client_in_sync:
  assumes "main_turns turns ap f = Some (updates, True, ap', f')"
    and "hasSequence t" and "expectedSequence t = ub_updateSequence (ap_updateBuilder ap)"
  shows "sync_applied t updates = updates"
  using emitted_sync [OF main_turns_emit [OF assms(1)] assms(2,3)] .


text \<open>A chat line, and an attack by a player who is not in the field.\<close>

definition hello :: WorldInput where
  "hello = \<lparr>wi_sequence = 2, wi_body = ChatInput \<lparr>ct_senderId = 1, ct_audience = ''world'', ct_message = ''hi''\<rparr>\<rparr>"

definition phantom :: WorldInput where
  "phantom = \<lparr>wi_sequence = 1, wi_body = CombatInput \<lparr>ci_attackerId = 1, ci_targetId = 2, ci_power = F_Fin False f32_unit, ci_requestId = ''r''\<rparr>\<rparr>"

definition in_sync :: SequenceTracker where
  "in_sync = \<lparr>hasSequence = True, expectedSequence = 1\<rparr>"

definition empty_applier :: "UpdateBuilder \<Rightarrow> Applier" where
  "empty_applier b = (Applier_new None None)\<lparr>ap_updateBuilder := b\<rparr>"

lemma show_float_one: "show_float (F_Fin False f32_unit) = ''1''"
proof -
  define U :: nat where "U = f32_unit"
  have U: "0 < U" by (simp add: U_def)
  have "dec_exponent U U = 0" using U by (simp add: dec_exponent_def dec_up.simps dec_down.simps)
  moreover have "round_even (U * 100000) U = 100000" using U by (simp add: round_even_def)
  ultimately have "six_digits U U = (100000, 0)" by (simp add: six_digits_def Let_def)
  then have "show_float (F_Fin False U) = show_general 100000 0" using U unfolding show_float_def U_def [symmetric] by simp
  also have "\<dots> = ''1''"
  proof -
    have "show_pad 5 0 = ''00000''" by code_simp
    moreover have "nat (5 - 0) = 5" "100000 div 10 ^ 5 = (1 :: nat)" "100000 mod 10 ^ 5 = (0 :: nat)" by simp_all
    ultimately have "show_general 100000 0 = show_nat 1 @ show_fraction ''00000''" unfolding show_general_def Let_def by simp
    also have "\<dots> = ''1''" by code_simp
    finally show ?thesis .
  qed
  finally show ?thesis unfolding U_def .
qed

lemma calm_ether: "EnvironmentEther_decay EnvironmentEther_init = EnvironmentEther_init"
  "\<not> EnvironmentEther_hasAdverseEffect EnvironmentEther_init"
proof -
  have lit: "f32_lit 200 1 = F_Fin False (200 * f32_unit)" "f32_lit 10 1 = F_Fin False (10 * f32_unit)" "f32_lit 1 1 = F_Fin False f32_unit"
    using f32_lit_nat [of 200] f32_lit_nat [of 10] f32_lit_nat [of 1] by simp_all
  have zero: "f32_pack False 0 d = f32_zero" for d by (simp add: f32_pack_def round_mag_def round_even_def)
  obtain n where n: "ETHER_DECAY_FACTOR = F_Fin False n"
    using f32_lit_within_one [of 98 100] by (auto simp: ETHER_DECAY_FACTOR_def f32_lit_def f32_pack_def Let_def split: if_splits)
  show "EnvironmentEther_decay EnvironmentEther_init = EnvironmentEther_init"
    unfolding EnvironmentEther_decay_def EnvironmentEther_init_def n by (simp add: zero)
  have "EnvironmentEther_instability EnvironmentEther_init = f32_zero"
    unfolding EnvironmentEther_instability_def EnvironmentEther_init_def lit
    by (simp add: zero f32_min_def)
  then show "\<not> EnvironmentEther_hasAdverseEffect EnvironmentEther_init"
    unfolding EnvironmentEther_hasAdverseEffect_def EnvironmentEther_adverseEffectSeverity_def lit
    by (simp add: f32_max_def f32_sub_def f32_pack_def Let_def)
qed

definition hello_update :: "u64 \<Rightarrow> WorldUpdate" where
  "hello_update n = \<lparr>wu_version = CURRENT_PROTOCOL_VERSION, wu_kind = Event, wu_worldTick = 2, wu_sequence = n, wu_eventId = n,
     wu_payload = ''chat=sender:1;audience:world;message:hi;inputSequence=2''\<rparr>"

lemma hello_valid: "n \<noteq> 0 \<Longrightarrow> validateWorldUpdate (hello_update n) = Inr ()"
  by (simp add: hello_update_def validateWorldUpdate_def isKnownUpdateKind_def)

lemma hello_turn:
  assumes "b = \<lparr>ub_updateSequence = n, ub_eventId = n\<rparr>" "n \<noteq> UINT64_MAX" "n \<noteq> 0"
  shows "\<exists>ap' f'. main_turn \<lparr>wf_worldTick = 2, wf_inputs = [hello]\<rparr> 0 (empty_applier b) Field_init = Some ([hello_update n], [], True, ap', f')"
proof -
  let ?frame = "\<lparr>wf_worldTick = 2, wf_inputs = [hello]\<rparr>"
  have "\<exists>f'. Field_processInputs [hello] 2 Field_init = Some (True, [], f') \<and> fd_fieldEther f' = EnvironmentEther_init"
    by (simp add: Field_processInputs_def hello_def check_input_def apply_input_def Field_init_def calm_ether(1) Let_def)
  then obtain f' where p: "Field_processInputs [hello] 2 Field_init = Some (True, [], f')" "fd_fieldEther f' = EnvironmentEther_init" by blast
  have none: "List.map_filter (input_error Field_init) [hello] = []"
    by (simp add: List.map_filter_def input_error_def hello_def)
  have acks: "movements_of [hello] = []" by (simp add: movements_of_def List.map_filter_def hello_def)
  have "input_payload hello = wu_payload (hello_update n)" unfolding hello_update_def WorldUpdate.simps by code_simp
  then have "\<exists>b'. build_inputs ?frame b = ([hello_update n], b', Inr ())"
    using assms hello_valid [OF assms(3)] by (simp add: build_inputs_def appendEvent_def hello_update_def Let_def)
  then obtain b' where "build_inputs ?frame b = ([hello_update n], b', Inr ())" by blast
  then show ?thesis using p calm_ether(2) none
    by (simp add: main_turn_def Applier_applyInputs_def empty_applier_def append_resolutions_def append_hazard_if_def
        capturePublicSnapshotIfNewSessions_def acks record_acks_def last_processed_def Let_def)
qed

lemma hello_applied:
  assumes "b = \<lparr>ub_updateSequence = n, ub_eventId = n\<rparr>" "n \<noteq> UINT64_MAX" "n \<noteq> 0"
  shows "\<exists>u ap' f'. main_turns [(\<lparr>wf_worldTick = 2, wf_inputs = [hello]\<rparr>, 0)] (empty_applier b) Field_init = Some ([u], True, ap', f')"
  using hello_turn [OF assms] by auto

theorem applied_turns_keep_client_in_sync_witness:
  "\<exists>u ap' f'. main_turns [(\<lparr>wf_worldTick = 2, wf_inputs = [hello]\<rparr>, 0)] (empty_applier UpdateBuilder_init) Field_init = Some ([u], True, ap', f') \<and>
     sync_applied in_sync [u] = [u]"
proof -
  obtain u ap' f' where m: "main_turns [(\<lparr>wf_worldTick = 2, wf_inputs = [hello]\<rparr>, 0)] (empty_applier UpdateBuilder_init) Field_init = Some ([u], True, ap', f')"
    using hello_applied [OF UpdateBuilder_init_def] by auto
  have "hasSequence in_sync" "expectedSequence in_sync = ub_updateSequence (ap_updateBuilder (empty_applier UpdateBuilder_init))"
    by (simp_all add: in_sync_def empty_applier_def UpdateBuilder_init_def)
  from applied_turns_keep_client_in_sync [OF m this] m show ?thesis by blast
qed


end
