(* ===== verification/Commands.thy ===== *)
theory Commands
  imports Frame_Applier Presence Login
begin

text \<open>
  From a decoded command to the state it changes: the handlers \<open>MovementCommandHandler.cpp\<close>,
  \<open>CombatCommandHandler.cpp\<close>, \<open>ChatCommandHandler.cpp\<close>, \<open>DisconnectCommandHandler.cpp\<close> and
  \<open>ServerCommandDispatcher.cpp\<close>. The registry, the field presence and the login ports that the C++
  objects share by reference are the record \<open>World\<close>; the world input queue is passed beside it. The
  queue only ever receives well-formed inputs of active sessions; the session id of a command is the
  one its sender wrote into it.
\<close>

subsection \<open>MovementCommandHandler\<close>

record MovementResult =
  mr_accepted :: bool
  mr_ignored :: bool
  mr_error :: string

text \<open>The three constructors: where the handler puts an accepted step.\<close>

datatype MoveTarget = ToField Field | ToIntents MovementIntentQueue | ToInputs WorldInputQueue

definition MAX_MOVE_DELTA :: f32 where
  "MAX_MOVE_DELTA = MAX_MOVE_DISTANCE_PER_FRAME"

definition withinLimit :: "f32 \<Rightarrow> bool" where
  "withinLimit value = f32_le (f32_abs value) MAX_MOVE_DELTA"

definition move_failed :: "string \<Rightarrow> MovementResult" where
  "move_failed error = \<lparr>mr_accepted = False, mr_ignored = False, mr_error = error\<rparr>"

definition move_done :: MovementResult where
  "move_done = \<lparr>mr_accepted = True, mr_ignored = False, mr_error = []\<rparr>"

definition MovementCommandHandler_put :: "int \<Rightarrow> f32 \<Rightarrow> f32 \<Rightarrow> f32 \<Rightarrow> u64 \<Rightarrow> MoveTarget \<Rightarrow> MovementResult \<times> MoveTarget" where
  "MovementCommandHandler_put sessionId dx dy dz clientInputSequence target =
     (case target of
        ToInputs q \<Rightarrow>
          (case WorldInputQueue_enqueueSequencedMovement sessionId dx dy dz clientInputSequence q of
             (IgnoredStale, q') \<Rightarrow>
               (\<lparr>mr_accepted = False, mr_ignored = True, mr_error = ''duplicate or stale client input sequence''\<rparr>, ToInputs q')
           | (Rejected, q') \<Rightarrow>
               (move_failed (if clientInputSequence \<noteq> 0 then ''client input sequence was rejected''
                             else ''movement world input queue is full''), ToInputs q')
           | (Enqueued, q') \<Rightarrow> (move_done, ToInputs q'))
      | ToIntents q \<Rightarrow>
          (case MovementIntentQueue_enqueue_sequenced sessionId dx dy dz clientInputSequence q of
             None \<Rightarrow> (move_failed ''movement intent queue is full'', ToIntents q)
           | Some q' \<Rightarrow> (move_done, ToIntents q'))
      | ToField f \<Rightarrow>
          (case Field_queueMovement sessionId dx dy dz f of
             (False, f') \<Rightarrow> (move_failed ''session player is not present in the field'', ToField f')
           | (True, f') \<Rightarrow> (move_done, ToField f')))"

definition MovementCommandHandler_handle :: "NetworkCommand \<Rightarrow> MoveTarget \<Rightarrow> MovementResult \<times> MoveTarget" where
  "MovementCommandHandler_handle command target =
     (if cmd_type command \<noteq> Move then (move_failed ''command is not a move'', target)
      else case validateCommand command of
        Inl error \<Rightarrow> (move_failed error, target)
      | Inr _ \<Rightarrow>
          (case parseMovePayload (cmd_payload command) of
             None \<Rightarrow> (move_failed ''move payload must be finite dx,dy,dz'', target)
           | Some (clientInputSequence, dx, dy, dz) \<Rightarrow>
               if \<not> withinLimit dx \<or> \<not> withinLimit dy \<or> \<not> withinLimit dz \<or> \<not> isValidMovementDelta dx dy dz
               then (move_failed ''move delta exceeds limit'', target)
               else MovementCommandHandler_put (cmd_sessionId command) dx dy dz clientInputSequence target))"

subsection \<open>CombatCommandHandler\<close>

definition MAX_COMBAT_POWER :: f32 where
  "MAX_COMBAT_POWER = f32_lit 100000 1"

definition power_ok :: "f32 \<Rightarrow> bool" where
  "power_ok p \<longleftrightarrow> f32_isfinite p \<and> f32_lt f32_zero p \<and> f32_le p MAX_COMBAT_POWER"

text \<open>The request id before the first bar, and the rest.\<close>

definition split_request :: "string \<Rightarrow> (string \<times> string) option" where
  "split_request payload =
     (case split_at CHR ''|'' payload of
        None \<Rightarrow> None
      | Some (requestId, rest) \<Rightarrow> if requestId = [] \<or> length requestId > 64 then None else Some (requestId, rest))"

definition parseAttack :: "string \<Rightarrow> (string \<times> int \<times> f32) option" where
  "parseAttack payload =
     (case split_request payload of
        None \<Rightarrow> None
      | Some (requestId, rest) \<Rightarrow>
          (case read_int64 rest of
             None \<Rightarrow> None
           | Some (targetId, s1) \<Rightarrow>
               (case read_char s1 of
                  None \<Rightarrow> None
                | Some (separator, s2) \<Rightarrow>
                    if separator \<noteq> CHR '','' then None
                    else case read_float s2 of
                      None \<Rightarrow> None
                    | Some (pwr, s3) \<Rightarrow>
                        if at_end s3 \<and> targetId > 0 \<and> power_ok pwr then Some (requestId, targetId, pwr) else None)))"

definition parseExactInt64 :: "string \<Rightarrow> int option" where
  "parseExactInt64 text = (case read_int64 text of None \<Rightarrow> None | Some (v, rest) \<Rightarrow> if at_end rest then Some v else None)"

definition parseExactFloat :: "string \<Rightarrow> f32 option" where
  "parseExactFloat text = (case read_float text of None \<Rightarrow> None | Some (v, rest) \<Rightarrow> if at_end rest then Some v else None)"

definition parseSpell :: "string \<Rightarrow> (string \<times> int \<times> string \<times> f32) option" where
  "parseSpell payload =
     (case split_request payload of
        None \<Rightarrow> None
      | Some (requestId, rest) \<Rightarrow>
          (case split_at CHR '','' rest of
             None \<Rightarrow> None
           | Some (targetText, rest1) \<Rightarrow>
               (case split_at CHR '','' rest1 of
                  None \<Rightarrow> None
                | Some (element, powerText) \<Rightarrow>
                    if CHR '','' \<in> set powerText then None
                    else case (parseExactInt64 targetText, parseExactFloat powerText) of
                      (Some targetId, Some pwr) \<Rightarrow>
                        if targetId > 0 \<and> element \<noteq> [] \<and> power_ok pwr then Some (requestId, targetId, element, pwr) else None
                    | _ \<Rightarrow> None)))"

text \<open>The accumulated error string, empty when accepted, and the queue.\<close>

definition CombatCommandHandler_handle :: "NetworkCommand \<Rightarrow> WorldInputQueue \<Rightarrow> unit result \<times> WorldInputQueue" where
  "CombatCommandHandler_handle command q =
     (if cmd_type command \<noteq> Attack \<and> cmd_type command \<noteq> CastSpell then (Inl ''command is not attack or spell'', q)
      else case validateCommand command of
        Inl error \<Rightarrow> (Inl error, q)
      | Inr _ \<Rightarrow>
          if cmd_type command = Attack then
            (case parseAttack (cmd_payload command) of
               None \<Rightarrow> (Inl ''attack payload or input is invalid'', q)
             | Some (requestId, targetId, pwr) \<Rightarrow>
                 (case WorldInputQueue_enqueueCombat (cmd_sessionId command) targetId pwr requestId q of
                    None \<Rightarrow> (Inl ''attack payload or input is invalid'', q)
                  | Some q' \<Rightarrow> (Inr (), q')))
          else
            (case parseSpell (cmd_payload command) of
               None \<Rightarrow> (Inl ''spell payload or input is invalid'', q)
             | Some (requestId, targetId, element, pwr) \<Rightarrow>
                 (case WorldInputQueue_enqueueSpell (cmd_sessionId command) targetId element pwr requestId q of
                    None \<Rightarrow> (Inl ''spell payload or input is invalid'', q)
                  | Some q' \<Rightarrow> (Inr (), q'))))"

subsection \<open>ChatCommandHandler\<close>

definition ChatCommandHandler_handle :: "NetworkCommand \<Rightarrow> WorldInputQueue \<Rightarrow> unit result \<times> WorldInputQueue" where
  "ChatCommandHandler_handle command q =
     (if cmd_type command \<noteq> Chat \<or> cmd_sessionId command \<le> 0 then (Inl ''command is not an authenticated chat command'', q)
      else case validateCommand command of
        Inl error \<Rightarrow> (Inl error, q)
      | Inr _ \<Rightarrow>
          (case split_at CHR ''|'' (cmd_payload command) of
             None \<Rightarrow> (Inl ''chat command must contain audience and message'', q)
           | Some (audience, message) \<Rightarrow>
               (case WorldInputQueue_enqueueChat (cmd_sessionId command) audience message q of
                  None \<Rightarrow> (Inl ''chat input is invalid or world input queue is full'', q)
                | Some q' \<Rightarrow> (Inr (), q'))))"

subsection \<open>DisconnectCommandHandler\<close>

record 'p World =
  wd_registry :: SessionRegistry
  wd_presence :: Presence
  wd_ports :: 'p

definition emptySession :: SessionInfo where
  "emptySession = \<lparr>si_internalId = 0, si_aliasId = 0, si_claimedId = [], si_authenticated = False\<rparr>"

definition DisconnectCommandHandler_handle :: "NetworkCommand \<Rightarrow> 'p World \<Rightarrow> SessionInfo result \<times> 'p World" where
  "DisconnectCommandHandler_handle command w =
     (if cmd_type command \<noteq> Disconnect then (Inl ''command is not a disconnect'', w)
      else case validateCommand command of
        Inl error \<Rightarrow> (Inl error, w)
      | Inr _ \<Rightarrow>
          if \<not> SessionRegistry_isActive (wd_registry w) (cmd_sessionId command)
          then (Inl ''disconnect requires an active session'', w)
          else
            let w1 = w\<lparr>wd_presence := snd (removeAfterLogout (cmd_sessionId command) (wd_presence w))\<rparr> in
            (case SessionRegistry_logout (cmd_sessionId command) (wd_registry w1) of
               (False, sr) \<Rightarrow> (Inl ''disconnect could not end the session'', w1\<lparr>wd_registry := sr\<rparr>)
             | (True, sr) \<Rightarrow> (Inr (emptySession\<lparr>si_internalId := cmd_sessionId command\<rparr>), w1\<lparr>wd_registry := sr\<rparr>)))"

subsection \<open>ServerCommandDispatcher\<close>

record CommandDispatchResult =
  dr_accepted :: bool
  dr_type :: CommandType
  dr_session :: SessionInfo
  dr_error :: string
  dr_playerSessionKey :: string

text \<open>
  \<open>dp_auth\<close> is \<open>challengeAuth\<close> with \<open>gameplaySessions\<close> (one constructor sets both), \<open>dp_bound\<close> whether
  \<open>inputQueue\<close> is not null.
\<close>

record 'p Dispatcher =
  dp_bound :: bool
  dp_rateLimiter :: CommandRateLimiter
  dp_snapshotRequests :: nat
  dp_auth :: "'p LoginPorts option"

definition Dispatcher_new :: "'p Dispatcher" where
  "Dispatcher_new = \<lparr>dp_bound = False, dp_rateLimiter = CommandRateLimiter_init, dp_snapshotRequests = 0, dp_auth = None\<rparr>"

definition Dispatcher_with_queue :: "'p Dispatcher" where
  "Dispatcher_with_queue = Dispatcher_new\<lparr>dp_bound := True\<rparr>"

definition Dispatcher_with_login :: "'p LoginPorts \<Rightarrow> 'p Dispatcher" where
  "Dispatcher_with_login auth = Dispatcher_new\<lparr>dp_auth := Some auth\<rparr>"

definition bindWorldInputQueue :: "'p Dispatcher \<Rightarrow> 'p Dispatcher" where
  "bindWorldInputQueue d = d\<lparr>dp_bound := True\<rparr>"

definition Dispatcher_beginFrame :: "u64 \<Rightarrow> 'p Dispatcher \<Rightarrow> 'p Dispatcher" where
  "Dispatcher_beginFrame worldTick d =
     d\<lparr>dp_rateLimiter := CommandRateLimiter_beginFrame worldTick (dp_rateLimiter d), dp_snapshotRequests := 0\<rparr>"

definition Dispatcher_forgetSession :: "int \<Rightarrow> 'p Dispatcher \<Rightarrow> 'p Dispatcher" where
  "Dispatcher_forgetSession sessionId d = d\<lparr>dp_rateLimiter := CommandRateLimiter_forgetSession sessionId (dp_rateLimiter d)\<rparr>"

definition clearRateLimits :: "'p Dispatcher \<Rightarrow> 'p Dispatcher" where
  "clearRateLimits d = d\<lparr>dp_rateLimiter := CommandRateLimiter_clear (dp_rateLimiter d)\<rparr>"

definition requireActiveSession :: "SessionRegistry \<Rightarrow> int \<Rightarrow> string \<Rightarrow> unit result" where
  "requireActiveSession registry sessionId commandName =
     (if SessionRegistry_isActive registry sessionId then Inr () else Inl (commandName @ '' requires an active session''))"

definition dispatch_refused :: "NetworkCommand \<Rightarrow> string \<Rightarrow> CommandDispatchResult" where
  "dispatch_refused command error =
     \<lparr>dr_accepted = False, dr_type = cmd_type command, dr_session = emptySession, dr_error = error, dr_playerSessionKey = []\<rparr>"

definition dispatch_done :: "NetworkCommand \<Rightarrow> CommandDispatchResult" where
  "dispatch_done command =
     \<lparr>dr_accepted = True, dr_type = cmd_type command, dr_session = emptySession, dr_error = [], dr_playerSessionKey = []\<rparr>"

text \<open>The two tests in front of every command but a login: an active session, then the rate limit.\<close>

definition admit_command :: "string \<Rightarrow> string \<Rightarrow> NetworkCommand \<Rightarrow> SessionRegistry \<Rightarrow> 'p Dispatcher \<Rightarrow> unit result \<times> 'p Dispatcher" where
  "admit_command commandName limitName command registry d =
     (case requireActiveSession registry (cmd_sessionId command) commandName of
        Inl error \<Rightarrow> (Inl error, d)
      | Inr _ \<Rightarrow>
          (case CommandRateLimiter_allow (cmd_sessionId command) (cmd_type command) (dp_rateLimiter d) of
             (False, rl) \<Rightarrow> (Inl (limitName @ '' rate limit exceeded''), d\<lparr>dp_rateLimiter := rl\<rparr>)
           | (True, rl) \<Rightarrow> (Inr (), d\<lparr>dp_rateLimiter := rl\<rparr>)))"

type_synonym 'p dispatch_outcome = "CommandDispatchResult option \<times> 'p Dispatcher \<times> WorldInputQueue \<times> 'p World"

text \<open>\<open>now\<close> is the wall clock reading of the login service; \<open>None\<close> is an exception of its store.\<close>

definition dispatchLogin :: "int \<Rightarrow> NetworkCommand \<Rightarrow> 'p Dispatcher \<Rightarrow> WorldInputQueue \<Rightarrow> 'p World \<Rightarrow> 'p dispatch_outcome" where
  "dispatchLogin now command d q w =
     (case dp_auth d of
        None \<Rightarrow> (Some (dispatch_refused command ''challenge_auth_required''), d, q, w)
      | Some ports \<Rightarrow>
          (case ChallengeLoginCommandHandler_handle ports command now (wd_ports w) (wd_registry w) of
             (r, p, sr) \<Rightarrow>
               (map_option (\<lambda>login. \<lparr>dr_accepted = lc_accepted login, dr_type = cmd_type command, dr_session = lc_session login,
                                     dr_error = lc_error login, dr_playerSessionKey = lc_playerSessionKey login\<rparr>) r,
                d, q, w\<lparr>wd_ports := p, wd_registry := sr\<rparr>)))"

definition input_outcome :: "NetworkCommand \<Rightarrow> 'p Dispatcher \<Rightarrow> unit result \<times> WorldInputQueue \<Rightarrow> 'p World \<Rightarrow> 'p dispatch_outcome" where
  "input_outcome command d handled w =
     (case handled of
        (Inl error, q) \<Rightarrow> (Some (dispatch_refused command error), d, q, w)
      | (Inr _, q) \<Rightarrow> (Some (dispatch_done command), d, q, w))"

definition dispatch_chat :: "NetworkCommand \<Rightarrow> 'p Dispatcher \<Rightarrow> WorldInputQueue \<Rightarrow> 'p World \<Rightarrow> 'p dispatch_outcome" where
  "dispatch_chat command d q w =
     (if \<not> dp_bound d then (Some (dispatch_refused command ''chat world input queue is not bound''), d, q, w)
      else case admit_command ''chat'' ''chat command'' command (wd_registry w) d of
        (Inl error, d') \<Rightarrow> (Some (dispatch_refused command error), d', q, w)
      | (Inr _, d') \<Rightarrow> input_outcome command d' (ChatCommandHandler_handle command q) w)"

definition dispatch_combat :: "NetworkCommand \<Rightarrow> 'p Dispatcher \<Rightarrow> WorldInputQueue \<Rightarrow> 'p World \<Rightarrow> 'p dispatch_outcome" where
  "dispatch_combat command d q w =
     (if \<not> dp_bound d then (Some (dispatch_refused command ''combat world input queue is not bound''), d, q, w)
      else case admit_command ''combat'' ''combat command'' command (wd_registry w) d of
        (Inl error, d') \<Rightarrow> (Some (dispatch_refused command error), d', q, w)
      | (Inr _, d') \<Rightarrow> input_outcome command d' (CombatCommandHandler_handle command q) w)"

definition inputs_of_target :: "MoveTarget \<Rightarrow> WorldInputQueue \<Rightarrow> WorldInputQueue" where
  "inputs_of_target target q = (case target of ToInputs q' \<Rightarrow> q' | _ \<Rightarrow> q)"

definition dispatch_move :: "NetworkCommand \<Rightarrow> 'p Dispatcher \<Rightarrow> WorldInputQueue \<Rightarrow> 'p World \<Rightarrow> 'p dispatch_outcome" where
  "dispatch_move command d q w =
     (if \<not> dp_bound d then (Some (dispatch_refused command ''movement world input queue is not bound''), d, q, w)
      else case admit_command ''movement'' ''movement command'' command (wd_registry w) d of
        (Inl error, d') \<Rightarrow> (Some (dispatch_refused command error), d', q, w)
      | (Inr _, d') \<Rightarrow>
          (case MovementCommandHandler_handle command (ToInputs q) of
             (r, target) \<Rightarrow>
               input_outcome command d' (if mr_accepted r then Inr () else Inl (mr_error r), inputs_of_target target q) w))"

definition dispatch_snapshot :: "NetworkCommand \<Rightarrow> 'p Dispatcher \<Rightarrow> WorldInputQueue \<Rightarrow> 'p World \<Rightarrow> 'p dispatch_outcome" where
  "dispatch_snapshot command d q w =
     (case admit_command ''snapshot request'' ''snapshot request'' command (wd_registry w) d of
        (Inl error, d') \<Rightarrow> (Some (dispatch_refused command error), d', q, w)
      | (Inr _, d') \<Rightarrow> (Some (dispatch_done command), d'\<lparr>dp_snapshotRequests := Suc (dp_snapshotRequests d')\<rparr>, q, w))"

definition dispatch_disconnect :: "NetworkCommand \<Rightarrow> 'p Dispatcher \<Rightarrow> WorldInputQueue \<Rightarrow> 'p World \<Rightarrow> 'p dispatch_outcome" where
  "dispatch_disconnect command d q w =
     (case admit_command ''disconnect'' ''disconnect command'' command (wd_registry w) d of
        (Inl error, d') \<Rightarrow> (Some (dispatch_refused command error), d', q, w)
      | (Inr _, d') \<Rightarrow>
          (case DisconnectCommandHandler_handle command w of
             (Inl error, w') \<Rightarrow> (Some (dispatch_refused command error), d', q, w')
           | (Inr session, w') \<Rightarrow>
               (Some ((dispatch_done command)\<lparr>dr_session := session\<rparr>), Dispatcher_forgetSession (cmd_sessionId command) d', q, w')))"

definition dispatch :: "int \<Rightarrow> NetworkCommand \<Rightarrow> 'p Dispatcher \<Rightarrow> WorldInputQueue \<Rightarrow> 'p World \<Rightarrow> 'p dispatch_outcome" where
  "dispatch now command d q w =
     (case cmd_type command of
        Login \<Rightarrow> dispatchLogin now command d q w
      | Chat \<Rightarrow> dispatch_chat command d q w
      | Attack \<Rightarrow> dispatch_combat command d q w
      | CastSpell \<Rightarrow> dispatch_combat command d q w
      | Move \<Rightarrow> dispatch_move command d q w
      | RequestSnapshot \<Rightarrow> dispatch_snapshot command d q w
      | Disconnect \<Rightarrow> dispatch_disconnect command d q w
      | OtherCommand n \<Rightarrow> (Some (dispatch_refused command ''command handler is not implemented''), d, q, w))"

text \<open>\<open>dispatchAll\<close>; each command has its clock reading. An exception ends it.\<close>

fun dispatchAll :: "(int \<times> NetworkCommand) list \<Rightarrow> 'p Dispatcher \<Rightarrow> WorldInputQueue \<Rightarrow> 'p World \<Rightarrow>
    CommandDispatchResult list option \<times> 'p Dispatcher \<times> WorldInputQueue \<times> 'p World" where
  "dispatchAll [] d q w = (Some [], d, q, w)"
| "dispatchAll ((now, command) # commands) d q w =
     (case dispatch now command d q w of
        (None, d', q', w') \<Rightarrow> (None, d', q', w')
      | (Some r, d', q', w') \<Rightarrow>
          (case dispatchAll commands d' q' w' of (rs, d'', q'', w'') \<Rightarrow> (map_option (Cons r) rs, d'', q'', w'')))"

subsection \<open>A command without an active session\<close>

lemma admit_inactive:
  "\<not> SessionRegistry_isActive sr (cmd_sessionId c) \<Longrightarrow> admit_command n l c sr d = (Inl (n @ '' requires an active session''), d)"
  by (simp add: admit_command_def requireActiveSession_def)

text \<open>
  A command that is not a login and names a session that is not active is refused and
  changes nothing: not the input queue, not the registry, the field or the store, not even the rate
  limits.
\<close>

theorem inactive_session_changes_nothing:
  assumes "cmd_type c \<noteq> Login" and "\<not> SessionRegistry_isActive (wd_registry w) (cmd_sessionId c)"
  shows "\<exists>error. dispatch now c d q w = (Some (dispatch_refused c error), d, q, w)"
  using assms(1)
  by (cases "cmd_type c") (auto simp: dispatch_def dispatch_chat_def dispatch_combat_def dispatch_move_def dispatch_snapshot_def
      dispatch_disconnect_def admit_inactive [OF assms(2)])

subsection \<open>What a command adds to the queue\<close>

text \<open>The session an input acts for.\<close>

fun acts_for :: "WorldInputBody \<Rightarrow> int" where
  "acts_for (ActionInput a) = 0"
| "acts_for (MovementInput m) = mi_sessionId m"
| "acts_for (CombatInput c) = ci_attackerId c"
| "acts_for (SpellInput s) = sp_casterId s"
| "acts_for (ChatInput c) = ct_senderId c"

text \<open>What the handlers guarantee of an input that came over the wire.\<close>

fun wire_body :: "WorldInputBody \<Rightarrow> bool" where
  "wire_body (ActionInput a) = False"
| "wire_body (MovementInput m) = (0 < mi_sessionId m \<and> isValidMovementDelta (mi_dx m) (mi_dy m) (mi_dz m))"
| "wire_body (CombatInput c) = (0 < ci_attackerId c \<and> 0 < ci_targetId c \<and> power_ok (ci_power c) \<and> isValidRequestId (ci_requestId c))"
| "wire_body (SpellInput s) = (0 < sp_casterId s \<and> 0 < sp_targetId s \<and> power_ok (sp_power s) \<and> f32_ok (sp_power s) \<and> isValidRequestId (sp_requestId s) \<and>
     sp_element s \<noteq> [] \<and> length (sp_element s) \<le> 32 \<and> list_all name_char (sp_element s))"
| "wire_body (ChatInput c) = (0 < ct_senderId c \<and> ct_audience c \<noteq> [] \<and> length (ct_audience c) \<le> 16 \<and> list_all name_char (ct_audience c) \<and>
     ct_message c \<noteq> [] \<and> length (ct_message c) \<le> 512 \<and> list_all message_char (ct_message c))"

definition wire_input :: "WorldInput \<Rightarrow> bool" where
  "wire_input i \<longleftrightarrow> wire_body (wi_body i)"

text \<open>The queue with one more input at its end.\<close>

definition queued :: "WorldInputBody \<Rightarrow> WorldInputQueue \<Rightarrow> WorldInputQueue \<Rightarrow> bool" where
  "queued b q q' \<longleftrightarrow> wq_pending q' = wq_pending q @ [\<lparr>wi_sequence = wq_nextSequence q, wi_body = b\<rparr>]"

definition adds_input :: "int \<Rightarrow> WorldInputQueue \<Rightarrow> WorldInputQueue \<Rightarrow> bool" where
  "adds_input sid q q' \<longleftrightarrow> (\<exists>b. queued b q q' \<and> wire_body b \<and> acts_for b = sid)"

lemma adds_inputI: "queued b q q' \<Longrightarrow> wire_body b \<Longrightarrow> acts_for b = sid \<Longrightarrow> adds_input sid q q'"
  by (auto simp: adds_input_def)

lemma enqueue_requested_queued: "enqueue_requested a r b q = Some q' \<Longrightarrow> queued b q q' \<and> (r = [] \<or> isValidRequestId r)"
  by (auto simp: enqueue_requested_def queued_def push_input_def Let_def split: if_splits)

lemma split_request_nonempty [simp]: "split_request p \<noteq> Some ([], s)"
  by (auto simp: split_request_def split: option.splits if_splits)

lemma parseAttack_ok: "parseAttack p = Some (r, t, x) \<Longrightarrow> r \<noteq> [] \<and> 0 < t \<and> power_ok x"
  by (auto simp: parseAttack_def split: option.splits if_splits)

lemma read_float_ok: "read_float s = Some (v, rest) \<Longrightarrow> f32_ok v"
proof -
  have "f32_ok (float_of_decimal neg m e)" for neg m e unfolding float_of_decimal_def by (rule f32_ok_pack) simp
  then show "read_float s = Some (v, rest) \<Longrightarrow> f32_ok v"
    by (auto simp: read_float_def Let_def split: prod.splits list.splits if_splits option.splits)
qed

lemma parseSpell_ok: "parseSpell p = Some (r, t, e, x) \<Longrightarrow> r \<noteq> [] \<and> 0 < t \<and> power_ok x \<and> f32_ok x"
  by (auto simp: parseSpell_def parseExactFloat_def read_float_ok simp del: f32_ok.simps split: option.splits if_splits)

text \<open>An accepted command of the handlers adds one input of the command's session, a refused one none.\<close>

definition one_input :: "int \<Rightarrow> unit result \<Rightarrow> WorldInputQueue \<Rightarrow> WorldInputQueue \<Rightarrow> bool" where
  "one_input sid r q q' \<longleftrightarrow> (if r = Inr () then adds_input sid q q' else q' = q)"

lemma combat_one_input: "CombatCommandHandler_handle c q = (r, q') \<Longrightarrow> one_input (cmd_sessionId c) r q q'"
  by (auto simp: CombatCommandHandler_handle_def WorldInputQueue_enqueueCombat_def WorldInputQueue_enqueueSpell_def one_input_def
      split: if_splits sum.splits option.splits dest!: enqueue_requested_queued parseAttack_ok parseSpell_ok
      elim!: adds_inputI)

lemma chat_one_input: "ChatCommandHandler_handle c q = (r, q') \<Longrightarrow> one_input (cmd_sessionId c) r q q'"
  by (auto simp: ChatCommandHandler_handle_def WorldInputQueue_enqueueChat_def one_input_def push_input_def queued_def
      split: if_splits sum.splits option.splits intro!: adds_inputI)

lemma sequenced_one_input:
  assumes "WorldInputQueue_enqueueSequencedMovement sid dx dy dz n q = (r, q')"
  shows "if r = Enqueued then adds_input sid q q' else q' = q"
  using assms
  by (auto simp: WorldInputQueue_enqueueSequencedMovement_def Let_def push_input_def queued_def split: if_splits intro!: adds_inputI)

lemma move_one_input:
  "MovementCommandHandler_handle c (ToInputs q) = (r, target) \<Longrightarrow>
     one_input (cmd_sessionId c) (if mr_accepted r then Inr () else Inl (mr_error r)) q (inputs_of_target target q)"
  by (auto simp: MovementCommandHandler_handle_def MovementCommandHandler_put_def inputs_of_target_def one_input_def move_failed_def
      move_done_def split: if_splits sum.splits option.splits prod.splits MovementEnqueueResult.splits dest!: sequenced_one_input)

lemma admit_error: "admit_command n l c sr d = (Inr x, d') \<Longrightarrow> SessionRegistry_isActive sr (cmd_sessionId c)"
  by (auto simp: admit_command_def requireActiveSession_def split: sum.splits prod.splits bool.splits if_splits)

definition dispatches_input :: "NetworkCommand \<Rightarrow> WorldInputQueue \<Rightarrow> 'p World \<Rightarrow> 'p dispatch_outcome \<Rightarrow> bool" where
  "dispatches_input c q w out \<longleftrightarrow> (case out of (r, d', q', w') \<Rightarrow> r \<noteq> None \<and> w' = w \<and>
     (if dr_accepted (the r) then adds_input (cmd_sessionId c) q q' \<and> SessionRegistry_isActive (wd_registry w) (cmd_sessionId c)
      else q' = q))"

lemma dispatches_refused [simp]: "dispatches_input c q w (Some (dispatch_refused c e), d, q, w)"
  by (simp add: dispatches_input_def dispatch_refused_def)

lemma dispatches_outcome:
  assumes "SessionRegistry_isActive (wd_registry w) (cmd_sessionId c)" "one_input (cmd_sessionId c) r q q'"
  shows "dispatches_input c q w (input_outcome c d (r, q') w)"
  using assms by (cases r) (auto simp: dispatches_input_def input_outcome_def one_input_def dispatch_refused_def dispatch_done_def)

lemma dispatches_admitted:
  assumes "SessionRegistry_isActive (wd_registry w) (cmd_sessionId c) \<Longrightarrow> \<forall>d. dispatches_input c q w (handle d)"
  shows "dispatches_input c q w (case admit_command n l c (wd_registry w) d of
    (Inl error, d') \<Rightarrow> (Some (dispatch_refused c error), d', q, w) | (Inr _, d') \<Rightarrow> handle d')"
  using assms by (auto split: prod.splits sum.splits dest: admit_error)

lemma dispatch_handlers:
  "dispatches_input c q w (dispatch_chat c d q w)"
  "dispatches_input c q w (dispatch_combat c d q w)"
  "dispatches_input c q w (dispatch_move c d q w)"
proof -
  obtain r1 q1 where chat: "ChatCommandHandler_handle c q = (r1, q1)" by force
  show "dispatches_input c q w (dispatch_chat c d q w)"
    unfolding dispatch_chat_def chat using chat_one_input [OF chat] by (auto intro!: dispatches_admitted dispatches_outcome)
  obtain r2 q2 where combat: "CombatCommandHandler_handle c q = (r2, q2)" by force
  show "dispatches_input c q w (dispatch_combat c d q w)"
    unfolding dispatch_combat_def combat using combat_one_input [OF combat] by (auto intro!: dispatches_admitted dispatches_outcome)
  obtain r target where m: "MovementCommandHandler_handle c (ToInputs q) = (r, target)" by force
  show "dispatches_input c q w (dispatch_move c d q w)"
    unfolding dispatch_move_def m using move_one_input [OF m] by (auto intro!: dispatches_admitted dispatches_outcome)
qed

lemma dispatch_queue:
  assumes "dispatch now c d q w = (r, d', q', w')"
  shows "if r \<noteq> None \<and> dr_accepted (the r) \<and> cmd_type c \<in> {Move, Chat, Attack, CastSpell}
    then adds_input (cmd_sessionId c) q q' \<and> SessionRegistry_isActive (wd_registry w) (cmd_sessionId c) \<and> w' = w
    else q' = q"
proof (cases "cmd_type c \<in> {Move, Chat, Attack, CastSpell}")
  case True
  then have "dispatches_input c q w (dispatch now c d q w)" using dispatch_handlers by (auto simp: dispatch_def)
  then show ?thesis using assms True by (auto simp: dispatches_input_def)
next
  case False
  then show ?thesis using assms
    by (cases "cmd_type c") (auto simp: dispatch_def dispatchLogin_def dispatch_snapshot_def dispatch_disconnect_def
        split: option.splits prod.splits sum.splits)
qed

text \<open>
  Property C24. What a dispatched command does to the world input queue: an accepted move, attack, spell
  or chat command of an active session appends exactly one well-formed input, which acts for the
  session the command names and carries the next sequence number; every other command, and every
  refused one, leaves the queue as it was.
\<close>

theorem dispatch_queues_one_input:
  assumes "dispatch now c d q w = (Some r, d', q', w')"
  shows "if dr_accepted r \<and> cmd_type c \<in> {Move, Chat, Attack, CastSpell}
    then adds_input (cmd_sessionId c) q q' \<and> SessionRegistry_isActive (wd_registry w) (cmd_sessionId c) \<and> w' = w
    else q' = q"
using dispatch_queue [OF assms] by simp

text \<open>The inputs of the frame are what the world frame applier expects.\<close>

lemma wire_input_error:
  assumes "wire_input i" "input_error f i = Some e"
  shows "\<exists>m. wi_body i = MovementInput m \<and> \<not> Field_hasPlayer f (mi_sessionId m)"
proof -
  have "\<not> f32_le p f32_zero" if "power_ok p" for p using that by (cases p) (auto simp: power_ok_def f32_le_def)
  then show ?thesis using assms by (cases "wi_body i") (auto simp: wire_input_def input_error_def power_ok_def split: if_splits)
qed

lemma adds_wire: "adds_input sid q q' \<Longrightarrow> list_all wire_input (wq_pending q) \<Longrightarrow> list_all wire_input (wq_pending q')"
  by (auto simp: adds_input_def queued_def wire_input_def)

lemma dispatch_wire:
  "dispatch now c d q w = (r, d', q', w') \<Longrightarrow> list_all wire_input (wq_pending q) \<Longrightarrow> list_all wire_input (wq_pending q')"
  using dispatch_queue [of now c d q w r d' q' w'] adds_wire by (auto split: if_splits)

subsection \<open>Witnesses\<close>

text \<open>A registry with one active session, and a chat command of it.\<close>

definition one_session :: "nat World" where
  "one_session = \<lparr>wd_registry = snd (SessionRegistry_openAuthenticatedSession 5 SessionRegistry_init),
     wd_presence = Presence_init, wd_ports = 0\<rparr>"

definition chat_command :: "int \<Rightarrow> NetworkCommand" where
  "chat_command sid = \<lparr>cmd_version = CURRENT_PROTOCOL_VERSION, cmd_type = Chat, cmd_sessionId = sid, cmd_payload = ''world|hi''\<rparr>"

theorem inactive_session_changes_nothing_witness:
  "\<exists>error. dispatch 0 (chat_command 9) Dispatcher_with_queue WorldInputQueue_init one_session =
    (Some (dispatch_refused (chat_command 9) error), Dispatcher_with_queue, WorldInputQueue_init, one_session)"
  by (rule inactive_session_changes_nothing) code_simp+

theorem dispatch_queues_one_input_witness:
  "\<exists>r d' q' w'. dispatch 0 (chat_command 1) Dispatcher_with_queue WorldInputQueue_init one_session = (Some r, d', q', w') \<and>
     adds_input 1 WorldInputQueue_init q'"
proof -
  obtain r d' q' w' where "dispatch 0 (chat_command 1) Dispatcher_with_queue WorldInputQueue_init one_session = (r, d', q', w')"
    by (metis prod_cases4)
  moreover have "case dispatch 0 (chat_command 1) Dispatcher_with_queue WorldInputQueue_init one_session of
      (Some r, _) \<Rightarrow> dr_accepted r | _ \<Rightarrow> False" by code_simp
  moreover have "cmd_type (chat_command 1) = Chat" "cmd_sessionId (chat_command 1) = 1" by (simp_all add: chat_command_def)
  ultimately show ?thesis using dispatch_queues_one_input [of 0 "chat_command 1"] by (cases r) fastforce+
qed

end
