(* ===== verification/Runtime.thy ===== *)
theory Runtime
  imports Commands Client_Session Responses
begin

text \<open>
  \<open>ServerRuntime.cpp\<close> with its listener \<open>Connection.cpp\<close>: accepting connections, taking commands off
  them, dispatching them, answering logins and disconnects, flushing, and publishing world updates.
  What the kernel returns (\<open>accept\<close>, \<open>recv\<close>, \<open>send\<close>, the set-up calls) is an argument. The runtime, its
  dispatcher and what they share are the record \<open>Server\<close>. The \<open>error\<close> reference parameters are passed
  and returned; an exception of the login store is \<open>None\<close>.
\<close>

subsection \<open>Connection\<close>

datatype AcceptStatus = AcceptAccepted | NoPendingClient | AcceptFailed

text \<open>
  The outcome of \<open>accept\<close>; for a descriptor, whether it could be made non-blocking, in
  \<open>acceptClient\<close> and again in the constructor of \<open>ClientSession\<close>.
\<close>

datatype AcceptOutcome = AcceptFd nat bool bool | AcceptError errno

type_synonym Connection = int

definition Connection_new :: Connection where
  "Connection_new = - 1"

text \<open>The results of \<open>socket\<close>, and whether \<open>setsockopt\<close>, \<open>bind\<close>, \<open>listen\<close> and \<open>fcntl\<close> succeeded.\<close>

definition Connection_open :: "int \<Rightarrow> bool \<Rightarrow> bool \<Rightarrow> bool \<Rightarrow> bool \<Rightarrow> Connection \<Rightarrow> bool \<times> Connection" where
  "Connection_open sock0 reused bound listening nonblocking listenerSocket =
     (if listenerSocket \<ge> 0 then (False, listenerSocket)
      else if sock0 < 0 then (False, listenerSocket)
      else if \<not> reused then (False, listenerSocket)
      else if \<not> bound then (False, listenerSocket)
      else if \<not> listening then (False, listenerSocket)
      else if \<not> nonblocking then (False, listenerSocket)
      else (True, sock0))"

definition Connection_acceptClient :: "AcceptOutcome \<Rightarrow> Connection \<Rightarrow> AcceptStatus \<times> int" where
  "Connection_acceptClient outcome listenerSocket =
     (if listenerSocket < 0 then (AcceptFailed, - 1)
      else case outcome of
        AcceptFd accepted nonblocking _ \<Rightarrow> if \<not> nonblocking then (AcceptFailed, - 1) else (AcceptAccepted, int accepted)
      | AcceptError e \<Rightarrow> if e = EAGAIN \<or> e = EWOULDBLOCK then (NoPendingClient, - 1) else (AcceptFailed, - 1))"

definition Connection_closeSocket :: "bool \<Rightarrow> Connection \<Rightarrow> bool \<times> Connection" where
  "Connection_closeSocket closed listenerSocket = (if listenerSocket < 0 then (True, listenerSocket) else (closed, - 1))"

definition Connection_isOpen :: "Connection \<Rightarrow> bool" where
  "Connection_isOpen listenerSocket \<longleftrightarrow> listenerSocket \<ge> 0"

text \<open>\<open>getsockname\<close> gives the port of the socket, or fails.\<close>

definition Connection_boundPort :: "u16 option \<Rightarrow> Connection \<Rightarrow> u16" where
  "Connection_boundPort sockname listenerSocket =
     (if listenerSocket < 0 then 0 else case sockname of None \<Rightarrow> 0 | Some port \<Rightarrow> port)"

subsection \<open>The state\<close>

definition MAX_PENDING_COMMANDS :: nat where "MAX_PENDING_COMMANDS = 1024"
definition MAX_PENDING_COMMANDS_PER_CONNECTION :: nat where "MAX_PENDING_COMMANDS_PER_CONNECTION = 128"
definition MAX_ACCEPTS_PER_FRAME :: nat where "MAX_ACCEPTS_PER_FRAME = 64"

record ServerFrameResult =
  fr_worldTick :: u64
  fr_networkOperations :: nat
  fr_inputs :: "WorldInput list"
  fr_newAuthenticatedSessions :: nat
  fr_snapshotRequests :: nat

record PendingCommand =
  pc_connectionId :: u64
  pc_command :: NetworkCommand

record Runtime =
  rt_listener :: Connection
  rt_running :: bool
  rt_nextConnectionId :: u64
  rt_clients :: "(u64, ClientSession) std_map"
  rt_lifecycle :: SessionLifecycle
  rt_inputTick :: WorldInputTick
  rt_pendingCommands :: "PendingCommand list"
  rt_newAuthenticatedSessions :: nat

definition Runtime_new :: Runtime where
  "Runtime_new = \<lparr>rt_listener = Connection_new, rt_running = False, rt_nextConnectionId = 1, rt_clients = [], rt_lifecycle = [],
     rt_inputTick = WorldInputTick_new WorldInputQueue_init, rt_pendingCommands = [], rt_newAuthenticatedSessions = 0\<rparr>"

record 'p Server =
  sv_runtime :: Runtime
  sv_dispatcher :: "'p Dispatcher"
  sv_world :: "'p World"

text \<open>\<open>if (error.empty()) error = e\<close>.\<close>

definition first_error :: "string \<Rightarrow> string \<Rightarrow> string" where
  "first_error error e = (if error = [] then e else error)"

subsection \<open>Answers\<close>

definition enqueueSessionFrame :: "ClientSession \<Rightarrow> u8 list \<Rightarrow> string \<Rightarrow> bool \<times> ClientSession \<times> string" where
  "enqueueSessionFrame session frame error =
     (if \<not> ClientSession_isOpen session then (True, session, error)
      else case ClientSession_enqueueFrame session frame of
        Inl frameError \<Rightarrow> (False, session, first_error error frameError)
      | Inr session' \<Rightarrow> (True, session', error))"

definition enqueueLoginResponse :: "ClientSession \<Rightarrow> LoginResponse \<Rightarrow> string \<Rightarrow> bool \<times> ClientSession \<times> string" where
  "enqueueLoginResponse session response error =
     (if \<not> ClientSession_isOpen session then (True, session, error)
      else case encodeLoginResponseFrame response of
        Inl frameError \<Rightarrow> (False, session, first_error error frameError)
      | Inr frame \<Rightarrow> enqueueSessionFrame session frame error)"

definition loginResponseFromDispatch :: "CommandDispatchResult \<Rightarrow> LoginResponse" where
  "loginResponseFromDispatch result =
     (if dr_accepted result
      then \<lparr>lr_version = CURRENT_PROTOCOL_VERSION, lr_status = LoginAccepted, lr_sessionId = si_internalId (dr_session result),
            lr_payload = dr_playerSessionKey result\<rparr>
      else \<lparr>lr_version = CURRENT_PROTOCOL_VERSION, lr_status = LoginRejected, lr_sessionId = 0, lr_payload = dr_error result\<rparr>)"

definition enqueueDisconnectResponse :: "ClientSession \<Rightarrow> DisconnectResponse \<Rightarrow> string \<Rightarrow> bool \<times> ClientSession \<times> string" where
  "enqueueDisconnectResponse session response error =
     (if \<not> ClientSession_isOpen session then (True, session, error)
      else case encodeDisconnectResponseFrame response of
        Inl frameError \<Rightarrow> (False, session, first_error error frameError)
      | Inr frame \<Rightarrow> enqueueSessionFrame session frame error)"

subsection \<open>Start, stop and accept\<close>

definition Runtime_start :: "int \<Rightarrow> bool \<Rightarrow> bool \<Rightarrow> bool \<Rightarrow> bool \<Rightarrow> Runtime \<Rightarrow> bool \<times> Runtime" where
  "Runtime_start sock0 reused bound listening nonblocking rt =
     (if rt_running rt then (False, rt)
      else case Connection_open sock0 reused bound listening nonblocking (rt_listener rt) of
        (False, l) \<Rightarrow> (False, rt\<lparr>rt_listener := l\<rparr>)
      | (True, l) \<Rightarrow> (True, rt\<lparr>rt_listener := l, rt_running := True\<rparr>))"

definition Runtime_listeningPort :: "u16 option \<Rightarrow> Runtime \<Rightarrow> u16" where
  "Runtime_listeningPort sockname rt = (if rt_running rt then Connection_boundPort sockname (rt_listener rt) else 0)"

text \<open>Both \<open>stop\<close> functions release the players first; one of them also logs the sessions out.\<close>

definition release_clients :: "Runtime \<Rightarrow> Presence \<Rightarrow> Presence" where
  "release_clients rt ps = fold (\<lambda>(k, _) ps. snd (releaseAfterStop (SessionLifecycle_sessionId (rt_lifecycle rt) k) ps)) (rt_clients rt) ps"

definition stopped_runtime :: "Connection \<Rightarrow> Runtime \<Rightarrow> Runtime" where
  "stopped_runtime listener rt =
     rt\<lparr>rt_pendingCommands := [], rt_inputTick := (rt_inputTick rt)\<lparr>wt_inputQueue := WorldInputQueue_clear (wt_inputQueue (rt_inputTick rt))\<rparr>,
        rt_clients := [], rt_lifecycle := [], rt_listener := listener, rt_running := False\<rparr>"

definition Runtime_stop :: "bool \<Rightarrow> Runtime \<Rightarrow> Presence \<Rightarrow> bool \<times> Runtime \<times> Presence" where
  "Runtime_stop closed rt ps =
     (case Connection_closeSocket closed (rt_listener rt) of
        (r, listener) \<Rightarrow> (r, stopped_runtime listener rt, release_clients rt ps))"

definition Runtime_stop_registry :: "bool \<Rightarrow> Runtime \<Rightarrow> 'p World \<Rightarrow> bool \<times> Runtime \<times> 'p World" where
  "Runtime_stop_registry closed rt w =
     (case Connection_closeSocket closed (rt_listener rt) of
        (r, listener) \<Rightarrow>
          (r, stopped_runtime listener rt,
           w\<lparr>wd_presence := release_clients rt (wd_presence w),
             wd_registry := snd (SessionLifecycle_clear (rt_lifecycle rt) (wd_registry w))\<rparr>))"

definition acceptPendingClient :: "AcceptOutcome \<Rightarrow> Runtime \<Rightarrow> AcceptStatus \<times> u64 \<times> string \<times> Runtime" where
  "acceptPendingClient outcome rt =
     (if \<not> rt_running rt then (AcceptFailed, 0, ''server runtime is stopped'', rt)
      else case Connection_acceptClient outcome (rt_listener rt) of
        (NoPendingClient, _) \<Rightarrow> (NoPendingClient, 0, [], rt)
      | (AcceptFailed, _) \<Rightarrow> (AcceptFailed, 0, [], rt)
      | (AcceptAccepted, clientSocket) \<Rightarrow>
          if rt_nextConnectionId rt = UINT64_MAX then (AcceptFailed, 0, ''connection id allocation failed'', rt)
          else
            let session = ClientSession_new (case outcome of AcceptFd _ _ again \<Rightarrow> again | _ \<Rightarrow> False) clientSocket in
            if \<not> ClientSession_isOpen session then (AcceptFailed, 0, ''accepted client session could not be initialized'', rt)
            else (AcceptAccepted, rt_nextConnectionId rt, [],
                  rt\<lparr>rt_nextConnectionId := rt_nextConnectionId rt + 1,
                     rt_clients := map_put (rt_nextConnectionId rt) session (rt_clients rt)\<rparr>))"

definition clientSession :: "u64 \<Rightarrow> Runtime \<Rightarrow> ClientSession option" where
  "clientSession connectionId rt = map_of (rt_clients rt) connectionId"

definition put_session :: "u64 \<Rightarrow> ClientSession \<Rightarrow> 'p Server \<Rightarrow> 'p Server" where
  "put_session connectionId session s =
     s\<lparr>sv_runtime := (sv_runtime s)\<lparr>rt_clients := map_put connectionId session (rt_clients (sv_runtime s))\<rparr>\<rparr>"

subsection \<open>Commands\<close>

definition Runtime_submit :: "NetworkCommand \<Rightarrow> Runtime \<Rightarrow> bool \<times> Runtime" where
  "Runtime_submit command rt =
     (if \<not> rt_running rt \<or> length (rt_pendingCommands rt) \<ge> MAX_PENDING_COMMANDS then (False, rt)
      else if validateCommand command \<noteq> Inr () then (False, rt)
      else (True, rt\<lparr>rt_pendingCommands := rt_pendingCommands rt @ [\<lparr>pc_connectionId = 0, pc_command = command\<rparr>]\<rparr>))"

definition Runtime_submitAction :: "Action \<Rightarrow> Runtime \<Rightarrow> bool \<times> Runtime" where
  "Runtime_submitAction action rt =
     (if \<not> rt_running rt then (False, rt)
      else case WorldInputTick_submitAction action (rt_inputTick rt) of (r, t) \<Rightarrow> (r, rt\<lparr>rt_inputTick := t\<rparr>))"

definition Runtime_submitMovement :: "int \<Rightarrow> f32 \<Rightarrow> f32 \<Rightarrow> f32 \<Rightarrow> Runtime \<Rightarrow> bool \<times> Runtime" where
  "Runtime_submitMovement sessionId dx dy dz rt =
     (if \<not> rt_running rt then (False, rt)
      else case WorldInputTick_submitMovement sessionId dx dy dz (rt_inputTick rt) of (r, t) \<Rightarrow> (r, rt\<lparr>rt_inputTick := t\<rparr>))"

definition pending_of :: "u64 \<Rightarrow> PendingCommand list \<Rightarrow> PendingCommand list" where
  "pending_of connectionId pending = filter (\<lambda>p. pc_connectionId p = connectionId) pending"

definition enqueueCommands :: "u64 \<Rightarrow> NetworkCommand list \<Rightarrow> Runtime \<Rightarrow> unit result \<times> Runtime" where
  "enqueueCommands connectionId commands rt =
     (if length commands > MAX_PENDING_COMMANDS - length (rt_pendingCommands rt) then (Inl ''server command queue is full'', rt)
      else
        let connectionPending = length (pending_of connectionId (rt_pendingCommands rt)) in
        if connectionPending \<ge> MAX_PENDING_COMMANDS_PER_CONNECTION \<or>
           length commands > MAX_PENDING_COMMANDS_PER_CONNECTION - connectionPending
        then (Inl ''connection command queue is full'', rt)
        else case List.map_filter (\<lambda>c. case validateCommand c of Inl e \<Rightarrow> Some e | Inr _ \<Rightarrow> None) commands of
          e # _ \<Rightarrow> (Inl e, rt)
        | [] \<Rightarrow> (Inr (), rt\<lparr>rt_pendingCommands := rt_pendingCommands rt @
                   map (\<lambda>c. \<lparr>pc_connectionId = connectionId, pc_command = c\<rparr>) commands\<rparr>))"

definition Runtime_ingest :: "RecvOutcome \<Rightarrow> ClientSession \<Rightarrow> Runtime \<Rightarrow> ReceiveStatus \<times> string option \<times> ClientSession \<times> Runtime" where
  "Runtime_ingest outcome session rt =
     (if \<not> rt_running rt then (RecvFailed, Some ''server runtime is stopped'', session, rt)
      else case ClientSession_receive outcome session of (session', status, commands, error) \<Rightarrow>
        if status \<noteq> RecvCommands then (status, error, session', rt)
        else case enqueueCommands 0 commands rt of
          (Inl e, rt') \<Rightarrow> (RecvFailed, Some e, session', rt')
        | (Inr _, rt') \<Rightarrow> (RecvCommands, None, session', rt'))"

definition drainCommands :: "Runtime \<Rightarrow> NetworkCommand list \<times> Runtime" where
  "drainCommands rt = (map pc_command (rt_pendingCommands rt), rt\<lparr>rt_pendingCommands := []\<rparr>)"

text \<open>One client of the receiving loop.\<close>

definition receive_client :: "(u64 \<Rightarrow> RecvOutcome) \<Rightarrow> u64 \<Rightarrow> Runtime \<times> string \<Rightarrow> Runtime \<times> string" where
  "receive_client net_in connectionId st =
     (case st of (rt, error) \<Rightarrow>
        case map_of (rt_clients rt) connectionId of
          None \<Rightarrow> (rt, error)
        | Some session \<Rightarrow>
            (case ClientSession_receive (net_in connectionId) session of (session', status, commands, receiveError) \<Rightarrow>
               let rt1 = rt\<lparr>rt_clients := map_put connectionId session' (rt_clients rt)\<rparr> in
               if status = RecvFailed then (rt1, first_error error (case receiveError of None \<Rightarrow> [] | Some e \<Rightarrow> e))
               else if status = RecvCommands then
                 (case enqueueCommands connectionId commands rt1 of
                    (Inl enqueueError, rt2) \<Rightarrow> (rt2, first_error error enqueueError)
                  | (Inr _, rt2) \<Rightarrow> (rt2, error))
               else (rt1, error)))"

definition receive_clients :: "(u64 \<Rightarrow> RecvOutcome) \<Rightarrow> Runtime \<Rightarrow> string \<Rightarrow> Runtime \<times> string" where
  "receive_clients net_in rt error = fold (receive_client net_in) (map fst (rt_clients rt)) (rt, error)"

subsection \<open>The dispatching loop\<close>

definition run_command :: "int \<Rightarrow> PendingCommand \<Rightarrow> 'p Server \<Rightarrow> CommandDispatchResult option \<times> 'p Server" where
  "run_command now pending s =
     (if cmd_type (pc_command pending) = Login \<and> SessionLifecycle_hasSession (rt_lifecycle (sv_runtime s)) (pc_connectionId pending)
      then (Some (dispatch_refused (pc_command pending) ''connection already has a session''), s)
      else
        let rt = sv_runtime s in
        case dispatch now (pc_command pending) (sv_dispatcher s) (wt_inputQueue (rt_inputTick rt)) (sv_world s) of
          (r, d, q, w) \<Rightarrow>
            (r, \<lparr>sv_runtime = rt\<lparr>rt_inputTick := (rt_inputTick rt)\<lparr>wt_inputQueue := q\<rparr>\<rparr>, sv_dispatcher = d, sv_world = w\<rparr>))"

text \<open>\<open>lifecycle.disconnect\<close> on the parts of the server it touches.\<close>

definition end_binding :: "u64 \<Rightarrow> 'p Server \<Rightarrow> 'p Server" where
  "end_binding connectionId s =
     (case SessionLifecycle_disconnect connectionId (rt_lifecycle (sv_runtime s)) (wd_registry (sv_world s)) of
        (_, bindings, sr) \<Rightarrow>
          s\<lparr>sv_runtime := (sv_runtime s)\<lparr>rt_lifecycle := bindings\<rparr>, sv_world := (sv_world s)\<lparr>wd_registry := sr\<rparr>\<rparr>)"

definition disconnect_answer :: "PendingCommand \<Rightarrow> CommandDispatchResult \<Rightarrow> DisconnectResponse" where
  "disconnect_answer pending result =
     \<lparr>dr_version = CURRENT_PROTOCOL_VERSION, dr_status = (if dr_accepted result then DisconnectAccepted else DisconnectRejected),
      dr_sessionId = cmd_sessionId (pc_command pending),
      dr_payload = (if dr_accepted result then [] else if dr_error result = [] then ''disconnect was rejected'' else dr_error result)\<rparr>"

definition answer_disconnect :: "PendingCommand \<Rightarrow> CommandDispatchResult \<Rightarrow> 'p Server \<Rightarrow> string \<Rightarrow> 'p Server \<times> string" where
  "answer_disconnect pending result s error =
     (let (s1, error1) =
        (case clientSession (pc_connectionId pending) (sv_runtime s) of
           None \<Rightarrow> (s, error)
         | Some session \<Rightarrow>
             if \<not> ClientSession_isOpen session then (s, error)
             else case enqueueDisconnectResponse session (disconnect_answer pending result) error of
               (ok, session1, error1) \<Rightarrow>
                 (put_session (pc_connectionId pending)
                    (if ok \<and> dr_accepted result then ClientSession_requestCloseAfterFlush session1 else session1) s, error1)) in
      (if dr_accepted result then end_binding (pc_connectionId pending) s1 else s1, error1))"

definition login_refused :: "CommandDispatchResult \<Rightarrow> string \<Rightarrow> CommandDispatchResult" where
  "login_refused result error = result\<lparr>dr_accepted := False, dr_session := emptySession, dr_error := error\<rparr>"

text \<open>Binding and placing an accepted login; each failure takes the session back.\<close>

definition settle_login :: "PendingCommand \<Rightarrow> CommandDispatchResult \<Rightarrow> 'p Server \<Rightarrow> CommandDispatchResult \<times> 'p Server" where
  "settle_login pending result s =
     (if \<not> dr_accepted result then (result, s)
      else case SessionLifecycle_bind (pc_connectionId pending) (dr_session result) (rt_lifecycle (sv_runtime s)) of
        Inl bindingError \<Rightarrow>
          (login_refused result bindingError,
           s\<lparr>sv_world := (sv_world s)\<lparr>wd_registry := snd (SessionRegistry_logout (si_internalId (dr_session result)) (wd_registry (sv_world s)))\<rparr>\<rparr>)
      | Inr bindings \<Rightarrow>
          let s1 = s\<lparr>sv_runtime := (sv_runtime s)\<lparr>rt_lifecycle := bindings\<rparr>\<rparr> in
          (case placeAfterLogin (si_internalId (dr_session result)) (si_claimedId (dr_session result)) (wd_presence (sv_world s1)) of
             (False, ps) \<Rightarrow>
               (login_refused result ''authenticated session could not be placed on the field'',
                end_binding (pc_connectionId pending) (s1\<lparr>sv_world := (sv_world s1)\<lparr>wd_presence := ps\<rparr>\<rparr>))
           | (True, ps) \<Rightarrow>
               (result, s1\<lparr>sv_runtime := (sv_runtime s1)\<lparr>rt_newAuthenticatedSessions := Suc (rt_newAuthenticatedSessions (sv_runtime s1))\<rparr>,
                            sv_world := (sv_world s1)\<lparr>wd_presence := ps\<rparr>\<rparr>)))"

definition answer_login :: "PendingCommand \<Rightarrow> CommandDispatchResult \<Rightarrow> 'p Server \<Rightarrow> string \<Rightarrow> 'p Server \<times> string" where
  "answer_login pending result s error =
     (case clientSession (pc_connectionId pending) (sv_runtime s) of
        None \<Rightarrow> (s, error)
      | Some session \<Rightarrow>
          if \<not> ClientSession_isOpen session then (s, error)
          else case settle_login pending result s of
            (result', s1) \<Rightarrow>
              (case enqueueLoginResponse session (loginResponseFromDispatch result') error of
                 (_, session', error') \<Rightarrow> (put_session (pc_connectionId pending) session' s1, error')))"

definition process_command :: "int \<Rightarrow> PendingCommand \<Rightarrow> 'p Server \<Rightarrow> string \<Rightarrow> ('p Server \<times> string) option" where
  "process_command now pending s error =
     (case run_command now pending s of
        (None, s1) \<Rightarrow> None
      | (Some result, s1) \<Rightarrow>
          Some (if pc_connectionId pending = 0 then (s1, error)
                else if cmd_type (pc_command pending) = Disconnect then answer_disconnect pending result s1 error
                else if cmd_type (pc_command pending) \<noteq> Login then (s1, error)
                else answer_login pending result s1 error))"

text \<open>\<open>clock i\<close> is the reading of the wall clock while the \<open>i\<close>-th command of the call is dispatched.\<close>

fun process_commands :: "(nat \<Rightarrow> int) \<Rightarrow> nat \<Rightarrow> PendingCommand list \<Rightarrow> 'p Server \<Rightarrow> string \<Rightarrow> (nat \<times> 'p Server \<times> string) option" where
  "process_commands clock processed [] s error = Some (processed, s, error)"
| "process_commands clock processed (pending # rest) s error =
     (case process_command (clock processed) pending s error of
        None \<Rightarrow> None
      | Some (s', error') \<Rightarrow> process_commands clock (Suc processed) rest s' error')"

subsection \<open>Closed clients\<close>

text \<open>One closed client; the dispatcher is told when the caller passes one.\<close>

definition remove_client :: "bool \<Rightarrow> u64 \<Rightarrow> 'p Server \<Rightarrow> 'p Server" where
  "remove_client dispatcher connectionId s =
     (let sessionId = SessionLifecycle_sessionId (rt_lifecycle (sv_runtime s)) connectionId;
          s1 = s\<lparr>sv_world := (sv_world s)\<lparr>wd_presence := snd (removeAfterLogout sessionId (wd_presence (sv_world s)))\<rparr>\<rparr>;
          s2 = end_binding connectionId s1;
          s3 = (if dispatcher then s2\<lparr>sv_dispatcher := Dispatcher_forgetSession sessionId (sv_dispatcher s2)\<rparr> else s2) in
      s3\<lparr>sv_runtime := (sv_runtime s3)\<lparr>rt_clients := map_erase connectionId (rt_clients (sv_runtime s3))\<rparr>\<rparr>)"

definition closed_clients :: "Runtime \<Rightarrow> u64 list" where
  "closed_clients rt = map fst (filter (\<lambda>(k, session). \<not> ClientSession_isOpen session) (rt_clients rt))"

definition removeClosedClients :: "bool \<Rightarrow> 'p Server \<Rightarrow> nat \<times> 'p Server" where
  "removeClosedClients dispatcher s =
     (length (closed_clients (sv_runtime s)), fold (remove_client dispatcher) (closed_clients (sv_runtime s)) s)"

subsection \<open>A frame\<close>

definition processClientFrames :: "(nat \<Rightarrow> int) \<Rightarrow> (u64 \<Rightarrow> RecvOutcome) \<Rightarrow> 'p Server \<Rightarrow> string \<Rightarrow> (nat \<times> 'p Server \<times> string) option" where
  "processClientFrames clock net_in s error =
     (let rt = (sv_runtime s)\<lparr>rt_newAuthenticatedSessions := 0\<rparr> in
      if \<not> rt_running rt then Some (0, s\<lparr>sv_runtime := rt\<rparr>, ''server runtime is stopped'')
      else
        let d = Dispatcher_beginFrame (wt_worldTick (rt_inputTick rt) + 1) (bindWorldInputQueue (sv_dispatcher s));
            (rt1, error1) = receive_clients net_in rt error in
        (case process_commands clock 0 (rt_pendingCommands rt1)
               (s\<lparr>sv_runtime := rt1\<lparr>rt_pendingCommands := []\<rparr>, sv_dispatcher := d\<rparr>) error1 of
           None \<Rightarrow> None
         | Some (processed, s1, error2) \<Rightarrow> Some (processed, snd (removeClosedClients True s1), error2)))"

text \<open>The accepting loop: at most \<open>n\<close> further connections, \<open>accepts i\<close> being the \<open>i\<close>-th outcome.\<close>

fun accept_loop :: "(nat \<Rightarrow> AcceptOutcome) \<Rightarrow> nat \<Rightarrow> nat \<Rightarrow> Runtime \<Rightarrow> string \<Rightarrow> nat \<times> Runtime \<times> string" where
  "accept_loop accepts 0 accepted rt error = (accepted, rt, error)"
| "accept_loop accepts (Suc n) accepted rt error =
     (case acceptPendingClient (accepts accepted) rt of
        (NoPendingClient, _, _, rt') \<Rightarrow> (accepted, rt', error)
      | (AcceptFailed, _, acceptError, rt') \<Rightarrow> (accepted, rt', first_error error acceptError)
      | (AcceptAccepted, _, _, rt') \<Rightarrow> accept_loop accepts n (Suc accepted) rt' error)"

text \<open>The flushing loop; the bytes each client's socket took are collected.\<close>

fun flush_clients :: "(u64 \<Rightarrow> nat \<Rightarrow> nat \<Rightarrow> SendOutcome) \<Rightarrow> (u64, ClientSession) std_map \<Rightarrow> string \<Rightarrow>
    (u64, ClientSession) std_map \<times> (u64 \<times> u8 list) list \<times> string" where
  "flush_clients net_out [] error = ([], [], error)"
| "flush_clients net_out ((k, session) # clients) error =
     (case ClientSession_flushOutbound (net_out k) session of (session', status, wire, sendError) \<Rightarrow>
        let error1 = (if status = SendFailed then first_error error (case sendError of None \<Rightarrow> [] | Some e \<Rightarrow> e) else error) in
        (case flush_clients net_out clients error1 of
           (clients', wires, error2) \<Rightarrow> ((k, session') # clients', (k, wire) # wires, error2)))"

record Kernel =
  ke_clock :: "nat \<Rightarrow> int"
  ke_accepts :: "nat \<Rightarrow> AcceptOutcome"
  ke_recv :: "u64 \<Rightarrow> RecvOutcome"
  ke_send :: "u64 \<Rightarrow> nat \<Rightarrow> nat \<Rightarrow> SendOutcome"

definition Runtime_processFrame :: "Kernel \<Rightarrow> 'p Server \<Rightarrow> string \<Rightarrow>
    (ServerFrameResult \<times> 'p Server \<times> (u64 \<times> u8 list) list \<times> string) option" where
  "Runtime_processFrame ke s error =
     (if \<not> rt_running (sv_runtime s)
      then Some (\<lparr>fr_worldTick = wt_worldTick (rt_inputTick (sv_runtime s)), fr_networkOperations = 0, fr_inputs = [],
                  fr_newAuthenticatedSessions = 0, fr_snapshotRequests = 0\<rparr>, s, [], ''server runtime is stopped'')
      else case accept_loop (ke_accepts ke) MAX_ACCEPTS_PER_FRAME 0 (sv_runtime s) error of
        (accepted, rt1, error1) \<Rightarrow>
          (case processClientFrames (ke_clock ke) (ke_recv ke) (s\<lparr>sv_runtime := rt1\<rparr>) error1 of
             None \<Rightarrow> None
           | Some (processed, s2, error2) \<Rightarrow>
               (case flush_clients (ke_send ke) (rt_clients (sv_runtime s2)) error2 of
                  (clients, wires, error3) \<Rightarrow>
                    let s3 = snd (removeClosedClients True (s2\<lparr>sv_runtime := (sv_runtime s2)\<lparr>rt_clients := clients\<rparr>\<rparr>)) in
                    (case WorldInputTick_advanceFrame (rt_inputTick (sv_runtime s3)) of
                       (worldFrame, tick) \<Rightarrow>
                         Some (\<lparr>fr_worldTick = wf_worldTick worldFrame, fr_networkOperations = accepted + processed,
                                fr_inputs = wf_inputs worldFrame,
                                fr_newAuthenticatedSessions = rt_newAuthenticatedSessions (sv_runtime s3),
                                fr_snapshotRequests = dp_snapshotRequests (sv_dispatcher s3)\<rparr>,
                               s3\<lparr>sv_runtime := (sv_runtime s3)\<lparr>rt_inputTick := tick\<rparr>\<rparr>, wires, error3)))))"

subsection \<open>Publishing\<close>

text \<open>The frame a client gets of an update.\<close>

definition personal_frame :: "WorldUpdate \<Rightarrow> int \<Rightarrow> MovementAck list \<Rightarrow> u8 list result" where
  "personal_frame update sessionId ownerAcks =
     (case copyWorldUpdateForSession update sessionId ownerAcks of
        Inl error \<Rightarrow> Inl error
      | Inr personalized \<Rightarrow> encodeWorldUpdateFrame personalized)"

text \<open>The inner loop, over the clients; \<open>Inl\<close> is the early return, with the error.\<close>

fun publish_update :: "SessionLifecycle \<Rightarrow> MovementAck list \<Rightarrow> WorldUpdate \<Rightarrow> (u64, ClientSession) std_map \<Rightarrow>
    (u64, ClientSession) std_map \<times> nat \<times> unit result" where
  "publish_update bindings ownerAcks update [] = ([], 0, Inr ())"
| "publish_update bindings ownerAcks update ((k, session) # clients) =
     (if \<not> SessionLifecycle_hasSession bindings k then
        (case publish_update bindings ownerAcks update clients of (clients', n, r) \<Rightarrow> ((k, session) # clients', n, r))
      else case personal_frame update (SessionLifecycle_sessionId bindings k) ownerAcks of
        Inl error \<Rightarrow> ((k, session) # clients, 0, Inl error)
      | Inr frame \<Rightarrow>
          (case ClientSession_enqueueFrame session frame of
             Inl error \<Rightarrow> ((k, session) # clients, 0, Inl error)
           | Inr session' \<Rightarrow>
               (case publish_update bindings ownerAcks update clients of
                  (clients', n, r) \<Rightarrow> ((k, session') # clients', Suc n, r))))"

fun publish_updates :: "SessionLifecycle \<Rightarrow> MovementAck list \<Rightarrow> WorldUpdate list \<Rightarrow> (u64, ClientSession) std_map \<Rightarrow>
    (u64, ClientSession) std_map \<times> nat \<times> unit result" where
  "publish_updates bindings ownerAcks [] clients = (clients, 0, Inr ())"
| "publish_updates bindings ownerAcks (update # updates) clients =
     (case publish_update bindings ownerAcks update clients of
        (clients', n, Inl error) \<Rightarrow> (clients', n, Inl error)
      | (clients', n, Inr _) \<Rightarrow>
          (case publish_updates bindings ownerAcks updates clients' of (clients'', m, r) \<Rightarrow> (clients'', n + m, r)))"

definition publishWorldUpdates :: "WorldUpdate list \<Rightarrow> MovementAck list \<Rightarrow> Runtime \<Rightarrow> nat \<times> Runtime \<times> unit result" where
  "publishWorldUpdates updates ownerAcks rt =
     (if \<not> rt_running rt then (0, rt, Inl ''server runtime is stopped'')
      else case publish_updates (rt_lifecycle rt) ownerAcks updates (rt_clients rt) of
        (clients, published, r) \<Rightarrow> (published, rt\<lparr>rt_clients := clients\<rparr>, r))"

definition publishWorldUpdates_plain :: "WorldUpdate list \<Rightarrow> Runtime \<Rightarrow> nat \<times> Runtime \<times> unit result" where
  "publishWorldUpdates_plain updates rt = publishWorldUpdates updates [] rt"

definition dispatchPendingCommands :: "(nat \<Rightarrow> int) \<Rightarrow> 'p Server \<Rightarrow> CommandDispatchResult list option \<times> 'p Server" where
  "dispatchPendingCommands clock s =
     (case drainCommands (sv_runtime s) of
        (commands, rt) \<Rightarrow>
          (case dispatchAll (map (\<lambda>(i, c). (clock i, c)) (enumerate 0 commands)) (sv_dispatcher s) (wt_inputQueue (rt_inputTick rt)) (sv_world s) of
             (rs, d, q, w) \<Rightarrow>
               (rs, \<lparr>sv_runtime = rt\<lparr>rt_inputTick := (rt_inputTick rt)\<lparr>wt_inputQueue := q\<rparr>\<rparr>, sv_dispatcher = d, sv_world = w\<rparr>)))"

end
