(* ===== verification/Receiving.thy ===== *)
theory Receiving
  imports Runtime
begin

text \<open>
  The reading half of \<open>ServerRuntime::processClientFrames\<close> as a whole: which of the commands that arrive in a frame
  become pending, and in which order. The specification \<open>admitted\<close> looks at the batches of the clients
  alone; the theorem says that the loop over the clients computes it.
\<close>

subsection \<open>The specification\<close>

text \<open>What a client's socket delivers in a frame, and its session afterwards.\<close>

definition batch :: "(u64 \<Rightarrow> RecvOutcome) \<Rightarrow> u64 \<times> ClientSession \<Rightarrow> NetworkCommand list" where
  "batch net_in kc =
     (case kc of (k, c) \<Rightarrow> case ClientSession_receive (net_in k) c of (_, status, commands, _) \<Rightarrow> if status = RecvCommands then commands else [])"

definition client_after :: "(u64 \<Rightarrow> RecvOutcome) \<Rightarrow> u64 \<times> ClientSession \<Rightarrow> u64 \<times> ClientSession" where
  "client_after net_in kc = (case kc of (k, c) \<Rightarrow> (k, fst (ClientSession_receive (net_in k) c)))"

text \<open>With \<open>n\<close> commands pending, each batch is taken whole if it fits both limits and is dropped whole otherwise.\<close>

fun admitted :: "nat \<Rightarrow> (u64 \<times> NetworkCommand list) list \<Rightarrow> PendingCommand list" where
  "admitted n [] = []"
| "admitted n ((k, cs) # batches) =
     (if length cs \<le> MAX_PENDING_COMMANDS - n \<and> length cs \<le> MAX_PENDING_COMMANDS_PER_CONNECTION
      then map (\<lambda>c. \<lparr>pc_connectionId = k, pc_command = c\<rparr>) cs @ admitted (n + length cs) batches
      else admitted n batches)"

subsection \<open>The loop computes it\<close>

lemma accumulated_valid:
  "FrameAccumulator_loop buf cs = (buf', cs', r) \<Longrightarrow> list_all (\<lambda>c. validateCommand c = Inr ()) cs \<Longrightarrow> list_all (\<lambda>c. validateCommand c = Inr ()) cs'"
proof (induction buf cs rule: FrameAccumulator_loop.induct)
  case (1 buf cs)
  have decoded: "decodeFrame f = Inr c \<Longrightarrow> validateCommand c = Inr ()" for f c
    by (auto simp: decodeFrame_def Let_def split: if_splits sum.splits)
  show ?case using 1 decoded by (subst (asm) FrameAccumulator_loop.simps [of buf cs]) (auto simp: Let_def split: if_splits sum.splits)
qed

lemma batch_valid: "list_all (\<lambda>c. validateCommand c = Inr ()) (batch net kc)"
  using accumulated_valid [where cs = "[]"]
  by (fastforce simp: batch_def ClientSession_receive_def FrameAccumulator_append_def split: prod.splits RecvOutcome.splits option.splits if_splits)

lemma enqueueCommands_batch:
  assumes "list_all (\<lambda>c. validateCommand c = Inr ()) cs" and "list_all (\<lambda>p. pc_connectionId p \<noteq> k) (rt_pendingCommands rt)"
  shows "snd (enqueueCommands k cs rt) = rt\<lparr>rt_pendingCommands := rt_pendingCommands rt @ admitted (length (rt_pendingCommands rt)) [(k, cs)]\<rparr>"
proof -
  have "List.map_filter (\<lambda>c. case validateCommand c of Inl e \<Rightarrow> Some e | Inr _ \<Rightarrow> None) cs = []"
    using assms(1) by (induction cs) auto
  moreover have "pending_of k (rt_pendingCommands rt) = []" using assms(2) by (auto simp: pending_of_def list_all_iff filter_empty_conv)
  ultimately show ?thesis by (simp add: enqueueCommands_def MAX_PENDING_COMMANDS_PER_CONNECTION_def Let_def)
qed

lemma map_put_replace: "map_wf (pre @ (k, v) # post) \<Longrightarrow> map_put k v' (pre @ (k, v) # post) = pre @ (k, v') # post"
  by (induction pre) (auto simp: map_wf_def sorted_wrt_append)

lemma receive_client_step:
  assumes "rt_clients rt = pre @ (k, c) # post" and "map_wf (rt_clients rt)" and "list_all (\<lambda>p. pc_connectionId p \<noteq> k) (rt_pendingCommands rt)"
  shows "fst (receive_client net k (rt, e)) = rt\<lparr>rt_clients := pre @ client_after net (k, c) # post,
    rt_pendingCommands := rt_pendingCommands rt @ admitted (length (rt_pendingCommands rt)) [(k, batch net (k, c))]\<rparr>"
proof -
  obtain c' st cmds er where r: "ClientSession_receive (net k) c = (c', st, cmds, er)" by (metis prod_cases4)
  have k: "map_of (rt_clients rt) k = Some c" using assms(1,2) by (intro map_of_is_SomeI map_wf_distinct) auto
  have put: "map_put k c' (rt_clients rt) = pre @ client_after net (k, c) # post"
    using map_put_replace assms(1,2) r by (simp add: client_after_def)
  show ?thesis
  proof (cases "st = RecvCommands")
    case True
    then have b: "batch net (k, c) = cmds" using r by (simp add: batch_def)
    have "fst (receive_client net k (rt, e)) = snd (enqueueCommands k cmds (rt\<lparr>rt_clients := map_put k c' (rt_clients rt)\<rparr>))"
      using k r True by (simp add: receive_client_def split: prod.splits sum.splits)
    then show ?thesis using enqueueCommands_batch [of cmds k] batch_valid [of net "(k, c)"] assms(3) put by (simp add: b)
  next
    case False
    then show ?thesis using k r put by (auto simp: receive_client_def batch_def Let_def)
  qed
qed

lemma admitted_Cons: "admitted n (b # bs) = admitted n [b] @ admitted (n + length (admitted n [b])) bs"
  by (cases b) simp

lemma admitted_ids: "list_all (\<lambda>p. pc_connectionId p = fst b) (admitted n [b])"
  by (cases b) (simp add: list_all_iff)

lemma receive_fold:
  assumes "rt_clients rt = pre @ cs" and "map_wf (rt_clients rt)" and "list_all (\<lambda>p. pc_connectionId p \<notin> fst ` set cs) (rt_pendingCommands rt)"
  shows "fst (fold (receive_client net) (map fst cs) (rt, e)) = rt\<lparr>rt_clients := pre @ map (client_after net) cs,
    rt_pendingCommands := rt_pendingCommands rt @ admitted (length (rt_pendingCommands rt)) (map (\<lambda>kc. (fst kc, batch net kc)) cs)\<rparr>"
  using assms
proof (induction cs arbitrary: rt e pre)
  case (Cons kc cs)
  obtain k c where kc: "kc = (k, c)" by force
  let ?n = "length (rt_pendingCommands rt)"
  define new where "new = admitted ?n [(k, batch net (k, c))]"
  obtain rt1 e1 where s: "receive_client net k (rt, e) = (rt1, e1)" by force
  have rt1: "rt1 = rt\<lparr>rt_clients := pre @ client_after net (k, c) # cs, rt_pendingCommands := rt_pendingCommands rt @ new\<rparr>"
    using receive_client_step [of rt pre k c cs net e] Cons.prems s kc unfolding new_def [symmetric] by (auto simp: list_all_iff)
  have wf: "map_wf (rt_clients rt1)" using Cons.prems(1,2) kc rt1 by (auto simp: map_wf_def client_after_def)
  have "k \<notin> fst ` set cs" using map_wf_distinct [OF Cons.prems(2)] Cons.prems(1) kc by auto
  then have "list_all (\<lambda>p. pc_connectionId p \<notin> fst ` set cs) (rt_pendingCommands rt1)"
    using Cons.prems(3) kc rt1 admitted_ids [of "(k, batch net (k, c))" ?n, folded new_def] by (auto simp: list_all_iff)
  from Cons.IH [of rt1 "pre @ [client_after net (k, c)]" e1, OF _ wf this]
  show ?case using s kc rt1 admitted_Cons [of ?n "(k, batch net (k, c))", folded new_def] by simp
qed simp

text \<open>
  Property C16. In the reading phase of a frame the commands a client's socket delivered become pending whole and
  in order or not at all, clients in the order of their connection ids: a batch is taken exactly if it has
  at most 128 commands and fits what is left of the 1024 for all connections. What the others send never
  changes a client's own session. A batch that is not taken is lost: its bytes are consumed and its
  connection stays open, without an answer.
\<close>

theorem batches_admitted_whole:
  assumes "map_wf (rt_clients rt)" and "rt_pendingCommands rt = []"
  shows "fst (receive_clients net rt e) = rt\<lparr>rt_clients := map (client_after net) (rt_clients rt),
    rt_pendingCommands := admitted 0 (map (\<lambda>kc. (fst kc, batch net kc)) (rt_clients rt))\<rparr>"
  using receive_fold [of rt "[]" "rt_clients rt" net e] assms by (simp add: receive_clients_def)

text \<open>Two clients; the first sends two requests for a snapshot in one read, the second one.\<close>

definition snapshot_bytes :: "u8 list" where
  "snapshot_bytes = [0, 1, 0, 7, 0, 0, 0, 0, 0, 0, 0, 5, 0, 0, 0, 0]"

definition reading_clients :: Runtime where
  "reading_clients = Runtime_new\<lparr>rt_clients := [(1, ClientSession_new True 5), (2, ClientSession_new True 6)]\<rparr>"

definition two_reads :: "u64 \<Rightarrow> RecvOutcome" where
  "two_reads k = RecvBytes (if k = 1 then snapshot_bytes @ snapshot_bytes else snapshot_bytes)"

theorem batches_admitted_whole_witness:
  "map pc_connectionId (rt_pendingCommands (fst (receive_clients two_reads reading_clients []))) = [1, 1, 2]"
proof -
  have "map_wf (rt_clients reading_clients)" "rt_pendingCommands reading_clients = []" by code_simp+
  then have r: "fst (receive_clients two_reads reading_clients []) = reading_clients\<lparr>rt_clients := map (client_after two_reads) (rt_clients reading_clients),
      rt_pendingCommands := admitted 0 (map (\<lambda>kc. (fst kc, batch two_reads kc)) (rt_clients reading_clients))\<rparr>"
    by (rule batches_admitted_whole)
  have "map pc_connectionId (admitted 0 (map (\<lambda>kc. (fst kc, batch two_reads kc)) (rt_clients reading_clients))) = [1, 1, 2]" by code_simp
  then show ?thesis by (simp add: r)
qed

end
