(* ===== verification/Publication.thy ===== *)
theory Publication
  imports Runtime
begin

text \<open>
  What \<open>publishWorldUpdates\<close> does for the clients: on success every bound client has its own copy of
  every update in its outbound queue, in order, and a client that reads the stream applies all of
  them; when one client's queue is full, publication stops for everybody.
\<close>

subsection \<open>The copies of one client\<close>

text \<open>The copies \<open>ps\<close> of the updates \<open>us\<close> for a session, and their frames \<open>fs\<close>.\<close>

definition copies_of :: "int \<Rightarrow> MovementAck list \<Rightarrow> WorldUpdate list \<Rightarrow> WorldUpdate list \<Rightarrow> bool" where
  "copies_of sid acks us ps \<longleftrightarrow> list_all2 (\<lambda>u p. copyWorldUpdateForSession u sid acks = Inr p) us ps"

definition frames_of :: "WorldUpdate list \<Rightarrow> u8 list list \<Rightarrow> bool" where
  "frames_of ps fs \<longleftrightarrow> list_all2 (\<lambda>p f. encodeWorldUpdateFrame p = Inr f) ps fs"

definition gets :: "SessionLifecycle \<Rightarrow> MovementAck list \<Rightarrow> WorldUpdate list \<Rightarrow> u64 \<times> ClientSession \<Rightarrow> u64 \<times> ClientSession \<Rightarrow> bool" where
  "gets bindings acks us c c' \<longleftrightarrow> fst c' = fst c \<and>
     (if SessionLifecycle_hasSession bindings (fst c)
      then \<exists>ps fs. copies_of (SessionLifecycle_sessionId bindings (fst c)) acks us ps \<and> frames_of ps fs \<and>
             snd c' = (snd c)\<lparr>cs_outboundFrames := cs_outboundFrames (snd c) @ fs\<rparr>
      else snd c' = snd c)"

lemma gets_Nil [simp]: "gets bindings acks [] c c"
  by (auto simp: gets_def copies_of_def frames_of_def)

lemma gets_trans:
  assumes "gets bindings acks us c c'" "gets bindings acks vs c' c''"
  shows "gets bindings acks (us @ vs) c c''"
proof (cases "SessionLifecycle_hasSession bindings (fst c)")
  case True
  let ?sid = "SessionLifecycle_sessionId bindings (fst c)"
  from assms True obtain ps fs qs gs where p: "copies_of ?sid acks us ps" "frames_of ps fs"
      "snd c' = (snd c)\<lparr>cs_outboundFrames := cs_outboundFrames (snd c) @ fs\<rparr>" "fst c' = fst c"
    and q: "copies_of ?sid acks vs qs" "frames_of qs gs"
      "snd c'' = (snd c')\<lparr>cs_outboundFrames := cs_outboundFrames (snd c') @ gs\<rparr>" "fst c'' = fst c"
    unfolding gets_def by auto
  have "copies_of ?sid acks (us @ vs) (ps @ qs)" "frames_of (ps @ qs) (fs @ gs)"
    using p(1,2) q(1,2) unfolding copies_of_def frames_of_def by (auto intro: list_all2_appendI)
  moreover have "snd c'' = (snd c)\<lparr>cs_outboundFrames := cs_outboundFrames (snd c) @ fs @ gs\<rparr>" using p(3) q(3) by simp
  ultimately show ?thesis using True q(4) unfolding gets_def by auto
qed (use assms in \<open>auto simp: gets_def\<close>)

lemma enqueueFrame_Inr: "ClientSession_enqueueFrame s f = Inr s' \<Longrightarrow> s' = s\<lparr>cs_outboundFrames := cs_outboundFrames s @ [f]\<rparr>"
  by (auto simp: ClientSession_enqueueFrame_def OutboundFrameQueue_enqueue_def split: if_splits sum.splits)

lemma personal_frame_Inr:
  "personal_frame u sid acks = Inr f \<Longrightarrow> \<exists>p. copyWorldUpdateForSession u sid acks = Inr p \<and> encodeWorldUpdateFrame p = Inr f"
  by (auto simp: personal_frame_def split: sum.splits)

lemma publish_update_gets:
  assumes "publish_update bindings acks u cs = (cs', n, Inr ())"
  shows "list_all2 (gets bindings acks [u]) cs cs' \<and> n = length (filter (\<lambda>(k, _). SessionLifecycle_hasSession bindings k) cs)"
  using assms
proof (induction cs arbitrary: cs' n)
  case (Cons c cs)
  obtain k s where c: "c = (k, s)" by force
  obtain ds m r where rest: "publish_update bindings acks u cs = (ds, m, r)" by (metis prod_cases3)
  show ?case
  proof (cases "SessionLifecycle_hasSession bindings k")
    case False
    then have "cs' = c # ds" "n = m" "r = Inr ()" using Cons.prems c rest by auto
    then show ?thesis using Cons.IH rest False c by (auto simp: gets_def)
  next
    case True
    then obtain f s' where f: "personal_frame u (SessionLifecycle_sessionId bindings k) acks = Inr f"
        "ClientSession_enqueueFrame s f = Inr s'" "cs' = (k, s') # ds" "n = Suc m" "r = Inr ()"
      using Cons.prems c rest by (auto split: sum.splits)
    obtain p where p: "copyWorldUpdateForSession u (SessionLifecycle_sessionId bindings k) acks = Inr p" "encodeWorldUpdateFrame p = Inr f"
      using personal_frame_Inr [OF f(1)] by blast
    have "gets bindings acks [u] (k, s) (k, s')"
      using True p enqueueFrame_Inr [OF f(2)] by (auto simp: gets_def copies_of_def frames_of_def intro!: exI [of _ "[p]"] exI [of _ "[f]"])
    then show ?thesis using Cons.IH rest f True c by auto
  qed
qed simp

lemma gets_keys: "list_all2 (gets bindings acks us) cs cs' \<Longrightarrow> map fst cs' = map fst cs"
  by (induction rule: list_all2_induct) (auto simp: gets_def)

lemma bound_filter: "length (filter (\<lambda>(k, _). P k) cs) = length (filter P (map fst cs))"
  by (induction cs) auto

lemma gets_Cons: "gets bindings acks [u] c c' \<Longrightarrow> gets bindings acks us c' c'' \<Longrightarrow> gets bindings acks (u # us) c c''"
  using gets_trans [of bindings acks "[u]"] by simp

lemma publish_updates_gets:
  assumes "publish_updates bindings acks us cs = (cs', n, Inr ())"
  shows "list_all2 (gets bindings acks us) cs cs' \<and>
    n = length us * length (filter (\<lambda>(k, _). SessionLifecycle_hasSession bindings k) cs)"
  using assms
proof (induction us arbitrary: cs n)
  case Nil
  then show ?case by (simp add: list_all2_refl)
next
  case (Cons u us)
  obtain cs1 m where h: "publish_update bindings acks u cs = (cs1, m, Inr ())"
    using Cons.prems by (auto split: prod.splits sum.splits)
  obtain m' where t: "publish_updates bindings acks us cs1 = (cs', m', Inr ())" "n = m + m'"
    using Cons.prems h by (auto split: prod.splits)
  from publish_update_gets [OF h] have g: "list_all2 (gets bindings acks [u]) cs cs1"
    "m = length (filter (\<lambda>(k, _). SessionLifecycle_hasSession bindings k) cs)" by auto
  have "list_all2 (gets bindings acks us) cs1 cs'" "m' = length us * m"
    using Cons.IH [OF t(1)] g(2) unfolding bound_filter gets_keys [OF g(1)] by auto
  moreover from this(1) have "list_all2 (gets bindings acks (u # us)) cs cs'"
    by (rule list_all2_trans [OF _ g(1), rotated]) (rule gets_Cons)
  ultimately show ?case using t(2) g(2) by simp
qed

lemma publish_gets:
  assumes "publishWorldUpdates us acks rt = (n, rt', Inr ())"
  shows "list_all2 (gets (rt_lifecycle rt) acks us) (rt_clients rt) (rt_clients rt') \<and>
    n = length us * length (filter (\<lambda>(k, _). SessionLifecycle_hasSession (rt_lifecycle rt) k) (rt_clients rt))"
  using assms publish_updates_gets by (auto simp: publishWorldUpdates_def split: if_splits prod.splits)

text \<open>
  When \<open>publishWorldUpdates\<close> succeeds, every client with a session has exactly its own copy
  of every update appended to its outbound queue, encoded and in order, every other client is left
  alone, and the returned count is the number of those frames.
\<close>

theorem publish_reaches_every_session:
  assumes "publishWorldUpdates us acks rt = (n, rt', Inr ())"
  shows "list_all2 (gets (rt_lifecycle rt) acks us) (rt_clients rt) (rt_clients rt') \<and>
    n = length us * length (filter (\<lambda>(k, _). SessionLifecycle_hasSession (rt_lifecycle rt) k) (rt_clients rt))"
  using publish_gets [OF assms] .

subsection \<open>The client at the other end\<close>

lemma attach_sequence: "attach extra u = Inr v \<Longrightarrow> wu_sequence v = wu_sequence u \<and> validateWorldUpdate v = Inr ()"
  using attach_Inr by fastforce

lemma copy_keeps:
  assumes "copyWorldUpdateForSession u sid acks = Inr p" "validateWorldUpdate u = Inr ()"
  shows "wu_sequence p = wu_sequence u \<and> validateWorldUpdate p = Inr ()"
  using assms
  by (auto simp: copyWorldUpdateForSession_def attachOwnerAckFields_def attachPublicPoseFields_def attachLocalSnapshotFields_def
      split: if_splits option.splits sum.splits dest!: attach_sequence)

lemma copies_emitted:
  assumes "copies_of sid acks us ps" "emitted b us b'"
  shows "emitted b ps b'"
proof -
  have "list_all2 (\<lambda>u p. copyWorldUpdateForSession u sid acks = Inr p) us ps" using assms(1) by (simp add: copies_of_def)
  moreover have "list_all (\<lambda>u. validateWorldUpdate u = Inr ()) us" using assms(2) by (simp add: emitted_def)
  ultimately have "map (unat \<circ> wu_sequence) ps = map (unat \<circ> wu_sequence) us \<and> list_all (\<lambda>u. validateWorldUpdate u = Inr ()) ps"
    by (induction rule: list_all2_induct) (auto dest: copy_keeps)
  then show ?thesis using assms(2) by (simp add: emitted_def)
qed

lemma frames_decode: "frames_of ps fs \<Longrightarrow> list_all2 (\<lambda>p f. decodeWorldUpdateFrame f = Inr p) ps fs"
  unfolding frames_of_def by (erule list_all2_mono) (rule decodeWorldUpdate_encode)

lemma accumulator_make: "WorldUpdateAccumulator.make [] False = WorldUpdateAccumulator_init"
  by (simp add: WorldUpdateAccumulator.make_def WorldUpdateAccumulator_init_def)

lemma client_reads:
  assumes "frames_of ps fs" "concat chunks = concat fs" "\<forall>f \<in> set fs. length f \<le> L" "0 < L"
    and "\<forall>c \<in> set chunks. length c + L \<le> WORLD_UPDATE_FRAME_HEADER_SIZE + MAX_UPDATE_PAYLOAD + 1"
  shows "feed_all WorldUpdateAccumulator_append WorldUpdateAccumulator_init chunks = (WorldUpdateAccumulator_init, ps, None)"
  using update_stream.feed_delivers [OF frames_decode [OF assms(1)], of WorldUpdateAccumulator_init chunks L]
    assms(2-5) update_stream.loop_header [of "[]" "[]"]
  by (simp add: WorldUpdateAccumulator_init_def accumulator_make)


subsection \<open>A client that does not read\<close>

lemma publish_full:
  assumes "SessionLifecycle_hasSession bindings k" "ClientSession_isOpen s" "length (cs_outboundFrames s) \<ge> MAX_OUTBOUND_FRAMES"
  shows "\<exists>pre' n e. publish_update bindings acks u (pre @ (k, s) # post) = (pre' @ (k, s) # post, n, Inl e) \<and>
    map fst pre' = map fst pre \<and> n \<le> length pre"
proof (induction pre)
  case Nil
  have "ClientSession_enqueueFrame s f \<noteq> Inr s'" for f s'
    using assms(2,3) by (auto simp: ClientSession_enqueueFrame_def OutboundFrameQueue_enqueue_def)
  then show ?case using assms(1) by (cases "personal_frame u (SessionLifecycle_sessionId bindings k) acks") (auto split: sum.splits)
next
  case (Cons c pre)
  obtain j x where c: "c = (j, x)" by force
  from Cons obtain pre' n e where ih: "publish_update bindings acks u (pre @ (k, s) # post) = (pre' @ (k, s) # post, n, Inl e)"
    "map fst pre' = map fst pre" "n \<le> length pre" by blast
  have "(\<exists>e'. publish_update bindings acks u ((c # pre) @ (k, s) # post) = ((c # pre) @ (k, s) # post, 0, Inl e')) \<or>
    (\<exists>y m. publish_update bindings acks u ((c # pre) @ (k, s) # post) = (((j, y) # pre') @ (k, s) # post, m, Inl e) \<and> m \<le> Suc n)"
    using ih(1) c by (cases "SessionLifecycle_hasSession bindings j") (auto split: sum.splits)
  then consider (stop) e' where "publish_update bindings acks u ((c # pre) @ (k, s) # post) = ((c # pre) @ (k, s) # post, 0, Inl e')"
    | (go) y m where "publish_update bindings acks u ((c # pre) @ (k, s) # post) = (((j, y) # pre') @ (k, s) # post, m, Inl e)" "m \<le> Suc n"
    by blast
  then show ?case
  proof cases
    case stop
    then show ?thesis by blast
  next
    case go
    moreover have "map fst ((j, y) # pre') = map fst (c # pre)" "m \<le> length (c # pre)" using ih(2,3) go(2) c by auto
    ultimately show ?thesis by blast
  qed
qed

text \<open>
  One client that stops reading stops the world for the others: as soon as the outbound
  queue of a client with a session is full, every publication fails at that client; no client after
  it gets any of the updates, and the clients before it get at most the first of them.
\<close>

theorem full_queue_stops_publication:
  assumes "rt_running rt" and "rt_clients rt = pre @ (k, s) # post" and "SessionLifecycle_hasSession (rt_lifecycle rt) k"
    and "ClientSession_isOpen s" and "length (cs_outboundFrames s) \<ge> MAX_OUTBOUND_FRAMES" and "us \<noteq> []"
  shows "\<exists>pre' n e. publishWorldUpdates us acks rt = (n, rt\<lparr>rt_clients := pre' @ (k, s) # post\<rparr>, Inl e) \<and>
    map fst pre' = map fst pre \<and> n \<le> length pre"
proof -
  obtain u vs where us: "us = u # vs" using assms(6) by (cases us) auto
  obtain pre' n e where "publish_update (rt_lifecycle rt) acks u (rt_clients rt) = (pre' @ (k, s) # post, n, Inl e)"
    "map fst pre' = map fst pre" "n \<le> length pre"
    using publish_full [OF assms(3-5), of acks u pre post] assms(2) by auto
  then show ?thesis using assms(1) us by (auto simp: publishWorldUpdates_def)
qed

subsection \<open>Witnesses\<close>

definition quiet_client :: "u8 list list \<Rightarrow> ClientSession" where
  "quiet_client frames = (ClientSession_new True 5)\<lparr>cs_outboundFrames := frames\<rparr>"

text \<open>A running server with two clients; the first one's queue is given.\<close>

definition two_clients :: "u8 list list \<Rightarrow> Runtime" where
  "two_clients frames = Runtime_new\<lparr>rt_running := True, rt_clients := [(1, quiet_client frames), (2, quiet_client [])],
     rt_lifecycle := [(1, 7), (2, 8)]\<rparr>"

definition full_queue :: "u8 list list" where
  "full_queue = replicate MAX_OUTBOUND_FRAMES (replicate FRAME_HEADER_SIZE 0)"

theorem full_queue_stops_publication_witness:
  "\<exists>n e. publishWorldUpdates [sample_event 1] [] (two_clients full_queue) = (n, two_clients full_queue, Inl e)"
proof -
  have "ClientSession_isOpen (quiet_client fs)" for fs by (simp add: quiet_client_def ClientSession_new_def ClientSession_isOpen_def)
  then obtain pre' n e where "publishWorldUpdates [sample_event 1] [] (two_clients full_queue) =
      (n, (two_clients full_queue)\<lparr>rt_clients := pre' @ (1, quiet_client full_queue) # [(2, quiet_client [])]\<rparr>, Inl e)" "map fst pre' = map fst []"
    using full_queue_stops_publication [of "two_clients full_queue" "[]" 1 "quiet_client full_queue" "[(2, quiet_client [])]" "[sample_event 1]" "[]"]
    by (auto simp: two_clients_def SessionLifecycle_hasSession_def quiet_client_def full_queue_def)
  then show ?thesis by (auto simp: two_clients_def)
qed

lemma hello_published: "\<exists>rt'. publishWorldUpdates [hello_update 1] [] (two_clients []) = (2, rt', Inr ())"
proof -
  have v: "validateWorldUpdate (hello_update 1) = Inr ()" by (simp add: hello_valid)
  obtain f where f: "encodeWorldUpdateFrame (hello_update 1) = Inr f" "length f = WORLD_UPDATE_FRAME_HEADER_SIZE + length (wu_payload (hello_update 1))"
    using encodeWorldUpdateFrame_layout [OF v] by auto
  have "parseMovementEventSession (wu_payload (hello_update 1)) = None" by (simp add: hello_update_def parseMovementEventSession_def)
  then have "copyWorldUpdateForSession (hello_update 1) sid [] = Inr (hello_update 1)" for sid
    by (simp add: copyWorldUpdateForSession_def hello_update_def [of 1, THEN arg_cong [where f = wu_kind]])
  then have "personal_frame (hello_update 1) sid [] = Inr f" for sid using f(1) by (simp add: personal_frame_def)
  moreover have "ClientSession_enqueueFrame (quiet_client []) f = Inr (quiet_client [f])"
    using f(2) by (simp add: ClientSession_enqueueFrame_def OutboundFrameQueue_enqueue_def quiet_client_def ClientSession_new_def
        ClientSession_isOpen_def hello_update_def)
  ultimately show ?thesis by (simp add: publishWorldUpdates_def two_clients_def SessionLifecycle_hasSession_def)
qed

theorem publish_reaches_every_session_witness:
  "\<exists>rt'. publishWorldUpdates [hello_update 1] [] (two_clients []) = (2, rt', Inr ()) \<and>
     list_all2 (gets [(1, 7), (2, 8)] [] [hello_update 1]) [(1, quiet_client []), (2, quiet_client [])] (rt_clients rt')"
proof -
  obtain rt' where p: "publishWorldUpdates [hello_update 1] [] (two_clients []) = (2, rt', Inr ())" using hello_published by blast
  then show ?thesis using publish_reaches_every_session [OF p] by (auto simp: two_clients_def)
qed


end
