(* ===== verification/Server_Runs.thy ===== *)
theory Server_Runs
  imports Publication
begin

text \<open>
  Runs of the server as \<open>ServerMain.cpp\<close> drives it: frames, publications and changes of the world in
  between. The invariant ties the connections, the bindings and the registry together: a session is
  bound to one connection, and every active session is bound to a connection that is still there.
\<close>

subsection \<open>Connections, bindings and sessions\<close>

definition links_ok :: "(u64, ClientSession) std_map \<Rightarrow> SessionLifecycle \<Rightarrow> SessionRegistry \<Rightarrow> bool" where
  "links_ok clients bindings sr \<longleftrightarrow> dom (map_of bindings) \<subseteq> dom (map_of clients) \<and> 0 < sr_nextInternalId sr \<and>
     (\<forall>k sid. map_of bindings k = Some sid \<longrightarrow> 0 < sid \<and> sid < sr_nextInternalId sr) \<and>
     (\<forall>j k sid. map_of bindings j = Some sid \<longrightarrow> map_of bindings k = Some sid \<longrightarrow> j = k) \<and>
     (\<forall>sid \<in> set (sr_activeSessions sr). \<exists>k. map_of bindings k = Some sid)"

lemma links_okI:
  assumes "dom (map_of bs) \<subseteq> dom (map_of cl)" "0 < sr_nextInternalId sr"
    and "\<And>k sid. map_of bs k = Some sid \<Longrightarrow> 0 < sid \<and> sid < sr_nextInternalId sr"
    and "\<And>j k sid. map_of bs j = Some sid \<Longrightarrow> map_of bs k = Some sid \<Longrightarrow> j = k"
    and "\<And>sid. sid \<in> set (sr_activeSessions sr) \<Longrightarrow> \<exists>k. map_of bs k = Some sid"
  shows "links_ok cl bs sr"
  unfolding links_ok_def using assms by blast

lemma links_okD:
  assumes "links_ok cl bs sr"
  shows "dom (map_of bs) \<subseteq> dom (map_of cl)" "0 < sr_nextInternalId sr"
    and "map_of bs k = Some sid \<Longrightarrow> 0 < sid \<and> sid < sr_nextInternalId sr"
    and "map_of bs j = Some sid \<Longrightarrow> map_of bs k = Some sid \<Longrightarrow> j = k"
    and "sid \<in> set (sr_activeSessions sr) \<Longrightarrow> \<exists>k. map_of bs k = Some sid"
  using assms unfolding links_ok_def by blast+

lemma links_logout: "links_ok cl bs sr \<Longrightarrow> links_ok cl bs (snd (SessionRegistry_logout i sr))"
  by (auto simp: links_ok_def SessionRegistry_logout_def)

lemma links_end:
  assumes "links_ok cl bs sr" "SessionLifecycle_disconnect k bs sr = (r, bs', sr')"
  shows "links_ok cl bs' sr' \<and> map_of bs' k = None"
proof (cases "map_of bs k")
  case None
  then show ?thesis using assms by (simp add: SessionLifecycle_disconnect_def)
next
  case (Some sid)
  then have b: "map_of bs' = (map_of bs)(k := None)" "sr_nextInternalId sr' = sr_nextInternalId sr"
    "set (sr_activeSessions sr') = set (sr_activeSessions sr) - {sid}"
    using assms(2) by (auto simp: SessionLifecycle_disconnect_def SessionRegistry_logout_def)
  have sub: "map_of bs' j = Some a \<Longrightarrow> map_of bs j = Some a" for j a using b(1) by (auto split: if_splits)
  have "links_ok cl bs' sr'"
  proof (rule links_okI)
    show "dom (map_of bs') \<subseteq> dom (map_of cl)" using links_okD(1) [OF assms(1)] sub by (meson domD domI subset_iff)
    show "0 < sr_nextInternalId sr'" using links_okD(2) [OF assms(1)] b(2) by simp
    show "0 < a \<and> a < sr_nextInternalId sr'" if "map_of bs' j = Some a" for j a
      using links_okD(3) [OF assms(1) sub [OF that]] b(2) by simp
    show "i = j" if "map_of bs' i = Some a" "map_of bs' j = Some a" for i j a
      using links_okD(4) [OF assms(1) sub [OF that(1)] sub [OF that(2)]] .
    fix a
    assume a: "a \<in> set (sr_activeSessions sr')"
    then obtain j where j: "map_of bs j = Some a" using links_okD(5) [OF assms(1)] b(3) by blast
    have "a \<noteq> sid" using a unfolding b(3) by blast
    then have "j \<noteq> k" using Some j by fastforce
    then have "map_of bs' j = Some a" using j unfolding b(1) by simp
    then show "\<exists>j. map_of bs' j = Some a" ..
  qed
  then show ?thesis using b(1) by simp
qed

lemma links_erase: "links_ok cl bs sr \<Longrightarrow> map_of bs k = None \<Longrightarrow> links_ok (map_erase k cl) bs sr"
  by (auto simp: links_ok_def)

lemma links_clients: "links_ok cl bs sr \<Longrightarrow> dom (map_of cl) \<subseteq> dom (map_of cl') \<Longrightarrow> links_ok cl' bs sr"
  unfolding links_ok_def using subset_trans by blast

text \<open>A session that was opened and not yet bound.\<close>

definition opened :: "SessionRegistry \<Rightarrow> SessionInfo \<Rightarrow> SessionRegistry \<Rightarrow> bool" where
  "opened sr info sr' \<longleftrightarrow> si_internalId info = sr_nextInternalId sr \<and> sr_nextInternalId sr' = sr_nextInternalId sr + 1 \<and>
     set (sr_activeSessions sr') = insert (sr_nextInternalId sr) (set (sr_activeSessions sr))"

lemma links_bind:
  assumes "links_ok cl bs sr" "opened sr info sr'" "SessionLifecycle_bind k info bs = Inr bs'" "map_of cl k \<noteq> None"
  shows "links_ok cl bs' sr'"
proof -
  have bs': "map_of bs' = (map_of bs)(k \<mapsto> sr_nextInternalId sr)" "map_of bs k = None"
    using assms(2,3) by (auto simp: SessionLifecycle_bind_def opened_def split: if_splits)
  have fresh: "map_of bs j \<noteq> Some (sr_nextInternalId sr)" for j using links_okD(3) [OF assms(1)] by blast
  have sr': "sr_nextInternalId sr' = sr_nextInternalId sr + 1"
    "set (sr_activeSessions sr') = insert (sr_nextInternalId sr) (set (sr_activeSessions sr))" using assms(2) by (simp_all add: opened_def)
  show ?thesis
  proof (rule links_okI)
    show "dom (map_of bs') \<subseteq> dom (map_of cl)" using links_okD(1) [OF assms(1)] assms(4) bs'(1) by auto
    show "0 < sr_nextInternalId sr'" using links_okD(2) [OF assms(1)] sr' by simp
    show "0 < a \<and> a < sr_nextInternalId sr'" if "map_of bs' j = Some a" for j a
      using that links_okD(2) [OF assms(1)] links_okD(3) [OF assms(1), of j a] bs'(1) sr'(1) by (auto split: if_splits)
    show "i = j" if "map_of bs' i = Some a" "map_of bs' j = Some a" for i j a
      using that links_okD(4) [OF assms(1)] bs'(1) fresh by (auto split: if_splits)
    fix a
    assume a: "a \<in> set (sr_activeSessions sr')"
    show "\<exists>j. map_of bs' j = Some a"
    proof (cases "a = sr_nextInternalId sr")
      case True
      then show ?thesis using bs'(1) by auto
    next
      case False
      then obtain j where j: "map_of bs j = Some a" using a sr'(2) links_okD(5) [OF assms(1)] by blast
      then show ?thesis using bs' by (intro exI [of _ j]) auto
    qed
  qed
qed

lemma links_unopen: "links_ok cl bs sr \<Longrightarrow> opened sr info sr' \<Longrightarrow> links_ok cl bs (snd (SessionRegistry_logout (si_internalId info) sr'))"
  by (fastforce simp: links_ok_def opened_def SessionRegistry_logout_def)

subsection \<open>What a dispatched command does to the registry\<close>

definition registry_shrinks :: "SessionRegistry \<Rightarrow> SessionRegistry \<Rightarrow> bool" where
  "registry_shrinks sr sr' \<longleftrightarrow> sr_nextInternalId sr' = sr_nextInternalId sr \<and> set (sr_activeSessions sr') \<subseteq> set (sr_activeSessions sr)"

lemma links_shrink: "links_ok cl bs sr \<Longrightarrow> registry_shrinks sr sr' \<Longrightarrow> links_ok cl bs sr'"
  by (auto simp: links_ok_def registry_shrinks_def)

lemma dispatch_login_registry:
  assumes "dispatchLogin now c d q w = (Some r, d', q', w')" "0 < sr_nextInternalId (wd_registry w)"
  shows "if dr_accepted r then opened (wd_registry w) (dr_session r) (wd_registry w') else wd_registry w' = wd_registry w"
  using assms
  by (auto simp: dispatchLogin_def ChallengeLoginCommandHandler_handle_def SessionRegistry_openAuthenticatedSession_def login_rejected_def
      login_accepted_def opened_def dispatch_refused_def split: option.splits prod.splits sum.splits if_splits)

lemma dispatch_registry:
  assumes "dispatch now c d q w = (r, d', q', w')" "cmd_type c \<noteq> Login"
  shows "registry_shrinks (wd_registry w) (wd_registry w')"
proof (cases "cmd_type c \<in> {Move, Chat, Attack, CastSpell}")
  case True
  then have "dispatches_input c q w (dispatch now c d q w)" using dispatch_handlers by (auto simp: dispatch_def)
  then show ?thesis using assms(1) by (simp add: dispatches_input_def registry_shrinks_def)
next
  case False
  then show ?thesis using assms
    by (cases "cmd_type c") (auto simp: dispatch_def dispatch_snapshot_def dispatch_disconnect_def DisconnectCommandHandler_handle_def
        registry_shrinks_def SessionRegistry_logout_def Let_def split: prod.splits sum.splits if_splits bool.splits)
qed

subsection \<open>The dispatching loop\<close>

text \<open>What holds while the commands of a frame are dispatched; \<open>live\<close> says that the sender is connected.\<close>

definition server_links :: "'p Server \<Rightarrow> bool" where
  "server_links s \<longleftrightarrow> map_wf (rt_clients (sv_runtime s)) \<and>
     links_ok (rt_clients (sv_runtime s)) (rt_lifecycle (sv_runtime s)) (wd_registry (sv_world s)) \<and>
     list_all wire_input (wq_pending (wt_inputQueue (rt_inputTick (sv_runtime s))))"

definition live :: "'p Server \<Rightarrow> PendingCommand \<Rightarrow> bool" where
  "live s p \<longleftrightarrow> pc_connectionId p \<noteq> 0 \<and> (\<exists>c. map_of (rt_clients (sv_runtime s)) (pc_connectionId p) = Some c \<and> ClientSession_isOpen c)"

text \<open>No step of the loop removes or closes a client.\<close>

definition keeps_clients :: "'p Server \<Rightarrow> 'p Server \<Rightarrow> bool" where
  "keeps_clients s s' \<longleftrightarrow> dom (map_of (rt_clients (sv_runtime s'))) = dom (map_of (rt_clients (sv_runtime s))) \<and>
     (\<forall>k c. map_of (rt_clients (sv_runtime s)) k = Some c \<and> ClientSession_isOpen c \<longrightarrow>
        (\<exists>c'. map_of (rt_clients (sv_runtime s')) k = Some c' \<and> ClientSession_isOpen c')) \<and>
     rt_nextConnectionId (sv_runtime s') = rt_nextConnectionId (sv_runtime s) \<and>
     rt_pendingCommands (sv_runtime s') = rt_pendingCommands (sv_runtime s) \<and> rt_running (sv_runtime s') = rt_running (sv_runtime s)"

lemma keeps_refl [simp]: "keeps_clients s s"
  by (simp add: keeps_clients_def)

lemma keeps_trans: "keeps_clients s s' \<Longrightarrow> keeps_clients s' s'' \<Longrightarrow> keeps_clients s s''"
  unfolding keeps_clients_def by metis

lemma keeps_live: "keeps_clients s s' \<Longrightarrow> live s p \<Longrightarrow> live s' p"
  unfolding keeps_clients_def live_def by metis

lemma keeps_same: "rt_clients (sv_runtime s') = rt_clients (sv_runtime s) \<Longrightarrow> rt_nextConnectionId (sv_runtime s') = rt_nextConnectionId (sv_runtime s) \<Longrightarrow>
    rt_pendingCommands (sv_runtime s') = rt_pendingCommands (sv_runtime s) \<Longrightarrow> rt_running (sv_runtime s') = rt_running (sv_runtime s) \<Longrightarrow> keeps_clients s s'"
  by (simp add: keeps_clients_def)

lemma end_binding_links:
  assumes "server_links s"
  shows "server_links (end_binding k s) \<and> keeps_clients s (end_binding k s) \<and> map_of (rt_lifecycle (sv_runtime (end_binding k s))) k = None"
proof -
  obtain r bs sr where d: "SessionLifecycle_disconnect k (rt_lifecycle (sv_runtime s)) (wd_registry (sv_world s)) = (r, bs, sr)"
    by (metis prod_cases3)
  then show ?thesis using links_end [OF _ d] assms by (auto simp: end_binding_def server_links_def keeps_clients_def)
qed

lemma put_session_links:
  assumes "server_links s" "map_of (rt_clients (sv_runtime s)) k \<noteq> None"
  shows "server_links (put_session k c s)"
proof -
  have "dom (map_of (rt_clients (sv_runtime s))) \<subseteq> dom (map_of (map_put k c (rt_clients (sv_runtime s))))" by auto
  then show ?thesis using assms links_clients by (auto simp: server_links_def put_session_def)
qed

lemma put_session_keeps:
  "map_of (rt_clients (sv_runtime s)) k \<noteq> None \<Longrightarrow> ClientSession_isOpen c \<Longrightarrow> keeps_clients s (put_session k c s)"
  by (auto simp: keeps_clients_def put_session_def)

lemma enqueueFrame_open: "ClientSession_enqueueFrame c f = Inr c' \<Longrightarrow> ClientSession_isOpen c'"
  by (auto simp: ClientSession_enqueueFrame_def ClientSession_isOpen_def split: if_splits sum.splits)

lemma response_open:
  "ClientSession_isOpen c \<Longrightarrow> enqueueLoginResponse c lr e = (ok, c', e') \<Longrightarrow> ClientSession_isOpen c'"
  "ClientSession_isOpen c \<Longrightarrow> enqueueDisconnectResponse c dr e = (ok, c', e') \<Longrightarrow> ClientSession_isOpen c'"
  by (auto simp: enqueueLoginResponse_def enqueueDisconnectResponse_def enqueueSessionFrame_def enqueueFrame_open split: sum.splits)

lemma run_command_links:
  assumes "run_command now p s = (Some r, s1)" "server_links s" "cmd_type (pc_command p) \<noteq> Login"
  shows "server_links s1 \<and> keeps_clients s s1"
proof -
  obtain r' d q w where d: "dispatch now (pc_command p) (sv_dispatcher s) (wt_inputQueue (rt_inputTick (sv_runtime s))) (sv_world s) = (r', d, q, w)"
    by (metis prod_cases4)
  then show ?thesis
    using assms dispatch_wire [OF d] links_shrink [OF _ dispatch_registry [OF d]]
    by (auto simp: run_command_def server_links_def keeps_clients_def Let_def)
qed

lemma answer_disconnect_links:
  assumes "answer_disconnect p r s e = (s', e')" "server_links s"
  shows "server_links s' \<and> keeps_clients s s'"
proof (cases "clientSession (pc_connectionId p) (sv_runtime s)")
  case None
  then show ?thesis using assms end_binding_links [OF assms(2)] by (auto simp: answer_disconnect_def split: if_splits)
next
  case (Some c)
  show ?thesis
  proof (cases "ClientSession_isOpen c")
    case False
    then show ?thesis using assms Some end_binding_links [OF assms(2)] by (auto simp: answer_disconnect_def split: if_splits)
  next
    case True
    obtain ok c1 e1 where a: "enqueueDisconnectResponse c (disconnect_answer p r) e = (ok, c1, e1)" by (metis prod_cases3)
    define c2 where "c2 = (if ok \<and> dr_accepted r then ClientSession_requestCloseAfterFlush c1 else c1)"
    have "ClientSession_isOpen c2" using response_open(2) [OF True a]
      by (simp add: c2_def ClientSession_requestCloseAfterFlush_def ClientSession_isOpen_def)
    moreover have ne: "map_of (rt_clients (sv_runtime s)) (pc_connectionId p) \<noteq> None" using Some by (simp add: clientSession_def)
    ultimately have p: "server_links (put_session (pc_connectionId p) c2 s)" "keeps_clients s (put_session (pc_connectionId p) c2 s)"
      using put_session_links [OF assms(2) ne] put_session_keeps [OF ne] by auto
    have "s' = (if dr_accepted r then end_binding (pc_connectionId p) (put_session (pc_connectionId p) c2 s) else put_session (pc_connectionId p) c2 s)"
      using assms(1) Some True a by (auto simp: answer_disconnect_def c2_def)
    then show ?thesis using p end_binding_links [OF p(1)] keeps_trans by auto
  qed
qed

text \<open>The lifecycle after a login command: settled, refused or left alone.\<close>

lemma settle_links:
  assumes "links_ok (rt_clients (sv_runtime s)) (rt_lifecycle (sv_runtime s)) sr0" "map_wf (rt_clients (sv_runtime s))"
    and "list_all wire_input (wq_pending (wt_inputQueue (rt_inputTick (sv_runtime s))))"
    and "if dr_accepted r then opened sr0 (dr_session r) (wd_registry (sv_world s)) else wd_registry (sv_world s) = sr0"
    and "map_of (rt_clients (sv_runtime s)) (pc_connectionId p) \<noteq> None" "settle_login p r s = (r', s')"
  shows "server_links s' \<and> keeps_clients s s'"
proof (cases "dr_accepted r")
  case False
  then show ?thesis using assms by (simp add: settle_login_def server_links_def)
next
  case True
  then have o: "opened sr0 (dr_session r) (wd_registry (sv_world s))" using assms(4) by simp
  show ?thesis
  proof (cases "SessionLifecycle_bind (pc_connectionId p) (dr_session r) (rt_lifecycle (sv_runtime s))")
    case (Inl e)
    then have "s' = s\<lparr>sv_world := (sv_world s)\<lparr>wd_registry := snd (SessionRegistry_logout (si_internalId (dr_session r)) (wd_registry (sv_world s)))\<rparr>\<rparr>"
      using assms(6) True by (simp add: settle_login_def)
    then show ?thesis using links_unopen [OF assms(1) o] assms(2,3) by (simp add: server_links_def keeps_clients_def)
  next
    case (Inr bs)
    let ?s1 = "\<lambda>ps. s\<lparr>sv_runtime := (sv_runtime s)\<lparr>rt_lifecycle := bs\<rparr>, sv_world := (sv_world s)\<lparr>wd_presence := ps\<rparr>\<rparr>"
    have l: "server_links (?s1 ps)" "keeps_clients s (?s1 ps)" for ps
      using links_bind [OF assms(1) o Inr assms(5)] assms(2,3) by (simp_all add: server_links_def keeps_clients_def)
    obtain ok ps where pl: "placeAfterLogin (si_internalId (dr_session r)) (si_claimedId (dr_session r)) (wd_presence (sv_world s)) = (ok, ps)"
      by force
    show ?thesis
    proof (cases ok)
      case True
      then have "s' = s\<lparr>sv_runtime := (sv_runtime (?s1 ps))\<lparr>rt_newAuthenticatedSessions := Suc (rt_newAuthenticatedSessions (sv_runtime s))\<rparr>,
          sv_world := (sv_world s)\<lparr>wd_presence := ps\<rparr>\<rparr>"
        using assms(6) \<open>dr_accepted r\<close> Inr pl by (simp add: settle_login_def)
      then show ?thesis using l [of ps] by (simp add: server_links_def keeps_clients_def)
    next
      case False
      then have "s' = end_binding (pc_connectionId p) (?s1 ps)"
        using assms(6) True Inr pl by (simp add: settle_login_def)
      then show ?thesis using end_binding_links [OF l(1)] keeps_trans [OF l(2)] by blast
    qed
  qed
qed

definition login_ran :: "'p Server \<Rightarrow> CommandDispatchResult \<Rightarrow> 'p Server \<Rightarrow> bool" where
  "login_ran s r s1 \<longleftrightarrow> rt_clients (sv_runtime s1) = rt_clients (sv_runtime s) \<and> rt_lifecycle (sv_runtime s1) = rt_lifecycle (sv_runtime s) \<and>
     list_all wire_input (wq_pending (wt_inputQueue (rt_inputTick (sv_runtime s1)))) \<and> keeps_clients s s1 \<and>
     (if dr_accepted r then opened (wd_registry (sv_world s)) (dr_session r) (wd_registry (sv_world s1))
      else wd_registry (sv_world s1) = wd_registry (sv_world s))"

lemma run_login:
  assumes "run_command now p s = (Some r, s1)" "server_links s" "cmd_type (pc_command p) = Login"
  shows "login_ran s r s1"
proof (cases "SessionLifecycle_hasSession (rt_lifecycle (sv_runtime s)) (pc_connectionId p)")
  case True
  then have "s1 = s \<and> \<not> dr_accepted r" using assms(1,3) by (auto simp: run_command_def dispatch_refused_def)
  then show ?thesis using assms(2) by (simp add: login_ran_def server_links_def)
next
  case False
  obtain r' d q w where d: "dispatch now (pc_command p) (sv_dispatcher s) (wt_inputQueue (rt_inputTick (sv_runtime s))) (sv_world s) = (r', d, q, w)"
    by (metis prod_cases4)
  then have s1: "r' = Some r" "s1 = \<lparr>sv_runtime = (sv_runtime s)\<lparr>rt_inputTick := (rt_inputTick (sv_runtime s))\<lparr>wt_inputQueue := q\<rparr>\<rparr>, sv_dispatcher = d, sv_world = w\<rparr>"
    using assms(1,3) False by (auto simp: run_command_def Let_def)
  have "dispatchLogin now (pc_command p) (sv_dispatcher s) (wt_inputQueue (rt_inputTick (sv_runtime s))) (sv_world s) = (Some r, d, q, w)"
    using d s1(1) assms(3) by (simp add: dispatch_def)
  moreover have "0 < sr_nextInternalId (wd_registry (sv_world s))" using assms(2) by (simp add: server_links_def links_ok_def)
  ultimately have "if dr_accepted r then opened (wd_registry (sv_world s)) (dr_session r) (wd_registry w)
      else wd_registry w = wd_registry (sv_world s)" by (rule dispatch_login_registry)
  then show ?thesis using dispatch_wire [OF d] assms(2) by (simp add: login_ran_def s1(2) keeps_clients_def server_links_def)
qed

lemma process_login_links:
  assumes "run_command now p s = (Some r, s1)" "answer_login p r s1 e = (s', e')" "server_links s" "live s p" "cmd_type (pc_command p) = Login"
  shows "server_links s' \<and> keeps_clients s s'"
proof -
  have s: "links_ok (rt_clients (sv_runtime s)) (rt_lifecycle (sv_runtime s)) (wd_registry (sv_world s))" "map_wf (rt_clients (sv_runtime s))"
    using assms(3) by (simp_all add: server_links_def)
  obtain c where c: "map_of (rt_clients (sv_runtime s)) (pc_connectionId p) = Some c" "ClientSession_isOpen c" using assms(4) by (auto simp: live_def)
  note r = run_login [OF assms(1,3,5), unfolded login_ran_def]
  obtain r2 s2 where st: "settle_login p r s1 = (r2, s2)" by force
  have l2: "server_links s2" "keeps_clients s1 s2"
    using settle_links [OF _ _ _ _ _ st, of "wd_registry (sv_world s)"] r s c by simp_all
  obtain ok c' e2 where a: "enqueueLoginResponse c (loginResponseFromDispatch r2) e = (ok, c', e2)" by (metis prod_cases3)
  have s': "s' = put_session (pc_connectionId p) c' s2"
    using assms(2) c r st a by (auto simp: answer_login_def clientSession_def)
  have ne: "map_of (rt_clients (sv_runtime s2)) (pc_connectionId p) \<noteq> None"
    using l2(2) c(1) r by (auto simp: keeps_clients_def dom_def)
  have "keeps_clients s s'"
    using keeps_trans [OF _ keeps_trans [OF l2(2) put_session_keeps [OF ne response_open(1) [OF c(2) a]]]] r s' by blast
  then show ?thesis using s' put_session_links [OF l2(1) ne] by blast
qed

lemma process_command_links:
  assumes "process_command now p s e = Some (s', e')" "server_links s" "live s p"
  shows "server_links s' \<and> keeps_clients s s'"
proof -
  obtain r s1 where r: "run_command now p s = (Some r, s1)" using assms(1) by (auto simp: process_command_def split: prod.splits option.splits)
  have nz: "pc_connectionId p \<noteq> 0" using assms(3) by (simp add: live_def)
  show ?thesis
  proof (cases "cmd_type (pc_command p) = Login")
    case True
    then have "answer_login p r s1 e = (s', e')" using assms(1) r nz by (simp add: process_command_def)
    then show ?thesis using process_login_links [OF r _ assms(2,3) True] by blast
  next
    case False
    note s1 = run_command_links [OF r assms(2) False]
    show ?thesis
    proof (cases "cmd_type (pc_command p) = Disconnect")
      case True
      then have "answer_disconnect p r s1 e = (s', e')" using assms(1) r nz by (simp add: process_command_def)
      then show ?thesis using answer_disconnect_links s1 keeps_trans by blast
    qed (use assms(1) r nz False s1 in \<open>simp add: process_command_def\<close>)
  qed
qed

lemma process_commands_links:
  "process_commands clock n ps s e = Some (m, s', e') \<Longrightarrow> server_links s \<Longrightarrow> list_all (live s) ps \<Longrightarrow> server_links s' \<and> keeps_clients s s'"
proof (induction ps arbitrary: n s e)
  case (Cons p ps)
  then obtain s1 e1 where s1: "process_command (clock n) p s e = Some (s1, e1)" "process_commands clock (Suc n) ps s1 e1 = Some (m, s', e')"
    by (auto split: option.splits)
  have "server_links s1 \<and> keeps_clients s s1" using process_command_links [OF s1(1)] Cons.prems by simp
  moreover from this have "list_all (live s1) ps" using Cons.prems(3) keeps_live by (auto simp: list_all_iff)
  ultimately show ?case using Cons.IH [OF s1(2)] keeps_trans by blast
qed simp

subsection \<open>Receiving\<close>

lemma receive_open: "ClientSession_receive out c = (c', RecvCommands, cmds, e) \<Longrightarrow> ClientSession_isOpen c'"
  by (auto simp: ClientSession_receive_def ClientSession_isOpen_def split: if_splits RecvOutcome.splits prod.splits option.splits)

lemma enqueueCommands_effect:
  assumes "enqueueCommands k cmds rt = (r, rt')"
  shows "\<exists>ps. rt' = rt\<lparr>rt_pendingCommands := rt_pendingCommands rt @ ps\<rparr> \<and> list_all (\<lambda>p. pc_connectionId p = k) ps"
proof (cases r)
  case (Inl e)
  then have "rt' = rt\<lparr>rt_pendingCommands := rt_pendingCommands rt @ []\<rparr>"
    using assms by (auto simp: enqueueCommands_def Let_def split: if_splits list.splits)
  then show ?thesis by (intro exI [of _ "[]"]) simp
next
  case (Inr x)
  then have "rt' = rt\<lparr>rt_pendingCommands := rt_pendingCommands rt @ map (\<lambda>c. \<lparr>pc_connectionId = k, pc_command = c\<rparr>) cmds\<rparr>"
    using assms by (auto simp: enqueueCommands_def Let_def split: if_splits list.splits)
  moreover have "list_all (\<lambda>p. pc_connectionId p = k) (map (\<lambda>c. \<lparr>pc_connectionId = k, pc_command = c\<rparr>) cmds)" by (simp add: list_all_iff)
  ultimately show ?thesis by blast
qed

text \<open>The client \<open>k\<close> has been read; its new commands are pending only if it is still open.\<close>

definition received :: "u64 \<Rightarrow> Runtime \<Rightarrow> Runtime \<Rightarrow> bool" where
  "received k rt rt' \<longleftrightarrow> (\<exists>c ps. rt' = rt\<lparr>rt_clients := map_put k c (rt_clients rt), rt_pendingCommands := rt_pendingCommands rt @ ps\<rparr> \<and>
     map_of (rt_clients rt) k \<noteq> None \<and> list_all (\<lambda>p. pc_connectionId p = k) ps \<and> (ps \<noteq> [] \<longrightarrow> ClientSession_isOpen c))"

lemma receive_client_received:
  assumes "receive_client net k (rt, e) = (rt', e')" "map_of (rt_clients rt) k = Some c"
  shows "received k rt rt'"
proof -
  obtain c' st cmds er where r: "ClientSession_receive (net k) c = (c', st, cmds, er)" by (metis prod_cases4)
  let ?rt1 = "rt\<lparr>rt_clients := map_put k c' (rt_clients rt)\<rparr>"
  show ?thesis
  proof (cases "st = RecvCommands")
    case True
    obtain r2 rt2 where q: "enqueueCommands k cmds ?rt1 = (r2, rt2)" by force
    have "rt' = rt2" using assms r True q by (auto simp: receive_client_def Let_def split: sum.splits)
    then show ?thesis using enqueueCommands_effect [OF q] receive_open r True assms(2) unfolding received_def by fastforce
  next
    case False
    then have "rt' = ?rt1\<lparr>rt_pendingCommands := rt_pendingCommands rt @ []\<rparr>" using assms r by (auto simp: receive_client_def Let_def split: if_splits)
    then show ?thesis using assms(2) unfolding received_def by fastforce
  qed
qed

definition pending_live :: "Runtime \<Rightarrow> bool" where
  "pending_live rt \<longleftrightarrow> list_all (\<lambda>p. pc_connectionId p \<noteq> 0 \<and>
     (\<exists>c. map_of (rt_clients rt) (pc_connectionId p) = Some c \<and> ClientSession_isOpen c)) (rt_pendingCommands rt)"

definition same_links :: "Runtime \<Rightarrow> Runtime \<Rightarrow> bool" where
  "same_links rt rt' \<longleftrightarrow> map_wf (rt_clients rt') = map_wf (rt_clients rt) \<and> dom (map_of (rt_clients rt')) = dom (map_of (rt_clients rt)) \<and>
     rt_lifecycle rt' = rt_lifecycle rt \<and> rt_inputTick rt' = rt_inputTick rt \<and> rt_nextConnectionId rt' = rt_nextConnectionId rt \<and>
     rt_running rt' = rt_running rt"

lemma receive_clients_links:
  assumes "fold (receive_client net) ks (rt, e) = (rt', e')" "distinct ks" "set ks \<subseteq> dom (map_of (rt_clients rt))" "0 \<notin> set ks"
    and "pending_live rt" "\<forall>p \<in> set (rt_pendingCommands rt). pc_connectionId p \<notin> set ks" "map_wf (rt_clients rt)"
  shows "pending_live rt' \<and> same_links rt rt'"
  using assms
proof (induction ks arbitrary: rt e)
  case Nil
  then show ?case by (simp add: same_links_def)
next
  case (Cons k ks)
  obtain rt1 e1 where s: "receive_client net k (rt, e) = (rt1, e1)" by force
  obtain c where c: "map_of (rt_clients rt) k = Some c" using Cons.prems(3) by auto
  obtain c' ps where p: "rt1 = rt\<lparr>rt_clients := map_put k c' (rt_clients rt), rt_pendingCommands := rt_pendingCommands rt @ ps\<rparr>"
    "list_all (\<lambda>p. pc_connectionId p = k) ps" "ps \<noteq> [] \<longrightarrow> ClientSession_isOpen c'"
    using receive_client_received [OF s c] by (auto simp: received_def)
  have "pending_live rt1" using Cons.prems(4-6) p by (auto simp: pending_live_def list_all_iff)
  moreover have "\<forall>p \<in> set (rt_pendingCommands rt1). pc_connectionId p \<notin> set ks" using Cons.prems(2,6) p(1,2) by (auto simp: list_all_iff)
  moreover have "set ks \<subseteq> dom (map_of (rt_clients rt1))" using Cons.prems(3) p(1) by auto
  moreover have "map_wf (rt_clients rt1)" "same_links rt rt1" using Cons.prems(7) p(1) c by (auto simp: same_links_def)
  ultimately have "pending_live rt' \<and> same_links rt1 rt'" using Cons.IH [of rt1 e1] Cons.prems(1,2,4) s by simp
  then show ?case using \<open>same_links rt rt1\<close> by (auto simp: same_links_def)
qed

subsection \<open>Removing closed clients\<close>

lemma remove_client_links:
  assumes "server_links s"
  shows "server_links (remove_client d k s) \<and>
    map_of (rt_clients (sv_runtime (remove_client d k s))) = (map_of (rt_clients (sv_runtime s)))(k := None) \<and>
    rt_nextConnectionId (sv_runtime (remove_client d k s)) = rt_nextConnectionId (sv_runtime s) \<and>
    rt_pendingCommands (sv_runtime (remove_client d k s)) = rt_pendingCommands (sv_runtime s) \<and>
    rt_running (sv_runtime (remove_client d k s)) = rt_running (sv_runtime s)"
proof -
  let ?s1 = "s\<lparr>sv_world := (sv_world s)\<lparr>wd_presence := snd (removeAfterLogout (SessionLifecycle_sessionId (rt_lifecycle (sv_runtime s)) k) (wd_presence (sv_world s)))\<rparr>\<rparr>"
  have l: "server_links ?s1" using assms by (simp add: server_links_def)
  note e = end_binding_links [OF l, of k]
  have c: "rt_clients (sv_runtime (end_binding k ?s1)) = rt_clients (sv_runtime s)"
    by (simp add: end_binding_def split: prod.splits)
  show ?thesis using e links_erase c
    by (auto simp: remove_client_def Let_def server_links_def keeps_clients_def)
qed

lemma remove_closed_links:
  assumes "server_links s"
  shows "server_links (fold (remove_client d) ks s) \<and>
    map_of (rt_clients (sv_runtime (fold (remove_client d) ks s))) = (\<lambda>k. if k \<in> set ks then None else map_of (rt_clients (sv_runtime s)) k) \<and>
    rt_nextConnectionId (sv_runtime (fold (remove_client d) ks s)) = rt_nextConnectionId (sv_runtime s) \<and>
    rt_pendingCommands (sv_runtime (fold (remove_client d) ks s)) = rt_pendingCommands (sv_runtime s) \<and>
    rt_running (sv_runtime (fold (remove_client d) ks s)) = rt_running (sv_runtime s)"
  using assms
proof (induction ks arbitrary: s)
  case (Cons k ks)
  then show ?case using remove_client_links [of s d k] by (auto simp: fun_eq_iff)
qed simp

lemma removeClosed_inv:
  assumes "server_links s" "removeClosedClients d s = (n, s')"
  shows "server_links s' \<and> dom (map_of (rt_clients (sv_runtime s'))) \<subseteq> dom (map_of (rt_clients (sv_runtime s))) \<and>
    (\<forall>k c. map_of (rt_clients (sv_runtime s')) k = Some c \<longrightarrow> ClientSession_isOpen c) \<and>
    rt_nextConnectionId (sv_runtime s') = rt_nextConnectionId (sv_runtime s) \<and>
    rt_pendingCommands (sv_runtime s') = rt_pendingCommands (sv_runtime s) \<and> rt_running (sv_runtime s') = rt_running (sv_runtime s)"
proof -
  have s': "s' = fold (remove_client d) (closed_clients (sv_runtime s)) s" using assms(2) by (simp add: removeClosedClients_def)
  have "ClientSession_isOpen c" if "map_of (rt_clients (sv_runtime s)) k = Some c" "k \<notin> set (closed_clients (sv_runtime s))" for k c
    using that map_of_SomeD by (force simp: closed_clients_def)
  then show ?thesis using remove_closed_links [OF assms(1), of d "closed_clients (sv_runtime s)"] s' by (auto split: if_splits)
qed

subsection \<open>Frames\<close>

text \<open>Between two frames nothing is pending and every client is open.\<close>

definition ids_ok :: "Runtime \<Rightarrow> bool" where
  "ids_ok rt \<longleftrightarrow> 0 < rt_nextConnectionId rt \<and> (\<forall>k \<in> dom (map_of (rt_clients rt)). 0 < k \<and> k < rt_nextConnectionId rt)"

definition run_inv :: "'p Server \<Rightarrow> bool" where
  "run_inv s \<longleftrightarrow> server_links s \<and> ids_ok (sv_runtime s) \<and> rt_pendingCommands (sv_runtime s) = [] \<and>
     (\<forall>k c. map_of (rt_clients (sv_runtime s)) k = Some c \<longrightarrow> ClientSession_isOpen c) \<and>
     wq_pending (wt_inputQueue (rt_inputTick (sv_runtime s))) = []"

lemma accept_links:
  assumes "acceptPendingClient out rt = (st, k, er, rt')" "ids_ok rt" "map_wf (rt_clients rt)"
  shows "ids_ok rt' \<and> map_wf (rt_clients rt') \<and> dom (map_of (rt_clients rt)) \<subseteq> dom (map_of (rt_clients rt')) \<and>
    rt_lifecycle rt' = rt_lifecycle rt \<and> rt_inputTick rt' = rt_inputTick rt \<and> rt_pendingCommands rt' = rt_pendingCommands rt \<and>
    rt_running rt' = rt_running rt"
proof (cases "rt' = rt")
  case False
  then obtain c where rt': "rt' = rt\<lparr>rt_nextConnectionId := rt_nextConnectionId rt + 1, rt_clients := map_put (rt_nextConnectionId rt) c (rt_clients rt)\<rparr>"
    and max: "rt_nextConnectionId rt \<noteq> UINT64_MAX"
    using assms(1) by (auto simp: acceptPendingClient_def Let_def split: if_splits prod.splits AcceptStatus.splits)
  have "rt_nextConnectionId rt < rt_nextConnectionId rt + 1" using u64_Suc_unat [OF max] by (simp add: word_less_nat_alt)
  then show ?thesis using assms(2,3) rt' by (auto simp: ids_ok_def intro: order_less_trans)
qed (use assms in simp)

lemma accept_loop_links:
  assumes "accept_loop acc n m rt e = (m', rt', e')" "ids_ok rt" "map_wf (rt_clients rt)"
  shows "ids_ok rt' \<and> map_wf (rt_clients rt') \<and> dom (map_of (rt_clients rt)) \<subseteq> dom (map_of (rt_clients rt')) \<and>
    rt_lifecycle rt' = rt_lifecycle rt \<and> rt_inputTick rt' = rt_inputTick rt \<and> rt_pendingCommands rt' = rt_pendingCommands rt \<and>
    rt_running rt' = rt_running rt"
  using assms
proof (induction n arbitrary: m rt e)
  case (Suc n)
  obtain st k er rt1 where a: "acceptPendingClient (acc m) rt = (st, k, er, rt1)" by (metis prod_cases4)
  note h = accept_links [OF a Suc.prems(2,3)]
  show ?case
  proof (cases "st = AcceptAccepted")
    case True
    then have "accept_loop acc n (Suc m) rt1 e = (m', rt', e')" using Suc.prems(1) a by simp
    then show ?thesis using Suc.IH h by fastforce
  next
    case False
    then have "rt' = rt1" using Suc.prems(1) a by (cases st) auto
    then show ?thesis using h by simp
  qed
qed simp

lemma flush_keys: "flush_clients net cs e = (cs', ws, e') \<Longrightarrow> map fst cs' = map fst cs"
  by (induction cs arbitrary: cs' ws e e') (auto simp: Let_def split: prod.splits)

lemma keys_dom: "map fst cs' = map fst cs \<Longrightarrow> dom (map_of cs') = dom (map_of cs) \<and> map_wf cs' = map_wf cs"
  by (simp add: dom_map_of_conv_image_fst map_wf_def flip: set_map)

lemma processClientFrames_links:
  assumes "processClientFrames clock net s e = Some (n, s', e')" "rt_running (sv_runtime s)"
    and "server_links s" "ids_ok (sv_runtime s)" "rt_pendingCommands (sv_runtime s) = []"
  shows "server_links s' \<and> ids_ok (sv_runtime s') \<and> rt_pendingCommands (sv_runtime s') = []"
proof -
  let ?rt = "(sv_runtime s)\<lparr>rt_newAuthenticatedSessions := 0\<rparr>"
  let ?d = "Dispatcher_beginFrame (wt_worldTick (rt_inputTick (sv_runtime s)) + 1) (bindWorldInputQueue (sv_dispatcher s))"
  obtain rt1 e1 where r: "receive_clients net ?rt e = (rt1, e1)" by force
  let ?s1 = "s\<lparr>sv_runtime := rt1\<lparr>rt_pendingCommands := []\<rparr>, sv_dispatcher := ?d\<rparr>"
  obtain m s2 e2 where c: "process_commands clock 0 (rt_pendingCommands rt1) ?s1 e1 = Some (m, s2, e2)" "s' = snd (removeClosedClients True s2)"
    using assms(1,2) r by (auto simp: processClientFrames_def Let_def split: option.splits)
  have wf: "map_wf (rt_clients (sv_runtime s))" using assms(3) by (simp add: server_links_def)
  have "pending_live rt1 \<and> same_links ?rt rt1"
  proof (rule receive_clients_links)
    show "fold (receive_client net) (map fst (rt_clients ?rt)) (?rt, e) = (rt1, e1)" using r by (simp add: receive_clients_def)
    show "0 \<notin> set (map fst (rt_clients ?rt))" using assms(4) by (auto simp: ids_ok_def dom_map_of_conv_image_fst)
  qed (use assms(5) wf map_wf_distinct in \<open>auto simp: pending_live_def dom_map_of_conv_image_fst\<close>)
  then have rt1: "pending_live rt1" "same_links ?rt rt1" by auto
  have s1: "server_links ?s1" "list_all (live ?s1) (rt_pendingCommands rt1)"
    using assms(3) rt1 links_clients [of "rt_clients (sv_runtime s)"]
    by (auto simp: server_links_def same_links_def pending_live_def live_def list_all_iff)
  have s2: "server_links s2" "keeps_clients ?s1 s2" using process_commands_links [OF c(1) s1] by auto
  have "ids_ok (sv_runtime s2)" using s2(2) rt1(2) assms(4) by (simp add: ids_ok_def keeps_clients_def same_links_def)
  then show ?thesis using removeClosed_inv [OF s2(1), of True] s2(2) c(2)
    by (cases "removeClosedClients True s2") (auto simp: ids_ok_def keeps_clients_def subset_iff)
qed

lemma take_frame: "WorldInputQueue_takeFrame q = (wq_pending q, q\<lparr>wq_pending := []\<rparr>)"
proof -
  have "drain_front acc xs = (acc @ xs, [])" for acc and xs :: "WorldInput list" by (induction xs arbitrary: acc) auto
  then show ?thesis by (simp add: WorldInputQueue_takeFrame_def)
qed

lemma runtime_processFrame_inv:
  assumes "Runtime_processFrame ke s e = Some (fr, s', ws, e')" "run_inv s"
  shows "run_inv s' \<and> list_all wire_input (fr_inputs fr)"
proof (cases "rt_running (sv_runtime s)")
  case False
  then show ?thesis using assms by (auto simp: Runtime_processFrame_def)
next
  case True
  obtain m rt1 e1 where a: "accept_loop (ke_accepts ke) MAX_ACCEPTS_PER_FRAME 0 (sv_runtime s) e = (m, rt1, e1)" by (metis prod_cases3)
  obtain n s2 e2 where p: "processClientFrames (ke_clock ke) (ke_recv ke) (s\<lparr>sv_runtime := rt1\<rparr>) e1 = Some (n, s2, e2)"
    using assms(1) True a by (auto simp: Runtime_processFrame_def split: option.splits)
  obtain cs ws3 e3 where f: "flush_clients (ke_send ke) (rt_clients (sv_runtime s2)) e2 = (cs, ws3, e3)" by (metis prod_cases3)
  let ?s2 = "s2\<lparr>sv_runtime := (sv_runtime s2)\<lparr>rt_clients := cs\<rparr>\<rparr>"
  obtain k s3 where r: "removeClosedClients True ?s2 = (k, s3)" by force
  note inv = assms(2) [unfolded run_inv_def server_links_def]
  have rt1: "ids_ok rt1 \<and> map_wf (rt_clients rt1) \<and> dom (map_of (rt_clients (sv_runtime s))) \<subseteq> dom (map_of (rt_clients rt1)) \<and>
    rt_lifecycle rt1 = rt_lifecycle (sv_runtime s) \<and> rt_inputTick rt1 = rt_inputTick (sv_runtime s) \<and>
    rt_pendingCommands rt1 = [] \<and> rt_running rt1"
    using accept_loop_links [OF a] inv True by auto
  have "server_links (s\<lparr>sv_runtime := rt1\<rparr>)" using rt1 inv links_clients by (auto simp: server_links_def)
  with processClientFrames_links [OF p] rt1
  have s2: "server_links s2" "ids_ok (sv_runtime s2)" "rt_pendingCommands (sv_runtime s2) = []" by auto
  have d: "dom (map_of cs) = dom (map_of (rt_clients (sv_runtime s2)))" "map_wf cs = map_wf (rt_clients (sv_runtime s2))"
    using keys_dom [OF flush_keys [OF f]] by auto
  then have "server_links ?s2" using s2(1) links_clients by (auto simp: server_links_def)
  note s3 = removeClosed_inv [OF this r]
  have i3: "ids_ok (sv_runtime s3)" using s2(2) s3 d(1) by (auto simp: ids_ok_def subset_iff)
  have out: "fr_inputs fr = wq_pending (wt_inputQueue (rt_inputTick (sv_runtime s3)))"
    "s' = s3\<lparr>sv_runtime := (sv_runtime s3)\<lparr>rt_inputTick := snd (WorldInputTick_advanceFrame (rt_inputTick (sv_runtime s3)))\<rparr>\<rparr>"
    using assms(1) True a p f r by (auto simp: Runtime_processFrame_def WorldInputTick_advanceFrame_def take_frame Let_def)
  then show ?thesis using s3 i3 s2(3)
    by (auto simp: run_inv_def server_links_def WorldInputTick_advanceFrame_def take_frame ids_ok_def Let_def)
qed

subsection \<open>The players along a frame\<close>

definition presence_ok :: "'p Server \<Rightarrow> bool" where
  "presence_ok s \<longleftrightarrow> presence_reachable (wd_presence (sv_world s))"

lemma presence_ok_runtime [simp]: "presence_ok (s\<lparr>sv_runtime := rt\<rparr>) = presence_ok s"
  by (simp add: presence_ok_def)

lemma presence_end_binding [simp]: "wd_presence (sv_world (end_binding k s)) = wd_presence (sv_world s)"
  by (simp add: end_binding_def split: prod.splits)

lemma presence_put_session [simp]: "sv_world (put_session k c s) = sv_world s"
  by (simp add: put_session_def)

lemma dispatch_presence:
  assumes "dispatch now c d q w = (r, d', q', w')"
  shows "wd_presence w' = wd_presence w \<or> wd_presence w' = snd (removeAfterLogout (cmd_sessionId c) (wd_presence w))"
proof (cases "cmd_type c \<in> {Move, Chat, Attack, CastSpell}")
  case True
  then have "dispatches_input c q w (dispatch now c d q w)" using dispatch_handlers by (auto simp: dispatch_def)
  then show ?thesis using assms by (simp add: dispatches_input_def)
next
  case False
  then show ?thesis using assms
    by (cases "cmd_type c") (auto simp: dispatch_def dispatchLogin_def dispatch_snapshot_def dispatch_disconnect_def
        DisconnectCommandHandler_handle_def Let_def split: option.splits prod.splits sum.splits if_splits bool.splits)
qed

lemma run_command_presence: "run_command now p s = (r, s1) \<Longrightarrow> presence_ok s \<Longrightarrow> presence_ok s1"
  using dispatch_presence by (fastforce simp: run_command_def presence_ok_def Let_def split: if_splits prod.splits intro: presence_reachable.remove)

lemma answer_disconnect_presence: "answer_disconnect p r s e = (s', e') \<Longrightarrow> presence_ok s \<Longrightarrow> presence_ok s'"
  by (auto simp: answer_disconnect_def presence_ok_def Let_def split: option.splits prod.splits if_splits)

lemma settle_presence: "settle_login p r s = (r', s') \<Longrightarrow> presence_ok s \<Longrightarrow> presence_ok s'"
  by (auto simp: settle_login_def presence_ok_def Let_def split: if_splits sum.splits prod.splits bool.splits dest: presence_reachable.place)

lemma answer_login_presence: "answer_login p r s e = (s', e') \<Longrightarrow> presence_ok s \<Longrightarrow> presence_ok s'"
  using settle_presence by (fastforce simp: answer_login_def presence_ok_def split: option.splits prod.splits if_splits)

lemma process_command_presence: "process_command now p s e = Some (s', e') \<Longrightarrow> presence_ok s \<Longrightarrow> presence_ok s'"
  using run_command_presence answer_login_presence answer_disconnect_presence
  by (fastforce simp: process_command_def split: prod.splits option.splits if_splits)

lemma process_commands_presence: "process_commands clock n ps s e = Some (m, s', e') \<Longrightarrow> presence_ok s \<Longrightarrow> presence_ok s'"
  by (induction ps arbitrary: n s e) (auto split: option.splits dest: process_command_presence)

lemma remove_closed_presence: "presence_ok s \<Longrightarrow> presence_ok (snd (removeClosedClients d s))"
proof -
  have "presence_ok s \<Longrightarrow> presence_ok (remove_client d k s)" for k s
    by (auto simp: remove_client_def presence_ok_def Let_def intro: presence_reachable.remove)
  then have "presence_ok s \<Longrightarrow> presence_ok (fold (remove_client d) ks s)" for ks s by (induction ks arbitrary: s) auto
  then show "presence_ok s \<Longrightarrow> ?thesis" by (simp add: removeClosedClients_def)
qed

lemma processFrame_presence:
  assumes "Runtime_processFrame ke s e = Some (fr, s', ws, e')" "presence_ok s"
  shows "presence_ok s'"
proof (cases "rt_running (sv_runtime s)")
  case True
  obtain m rt1 e1 where a: "accept_loop (ke_accepts ke) MAX_ACCEPTS_PER_FRAME 0 (sv_runtime s) e = (m, rt1, e1)" by (metis prod_cases3)
  obtain n s2 e2 where p: "processClientFrames (ke_clock ke) (ke_recv ke) (s\<lparr>sv_runtime := rt1\<rparr>) e1 = Some (n, s2, e2)"
    using assms(1) True a by (auto simp: Runtime_processFrame_def split: option.splits)
  have "presence_ok s2" using p assms(2) process_commands_presence remove_closed_presence
    by (fastforce simp: processClientFrames_def presence_ok_def Let_def split: if_splits prod.splits option.splits)
  then have p3: "presence_ok (snd (removeClosedClients True (s2\<lparr>sv_runtime := rt\<rparr>)))" for rt
    using remove_closed_presence [of "s2\<lparr>sv_runtime := rt\<rparr>" True] by simp
  have "\<exists>cs t. s' = (let s3 = snd (removeClosedClients True (s2\<lparr>sv_runtime := (sv_runtime s2)\<lparr>rt_clients := cs\<rparr>\<rparr>)) in
      s3\<lparr>sv_runtime := (sv_runtime s3)\<lparr>rt_inputTick := t\<rparr>\<rparr>)"
    using assms(1) True a p by (auto simp: Runtime_processFrame_def Let_def split: prod.splits)
  then show ?thesis using p3 by (auto simp: Let_def)
qed (use assms in \<open>auto simp: Runtime_processFrame_def\<close>)

subsection \<open>Turns of the server loop\<close>

text \<open>
  One turn of the loop of \<open>ServerMain.cpp\<close>; the field of the world frame applier is the field of the
  presence. \<open>None\<close> is an exception of the login store or undefined behaviour in the field.
\<close>

definition server_turn :: "Kernel \<Rightarrow> 'p Server \<Rightarrow> Applier \<Rightarrow> ('p Server \<times> Applier \<times> (u64 \<times> u8 list) list) option" where
  "server_turn ke s ap =
     (case Runtime_processFrame ke s [] of
        None \<Rightarrow> None
      | Some (fr, s1, wires, _) \<Rightarrow>
          (case main_turn \<lparr>wf_worldTick = fr_worldTick fr, wf_inputs = fr_inputs fr\<rparr> (fr_newAuthenticatedSessions fr + fr_snapshotRequests fr)
                  ap (pr_field (wd_presence (sv_world s1))) of
             None \<Rightarrow> None
           | Some (updates, publishAcks, _, ap', f') \<Rightarrow>
               (case publishWorldUpdates updates publishAcks (sv_runtime s1) of
                  (_, rt2, _) \<Rightarrow>
                    Some (s1\<lparr>sv_runtime := rt2, sv_world := (sv_world s1)\<lparr>wd_presence := (wd_presence (sv_world s1))\<lparr>pr_field := f'\<rparr>\<rparr>\<rparr>,
                          ap', wires))))"

text \<open>What \<open>main\<close> starts the loop with; the alias store and the login service are those the bootstrap made.\<close>

definition server_start :: "int \<Rightarrow> IdentityAliasStore \<Rightarrow> 'p Dispatcher \<Rightarrow> 'p \<Rightarrow> 'p Server" where
  "server_start sock0 store dispatcher p =
     \<lparr>sv_runtime = snd (Runtime_start sock0 True True True True Runtime_new), sv_dispatcher = dispatcher,
      sv_world = \<lparr>wd_registry = SessionRegistry_with_store store, wd_presence = Presence_init, wd_ports = p\<rparr>\<rparr>"

definition with_presence :: "(Presence \<Rightarrow> Presence) \<Rightarrow> 'p Server \<Rightarrow> 'p Server" where
  "with_presence g s = s\<lparr>sv_world := (sv_world s)\<lparr>wd_presence := g (wd_presence (sv_world s))\<rparr>\<rparr>"

text \<open>Between turns other programs use the database, and an operator may set names, spawn settings and the account port.\<close>

inductive server_run :: "'p Server \<Rightarrow> Applier \<Rightarrow> bool" where
  start: "server_run (server_start sock0 store d p) (Applier_new None None)"
| turn: "server_run s ap \<Longrightarrow> server_turn ke s ap = Some (s', ap', wires) \<Longrightarrow> server_run s' ap'"
| others: "server_run s ap \<Longrightarrow> server_run (s\<lparr>sv_world := (sv_world s)\<lparr>wd_ports := p'\<rparr>\<rparr>) ap"
| port: "server_run s ap \<Longrightarrow> server_run (with_presence (usePlayerIdPort port) s) ap"
| spawn: "server_run s ap \<Longrightarrow> spawn_ok settings \<Longrightarrow> server_run (with_presence (useSpawnSettings settings) s) ap"
| rename: "server_run s ap \<Longrightarrow> NUL \<notin> set name \<Longrightarrow> server_run (with_presence (\<lambda>ps. snd (operatorSetPlayerName a name ps)) s) ap"

lemma publish_update_keys: "publish_update bs acks u cs = (cs', n, r) \<Longrightarrow> map fst cs' = map fst cs \<and>
    (list_all (\<lambda>c. ClientSession_isOpen (snd c)) cs \<longrightarrow> list_all (\<lambda>c. ClientSession_isOpen (snd c)) cs')"
  by (induction cs arbitrary: cs' n r) (auto split: if_splits sum.splits prod.splits, meson enqueueFrame_open)

lemma publish_updates_keys: "publish_updates bs acks us cs = (cs', n, r) \<Longrightarrow> map fst cs' = map fst cs \<and>
    (list_all (\<lambda>c. ClientSession_isOpen (snd c)) cs \<longrightarrow> list_all (\<lambda>c. ClientSession_isOpen (snd c)) cs')"
proof (induction us arbitrary: cs n)
  case (Cons u us)
  obtain cs1 m r1 where p: "publish_update bs acks u cs = (cs1, m, r1)" by (metis prod_cases3)
  show ?case
  proof (cases r1)
    case (Inl e)
    then show ?thesis using Cons.prems p publish_update_keys [OF p] by simp
  next
    case (Inr x)
    then obtain m' where "publish_updates bs acks us cs1 = (cs', m', r)" using Cons.prems p by (auto split: prod.splits)
    from Cons.IH [OF this] publish_update_keys [OF p] show ?thesis by simp
  qed
qed simp

lemma publish_inv:
  assumes "publishWorldUpdates us acks (sv_runtime s) = (n, rt', r)" "run_inv s"
  shows "run_inv (s\<lparr>sv_runtime := rt', sv_world := (sv_world s)\<lparr>wd_presence := ps\<rparr>\<rparr>)"
proof (cases "rt_running (sv_runtime s)")
  case True
  obtain cs where p: "publish_updates (rt_lifecycle (sv_runtime s)) acks us (rt_clients (sv_runtime s)) = (cs, n, r)"
    "rt' = (sv_runtime s)\<lparr>rt_clients := cs\<rparr>" using assms(1) True by (auto simp: publishWorldUpdates_def split: prod.splits)
  note k = publish_updates_keys [OF p(1)]
  have d: "dom (map_of cs) = dom (map_of (rt_clients (sv_runtime s)))" "map_wf cs = map_wf (rt_clients (sv_runtime s))"
    using keys_dom [of cs "rt_clients (sv_runtime s)"] k by simp_all
  have wf: "map_wf (rt_clients (sv_runtime s))" using assms(2) by (simp add: run_inv_def server_links_def)
  have "list_all (\<lambda>c. ClientSession_isOpen (snd c)) (rt_clients (sv_runtime s))"
    using assms(2) map_wf_entry [OF wf] unfolding run_inv_def list_all_iff by (metis prod.collapse)
  then have "map_of cs j = Some c \<Longrightarrow> ClientSession_isOpen c" for j c using k map_of_SomeD by (fastforce simp: list_all_iff)
  then show ?thesis using assms(2) d p(2) links_clients by (auto simp: run_inv_def server_links_def ids_ok_def)
qed (use assms in \<open>auto simp: publishWorldUpdates_def run_inv_def server_links_def ids_ok_def\<close>)

lemma wire_input_ok: "wire_input i \<Longrightarrow> input_ok i"
  by (cases "wi_body i") (auto simp: wire_input_def input_ok_def simp del: f32_ok.simps)

lemma applyInputs_field:
  assumes "Applier_applyInputs frame ap f = Some (us, r, ap', f')"
  shows "f' = f \<or> (\<exists>ok rs. Field_processInputs (wf_inputs frame) (wf_worldTick frame) f = Some (ok, rs, f'))"
  using assms by (auto simp: Applier_applyInputs_def Let_def split: list.splits prod.splits sum.splits option.splits bool.splits)

lemma main_turn_presence:
  assumes "main_turn frame n ap (pr_field ps) = Some (us, acks, ok, ap', f')" "presence_reachable ps" "list_all wire_input (wf_inputs frame)"
  shows "presence_reachable (ps\<lparr>pr_field := f'\<rparr>)"
proof -
  obtain us1 r ap1 where "Applier_applyInputs frame ap (pr_field ps) = Some (us1, r, ap1, f')"
    using assms(1) by (auto simp: main_turn_def split: option.splits prod.splits)
  from applyInputs_field [OF this] show ?thesis
  proof
    assume "f' = pr_field ps"
    then show ?thesis using assms(2) by simp
  next
    assume "\<exists>ok rs. Field_processInputs (wf_inputs frame) (wf_worldTick frame) (pr_field ps) = Some (ok, rs, f')"
    moreover have "list_all input_ok (wf_inputs frame)" using assms(3) wire_input_ok by (auto simp: list_all_iff)
    ultimately show ?thesis using presence_reachable.inputs [OF assms(2)] by blast
  qed
qed

lemma server_turn_inv:
  assumes "server_turn ke s ap = Some (s', ap', wires)" "run_inv s" "presence_ok s"
  shows "run_inv s' \<and> presence_ok s'"
proof -
  obtain fr s1 e where f: "Runtime_processFrame ke s [] = Some (fr, s1, wires, e)"
    using assms(1) by (auto simp: server_turn_def split: option.splits prod.splits)
  let ?frame = "\<lparr>wf_worldTick = fr_worldTick fr, wf_inputs = fr_inputs fr\<rparr>" and ?n = "fr_newAuthenticatedSessions fr + fr_snapshotRequests fr"
  let ?ps = "wd_presence (sv_world s1)"
  obtain us acks ok f' where m: "main_turn ?frame ?n ap (pr_field ?ps) = Some (us, acks, ok, ap', f')"
    using assms(1) f by (auto simp: server_turn_def split: option.splits prod.splits)
  obtain n rt2 r where p: "publishWorldUpdates us acks (sv_runtime s1) = (n, rt2, r)" by (metis prod_cases3)
  have s': "s' = s1\<lparr>sv_runtime := rt2, sv_world := (sv_world s1)\<lparr>wd_presence := ?ps\<lparr>pr_field := f'\<rparr>\<rparr>\<rparr>"
    using assms(1) f m p by (simp add: server_turn_def)
  note inv1 = runtime_processFrame_inv [OF f assms(2)]
  have "presence_reachable (?ps\<lparr>pr_field := f'\<rparr>)"
    using main_turn_presence [OF m] processFrame_presence [OF f assms(3)] inv1 by (simp add: presence_ok_def)
  then show ?thesis using publish_inv [OF p] inv1 s' by (simp add: presence_ok_def)
qed

lemma server_start_inv: "run_inv (server_start sock0 store d p) \<and> presence_ok (server_start sock0 store d p)"
proof -
  have "presence_reachable Presence_init" by (rule presence_reachable.init)
  moreover have "rt_clients (snd (Runtime_start sock0 True True True True Runtime_new)) = []"
    "rt_lifecycle (snd (Runtime_start sock0 True True True True Runtime_new)) = []"
    "rt_pendingCommands (snd (Runtime_start sock0 True True True True Runtime_new)) = []"
    "rt_nextConnectionId (snd (Runtime_start sock0 True True True True Runtime_new)) = 1"
    "rt_inputTick (snd (Runtime_start sock0 True True True True Runtime_new)) = WorldInputTick_new WorldInputQueue_init"
    by (simp_all add: Runtime_start_def Runtime_new_def split: prod.splits bool.splits)
  ultimately show ?thesis
    by (simp add: run_inv_def server_links_def links_ok_def ids_ok_def server_start_def presence_ok_def SessionRegistry_with_store_def
        WorldInputTick_new_def WorldInputQueue_init_def)
qed

lemma with_presence_inv: "run_inv s \<Longrightarrow> run_inv (with_presence g s)"
  by (simp add: run_inv_def server_links_def with_presence_def)

lemma server_run_inv: "server_run s ap \<Longrightarrow> run_inv s \<and> presence_ok s"
proof (induction rule: server_run.induct)
  case (turn s ap ke s' ap' wires)
  then show ?case using server_turn_inv by blast
qed (auto simp: server_start_inv with_presence_inv, auto simp: run_inv_def server_links_def presence_ok_def with_presence_def
    intro: presence_reachable.intros)

text \<open>
  Property C4. Between two turns of any run of the server, every active session is bound to exactly one
  connection, and that connection is open: a session never outlives its connection and is never shared.
  Nothing is left pending, and no two connections have the same session.
\<close>

theorem active_sessions_are_connected:
  assumes "server_run s ap"
  shows "rt_pendingCommands (sv_runtime s) = [] \<and>
    (SessionRegistry_isActive (wd_registry (sv_world s)) sid \<longrightarrow>
      (\<exists>!k. map_of (rt_lifecycle (sv_runtime s)) k = Some sid) \<and>
      (\<forall>k. map_of (rt_lifecycle (sv_runtime s)) k = Some sid \<longrightarrow>
        (\<exists>c. clientSession k (sv_runtime s) = Some c \<and> ClientSession_isOpen c)))"
proof -
  have inv: "run_inv s" using server_run_inv [OF assms] by blast
  then have l: "links_ok (rt_clients (sv_runtime s)) (rt_lifecycle (sv_runtime s)) (wd_registry (sv_world s))"
    by (simp add: run_inv_def server_links_def)
  have "\<exists>c. clientSession k (sv_runtime s) = Some c \<and> ClientSession_isOpen c" if "map_of (rt_lifecycle (sv_runtime s)) k = Some sid" for k
    using that links_okD(1) [OF l] inv by (auto simp: run_inv_def clientSession_def dom_def subset_iff)
  moreover have "\<exists>!k. map_of (rt_lifecycle (sv_runtime s)) k = Some sid" if "SessionRegistry_isActive (wd_registry (sv_world s)) sid"
    using links_okD(4,5) [OF l] that by (auto simp: SessionRegistry_isActive_def)
  ultimately show ?thesis using inv by (simp add: run_inv_def)
qed

lemma turn_defined:
  assumes "server_run s ap" and "Runtime_processFrame ke s [] = Some (fr, s1, wires, e)"
  shows "\<exists>s' ap'. server_turn ke s ap = Some (s', ap', wires) \<and> list_all wire_input (fr_inputs fr)"
proof -
  have inv: "run_inv s" "presence_ok s" using server_run_inv [OF assms(1)] by auto
  have wire: "list_all wire_input (fr_inputs fr)" using runtime_processFrame_inv [OF assms(2) inv(1)] by blast
  let ?f = "pr_field (wd_presence (sv_world s1))" and ?frame = "\<lparr>wf_worldTick = fr_worldTick fr, wf_inputs = fr_inputs fr\<rparr>"
  have "presence_reachable (wd_presence (sv_world s1))" using processFrame_presence [OF assms(2) inv(2)] by (simp add: presence_ok_def)
  then have "field_inv ?f" using presence_reachable_inv by (simp add: presence_inv_def)
  moreover have "list_all input_ok (wf_inputs ?frame)" using wire wire_input_ok by (auto simp: list_all_iff)
  ultimately obtain us r ap1 f' where a: "Applier_applyInputs ?frame ap ?f = Some (us, r, ap1, f')" using applyInputs_defined by blast
  then show ?thesis using assms(2) wire by (auto simp: server_turn_def main_turn_def split: prod.splits)
qed

text \<open>
  Property C5. No run of the server reaches undefined behaviour in the world: whenever the network part
  of a turn completes (the login store did not throw), the whole turn completes. The inputs it hands to
  the world are well formed, so the world refuses one only when the moving session has no player.
\<close>

theorem server_turn_completes:
  assumes "server_run s ap" and "Runtime_processFrame ke s [] = Some (fr, s1, wires, e)"
  shows "\<exists>s' ap'. server_turn ke s ap = Some (s', ap', wires) \<and> server_run s' ap' \<and>
    list_all (\<lambda>i. wire_input i \<and> (input_error (pr_field (wd_presence (sv_world s1))) i = None \<or>
      (\<exists>m. wi_body i = MovementInput m \<and> \<not> Field_hasPlayer (pr_field (wd_presence (sv_world s1))) (mi_sessionId m)))) (fr_inputs fr)"
proof -
  let ?f = "pr_field (wd_presence (sv_world s1))"
  obtain s' ap' where t: "server_turn ke s ap = Some (s', ap', wires)" "list_all wire_input (fr_inputs fr)" using turn_defined [OF assms] by blast
  have "wire_input i \<and> (input_error ?f i = None \<or> (\<exists>m. wi_body i = MovementInput m \<and> \<not> Field_hasPlayer ?f (mi_sessionId m)))"
    if "i \<in> set (fr_inputs fr)" for i
    using that t(2) wire_input_error [of i ?f] by (cases "input_error ?f i") (auto simp: list_all_iff)
  then show ?thesis using t(1) server_run.turn [OF assms(1) t(1)] by (auto simp: list_all_iff)
qed

subsection \<open>Whose session a command names\<close>

definition disconnect_command :: "int \<Rightarrow> NetworkCommand" where
  "disconnect_command sid = \<lparr>cmd_version = CURRENT_PROTOCOL_VERSION, cmd_type = Disconnect, cmd_sessionId = sid, cmd_payload = []\<rparr>"

lemma end_binding_runtime:
  "map_of (rt_lifecycle (sv_runtime (end_binding k s))) = (map_of (rt_lifecycle (sv_runtime s)))(k := None) \<and>
   set (sr_activeSessions (wd_registry (sv_world (end_binding k s)))) =
     set (sr_activeSessions (wd_registry (sv_world s))) - (case map_of (rt_lifecycle (sv_runtime s)) k of None \<Rightarrow> {} | Some a \<Rightarrow> {a})"
  by (auto simp: end_binding_def SessionLifecycle_disconnect_def SessionRegistry_logout_def split: option.splits)

lemma answer_disconnect_accepted:
  assumes "answer_disconnect p r s e = (s', e')" "dr_accepted r"
  shows "\<exists>s1. s' = end_binding (pc_connectionId p) s1 \<and> sv_world s1 = sv_world s \<and> rt_lifecycle (sv_runtime s1) = rt_lifecycle (sv_runtime s)"
  using assms by (fastforce simp: answer_disconnect_def put_session_def Let_def split: option.splits prod.splits if_splits)

text \<open>
  Property C36. A client can end the session of another one: a disconnect command is accepted for any
  active session it names, whichever connection sent it. It logs out that session and the sender's own,
  while the victim's connection keeps its binding to the ended session, so that it is refused everything,
  a new login included.
\<close>

theorem disconnect_ends_foreign_session:
  assumes "map_of (rt_lifecycle (sv_runtime s)) k = Some a" and "map_of (rt_lifecycle (sv_runtime s)) j = Some b" and "j \<noteq> k" and "k \<noteq> 0"
    and "0 < b" and "SessionRegistry_isActive (wd_registry (sv_world s)) b"
    and "fst (CommandRateLimiter_allow b Disconnect (dp_rateLimiter (sv_dispatcher s)))"
  shows "\<exists>s' e'. process_command now \<lparr>pc_connectionId = k, pc_command = disconnect_command b\<rparr> s e = Some (s', e') \<and>
    \<not> SessionRegistry_isActive (wd_registry (sv_world s')) a \<and> \<not> SessionRegistry_isActive (wd_registry (sv_world s')) b \<and>
    SessionLifecycle_hasSession (rt_lifecycle (sv_runtime s')) j \<and>
    (cmd_type c = Login \<longrightarrow> run_command now' \<lparr>pc_connectionId = j, pc_command = c\<rparr> s' =
       (Some (dispatch_refused c ''connection already has a session''), s'))"
proof -
  let ?p = "\<lparr>pc_connectionId = k, pc_command = disconnect_command b\<rparr>"
  obtain rl where rl: "CommandRateLimiter_allow b Disconnect (dp_rateLimiter (sv_dispatcher s)) = (True, rl)"
    using assms(7) by (cases "CommandRateLimiter_allow b Disconnect (dp_rateLimiter (sv_dispatcher s))") auto
  have v: "validateCommand (disconnect_command b) = Inr ()" using assms(5) by (simp add: validateCommand_def disconnect_command_def)
  have act: "b \<in> set (sr_activeSessions (wd_registry (sv_world s)))" using assms(6) by (simp add: SessionRegistry_isActive_def)
  have "\<exists>r s1. run_command now ?p s = (Some r, s1) \<and> dr_accepted r \<and> rt_lifecycle (sv_runtime s1) = rt_lifecycle (sv_runtime s) \<and>
      set (sr_activeSessions (wd_registry (sv_world s1))) = set (sr_activeSessions (wd_registry (sv_world s))) - {b}"
    using assms(5,6) act rl v
    by (simp add: run_command_def dispatch_def dispatch_disconnect_def admit_command_def requireActiveSession_def disconnect_command_def
        DisconnectCommandHandler_handle_def SessionRegistry_logout_def dispatch_done_def Let_def)
  then obtain r s1 where r: "run_command now ?p s = (Some r, s1)" "dr_accepted r" "rt_lifecycle (sv_runtime s1) = rt_lifecycle (sv_runtime s)"
    "set (sr_activeSessions (wd_registry (sv_world s1))) = set (sr_activeSessions (wd_registry (sv_world s))) - {b}" by blast
  obtain s' e' where a: "answer_disconnect ?p r s1 e = (s', e')" by force
  obtain s2 where s': "s' = end_binding k s2" "sv_world s2 = sv_world s1" "rt_lifecycle (sv_runtime s2) = rt_lifecycle (sv_runtime s1)"
    using answer_disconnect_accepted [OF a r(2)] by auto
  have "process_command now ?p s e = Some (s', e')"
    using r(1) a assms(4) by (simp add: process_command_def disconnect_command_def)
  moreover have "map_of (rt_lifecycle (sv_runtime s')) j = Some b"
    using end_binding_runtime [of k s2] s' r(3) assms(2,3) by simp
  moreover have "set (sr_activeSessions (wd_registry (sv_world s'))) = set (sr_activeSessions (wd_registry (sv_world s))) - {b} - {a}"
    using end_binding_runtime [of k s2] s' r(3,4) assms(1) by simp
  ultimately show ?thesis by (auto simp: SessionRegistry_isActive_def SessionLifecycle_hasSession_def run_command_def)
qed

subsection \<open>Witnesses\<close>

text \<open>A login service that accepts every challenge, one client that connects and sends a login, and a spawn name.\<close>

definition open_ports :: "nat LoginPorts" where
  "open_ports = \<lparr>po_claim = (\<lambda>k now p. (Some 5, p)), po_create = (\<lambda>u k e p. Some p), po_extend = (\<lambda>k now e p. (True, p)),
     po_isActive = (\<lambda>k now p. True), po_issue = (\<lambda>p. (''key'', p))\<rparr>"

definition login_bytes :: "u8 list" where
  "login_bytes = [0, 1, 0, 1, 0, 0, 0, 0, 0, 0, 0, 0, 0, 0, 0, 1, 107]"

definition first_login :: Kernel where
  "first_login = \<lparr>ke_clock = (\<lambda>_. 0), ke_accepts = (\<lambda>i. if i = 0 then AcceptFd 5 True True else AcceptError EAGAIN),
     ke_recv = (\<lambda>_. RecvBytes login_bytes), ke_send = (\<lambda>_ _ n. SendBytes n)\<rparr>"

definition ada_server :: "nat Server" where
  "ada_server = with_presence (useSpawnSettings (LoginFieldSpawnSettings_default\<lparr>ls_playerName := ''Ada''\<rparr>))
     (server_start 3 [] (Dispatcher_with_login open_ports) 0)"

lemma ada_login:
  "case Runtime_processFrame first_login ada_server [] of
     None \<Rightarrow> False
   | Some (fr, s1, _, _) \<Rightarrow> SessionRegistry_isActive (wd_registry (sv_world s1)) 1 \<and> fr_newAuthenticatedSessions fr = 1"
  by code_simp

lemma ada_run: "server_run ada_server (Applier_new None None)"
  unfolding ada_server_def
  by (rule server_run.spawn [OF server_run.start]) code_simp

theorem server_turn_completes_witness:
  "\<exists>s' ap' wires. server_turn first_login ada_server (Applier_new None None) = Some (s', ap', wires) \<and> server_run s' ap'"
proof -
  obtain fr s1 wires e where f: "Runtime_processFrame first_login ada_server [] = Some (fr, s1, wires, e)"
    using ada_login by (auto split: option.splits)
  from server_turn_completes [OF ada_run f] show ?thesis by blast
qed

lemma turn_registry:
  assumes "server_turn ke s ap = Some (s', ap', wires)" "Runtime_processFrame ke s [] = Some (fr, s1, wires', e)"
  shows "wd_registry (sv_world s') = wd_registry (sv_world s1)"
  using assms by (auto simp: server_turn_def split: option.splits prod.splits)

theorem active_sessions_are_connected_witness:
  "\<exists>s ap. server_run s ap \<and> SessionRegistry_isActive (wd_registry (sv_world (s :: nat Server))) 1 \<and>
     (\<exists>!k. map_of (rt_lifecycle (sv_runtime s)) k = Some 1)"
proof -
  obtain fr s1 wires e where f: "Runtime_processFrame first_login ada_server [] = Some (fr, s1, wires, e)"
    and a: "SessionRegistry_isActive (wd_registry (sv_world s1)) 1" using ada_login by (auto split: option.splits)
  obtain s' ap' where t: "server_turn first_login ada_server (Applier_new None None) = Some (s', ap', wires)"
    using turn_defined [OF ada_run f] by blast
  have run: "server_run s' ap'" using server_run.turn [OF ada_run t] .
  moreover have act: "SessionRegistry_isActive (wd_registry (sv_world s')) 1" using a turn_registry [OF t f] by simp
  ultimately show ?thesis using active_sessions_are_connected [OF run, of 1] by blast
qed

text \<open>The second of two connected clients logs the first one out.\<close>

definition two_sessions :: "nat Server" where
  "two_sessions = \<lparr>sv_runtime = Runtime_new\<lparr>rt_lifecycle := [(1, 1), (2, 2)]\<rparr>, sv_dispatcher = Dispatcher_new,
     sv_world = \<lparr>wd_registry = SessionRegistry_init\<lparr>sr_nextInternalId := 3, sr_activeSessions := [1, 2]\<rparr>, wd_presence = Presence_init, wd_ports = 0\<rparr>\<rparr>"

theorem disconnect_ends_foreign_session_witness:
  "\<exists>s' e'. process_command 0 \<lparr>pc_connectionId = 2, pc_command = disconnect_command 1\<rparr> two_sessions [] = Some (s', e') \<and>
     \<not> SessionRegistry_isActive (wd_registry (sv_world s')) 1"
proof -
  have "map_of (rt_lifecycle (sv_runtime two_sessions)) 2 = Some 2" "map_of (rt_lifecycle (sv_runtime two_sessions)) 1 = Some 1"
    "SessionRegistry_isActive (wd_registry (sv_world two_sessions)) 1"
    "fst (CommandRateLimiter_allow 1 Disconnect (dp_rateLimiter (sv_dispatcher two_sessions)))"
    by (simp_all add: two_sessions_def SessionRegistry_isActive_def) code_simp
  moreover have "(1 :: u64) \<noteq> 2" "(2 :: u64) \<noteq> 0" "0 < (1 :: int)" by simp_all
  ultimately show ?thesis using disconnect_ends_foreign_session [of two_sessions 2 2 1 1 0 "[]"] by blast
qed

end
