(* ===== verification/Bootstrap.thy ===== *)
theory Bootstrap
  imports Commands
begin

text \<open>
  \<open>ServerBootstrap.cpp\<close>, \<open>ServerBootstrapPostgresStub.cpp\<close> and \<open>PostgresChallengeServerBootstrap.cpp\<close>: which command
  dispatcher the server starts with. The environment is an argument; \<open>postgresProductionBootstrap\<close> has a
  weak definition (the stub) and one in the PostgreSQL library, both given here. The wall clock is an
  argument of the calls of the login service, so the port of the clock is only present or not.
\<close>

definition isTruthyEnvValue :: "string option \<Rightarrow> bool" where
  "isTruthyEnvValue val =
     (case val of None \<Rightarrow> False | Some v \<Rightarrow> if v = [] then False else v = ''1'' \<or> v = ''true'')"

definition challengeAuthEnabledFromEnvironment :: "(string \<Rightarrow> string option) \<Rightarrow> bool" where
  "challengeAuthEnabledFromEnvironment getenv = isTruthyEnvValue (getenv ''SEED_CHALLENGE_AUTH'')"

record 'p SessionPorts =
  sp_create :: "int \<Rightarrow> string \<Rightarrow> int \<Rightarrow> 'p \<Rightarrow> 'p option"
  sp_extend :: "string \<Rightarrow> int \<Rightarrow> int \<Rightarrow> 'p \<Rightarrow> bool \<times> 'p"
  sp_isActive :: "string \<Rightarrow> int \<Rightarrow> 'p \<Rightarrow> bool"

record 'p ChallengeProductionTestHook =
  th_challenges :: "(string \<Rightarrow> int \<Rightarrow> 'p \<Rightarrow> int option \<times> 'p) option"
  th_sessions :: "'p SessionPorts option"
  th_keys :: "('p \<Rightarrow> string \<times> 'p) option"
  th_clock :: bool
  th_gameplay :: bool

definition hasCompleteTestHook :: "'p ChallengeProductionTestHook \<Rightarrow> bool" where
  "hasCompleteTestHook hook \<longleftrightarrow> th_challenges hook \<noteq> None \<and> th_sessions hook \<noteq> None \<and> th_keys hook \<noteq> None \<and> th_clock hook \<and> th_gameplay hook"

definition hook_ports :: "'p ChallengeProductionTestHook \<Rightarrow> 'p LoginPorts" where
  "hook_ports hook = (let sessions = the (th_sessions hook) in
     \<lparr>po_claim = the (th_challenges hook), po_create = sp_create sessions, po_extend = sp_extend sessions,
      po_isActive = sp_isActive sessions, po_issue = the (th_keys hook)\<rparr>)"

definition createCommandDispatcher :: "'p LoginPorts option \<Rightarrow> 'p Dispatcher" where
  "createCommandDispatcher challengeAuth =
     (case challengeAuth of None \<Rightarrow> Dispatcher_new | Some auth \<Rightarrow> Dispatcher_with_login auth)"

definition kMissingIdentityDbUrlError :: string where
  "kMissingIdentityDbUrlError = ''seed_server: SEED_CHALLENGE_AUTH requires SEED_IDENTITY_DB_URL''"

definition kPostgresBootstrapUnavailableError :: string where
  "kPostgresBootstrapUnavailableError =
     ''seed_server: SEED_CHALLENGE_AUTH is set but Postgres challenge adapters are not wired yet (LISS-0147)''"

definition identity_db_missing :: "(string \<Rightarrow> string option) \<Rightarrow> bool" where
  "identity_db_missing getenv = (case getenv ''SEED_IDENTITY_DB_URL'' of None \<Rightarrow> True | Some url \<Rightarrow> url = [])"

text \<open>Both definitions of \<open>postgresProductionBootstrap\<close>: \<open>Inl\<close> is a null pointer with its message.\<close>

definition stubProductionBootstrap :: "(string \<Rightarrow> string option) \<Rightarrow> 'p Dispatcher result" where
  "stubProductionBootstrap getenv =
     (if identity_db_missing getenv then Inl kMissingIdentityDbUrlError else Inl kPostgresBootstrapUnavailableError)"

text \<open>The state the PostgreSQL bootstrap owns is its session store with a key issuer: the ports of the login service.\<close>

definition initializeOwnedState :: "(string \<Rightarrow> string option) \<Rightarrow> (nat \<Rightarrow> int) \<Rightarrow> PlayerDb LoginPorts option" where
  "initializeOwnedState getenv rnd = map_option (\<lambda>_. pg_ports rnd) (PgSession_fromEnvironment getenv)"

definition createPostgresChallengeProductionDispatcher :: "(string \<Rightarrow> string option) \<Rightarrow> (nat \<Rightarrow> int) \<Rightarrow> PlayerDb Dispatcher result" where
  "createPostgresChallengeProductionDispatcher getenv rnd =
     (case initializeOwnedState getenv rnd of
        None \<Rightarrow> Inl kMissingIdentityDbUrlError
      | Some auth \<Rightarrow> Inr (createCommandDispatcher (Some auth)))"

definition createProductionCommandDispatcher ::
    "(string \<Rightarrow> string option) \<Rightarrow> 'p ChallengeProductionTestHook option \<Rightarrow> ((string \<Rightarrow> string option) \<Rightarrow> 'p Dispatcher result) \<Rightarrow> 'p Dispatcher result" where
  "createProductionCommandDispatcher getenv testHook postgresProductionBootstrap =
     (if \<not> challengeAuthEnabledFromEnvironment getenv then Inr (createCommandDispatcher None)
      else case testHook of
        Some hook \<Rightarrow>
          if hasCompleteTestHook hook then Inr (createCommandDispatcher (Some (hook_ports hook)))
          else postgresProductionBootstrap getenv
      | None \<Rightarrow> postgresProductionBootstrap getenv)"

text \<open>
  A server without the switch, or built without the PostgreSQL library, never lets anyone in: it either does
  not start or answers every login with \<open>challenge_auth_required\<close>.
\<close>

theorem stub_server_refuses_login:
  assumes "createProductionCommandDispatcher getenv None stubProductionBootstrap = Inr d"
  shows "\<not> challengeAuthEnabledFromEnvironment getenv \<and>
    dispatchLogin now command d q w = (Some (dispatch_refused command ''challenge_auth_required''), d, q, w)"
  using assms by (auto simp: createProductionCommandDispatcher_def stubProductionBootstrap_def createCommandDispatcher_def dispatchLogin_def
      Dispatcher_new_def split: if_splits)

lemma initializeOwnedState_eq: "initializeOwnedState getenv rnd = (if identity_db_missing getenv then None else Some (pg_ports rnd))"
  by (auto simp: initializeOwnedState_def PgSession_fromEnvironment_def hasConnectionString_def identity_db_missing_def Let_def split: option.splits)

text \<open>With the library it starts with the login of the database exactly when both variables are set.\<close>

theorem production_dispatcher:
  "createProductionCommandDispatcher getenv None (\<lambda>env. createPostgresChallengeProductionDispatcher env rnd) =
     (if \<not> challengeAuthEnabledFromEnvironment getenv then Inr Dispatcher_new
      else if identity_db_missing getenv then Inl kMissingIdentityDbUrlError
      else Inr (Dispatcher_with_login (pg_ports rnd)))"
  by (simp add: createProductionCommandDispatcher_def createPostgresChallengeProductionDispatcher_def createCommandDispatcher_def
      initializeOwnedState_eq)

end
