(* ===== verification/Server_Main.thy ===== *)
theory Server_Main
  imports Server_Runs Bootstrap Alias_Database C_Numbers
begin

text \<open>
  \<open>ServerMain.cpp\<close> from its arguments to its exit code: choosing the alias store and the dispatcher, opening the
  listener, turns of the loop until a signal has set the shutdown flag, and stopping. What the process
  gets from outside is the record \<open>ServerHost\<close>: the environment, the libraries it was linked with, the
  content of the alias database, and the results of the calls that open and close the listener. The
  turns before the flag is seen are a list, each with what the kernel returns in it.
\<close>

subsection \<open>The program\<close>

record 'p ServerHost =
  sh_getenv :: "string \<Rightarrow> string option"
  sh_havePqxx :: bool
  sh_aliases :: "string \<Rightarrow> IdentityAliasStore"
  sh_bootstrap :: "(string \<Rightarrow> string option) \<Rightarrow> 'p Dispatcher result"
  sh_ports :: 'p
  sh_socket :: int
  sh_reused :: bool
  sh_bound :: bool
  sh_listening :: bool
  sh_nonblocking :: bool
  sh_closed :: bool

definition selectIdentityAliasStore :: "'p ServerHost \<Rightarrow> IdentityAliasStore option" where
  "selectIdentityAliasStore h =
     (if sh_havePqxx h then map_option (sh_aliases h) (PgAlias_fromEnvironment (sh_getenv h)) else None)"

text \<open>Everything before the loop: an exit code with its message, or the server.\<close>

definition server_boot :: "'p ServerHost \<Rightarrow> string list \<Rightarrow> (int \<times> string + 'p Server) option" where
  "server_boot h argv =
     (case port_argument 40000 argv of
        None \<Rightarrow> None
      | Some port \<Rightarrow>
          let registry = (case selectIdentityAliasStore h of
                            Some store \<Rightarrow> SessionRegistry_with_store store | None \<Rightarrow> SessionRegistry_init) in
          (case createProductionCommandDispatcher (sh_getenv h) None (sh_bootstrap h) of
             Inl bootstrapError \<Rightarrow> Some (Inl (1, bootstrapError))
           | Inr dispatcher \<Rightarrow>
               (case Runtime_start (sh_socket h) (sh_reused h) (sh_bound h) (sh_listening h) (sh_nonblocking h) Runtime_new of
                  (False, _) \<Rightarrow> Some (Inl (1, ''seed_server: failed to start on port '' @ show_nat (unat port)))
                | (True, runtime) \<Rightarrow>
                    Some (Inr \<lparr>sv_runtime = runtime, sv_dispatcher = dispatcher,
                      sv_world = \<lparr>wd_registry = registry, wd_presence = Presence_init, wd_ports = sh_ports h\<rparr>\<rparr>))))"

fun server_loop :: "Kernel list \<Rightarrow> 'p Server \<Rightarrow> Applier \<Rightarrow> ('p Server \<times> Applier) option" where
  "server_loop [] s ap = Some (s, ap)"
| "server_loop (ke # ks) s ap =
     (case server_turn ke s ap of None \<Rightarrow> None | Some (s', ap', _) \<Rightarrow> server_loop ks s' ap')"

definition server_main :: "'p ServerHost \<Rightarrow> string list \<Rightarrow> Kernel list \<Rightarrow> (int \<times> 'p Server option) option" where
  "server_main h argv ks =
     (case server_boot h argv of
        None \<Rightarrow> None
      | Some (Inl (code, _)) \<Rightarrow> Some (code, None)
      | Some (Inr s) \<Rightarrow>
          (case server_loop ks s (Applier_new None None) of
             None \<Rightarrow> None
           | Some (s', _) \<Rightarrow>
               (case Runtime_stop_registry (sh_closed h) (sv_runtime s') (sv_world s') of
                  (_, runtime, world) \<Rightarrow> Some (0, Some (s'\<lparr>sv_runtime := runtime, sv_world := world\<rparr>)))))"

text \<open>The pause at the end of a turn, in nanoseconds.\<close>

definition kWorldTickInterval :: int where "kWorldTickInterval = 50 * 1000000"

definition tick_pause :: "int \<Rightarrow> int" where
  "tick_pause elapsed = (if elapsed < kWorldTickInterval then kWorldTickInterval - elapsed else 0)"

lemma tick_length: "elapsed + tick_pause elapsed = max elapsed kWorldTickInterval"
  by (simp add: tick_pause_def)

subsection \<open>The program is a run of the server\<close>

lemma empty_registry: "SessionRegistry_with_store [] = SessionRegistry_init"
  by (simp add: SessionRegistry_with_store_def SessionRegistry_init_def nextAliasIdFor_def AliasStore_exportRecords_def)

lemma server_boot_start:
  assumes "server_boot h argv = Some (Inr s)"
  obtains store d where "s = server_start (sh_socket h) store d (sh_ports h)" "createProductionCommandDispatcher (sh_getenv h) None (sh_bootstrap h) = Inr d"
    "rt_running (sv_runtime s)"
proof -
  obtain d rt where d: "createProductionCommandDispatcher (sh_getenv h) None (sh_bootstrap h) = Inr d"
    and rt: "Runtime_start (sh_socket h) (sh_reused h) (sh_bound h) (sh_listening h) (sh_nonblocking h) Runtime_new = (True, rt)"
    and s: "s = \<lparr>sv_runtime = rt, sv_dispatcher = d,
      sv_world = \<lparr>wd_registry = (case selectIdentityAliasStore h of Some store \<Rightarrow> SessionRegistry_with_store store | None \<Rightarrow> SessionRegistry_init),
        wd_presence = Presence_init, wd_ports = sh_ports h\<rparr>\<rparr>"
    using assms by (auto simp: server_boot_def Let_def split: option.splits sum.splits prod.splits bool.splits)
  have "rt = snd (Runtime_start (sh_socket h) True True True True Runtime_new) \<and> rt_running rt"
    using rt by (auto simp: Runtime_start_def Connection_open_def Runtime_new_def split: if_splits prod.splits bool.splits)
  then show thesis using that [of "case selectIdentityAliasStore h of Some store \<Rightarrow> store | None \<Rightarrow> []" d] s d
    by (simp add: server_start_def empty_registry split: option.splits)
qed

lemma server_loop_run: "server_loop ks s ap = Some (s', ap') \<Longrightarrow> server_run s ap \<Longrightarrow> server_run s' ap'"
  by (induction ks arbitrary: s ap) (auto split: option.splits intro: server_run.turn)

subsection \<open>Shutdown\<close>

text \<open>
  Property C7. Shutting down leaves nobody logged in: whatever happened in the turns before, when
  the program exits with code 0 the listener is closed, no client and no command is left, no input waits
  for the world, no connection is bound and no session of the registry is active.
\<close>

theorem shutdown_is_clean:
  assumes "server_main h argv ks = Some (code, Some s)"
  shows "code = 0 \<and> sr_activeSessions (wd_registry (sv_world s)) = [] \<and> rt_clients (sv_runtime s) = [] \<and> rt_lifecycle (sv_runtime s) = [] \<and>
    rt_pendingCommands (sv_runtime s) = [] \<and> wq_pending (wt_inputQueue (rt_inputTick (sv_runtime s))) = [] \<and>
    \<not> rt_running (sv_runtime s) \<and> \<not> Connection_isOpen (rt_listener (sv_runtime s))"
proof -
  obtain s0 s1 ap r rt w where boot: "server_boot h argv = Some (Inr s0)" and loop: "server_loop ks s0 (Applier_new None None) = Some (s1, ap)"
    and stop: "Runtime_stop_registry (sh_closed h) (sv_runtime s1) (sv_world s1) = (r, rt, w)"
    and s: "code = 0" "s = s1\<lparr>sv_runtime := rt, sv_world := w\<rparr>"
    using assms by (auto simp: server_main_def split: option.splits sum.splits prod.splits)
  obtain store d where "s0 = server_start (sh_socket h) store d (sh_ports h)" using server_boot_start [OF boot] .
  then have "server_run s1 ap" using server_loop_run [OF loop] server_run.start by metis
  then have "links_ok (rt_clients (sv_runtime s1)) (rt_lifecycle (sv_runtime s1)) (wd_registry (sv_world s1))"
    using server_run_inv by (auto simp: run_inv_def server_links_def)
  then have "set (sr_activeSessions (wd_registry (sv_world s1))) \<subseteq> snd ` set (rt_lifecycle (sv_runtime s1))"
    using links_okD(5) map_of_SomeD by (metis (no_types, opaque_lifting) image_eqI snd_conv subsetI)
  then have "sr_activeSessions (wd_registry w) = []"
    using stop by (auto simp: Runtime_stop_registry_def SessionLifecycle_clear_def split: prod.splits)
      (metis Diff_eq_empty_iff fold_logout set_empty)
  then show ?thesis using stop s
    by (auto simp: Runtime_stop_registry_def stopped_runtime_def WorldInputQueue_clear_def Connection_isOpen_def Connection_closeSocket_def
        split: prod.splits if_splits)
qed

subsection \<open>The server does not stop by itself\<close>

text \<open>A dispatcher whose session store, if it has one, does not throw when a session is created.\<close>

definition store_accepts :: "'p Dispatcher \<Rightarrow> bool" where
  "store_accepts d \<longleftrightarrow> (case dp_auth d of None \<Rightarrow> True | Some ports \<Rightarrow> \<forall>u k e p. po_create ports u k e p \<noteq> None)"

lemma store_accepts_auth: "dp_auth d' = dp_auth d \<Longrightarrow> store_accepts d' = store_accepts d"
  by (simp add: store_accepts_def)

lemma login_handled:
  assumes "\<forall>u k e p. po_create ports u k e p \<noteq> None"
  shows "fst (ChallengeLoginCommandHandler_handle ports c now p sr) \<noteq> None"
proof -
  have created: "po_create ports u k e p = None \<Longrightarrow> False" for u k e p using assms by auto
  show ?thesis
    by (auto simp: ChallengeLoginCommandHandler_handle_def loginWithChallenge_def Let_def dest: created split: sum.splits prod.splits option.splits)
qed

lemma admit_auth: "dp_auth (snd (admit_command n l c sr d)) = dp_auth d"
  by (auto simp: admit_command_def split: sum.splits prod.splits bool.splits)

lemma input_outcome_handled: "\<exists>y. fst (input_outcome c d h w) = Some y" "fst (snd (input_outcome c d h w)) = d"
  by (auto simp: input_outcome_def split: prod.splits sum.splits)

lemma dispatch_handled:
  assumes "store_accepts d"
  shows "fst (dispatch now c d q w) \<noteq> None \<and> dp_auth (fst (snd (dispatch now c d q w))) = dp_auth d"
proof -
  have login: "fst (dispatchLogin now c d q w) \<noteq> None \<and> dp_auth (fst (snd (dispatchLogin now c d q w))) = dp_auth d"
    using assms login_handled [where c = c and now = now and p = "wd_ports w" and sr = "wd_registry w"]
    by (auto simp: dispatchLogin_def store_accepts_def split: option.splits prod.splits) (metis fst_conv option.distinct(1))
  have admitted: "admit_command n l c (wd_registry w) d = (r, d') \<Longrightarrow> dp_auth d' = dp_auth d" for n l r d'
    using admit_auth by (metis snd_conv)
  show ?thesis
    by (cases "cmd_type c")
      (use login in \<open>auto simp: dispatch_def dispatch_chat_def dispatch_combat_def dispatch_move_def dispatch_snapshot_def dispatch_disconnect_def
        Dispatcher_forgetSession_def input_outcome_handled dest: admitted split: prod.splits sum.splits\<close>)
qed

lemma answer_dispatcher:
  "sv_dispatcher (fst (answer_disconnect p r s e)) = sv_dispatcher s" "sv_dispatcher (fst (answer_login p r s e)) = sv_dispatcher s"
  by (auto simp: answer_disconnect_def answer_login_def settle_login_def end_binding_def put_session_def Let_def
      split: option.splits prod.splits sum.splits bool.splits)

lemma process_command_handled:
  assumes "store_accepts (sv_dispatcher s)"
  obtains s' e' where "process_command now p s e = Some (s', e')" "dp_auth (sv_dispatcher s') = dp_auth (sv_dispatcher s)"
proof -
  obtain r s1 where r: "run_command now p s = (Some r, s1)" "dp_auth (sv_dispatcher s1) = dp_auth (sv_dispatcher s)"
    using dispatch_handled [OF assms, of now "pc_command p" "wt_inputQueue (rt_inputTick (sv_runtime s))" "sv_world s"]
    by (cases "run_command now p s") (auto simp: run_command_def Let_def split: if_splits prod.splits)
  then show thesis using that answer_dispatcher [of p r s1 e] by (cases "process_command now p s e") (auto simp: process_command_def split: if_splits)
qed

lemma process_commands_handled:
  assumes "store_accepts (sv_dispatcher s)"
  shows "\<exists>m s' e'. process_commands clock n ps s e = Some (m, s', e') \<and> dp_auth (sv_dispatcher s') = dp_auth (sv_dispatcher s)"
  using assms
proof (induction ps arbitrary: n s e)
  case (Cons p ps)
  obtain s1 e1 where p: "process_command (clock n) p s e = Some (s1, e1)" "dp_auth (sv_dispatcher s1) = dp_auth (sv_dispatcher s)"
    using process_command_handled [OF Cons.prems] .
  then have "store_accepts (sv_dispatcher s1)" using store_accepts_auth Cons.prems by blast
  then show ?case using Cons.IH [of s1 "Suc n" e1] p by auto
qed simp

lemma remove_dispatcher: "dp_auth (sv_dispatcher (snd (removeClosedClients b s))) = dp_auth (sv_dispatcher s)"
proof -
  have "dp_auth (sv_dispatcher (fold (remove_client b) ks s)) = dp_auth (sv_dispatcher s)" for ks
    by (induction ks arbitrary: s)
      (auto simp: remove_client_def end_binding_def Dispatcher_forgetSession_def Let_def split: prod.splits)
  then show ?thesis by (simp add: removeClosedClients_def)
qed

lemma processClientFrames_handled:
  assumes "store_accepts (sv_dispatcher s)"
  obtains m s' e' where "processClientFrames clock net s e = Some (m, s', e')" "dp_auth (sv_dispatcher s') = dp_auth (sv_dispatcher s)"
proof (cases "rt_running (sv_runtime s)")
  case True
  define d where "d = Dispatcher_beginFrame (wt_worldTick (rt_inputTick (sv_runtime s)) + 1) (bindWorldInputQueue (sv_dispatcher s))"
  obtain rt1 e1 where r: "receive_clients net ((sv_runtime s)\<lparr>rt_newAuthenticatedSessions := 0\<rparr>) e = (rt1, e1)" by fastforce
  let ?t = "s\<lparr>sv_runtime := rt1\<lparr>rt_pendingCommands := []\<rparr>, sv_dispatcher := d\<rparr>"
  have d: "dp_auth d = dp_auth (sv_dispatcher s)" by (simp add: d_def Dispatcher_beginFrame_def bindWorldInputQueue_def)
  then have "store_accepts (sv_dispatcher ?t)" using assms store_accepts_auth [OF d] by simp
  then obtain m s' e' where p: "process_commands clock 0 (rt_pendingCommands rt1) ?t e1 = Some (m, s', e')" "dp_auth (sv_dispatcher s') = dp_auth d"
    using process_commands_handled by fastforce
  then show thesis using that [of m "snd (removeClosedClients True s')" e'] True r d remove_dispatcher [of True s']
    by (simp add: processClientFrames_def d_def)
qed (use that in \<open>simp add: processClientFrames_def\<close>)

lemma processFrame_handled:
  assumes "store_accepts (sv_dispatcher s)"
  obtains fr s' wires e where "Runtime_processFrame ke s [] = Some (fr, s', wires, e)" "dp_auth (sv_dispatcher s') = dp_auth (sv_dispatcher s)"
proof (cases "rt_running (sv_runtime s)")
  case True
  obtain n rt1 e1 where a: "accept_loop (ke_accepts ke) MAX_ACCEPTS_PER_FRAME 0 (sv_runtime s) [] = (n, rt1, e1)" by (metis prod_cases3)
  obtain m s2 e2 where c: "processClientFrames (ke_clock ke) (ke_recv ke) (s\<lparr>sv_runtime := rt1\<rparr>) e1 = Some (m, s2, e2)"
    "dp_auth (sv_dispatcher s2) = dp_auth (sv_dispatcher s)"
    using processClientFrames_handled [of "s\<lparr>sv_runtime := rt1\<rparr>"] assms by (metis Server.select_convs(2) Server.surjective Server.update_convs(1))
  obtain clients wires e3 where f: "flush_clients (ke_send ke) (rt_clients (sv_runtime s2)) e2 = (clients, wires, e3)" by (metis prod_cases3)
  define s3 where "s3 = snd (removeClosedClients True (s2\<lparr>sv_runtime := (sv_runtime s2)\<lparr>rt_clients := clients\<rparr>\<rparr>))"
  obtain wf tick where w: "WorldInputTick_advanceFrame (rt_inputTick (sv_runtime s3)) = (wf, tick)" by fastforce
  have "dp_auth (sv_dispatcher s3) = dp_auth (sv_dispatcher s)" using c(2) by (simp add: s3_def remove_dispatcher)
  then have "dp_auth (sv_dispatcher (s3\<lparr>sv_runtime := rt\<rparr>)) = dp_auth (sv_dispatcher s)" for rt by simp
  from that [OF _ this] show thesis using True a c(1) f w by (simp add: Runtime_processFrame_def s3_def Let_def)
qed (use that in \<open>simp add: Runtime_processFrame_def\<close>)

lemma turn_dispatcher:
  "server_turn ke s ap = Some (s', ap', wires) \<Longrightarrow> Runtime_processFrame ke s [] = Some (fr, s1, wires', e) \<Longrightarrow> sv_dispatcher s' = sv_dispatcher s1"
  by (auto simp: server_turn_def split: option.splits prod.splits)

lemma server_loop_returns:
  assumes "server_run s ap" and "store_accepts (sv_dispatcher s)"
  shows "\<exists>s' ap'. server_loop ks s ap = Some (s', ap')"
  using assms
proof (induction ks arbitrary: s ap)
  case (Cons ke ks)
  obtain fr s1 wires e where f: "Runtime_processFrame ke s [] = Some (fr, s1, wires, e)" "dp_auth (sv_dispatcher s1) = dp_auth (sv_dispatcher s)"
    using processFrame_handled [OF Cons.prems(2)] .
  obtain s' ap' where t: "server_turn ke s ap = Some (s', ap', wires)" using turn_defined [OF Cons.prems(1) f(1)] by blast
  have "store_accepts (sv_dispatcher s')" using turn_dispatcher [OF t f(1)] f(2) Cons.prems(2) store_accepts_auth by metis
  then show ?case using Cons.IH [OF server_run.turn [OF Cons.prems(1) t]] t by simp
qed simp

lemma main_exits:
  assumes "server_boot h argv = Some (Inr s)" and "store_accepts (sv_dispatcher s)"
  shows "\<exists>s'. server_main h argv ks = Some (0, Some s')"
proof -
  obtain store d where "s = server_start (sh_socket h) store d (sh_ports h)" using server_boot_start [OF assms(1)] .
  then have "server_run s (Applier_new None None)" using server_run.start by metis
  then obtain s' ap' where "server_loop ks s (Applier_new None None) = Some (s', ap')" using server_loop_returns assms(2) by blast
  then show ?thesis using assms(1) by (auto simp: server_main_def split: prod.splits)
qed


subsection \<open>Witnesses\<close>

lemmas atoi_simps = port_argument_def atoi_def skip_ws_def is_space_def is_dec_digit_def digits_value_def digit_value_def

text \<open>A host on which every call succeeds, with a login service that accepts every challenge.\<close>

definition open_host :: "nat ServerHost" where
  "open_host = \<lparr>sh_getenv = [''SEED_CHALLENGE_AUTH'' \<mapsto> ''1''], sh_havePqxx = False, sh_aliases = (\<lambda>_. []),
     sh_bootstrap = (\<lambda>_. Inr (Dispatcher_with_login open_ports)), sh_ports = 0, sh_socket = 3, sh_reused = True, sh_bound = True,
     sh_listening = True, sh_nonblocking = True, sh_closed = True\<rparr>"

lemma open_host_boots:
  "\<exists>s. server_boot open_host [''seed_server'', ''40001''] = Some (Inr s) \<and> store_accepts (sv_dispatcher s)"
proof -
  have "port_argument 40000 [''seed_server'', ''40001''] = Some 40001" by (simp add: atoi_simps)
  moreover have "store_accepts (Dispatcher_with_login open_ports)"
    by (simp add: store_accepts_def Dispatcher_with_login_def open_ports_def)
  ultimately show ?thesis
    by (simp add: server_boot_def open_host_def createProductionCommandDispatcher_def challengeAuthEnabledFromEnvironment_def isTruthyEnvValue_def
        Runtime_start_def Connection_open_def Runtime_new_def Connection_new_def)
qed


lemma open_host_runs: "\<exists>s. server_main open_host [''seed_server'', ''40001''] [first_login] = Some (0, Some s)"
  using open_host_boots main_exits by metis

theorem shutdown_is_clean_witness:
  "\<exists>s. server_main open_host [''seed_server'', ''40001''] [first_login] = Some (0, Some s) \<and> sr_activeSessions (wd_registry (sv_world s)) = []"
  using open_host_runs shutdown_is_clean by metis

text \<open>\<open>atoi\<close> reads no sign of trouble and the cast wraps: an argument that is no port number is taken as one.\<close>

lemma bad_ports: "port_argument 40000 [''seed_server'', ''game''] = Some 0" "port_argument 40000 [''seed_server'', ''65537''] = Some 1"
  by (simp_all add: atoi_simps)

end
