(* ===== verification/Client_Motion.thy ===== *)
theory Client_Motion
  imports Field
begin

text \<open>
  What the client draws: \<open>LocalMovementPredictor.cpp\<close>, which moves the local player ahead of the server
  and replays the inputs the server has not confirmed, and \<open>RemotePlayerPoseStore.cpp\<close>, which blends the
  other players towards the positions the server reports. The main fact is that the prediction is that
  of the server: as long as both integrate the same inputs, no confirmation ever moves the player.
\<close>

subsection \<open>Poses\<close>

record PredictedPose =
  po_x :: f32
  po_y :: f32
  po_z :: f32

abbreviation pose_at :: "f32 \<Rightarrow> f32 \<Rightarrow> f32 \<Rightarrow> PredictedPose" where
  "pose_at x y z \<equiv> \<lparr>po_x = x, po_y = y, po_z = z\<rparr>"

definition poseDistance :: "PredictedPose \<Rightarrow> PredictedPose \<Rightarrow> f32" where
  "poseDistance a b =
     (let dx = f32_sub (po_x a) (po_x b); dy = f32_sub (po_y a) (po_y b); dz = f32_sub (po_z a) (po_z b) in
      f32_sqrt (f32_add (f32_add (f32_mul dx dx) (f32_mul dy dy)) (f32_mul dz dz)))"

definition PREDICTION_CORRECTION_SECONDS :: f32 where
  "PREDICTION_CORRECTION_SECONDS = f32_lit 15 100"

definition PREDICTION_SNAP_DISTANCE :: f32 where
  "PREDICTION_SNAP_DISTANCE = f32_lit 5 1"

text \<open>\<open>errorDistance > 0.0001f\<close>: an error that is worth a smooth correction.\<close>

definition noticeable :: "f32 \<Rightarrow> bool" where
  "noticeable errorDistance \<longleftrightarrow> f32_lt (f32_lit 1 10000) errorDistance"

text \<open>\<open>correctRender\<close> of both classes: the drawn pose and the seconds the correction takes.\<close>

definition correctRender :: "PredictedPose \<Rightarrow> f32 \<Rightarrow> bool \<Rightarrow> PredictedPose \<Rightarrow> PredictedPose \<times> f32" where
  "correctRender target errorDistance snap drawn =
     (if snap \<or> f32_le PREDICTION_SNAP_DISTANCE errorDistance then (target, f32_zero)
      else if noticeable errorDistance then (drawn, PREDICTION_CORRECTION_SECONDS)
      else (target, f32_zero))"

definition approach :: "PredictedPose \<Rightarrow> PredictedPose \<Rightarrow> f32 \<Rightarrow> PredictedPose" where
  "approach drawn target t =
     pose_at (f32_add (po_x drawn) (f32_mul (f32_sub (po_x target) (po_x drawn)) t))
       (f32_add (po_y drawn) (f32_mul (f32_sub (po_y target) (po_y drawn)) t))
       (f32_add (po_z drawn) (f32_mul (f32_sub (po_z target) (po_z drawn)) t))"

text \<open>The body of both \<open>stepRender\<close> functions: the drawn pose and the seconds left.\<close>

definition step_drawn :: "f32 \<Rightarrow> PredictedPose \<Rightarrow> PredictedPose \<Rightarrow> f32 \<Rightarrow> PredictedPose \<times> f32" where
  "step_drawn dtSeconds target drawn remaining =
     (if f32_le remaining f32_zero then (target, remaining)
      else let t = (if f32_le remaining dtSeconds then f32_lit 1 1 else f32_div dtSeconds remaining);
               next = approach drawn target t; left = f32_sub remaining dtSeconds in
        if f32_le left f32_zero then (target, f32_zero) else (next, left))"

definition clamp_dt :: "f32 \<Rightarrow> f32" where
  "clamp_dt dtSeconds = (if f32_lt dtSeconds f32_zero then f32_zero else dtSeconds)"

subsection \<open>LocalMovementPredictor\<close>

record ClientPredictionMetrics =
  me_lastErrorDistance :: f32
  me_reconcileCount :: u64
  me_averagePendingInputCount :: f32

record Predictor =
  lp_predictedPose :: PredictedPose
  lp_renderedPose :: PredictedPose
  lp_pending :: PendingInputBuffer
  lp_lastAcked :: u64
  lp_worldTick :: u64
  lp_correctionSeconds :: f32
  lp_predictionMetrics :: ClientPredictionMetrics

definition Predictor_reset :: "f32 \<Rightarrow> f32 \<Rightarrow> f32 \<Rightarrow> Predictor" where
  "Predictor_reset x y z = \<lparr>lp_predictedPose = pose_at x y z, lp_renderedPose = pose_at x y z, lp_pending = [],
     lp_lastAcked = 0, lp_worldTick = 0, lp_correctionSeconds = f32_zero,
     lp_predictionMetrics = \<lparr>me_lastErrorDistance = f32_zero, me_reconcileCount = 0, me_averagePendingInputCount = f32_zero\<rparr>\<rparr>"

definition Predictor_new :: Predictor where
  "Predictor_new = \<lparr>lp_predictedPose = pose_at f32_zero f32_zero f32_zero, lp_renderedPose = pose_at f32_zero f32_zero f32_zero,
     lp_pending = [], lp_lastAcked = 0, lp_worldTick = 0, lp_correctionSeconds = f32_zero,
     lp_predictionMetrics = \<lparr>me_lastErrorDistance = f32_zero, me_reconcileCount = 0, me_averagePendingInputCount = f32_zero\<rparr>\<rparr>"

text \<open>One step of the shared integration, on a pose.\<close>

definition integrate_pose :: "PendingMoveInput \<Rightarrow> PredictedPose \<Rightarrow> PredictedPose option" where
  "integrate_pose i p =
     map_option (\<lambda>(x, y, z). pose_at x y z) (integrateMovement (po_x p) (po_y p) (po_z p) (pm_dx i) (pm_dy i) (pm_dz i))"

definition Predictor_predict :: "u64 \<Rightarrow> f32 \<Rightarrow> f32 \<Rightarrow> f32 \<Rightarrow> Predictor \<Rightarrow> Predictor option" where
  "Predictor_predict clientInputSequence dx dy dz lp =
     (let input = \<lparr>pm_clientInputSequence = clientInputSequence, pm_dx = dx, pm_dy = dy, pm_dz = dz\<rparr> in
      case integrate_pose input (lp_predictedPose lp) of
        None \<Rightarrow> None
      | Some next \<Rightarrow>
          (case PendingInputBuffer_push input (lp_pending lp) of
             None \<Rightarrow> None
           | Some pending \<Rightarrow>
               let r = lp_renderedPose lp in
               Some (lp\<lparr>lp_pending := pending, lp_predictedPose := next,
                 lp_renderedPose := pose_at (f32_add (po_x r) dx) (f32_add (po_y r) dy) (f32_add (po_z r) dz)\<rparr>)))"

fun replay :: "PendingMoveInput list \<Rightarrow> PredictedPose \<Rightarrow> PredictedPose" where
  "replay [] p = p"
| "replay (i # rest) p = (case integrate_pose i p of None \<Rightarrow> p | Some q \<Rightarrow> replay rest q)"

definition Predictor_replayUnacked :: "Predictor \<Rightarrow> Predictor" where
  "Predictor_replayUnacked lp =
     lp\<lparr>lp_predictedPose := replay (PendingInputBuffer_unacked (lp_pending lp)) (lp_predictedPose lp)\<rparr>"

definition Predictor_recordReconcile :: "f32 \<Rightarrow> Predictor \<Rightarrow> Predictor" where
  "Predictor_recordReconcile errorDistance lp =
     (let m = lp_predictionMetrics lp; count = me_reconcileCount m + 1; average = me_averagePendingInputCount m;
          pendingCount = f32_of_int (int (length (lp_pending lp))) in
      lp\<lparr>lp_predictionMetrics := \<lparr>me_lastErrorDistance = errorDistance, me_reconcileCount = count,
        me_averagePendingInputCount = f32_add average (f32_div (f32_sub pendingCount average) (f32_of_int (uint count)))\<rparr>\<rparr>)"

definition Predictor_correctRender :: "f32 \<Rightarrow> bool \<Rightarrow> Predictor \<Rightarrow> Predictor" where
  "Predictor_correctRender errorDistance snap lp =
     (case correctRender (lp_predictedPose lp) errorDistance snap (lp_renderedPose lp) of
        (drawn, seconds) \<Rightarrow> lp\<lparr>lp_renderedPose := drawn, lp_correctionSeconds := seconds\<rparr>)"

text \<open>The common first half of \<open>reconcile\<close> and \<open>applySnapshotBaseline\<close>.\<close>

definition rebase :: "PredictedPose \<Rightarrow> u64 \<Rightarrow> u64 \<Rightarrow> Predictor \<Rightarrow> Predictor" where
  "rebase base tick lastProcessed lp =
     (Predictor_replayUnacked (lp\<lparr>lp_pending := PendingInputBuffer_acknowledgeUpTo lastProcessed (lp_pending lp),
        lp_predictedPose := base\<rparr>))\<lparr>lp_lastAcked := lastProcessed, lp_worldTick := tick\<rparr>"

definition Predictor_reconcile :: "PredictedPose \<Rightarrow> u64 \<Rightarrow> u64 \<Rightarrow> Predictor \<Rightarrow> Predictor" where
  "Predictor_reconcile authoritative tick lastProcessed lp =
     (let lp1 = rebase authoritative tick lastProcessed lp;
          errorDistance = poseDistance (lp_renderedPose lp1) (lp_predictedPose lp1) in
      Predictor_correctRender errorDistance False (Predictor_recordReconcile errorDistance lp1))"

definition Predictor_applySnapshotBaseline :: "PredictedPose \<Rightarrow> u64 \<Rightarrow> u64 \<Rightarrow> Predictor \<Rightarrow> Predictor" where
  "Predictor_applySnapshotBaseline base tick lastProcessed lp =
     (let lp1 = rebase base tick lastProcessed lp in
      Predictor_recordReconcile f32_zero (lp1\<lparr>lp_renderedPose := lp_predictedPose lp1, lp_correctionSeconds := f32_zero\<rparr>))"

definition Predictor_stepRender :: "f32 \<Rightarrow> Predictor \<Rightarrow> Predictor" where
  "Predictor_stepRender dtSeconds lp =
     (case step_drawn (clamp_dt dtSeconds) (lp_predictedPose lp) (lp_renderedPose lp) (lp_correctionSeconds lp) of
        (drawn, left) \<Rightarrow> lp\<lparr>lp_renderedPose := drawn, lp_correctionSeconds := left\<rparr>)"

subsection \<open>RemotePlayerPoseStore\<close>

record RemotePlayerPose =
  rp_gameplayId :: int
  rp_sessionId :: int
  rp_name :: string
  rp_authority :: PredictedPose
  rp_rendered :: PredictedPose

record RemoteStore =
  rm_poses :: "(int, RemotePlayerPose) std_map"
  rm_sessionToGameplayId :: "(int, int) std_map"
  rm_correctionSeconds :: "(int, f32) std_map"

definition RemoteStore_new :: RemoteStore where
  "RemoteStore_new = \<lparr>rm_poses = [], rm_sessionToGameplayId = [], rm_correctionSeconds = []\<rparr>"

definition RemoteStore_clear :: "RemoteStore \<Rightarrow> RemoteStore" where
  "RemoteStore_clear st = st\<lparr>rm_poses := [], rm_sessionToGameplayId := [], rm_correctionSeconds := []\<rparr>"

definition is_remote :: "int \<Rightarrow> PlayerPoseSnapshot \<Rightarrow> bool" where
  "is_remote localSessionId p \<longleftrightarrow>
     \<not> pp_sessionId p \<le> 0 \<and> \<not> pp_gameplayId p \<le> 0 \<and> \<not> (localSessionId > 0 \<and> pp_sessionId p = localSessionId)"

definition remote_pose :: "PlayerPoseSnapshot \<Rightarrow> RemotePlayerPose" where
  "remote_pose p = \<lparr>rp_gameplayId = pp_gameplayId p, rp_sessionId = pp_sessionId p, rp_name = pp_name p,
     rp_authority = pose_at (pp_x p) (pp_y p) (pp_z p), rp_rendered = pose_at (pp_x p) (pp_y p) (pp_z p)\<rparr>"

fun collect_remotes :: "int \<Rightarrow> PlayerPoseSnapshot list \<Rightarrow> (int, RemotePlayerPose) std_map \<Rightarrow> (int, int) std_map \<Rightarrow>
    (int, RemotePlayerPose) std_map \<times> (int, int) std_map" where
  "collect_remotes localSessionId [] next nextSessions = (next, nextSessions)"
| "collect_remotes localSessionId (p # ps) next nextSessions =
     (if is_remote localSessionId p
      then collect_remotes localSessionId ps (map_put (pp_gameplayId p) (remote_pose p) next)
             (map_put (pp_sessionId p) (pp_gameplayId p) nextSessions)
      else collect_remotes localSessionId ps next nextSessions)"

definition RemoteStore_replaceFromSnapshot :: "PlayerPoseSnapshot list \<Rightarrow> int \<Rightarrow> RemoteStore \<Rightarrow> RemoteStore" where
  "RemoteStore_replaceFromSnapshot publicPoses localSessionId st =
     (case collect_remotes localSessionId publicPoses [] [] of
        (next, nextSessions) \<Rightarrow> st\<lparr>rm_poses := next, rm_sessionToGameplayId := nextSessions, rm_correctionSeconds := []\<rparr>)"

definition RemoteStore_applyAuthoritative :: "int \<Rightarrow> PredictedPose \<Rightarrow> bool \<Rightarrow> RemoteStore \<Rightarrow> bool \<times> RemoteStore" where
  "RemoteStore_applyAuthoritative sessionId p snapBaseline st =
     (if sessionId \<le> 0 \<or> \<not> f32_isfinite (po_x p) \<or> \<not> f32_isfinite (po_y p) \<or> \<not> f32_isfinite (po_z p) then (False, st)
      else case map_of (rm_sessionToGameplayId st) sessionId of
        None \<Rightarrow> (False, st)
      | Some g \<Rightarrow>
          (case map_of (rm_poses st) g of
             None \<Rightarrow> (False, st)
           | Some r \<Rightarrow>
               (case correctRender p (poseDistance (rp_rendered r) p) snapBaseline (rp_rendered r) of
                  (drawn, seconds) \<Rightarrow>
                    (True, st\<lparr>rm_poses := map_put g (r\<lparr>rp_authority := p, rp_rendered := drawn\<rparr>) (rm_poses st),
                              rm_correctionSeconds := map_put g seconds (rm_correctionSeconds st)\<rparr>))))"

fun step_remotes :: "f32 \<Rightarrow> (int, RemotePlayerPose) std_map \<Rightarrow> (int, f32) std_map \<Rightarrow>
    (int, RemotePlayerPose) std_map \<times> (int, f32) std_map" where
  "step_remotes dt [] corrections = ([], corrections)"
| "step_remotes dt ((g, r) # rest) corrections =
     (let remaining = (case map_of corrections g of None \<Rightarrow> f32_zero | Some c \<Rightarrow> c);
          (drawn, left) = step_drawn dt (rp_authority r) (rp_rendered r) remaining;
          (rest', corrections') = step_remotes dt rest (map_put g left corrections) in
      ((g, r\<lparr>rp_rendered := drawn\<rparr>) # rest', corrections'))"

definition RemoteStore_stepRender :: "f32 \<Rightarrow> RemoteStore \<Rightarrow> RemoteStore" where
  "RemoteStore_stepRender dtSeconds st =
     (case step_remotes (clamp_dt dtSeconds) (rm_poses st) (rm_correctionSeconds st) of
        (poses, corrections) \<Rightarrow> st\<lparr>rm_poses := poses, rm_correctionSeconds := corrections\<rparr>)"

definition RemoteStore_find :: "RemoteStore \<Rightarrow> int \<Rightarrow> RemotePlayerPose option" where
  "RemoteStore_find st gameplayId = map_of (rm_poses st) gameplayId"

definition RemoteStore_count :: "RemoteStore \<Rightarrow> nat" where
  "RemoteStore_count st = length (rm_poses st)"

subsection \<open>Drawing\<close>

lemma f32_sub_self: "f32_sub x x = F_NaN \<or> (\<exists>s. f32_sub x x = F_Fin s 0)"
  by (cases x) (auto simp: f32_sub_def)

lemma f32_add_zeros: "f32_add (F_Fin s 0) (F_Fin t 0) = F_Fin (s \<and> t) 0"
  by (cases s; cases t) simp_all

lemma f32_zero_or_NaN_ops:
  assumes "x = F_NaN \<or> (\<exists>s. x = F_Fin s 0)" and "y = F_NaN \<or> (\<exists>s. y = F_Fin s 0)"
  shows "f32_mul x y = F_NaN \<or> (\<exists>s. f32_mul x y = F_Fin s 0)"
    "f32_add x y = F_NaN \<or> (\<exists>s. f32_add x y = F_Fin s 0)"
  using assms by (auto simp: f32_add_zeros f32_pack_def round_mag_def round_even_def simp del: f32_add.simps(1))

lemma f32_sqrt_zero: "x = F_NaN \<or> (\<exists>s. x = F_Fin s 0) \<Longrightarrow> f32_sqrt x = F_NaN \<or> (\<exists>s. f32_sqrt x = F_Fin s 0)"
  by auto

lemma poseDistance_self: "poseDistance p p = F_NaN \<or> (\<exists>s. poseDistance p p = F_Fin s 0)"
  unfolding poseDistance_def Let_def by (intro f32_sqrt_zero f32_zero_or_NaN_ops f32_sub_self)

lemma snap_distance: "PREDICTION_SNAP_DISTANCE = F_Fin False (5 * f32_unit)"
  unfolding PREDICTION_SNAP_DISTANCE_def by (rule f32_lit_nat) simp

text \<open>An error of zero (or of a pose that is no number) is not corrected: the target is drawn at once.\<close>

lemma correctRender_self: "correctRender p (poseDistance p p) snap p = (p, f32_zero)"
proof -
  have "\<not> noticeable (F_Fin s 0)" for s
    by (simp add: noticeable_def f32_lit_def f32_pack_def Let_def)
  then show ?thesis using poseDistance_self [of p] unfolding correctRender_def
    by (auto simp: snap_distance f32_le_def noticeable_def)
qed

lemma step_drawn_arrived: "step_drawn dt p p f32_zero = (p, f32_zero)"
  by (simp add: step_drawn_def f32_le_def)

text \<open>When the time left is over, the target is drawn.\<close>

lemma step_drawn_arrives:
  assumes "f32_isfinite remaining" and "f32_isfinite dt" and "f32_le remaining dt"
  shows "fst (step_drawn dt target drawn remaining) = target"
proof -
  obtain s m t n where f: "remaining = F_Fin s m" "dt = F_Fin t n" using assms(1,2) by (auto simp: f32_isfinite_iff)
  have "f32_int remaining \<le> f32_int dt" using f32_le_fin [OF assms(1,2)] assms(3) by simp
  then have "f32_le (f32_sub remaining dt) f32_zero"
    by (auto simp: f f32_sub_def f32_le_def f32_pack_def Let_def)
  then show ?thesis by (simp add: step_drawn_def Let_def)
qed

subsection \<open>Prediction\<close>

text \<open>The server's side: all inputs integrated, one after the other.\<close>

fun integrate_all :: "PendingMoveInput list \<Rightarrow> PredictedPose \<Rightarrow> PredictedPose option" where
  "integrate_all [] p = Some p"
| "integrate_all (i # rest) p = (case integrate_pose i p of None \<Rightarrow> None | Some q \<Rightarrow> integrate_all rest q)"

lemma integrate_all_append:
  "integrate_all (xs @ ys) p = (case integrate_all xs p of None \<Rightarrow> None | Some q \<Rightarrow> integrate_all ys q)"
  by (induction xs arbitrary: p) (auto split: option.splits)

lemma replay_integrate: "integrate_all xs p = Some q \<Longrightarrow> replay xs p = q"
  by (induction xs arbitrary: p) (auto split: option.splits)

lemma acknowledge_prefix:
  assumes "list_all (\<lambda>i. pm_clientInputSequence i \<le> n) done" and "list_all (\<lambda>i. n < pm_clientInputSequence i) rest"
  shows "PendingInputBuffer_acknowledgeUpTo n (done @ rest) = rest"
  using assms by (induction "done") (cases rest; auto)+

text \<open>
  Histories of the predictor beside a server that integrates the same inputs. The server is its pose;
  a confirmation says that it has processed the inputs \<open>done\<close> at the front of those pending, up to the
  number \<open>n\<close>, and carries the pose it has reached.
\<close>

inductive mirrored :: "Predictor \<Rightarrow> PredictedPose \<Rightarrow> bool" where
  start: "mirrored (Predictor_reset x y z) (pose_at x y z)"
| predict: "mirrored lp q \<Longrightarrow> Predictor_predict k dx dy dz lp = Some lp' \<Longrightarrow> mirrored lp' q"
| refuse: "mirrored lp q \<Longrightarrow> Predictor_predict k dx dy dz lp = None \<Longrightarrow> mirrored lp q"
| ack: "mirrored lp q \<Longrightarrow> lp_pending lp = done @ rest \<Longrightarrow> integrate_all done q = Some q' \<Longrightarrow>
    list_all (\<lambda>i. pm_clientInputSequence i \<le> n) done \<Longrightarrow> list_all (\<lambda>i. n < pm_clientInputSequence i) rest \<Longrightarrow>
    mirrored (Predictor_reconcile q' tick n lp) q'"
| snapshot: "mirrored lp q \<Longrightarrow> lp_pending lp = done @ rest \<Longrightarrow> integrate_all done q = Some q' \<Longrightarrow>
    list_all (\<lambda>i. pm_clientInputSequence i \<le> n) done \<Longrightarrow> list_all (\<lambda>i. n < pm_clientInputSequence i) rest \<Longrightarrow>
    mirrored (Predictor_applySnapshotBaseline q' tick n lp) q'"
| draw: "mirrored lp q \<Longrightarrow> mirrored (Predictor_stepRender dt lp) q"

definition ahead :: "PredictedPose \<Rightarrow> Predictor \<Rightarrow> bool" where
  "ahead q lp \<longleftrightarrow> integrate_all (lp_pending lp) q = Some (lp_predictedPose lp) \<and> lp_renderedPose lp = lp_predictedPose lp \<and>
     lp_correctionSeconds lp = f32_zero \<and> pending_ok (lp_pending lp)"

lemma integrate_pose_moves:
  "integrate_pose i p = Some q \<Longrightarrow> q = pose_at (f32_add (po_x p) (pm_dx i)) (f32_add (po_y p) (pm_dy i)) (f32_add (po_z p) (pm_dz i))"
  by (auto simp: integrate_pose_def integrateMovement_def Let_def split: if_splits)

lemma ahead_predict:
  assumes "ahead q lp" and "Predictor_predict k dx dy dz lp = Some lp'"
  shows "ahead q lp'"
proof -
  define i where "i = \<lparr>pm_clientInputSequence = k, pm_dx = dx, pm_dy = dy, pm_dz = dz\<rparr>"
  have i: "pm_dx i = dx" "pm_dy i = dy" "pm_dz i = dz" by (simp_all add: i_def)
  obtain p b where p: "integrate_pose i (lp_predictedPose lp) = Some p" and b: "PendingInputBuffer_push i (lp_pending lp) = Some b"
    using assms(2) by (auto simp: Predictor_predict_def Let_def i_def split: option.splits)
  have "b = lp_pending lp @ [i]" using b by (auto simp: PendingInputBuffer_push_def split: if_splits)
  moreover have "pending_ok b" using push_ok [OF _ b] assms(1) by (simp add: ahead_def)
  ultimately show ?thesis using assms p b integrate_pose_moves [OF p]
    by (auto simp: ahead_def Predictor_predict_def Let_def i_def [symmetric] i integrate_all_append)
qed

lemma ahead_rebase:
  assumes "ahead q lp" and "lp_pending lp = done @ rest" and "integrate_all done q = Some q'"
    and "list_all (\<lambda>i. pm_clientInputSequence i \<le> n) done" and "list_all (\<lambda>i. n < pm_clientInputSequence i) rest"
  shows "lp_pending (rebase q' tick n lp) = rest \<and> lp_predictedPose (rebase q' tick n lp) = lp_predictedPose lp \<and>
    lp_renderedPose (rebase q' tick n lp) = lp_predictedPose lp \<and> ahead q' (rebase q' tick n lp)"
proof -
  have r: "integrate_all rest q' = Some (lp_predictedPose lp)" using assms(1-3) by (simp add: ahead_def integrate_all_append)
  have a: "PendingInputBuffer_acknowledgeUpTo n (lp_pending lp) = rest" using acknowledge_prefix [OF assms(4,5)] assms(2) by simp
  have "pending_ok rest" using acknowledge_ok [of "lp_pending lp" n] assms(1) a by (simp add: ahead_def)
  then show ?thesis using assms(1) r a replay_integrate [OF r]
    by (simp add: ahead_def rebase_def Predictor_replayUnacked_def PendingInputBuffer_unacked_def)
qed

lemma recordReconcile_simps [simp]:
  "lp_pending (Predictor_recordReconcile e lp) = lp_pending lp" "lp_predictedPose (Predictor_recordReconcile e lp) = lp_predictedPose lp"
  "lp_renderedPose (Predictor_recordReconcile e lp) = lp_renderedPose lp"
  "lp_correctionSeconds (Predictor_recordReconcile e lp) = lp_correctionSeconds lp"
  by (simp_all add: Predictor_recordReconcile_def Let_def)

lemma mirrored_ahead: "mirrored lp q \<Longrightarrow> ahead q lp"
proof (induction rule: mirrored.induct)
  case (start x y z)
  then show ?case by (simp add: ahead_def Predictor_reset_def pending_ok_def)
next
  case (ack lp q "done" rest q' n tick)
  then show ?case using ahead_rebase [OF ack.IH ack.hyps(2-5), of tick]
    by (auto simp: Predictor_reconcile_def Let_def Predictor_correctRender_def correctRender_self ahead_def)
next
  case (snapshot lp q "done" rest q' n tick)
  then show ?case using ahead_rebase [OF snapshot.IH snapshot.hyps(2-5), of tick]
    by (auto simp: Predictor_applySnapshotBaseline_def Let_def ahead_def)
next
  case (draw lp q dt)
  then show ?case by (simp add: ahead_def Predictor_stepRender_def step_drawn_arrived)
qed (auto intro: ahead_predict)


subsection \<open>Remote players\<close>

lemma map_of_collect:
  assumes "distinct (map pp_gameplayId (filter (is_remote l) ps))" and "distinct (map pp_sessionId (filter (is_remote l) ps))"
  shows "map_of (fst (collect_remotes l ps m n)) g = (case List.find (\<lambda>p. is_remote l p \<and> pp_gameplayId p = g) ps of
      Some p \<Rightarrow> Some (remote_pose p) | None \<Rightarrow> map_of m g) \<and>
    map_of (snd (collect_remotes l ps m n)) s = (case List.find (\<lambda>p. is_remote l p \<and> pp_sessionId p = s) ps of
      Some p \<Rightarrow> Some (pp_gameplayId p) | None \<Rightarrow> map_of n s)"
  using assms
proof (induction ps arbitrary: m n)
  case (Cons p ps)
  have "List.find (\<lambda>q. is_remote l q \<and> pp_gameplayId q = pp_gameplayId p) ps = None"
    "List.find (\<lambda>q. is_remote l q \<and> pp_sessionId q = pp_sessionId p) ps = None" if "is_remote l p"
    using Cons.prems that by (auto simp: find_None_iff image_iff)
  then show ?case using Cons by (auto split: if_splits option.splits)
qed simp

lemma collect_wf: "map_wf m \<Longrightarrow> map_wf (fst (collect_remotes l ps m n))"
  by (induction ps arbitrary: m n) auto

lemma find_unique:
  assumes "p \<in> set ps" and "P p" and "\<And>q. q \<in> set ps \<Longrightarrow> P q \<Longrightarrow> q = p"
  shows "List.find P ps = Some p"
proof -
  obtain q where q: "List.find P ps = Some q" using assms(1,2) by (metis find_None_iff not_None_eq)
  then have "q \<in> set ps" "P q" by (auto simp: find_Some_iff)
  then show ?thesis using q assms(3) by simp
qed

lemma map_of_step:
  "distinct (map fst poses) \<Longrightarrow> map_of (fst (step_remotes dt poses c)) g =
     map_option (\<lambda>r. r\<lparr>rp_rendered := fst (step_drawn dt (rp_authority r) (rp_rendered r)
       (case map_of c g of None \<Rightarrow> f32_zero | Some v \<Rightarrow> v))\<rparr>) (map_of poses g)"
proof (induction poses arbitrary: c)
  case (Cons e poses)
  then show ?case by (cases e) (auto simp: Let_def map_of_eq_None_iff case_prod_beta)
qed simp

lemma correction_seconds: "\<exists>m. PREDICTION_CORRECTION_SECONDS = F_Fin False m"
  using f32_lit_within_one [of 15 100] by (auto simp: PREDICTION_CORRECTION_SECONDS_def f32_within_def f32_lit_def f32_pack_def Let_def split: if_splits)

text \<open>A step longer than a correction draws the target, whatever the correction was.\<close>

lemma correction_over:
  assumes "f32_isfinite dt" and "f32_le PREDICTION_CORRECTION_SECONDS dt"
  shows "fst (step_drawn (clamp_dt dt) target drawn (snd (correctRender p e snap d))) = target"
proof -
  obtain m where c: "PREDICTION_CORRECTION_SECONDS = F_Fin False m" using correction_seconds by blast
  have "f32_isfinite PREDICTION_CORRECTION_SECONDS" unfolding c by simp
  note arrives = step_drawn_arrives [OF this assms]
  have "\<not> f32_lt dt f32_zero" using assms unfolding c by (cases dt) (auto simp: f32_le_def)
  then have "clamp_dt dt = dt" by (simp add: clamp_dt_def)
  moreover have "fst (step_drawn dt target drawn f32_zero) = target" by (simp add: step_drawn_def f32_le_def)
  ultimately show ?thesis using arrives by (simp add: correctRender_def)
qed

text \<open>
  The other players follow the server. After a snapshot (with distinct players and sessions)
  the store holds each of them with its name and position, and never the local player; a reported movement
  of one of them changes the position of that player only, and a drawn frame longer than the correction
  time draws it at the reported position.
\<close>

theorem remote_players_follow_server:
  assumes "distinct (map pp_gameplayId (filter (is_remote l) ps))" and "distinct (map pp_sessionId (filter (is_remote l) ps))"
    and "p \<in> set ps" and "is_remote l p" and "f32_isfinite x" and "f32_isfinite y" and "f32_isfinite z"
    and "st = RemoteStore_replaceFromSnapshot ps l st0"
    and "f32_isfinite dt" and "f32_le PREDICTION_CORRECTION_SECONDS dt"
  shows "RemoteStore_find st (pp_gameplayId p) = Some (remote_pose p) \<and>
    (0 < l \<longrightarrow> RemoteStore_applyAuthoritative l (pose_at x y z) False st = (False, st)) \<and>
    (\<exists>st'. RemoteStore_applyAuthoritative (pp_sessionId p) (pose_at x y z) False st = (True, st') \<and>
       (\<forall>g. g \<noteq> pp_gameplayId p \<longrightarrow> RemoteStore_find st' g = RemoteStore_find st g) \<and>
       RemoteStore_find (RemoteStore_stepRender dt st') (pp_gameplayId p) =
         Some ((remote_pose p)\<lparr>rp_authority := pose_at x y z, rp_rendered := pose_at x y z\<rparr>))"
proof -
  let ?q = "pose_at x y z" and ?g = "pp_gameplayId p" and ?r = "remote_pose p"
  have inj: "q = p" if "q \<in> set ps" "is_remote l q" "pp_gameplayId q = ?g \<or> pp_sessionId q = pp_sessionId p" for q
    using that assms(1-4) by (auto simp: distinct_map inj_on_def)
  have f: "List.find (\<lambda>q. is_remote l q \<and> pp_gameplayId q = ?g) ps = Some p"
    "List.find (\<lambda>q. is_remote l q \<and> pp_sessionId q = pp_sessionId p) ps = Some p"
    using inj assms(3,4) by (auto intro!: find_unique)
  have none: "List.find (\<lambda>q. is_remote l q \<and> pp_sessionId q = l) ps = None" if "0 < l"
    using that by (auto simp: find_None_iff is_remote_def)
  obtain m n where c: "collect_remotes l ps [] [] = (m, n)" by force
  then have st: "st = st0\<lparr>rm_poses := m, rm_sessionToGameplayId := n, rm_correctionSeconds := []\<rparr>"
    using assms(8) by (simp add: RemoteStore_replaceFromSnapshot_def)
  have m: "map_of m ?g = Some ?r" "map_of n (pp_sessionId p) = Some ?g" "0 < l \<Longrightarrow> map_of n l = None"
    using map_of_collect [OF assms(1,2), of "[]" "[]"] f none by (auto simp: c)
  have wf: "distinct (map fst m)" using collect_wf [of "[]" l ps "[]"] map_wf_distinct by (fastforce simp: c)
  obtain d s where r: "correctRender ?q (poseDistance (rp_rendered ?r) ?q) False (rp_rendered ?r) = (d, s)" by force
  let ?st = "st\<lparr>rm_poses := map_put ?g (?r\<lparr>rp_authority := ?q, rp_rendered := d\<rparr>) (rm_poses st),
    rm_correctionSeconds := map_put ?g s (rm_correctionSeconds st)\<rparr>"
  have a: "RemoteStore_applyAuthoritative (pp_sessionId p) ?q False st = (True, ?st)"
    using m assms(4-7) r by (simp add: RemoteStore_applyAuthoritative_def st is_remote_def)
  have "distinct (map fst (map_put ?g (?r\<lparr>rp_authority := ?q, rp_rendered := d\<rparr>) m))"
    using collect_wf [of "[]" l ps "[]"] by (intro map_wf_distinct map_wf_put) (simp add: c)
  then have "RemoteStore_find (RemoteStore_stepRender dt ?st) ?g =
      Some (?r\<lparr>rp_authority := ?q, rp_rendered := fst (step_drawn (clamp_dt dt) ?q d s)\<rparr>)"
    by (simp add: RemoteStore_find_def RemoteStore_stepRender_def st map_of_step case_prod_beta)
  moreover have "fst (step_drawn (clamp_dt dt) ?q d s) = ?q"
    using correction_over [OF assms(9,10), of ?q d ?q "poseDistance (rp_rendered ?r) ?q" False "rp_rendered ?r"] r by simp
  moreover have "RemoteStore_find st ?g = Some ?r" "\<forall>g. g \<noteq> ?g \<longrightarrow> RemoteStore_find ?st g = RemoteStore_find st g"
    using m by (simp_all add: RemoteStore_find_def st)
  moreover have "0 < l \<longrightarrow> RemoteStore_applyAuthoritative l ?q False st = (False, st)"
    using m(3) by (simp add: RemoteStore_applyAuthoritative_def st)
  ultimately show ?thesis using a by metis
qed

subsection \<open>Witnesses\<close>

definition metre :: f32 where
  "metre = F_Fin False f32_unit"

definition one_step :: PendingMoveInput where
  "one_step = \<lparr>pm_clientInputSequence = 1, pm_dx = metre, pm_dy = f32_zero, pm_dz = f32_zero\<rparr>"

abbreviation origin :: PredictedPose where
  "origin \<equiv> pose_at f32_zero f32_zero f32_zero"

abbreviation one_east :: PredictedPose where
  "one_east \<equiv> pose_at metre f32_zero f32_zero"

lemma one_step_integrates: "integrate_pose one_step origin = Some one_east"
  using unit_step by (simp add: integrate_pose_def one_step_def metre_def Let_def integrateMovement_def beyond_world_def MAX_WORLD_value
      world_limit_def f32_pack_def round_mag_def round_even_def)

text \<open>The client takes a step, and the server confirms it.\<close>

definition stepped :: Predictor where
  "stepped = (Predictor_reset f32_zero f32_zero f32_zero)\<lparr>lp_predictedPose := one_east, lp_renderedPose := one_east, lp_pending := [one_step]\<rparr>"

lemma stepped_mirrored: "mirrored stepped origin"
proof (rule mirrored.predict [OF mirrored.start])
  have "f32_add f32_zero metre = metre" using integrate_pose_moves [OF one_step_integrates] by (simp add: one_step_def)
  then show "Predictor_predict 1 metre f32_zero f32_zero (Predictor_reset f32_zero f32_zero f32_zero) = Some stepped"
    using one_step_integrates
    by (simp add: Predictor_predict_def one_step_def stepped_def Predictor_reset_def PendingInputBuffer_push_def
        MAX_PENDING_PREDICTION_INPUTS_def)
qed


definition neighbour :: PlayerPoseSnapshot where
  "neighbour = \<lparr>pp_sessionId = 8, pp_x = f32_zero, pp_y = f32_zero, pp_z = f32_zero, pp_gameplayId = 2, pp_name = ''bob''\<rparr>"

definition myself :: PlayerPoseSnapshot where
  "myself = \<lparr>pp_sessionId = 7, pp_x = f32_zero, pp_y = f32_zero, pp_z = f32_zero, pp_gameplayId = 1, pp_name = ''ada''\<rparr>"

lemma second_long: "f32_le PREDICTION_CORRECTION_SECONDS metre"
proof -
  obtain m where c: "PREDICTION_CORRECTION_SECONDS = F_Fin False m" using correction_seconds by blast
  have "f32_within f32_unit PREDICTION_CORRECTION_SECONDS"
    unfolding PREDICTION_CORRECTION_SECONDS_def by (rule f32_lit_within_one) auto
  then have "m \<le> f32_unit" unfolding c by (simp del: power_numeral)
  then show ?thesis unfolding c metre_def by (auto simp: f32_le_def simp del: power_numeral)
qed

lemma metre_finite: "f32_isfinite metre"
  by (simp add: metre_def)

theorem remote_players_follow_server_witness:
  "RemoteStore_find (RemoteStore_replaceFromSnapshot [myself, neighbour] 7 RemoteStore_new) 2 = Some (remote_pose neighbour) \<and>
   (\<exists>st'. RemoteStore_applyAuthoritative 8 one_east False (RemoteStore_replaceFromSnapshot [myself, neighbour] 7 RemoteStore_new) = (True, st') \<and>
     RemoteStore_find (RemoteStore_stepRender metre st') 2 =
       Some ((remote_pose neighbour)\<lparr>rp_authority := one_east, rp_rendered := one_east\<rparr>))"
proof -
  have "filter (is_remote 7) [myself, neighbour] = [neighbour]" "is_remote 7 neighbour"
    by (simp_all add: is_remote_def myself_def neighbour_def)
  then show ?thesis
    using remote_players_follow_server [of 7 "[myself, neighbour]" neighbour metre f32_zero f32_zero
        "RemoteStore_replaceFromSnapshot [myself, neighbour] 7 RemoteStore_new" RemoteStore_new metre] second_long
    by (auto simp: metre_finite neighbour_def)
qed

end
