(* ===== verification/Client_Snapshot.thy ===== *)
theory Client_Snapshot
  imports Frame_Updates
begin

text \<open>
  \<open>ClientEnvironmentState.cpp\<close> and \<open>ClientWorldSnapshotApplier.cpp\<close>: how the client reads a snapshot. The
  payload is the text that \<open>WorldSnapshotBuilder::formatPayload\<close> writes, with the local fields that
  \<open>attachLocalSnapshotFields\<close> may add. A failing parse leaves the client's state alone, so the model
  returns the message only. The main fact is the round trip: the client reads from a snapshot of the
  server the state of the world, its numbers rounded to the six digits that are printed.
\<close>

subsection \<open>ClientEnvironmentState\<close>

record EnvironmentState =
  ev_fire :: f32
  ev_water :: f32
  ev_earth :: f32
  ev_air :: f32
  ev_hazard :: f32
  ev_worldTick :: u64
  ev_sequence :: u64
  ev_npcs :: "NpcSnapshot list"
  ev_players :: "PlayerPoseSnapshot list"
  ev_hasLocalPlayer :: bool
  ev_localX :: f32
  ev_localY :: f32
  ev_localZ :: f32
  ev_lastProcessedInputSequence :: u64

definition EnvironmentState_init :: EnvironmentState where
  "EnvironmentState_init = \<lparr>ev_fire = f32_zero, ev_water = f32_zero, ev_earth = f32_zero, ev_air = f32_zero, ev_hazard = f32_zero,
     ev_worldTick = 0, ev_sequence = 0, ev_npcs = [], ev_players = [], ev_hasLocalPlayer = False,
     ev_localX = f32_zero, ev_localY = f32_zero, ev_localZ = f32_zero, ev_lastProcessedInputSequence = 0\<rparr>"

subsection \<open>The fields of an entity\<close>

text \<open>
  \<open>parseFloat\<close>, \<open>parseLong\<close>, \<open>parseInt64\<close> and \<open>parseUint64\<close> of this file read as those of
  \<open>ClientInputSequence.cpp\<close> do (\<open>long\<close> has 64 bits).
\<close>

definition snapshot_parseFloat :: "string \<Rightarrow> f32 option" where
  "snapshot_parseFloat text =
     (case read_float text of None \<Rightarrow> None | Some (v, rest) \<Rightarrow> if \<not> at_end rest \<or> \<not> f32_isfinite v then None else Some v)"

definition parseLong :: "string \<Rightarrow> int option" where
  "parseLong text = (case read_int64 text of None \<Rightarrow> None | Some (v, rest) \<Rightarrow> if at_end rest then Some v else None)"

definition snapshot_parseInt64 :: "string \<Rightarrow> int option" where
  "snapshot_parseInt64 text = (case read_int64 text of None \<Rightarrow> None | Some (v, rest) \<Rightarrow> if at_end rest then Some v else None)"

definition snapshot_parseUint64 :: "string \<Rightarrow> u64 option" where
  "snapshot_parseUint64 text =
     (if text = [] \<or> hd text = CHR ''-'' then None
      else case read_uint64 text of None \<Rightarrow> None | Some (v, rest) \<Rightarrow> if at_end rest then Some v else None)"

text \<open>
  The index of a key, read into an \<open>int\<close>. A number that does not fit an \<open>int\<close> fails to read, a number
  that does and is not below 256 fails the test after it, with the same message.
\<close>

definition parse_index :: "string \<Rightarrow> int option" where
  "parse_index text =
     (case read_int64 text of
        None \<Rightarrow> None
      | Some (index, rest) \<Rightarrow> if \<not> at_end rest \<or> index < 0 \<or> index \<ge> 256 then None else Some index)"

text \<open>The index and the field name of the key, after its prefix.\<close>

definition split_key :: "string \<Rightarrow> (string \<times> string) option" where
  "split_key rest =
     (case split_at CHR ''.'' rest of
        None \<Rightarrow> None
      | Some (index, field) \<Rightarrow> if index = [] \<or> field = [] then None else Some (index, field))"

definition NpcSnapshot_zero :: NpcSnapshot where
  "NpcSnapshot_zero = \<lparr>ns_id = 0, ns_type = [], ns_x = f32_zero, ns_y = f32_zero, ns_z = f32_zero, ns_hp = 0, ns_alive = False\<rparr>"

definition PlayerPoseSnapshot_zero :: PlayerPoseSnapshot where
  "PlayerPoseSnapshot_zero = \<lparr>pp_sessionId = 0, pp_x = f32_zero, pp_y = f32_zero, pp_z = f32_zero, pp_gameplayId = 0, pp_name = []\<rparr>"

definition set_player_field :: "string \<Rightarrow> string \<Rightarrow> PlayerPoseSnapshot \<Rightarrow> PlayerPoseSnapshot result" where
  "set_player_field field value player =
     (if field = ''session'' then
        (case snapshot_parseInt64 value of
           Some v \<Rightarrow> if v \<le> 0 then Inl ''snapshot player session is invalid'' else Inr (player\<lparr>pp_sessionId := v\<rparr>)
         | None \<Rightarrow> Inl ''snapshot player session is invalid'')
      else if field = ''x'' \<or> field = ''y'' \<or> field = ''z'' then
        (case snapshot_parseFloat value of
           None \<Rightarrow> Inl ''snapshot player position is invalid''
         | Some v \<Rightarrow> Inr (if field = ''x'' then player\<lparr>pp_x := v\<rparr> else if field = ''y'' then player\<lparr>pp_y := v\<rparr> else player\<lparr>pp_z := v\<rparr>))
      else if field = ''id'' then
        (case snapshot_parseInt64 value of
           Some v \<Rightarrow> if v \<le> 0 then Inl ''snapshot player gameplay id is invalid'' else Inr (player\<lparr>pp_gameplayId := v\<rparr>)
         | None \<Rightarrow> Inl ''snapshot player gameplay id is invalid'')
      else if field = ''name'' then
        (let trimmed = trimPlayerName value in
         if trimmed = [] \<or> CHR '';'' \<in> set trimmed then Inl ''snapshot player name is invalid'' else Inr (player\<lparr>pp_name := trimmed\<rparr>))
      else Inl ''snapshot contains an unknown player field'')"

text \<open>\<open>Inl []\<close> is a failure without a message; \<open>parsePayload\<close> then supplies one.\<close>

definition parsePlayerField :: "string \<Rightarrow> string \<Rightarrow> (int, PlayerPoseSnapshot) std_map \<Rightarrow> (int, PlayerPoseSnapshot) std_map result" where
  "parsePlayerField key value players =
     (if key = ''player.count'' then Inr players
      else if length key < 10 \<or> take 7 key \<noteq> ''player.'' then Inl []
      else case split_key (drop 7 key) of
        None \<Rightarrow> Inl ''snapshot contains an invalid player field''
      | Some (indexText, field) \<Rightarrow>
          (case parse_index indexText of
             None \<Rightarrow> Inl ''snapshot contains an invalid player index''
           | Some index \<Rightarrow>
               (case set_player_field field value
                       (case map_of players index of None \<Rightarrow> PlayerPoseSnapshot_zero | Some p \<Rightarrow> p) of
                  Inl error \<Rightarrow> Inl error
                | Inr player \<Rightarrow> Inr (map_put index player players))))"

definition set_npc_field :: "string \<Rightarrow> string \<Rightarrow> NpcSnapshot \<Rightarrow> NpcSnapshot result" where
  "set_npc_field field value npc =
     (if field = ''id'' then
        (case snapshot_parseInt64 value of None \<Rightarrow> Inl ''snapshot NPC id is invalid'' | Some v \<Rightarrow> Inr (npc\<lparr>ns_id := v\<rparr>))
      else if field = ''type'' then
        (if value = [] \<or> length value > 32 then Inl ''snapshot NPC type is invalid'' else Inr (npc\<lparr>ns_type := value\<rparr>))
      else if field = ''x'' \<or> field = ''y'' \<or> field = ''z'' then
        (case snapshot_parseFloat value of
           None \<Rightarrow> Inl ''snapshot NPC position is invalid''
         | Some v \<Rightarrow> Inr (if field = ''x'' then npc\<lparr>ns_x := v\<rparr> else if field = ''y'' then npc\<lparr>ns_y := v\<rparr> else npc\<lparr>ns_z := v\<rparr>))
      else if field = ''hp'' then
        (case parseLong value of
           Some v \<Rightarrow> if v < 0 then Inl ''snapshot NPC HP is invalid'' else Inr (npc\<lparr>ns_hp := v\<rparr>)
         | None \<Rightarrow> Inl ''snapshot NPC HP is invalid'')
      else if field = ''alive'' then
        (if value \<noteq> ''1'' then Inl ''snapshot NPC alive state is invalid'' else Inr (npc\<lparr>ns_alive := True\<rparr>))
      else Inl ''snapshot contains an unknown NPC field'')"

definition parseNpcField :: "string \<Rightarrow> string \<Rightarrow> (int, NpcSnapshot) std_map \<Rightarrow> (int, NpcSnapshot) std_map result" where
  "parseNpcField key value npcs =
     (if key = ''npc.count'' then Inr npcs
      else if length key < 7 \<or> take 4 key \<noteq> ''npc.'' then Inl []
      else case split_key (drop 4 key) of
        None \<Rightarrow> Inl ''snapshot contains an invalid NPC field''
      | Some (indexText, field) \<Rightarrow>
          (case parse_index indexText of
             None \<Rightarrow> Inl ''snapshot contains an invalid NPC index''
           | Some index \<Rightarrow>
               (case set_npc_field field value (case map_of npcs index of None \<Rightarrow> NpcSnapshot_zero | Some n \<Rightarrow> n) of
                  Inl error \<Rightarrow> Inl error
                | Inr npc \<Rightarrow> Inr (map_put index npc npcs))))"

subsection \<open>parsePayload\<close>

text \<open>The local variables of \<open>parsePayload\<close>; a count is \<open>None\<close> while it is not present.\<close>

record SnapshotParse =
  sp_state :: EnvironmentState
  sp_npcCount :: "int option"
  sp_npcs :: "(int, NpcSnapshot) std_map"
  sp_playerCount :: "int option"
  sp_players :: "(int, PlayerPoseSnapshot) std_map"
  sp_present :: "bool list"
  sp_localPresent :: "bool list"

definition parse_start :: SnapshotParse where
  "parse_start = \<lparr>sp_state = EnvironmentState_init, sp_npcCount = None, sp_npcs = [], sp_playerCount = None, sp_players = [],
     sp_present = [False, False, False, False, False], sp_localPresent = [False, False, False, False]\<rparr>"

definition parse_count :: "string \<Rightarrow> string \<Rightarrow> int option \<Rightarrow> int result" where
  "parse_count message value present =
     (if present \<noteq> None then Inl message
      else case parseLong value of
        None \<Rightarrow> Inl message
      | Some v \<Rightarrow> if v < 0 \<or> v \<ge> 256 then Inl message else Inr v)"

definition named_or :: "string \<Rightarrow> string \<Rightarrow> string" where
  "named_or message error = (if error = [] then message else error)"

definition parse_local :: "string \<Rightarrow> string \<Rightarrow> SnapshotParse \<Rightarrow> SnapshotParse result" where
  "parse_local key value sp =
     (case snapshot_parseFloat value of
        None \<Rightarrow> Inl ''snapshot local position is invalid''
      | Some v \<Rightarrow>
          Inr (if key = ''local.x'' then sp\<lparr>sp_state := (sp_state sp)\<lparr>ev_localX := v\<rparr>, sp_localPresent := (sp_localPresent sp)[0 := True]\<rparr>
            else if key = ''local.y'' then sp\<lparr>sp_state := (sp_state sp)\<lparr>ev_localY := v\<rparr>, sp_localPresent := (sp_localPresent sp)[1 := True]\<rparr>
            else sp\<lparr>sp_state := (sp_state sp)\<lparr>ev_localZ := v\<rparr>, sp_localPresent := (sp_localPresent sp)[2 := True]\<rparr>))"

text \<open>The pointers \<open>values\<close> into the state, by their index in \<open>keys\<close>.\<close>

definition ether_index :: "string \<Rightarrow> nat option" where
  "ether_index key =
     (if key = ''ether.fire'' then Some 0 else if key = ''ether.water'' then Some 1 else if key = ''ether.earth'' then Some 2
      else if key = ''ether.air'' then Some 3 else if key = ''ether.hazard'' then Some 4 else None)"

definition set_value :: "nat \<Rightarrow> f32 \<Rightarrow> EnvironmentState \<Rightarrow> EnvironmentState" where
  "set_value i v ev =
     (if i = 0 then ev\<lparr>ev_fire := v\<rparr> else if i = 1 then ev\<lparr>ev_water := v\<rparr> else if i = 2 then ev\<lparr>ev_earth := v\<rparr>
      else if i = 3 then ev\<lparr>ev_air := v\<rparr> else ev\<lparr>ev_hazard := v\<rparr>)"

definition parse_ether :: "string \<Rightarrow> string \<Rightarrow> SnapshotParse \<Rightarrow> SnapshotParse result" where
  "parse_ether key value sp =
     (let message = ''snapshot payload contains an invalid or duplicate field'' in
      case ether_index key of
        None \<Rightarrow> Inl message
      | Some i \<Rightarrow>
          if sp_present sp ! i then Inl message
          else (case snapshot_parseFloat value of
                  None \<Rightarrow> Inl message
                | Some v \<Rightarrow> Inr (sp\<lparr>sp_state := set_value i v (sp_state sp), sp_present := (sp_present sp)[i := True]\<rparr>)))"

definition parse_pair :: "string \<Rightarrow> string \<Rightarrow> SnapshotParse \<Rightarrow> SnapshotParse result" where
  "parse_pair key value sp =
     (if key = ''npc.count'' then
        (case parse_count ''snapshot NPC count is invalid'' value (sp_npcCount sp) of
           Inl error \<Rightarrow> Inl error | Inr v \<Rightarrow> Inr (sp\<lparr>sp_npcCount := Some v\<rparr>))
      else if take 4 key = ''npc.'' then
        (case parseNpcField key value (sp_npcs sp) of
           Inl error \<Rightarrow> Inl (named_or ''snapshot NPC field is invalid'' error) | Inr npcs \<Rightarrow> Inr (sp\<lparr>sp_npcs := npcs\<rparr>))
      else if key = ''player.count'' then
        (case parse_count ''snapshot player count is invalid'' value (sp_playerCount sp) of
           Inl error \<Rightarrow> Inl error | Inr v \<Rightarrow> Inr (sp\<lparr>sp_playerCount := Some v\<rparr>))
      else if take 7 key = ''player.'' then
        (case parsePlayerField key value (sp_players sp) of
           Inl error \<Rightarrow> Inl (named_or ''snapshot player field is invalid'' error) | Inr players \<Rightarrow> Inr (sp\<lparr>sp_players := players\<rparr>))
      else if key = ''local.x'' \<or> key = ''local.y'' \<or> key = ''local.z'' then parse_local key value sp
      else if key = ''local.lastProcessedInputSequence'' then
        (case snapshot_parseUint64 value of
           None \<Rightarrow> Inl ''snapshot local input sequence is invalid''
         | Some v \<Rightarrow> Inr (sp\<lparr>sp_state := (sp_state sp)\<lparr>ev_lastProcessedInputSequence := v\<rparr>,
                            sp_localPresent := (sp_localPresent sp)[3 := True]\<rparr>))
      else parse_ether key value sp)"

fun parse_fields :: "string list \<Rightarrow> SnapshotParse \<Rightarrow> SnapshotParse result" where
  "parse_fields [] sp = Inr sp"
| "parse_fields (field # rest) sp =
     (case split_at CHR ''='' field of
        None \<Rightarrow> Inl ''snapshot payload contains a field without a value''
      | Some (key, value) \<Rightarrow>
          (case parse_pair key value sp of Inl error \<Rightarrow> Inl error | Inr sp' \<Rightarrow> parse_fields rest sp'))"

text \<open>The two loops that collect the entities in the order of their indices.\<close>

definition npc_incomplete :: "NpcSnapshot \<Rightarrow> bool" where
  "npc_incomplete n \<longleftrightarrow> ns_id n \<le> 0 \<or> ns_type n = [] \<or> \<not> f32_isfinite (ns_x n) \<or> \<not> f32_isfinite (ns_y n) \<or>
     \<not> f32_isfinite (ns_z n) \<or> ns_hp n < 0 \<or> \<not> ns_alive n"

definition pose_incomplete :: "PlayerPoseSnapshot \<Rightarrow> bool" where
  "pose_incomplete p \<longleftrightarrow> pp_sessionId p \<le> 0 \<or> \<not> f32_isfinite (pp_x p) \<or> \<not> f32_isfinite (pp_y p) \<or> \<not> f32_isfinite (pp_z p) \<or>
     isEmptyPlayerName (pp_name p)"

fun collect_entries :: "('a \<Rightarrow> bool) \<Rightarrow> int list \<Rightarrow> (int, 'a) std_map \<Rightarrow> 'a list option" where
  "collect_entries bad [] m = Some []"
| "collect_entries bad (i # is) m =
     (case map_of m i of
        None \<Rightarrow> None
      | Some x \<Rightarrow> if bad x then None else map_option (\<lambda>xs. x # xs) (collect_entries bad is m))"

definition collected :: "('a \<Rightarrow> bool) \<Rightarrow> string \<Rightarrow> string \<Rightarrow> int option \<Rightarrow> (int, 'a) std_map \<Rightarrow> 'a list result" where
  "collected bad mismatch incomplete count m =
     (case count of
        None \<Rightarrow> Inr []
      | Some n \<Rightarrow>
          if int (length m) \<noteq> n then Inl mismatch
          else case collect_entries bad (map int [0 ..< nat n]) m of None \<Rightarrow> Inl incomplete | Some xs \<Rightarrow> Inr xs)"

definition finish_parse :: "SnapshotParse \<Rightarrow> EnvironmentState result" where
  "finish_parse sp =
     (let ev = sp_state sp in
      if False \<in> set (sp_present sp) then Inl ''snapshot payload is missing an environment field''
      else if f32_lt (ev_hazard ev) f32_zero \<or> f32_lt (f32_lit 10 1) (ev_hazard ev) then Inl ''snapshot hazard is outside the supported range''
      else case collected npc_incomplete ''snapshot NPC count does not match fields'' ''snapshot NPC fields are incomplete''
                  (sp_npcCount sp) (sp_npcs sp) of
        Inl error \<Rightarrow> Inl error
      | Inr npcs \<Rightarrow>
          (case collected pose_incomplete ''snapshot player count does not match fields'' ''snapshot player fields are incomplete''
                  (sp_playerCount sp) (sp_players sp) of
             Inl error \<Rightarrow> Inl error
           | Inr players \<Rightarrow>
               let localCount = length (filter id (sp_localPresent sp)) in
               if localCount \<noteq> 0 \<and> localCount \<noteq> 4 then Inl ''snapshot local player fields are incomplete''
               else Inr (ev\<lparr>ev_npcs := npcs, ev_players := players, ev_hasLocalPlayer := localCount = 4\<rparr>)))"

definition parsePayload :: "string \<Rightarrow> EnvironmentState result" where
  "parsePayload payload =
     (case parse_fields (getlines CHR '';'' payload) parse_start of Inl error \<Rightarrow> Inl error | Inr sp \<Rightarrow> finish_parse sp)"

subsection \<open>ClientWorldSnapshotApplier\<close>

text \<open>The applier is its sync controller; it replaces the state of the client when everything succeeds.\<close>

definition applySnapshot :: "WorldUpdate \<Rightarrow> SequenceTracker \<Rightarrow> (SequenceTracker \<times> EnvironmentState) result" where
  "applySnapshot update sync =
     (if wu_kind update \<noteq> Snapshot \<or> wu_eventId update \<noteq> 0 then Inl ''only a zero-event snapshot can replace client state''
      else case validateWorldUpdate update of
        Inl error \<Rightarrow> Inl error
      | Inr _ \<Rightarrow>
          if wu_sequence update = UINT64_MAX then Inl ''snapshot sequence cannot be incremented''
          else case parsePayload (wu_payload update) of
            Inl error \<Rightarrow> Inl error
          | Inr ev \<Rightarrow> Inr (SyncController_confirmSnapshot sync (wu_sequence update),
                             ev\<lparr>ev_worldTick := wu_worldTick update, ev_sequence := wu_sequence update\<rparr>))"

subsection \<open>A payload as key and value pairs\<close>

definition pair_text :: "string \<times> string \<Rightarrow> string" where
  "pair_text p = fst p @ ''='' @ snd p"

definition more_text :: "(string \<times> string) list \<Rightarrow> string" where
  "more_text ps = concat (map (\<lambda>p. CHR '';'' # pair_text p) ps)"

definition good_pair :: "string \<times> string \<Rightarrow> bool" where
  "good_pair p \<longleftrightarrow> CHR '';'' \<notin> set (fst p) \<and> CHR ''='' \<notin> set (fst p) \<and> CHR '';'' \<notin> set (snd p)"

lemma more_text_simps [simp]:
  "more_text [] = []" "more_text (p # ps) = CHR '';'' # pair_text p @ more_text ps" "more_text (ps @ qs) = more_text ps @ more_text qs"
  by (simp_all add: more_text_def)

fun parse_pairs :: "(string \<times> string) list \<Rightarrow> SnapshotParse \<Rightarrow> SnapshotParse result" where
  "parse_pairs [] sp = Inr sp"
| "parse_pairs (p # ps) sp = (case parse_pair (fst p) (snd p) sp of Inl error \<Rightarrow> Inl error | Inr sp' \<Rightarrow> parse_pairs ps sp')"

lemma parse_pairs_append:
  "parse_pairs (ps @ qs) sp = (case parse_pairs ps sp of Inl error \<Rightarrow> Inl error | Inr sp' \<Rightarrow> parse_pairs qs sp')"
  by (induction ps arbitrary: sp) (auto split: sum.splits)

lemma split_pair: "good_pair p \<Longrightarrow> split_at CHR ''='' (pair_text p) = Some p"
  by (cases p) (auto simp: split_at_def pair_text_def good_pair_def takeWhile_append dropWhile_append)

lemma parse_fields_pairs: "list_all good_pair ps \<Longrightarrow> parse_fields (map pair_text ps) sp = parse_pairs ps sp"
  by (induction ps arbitrary: sp) (auto simp: split_pair split: sum.splits prod.splits)

lemma getlines_pairs:
  "good_pair p \<Longrightarrow> list_all good_pair ps \<Longrightarrow> getlines CHR '';'' (pair_text p @ more_text ps) = map pair_text (p # ps)"
proof (induction ps arbitrary: p)
  case Nil
  then show ?case by (simp add: getlines_last pair_text_def good_pair_def)
next
  case (Cons q ps)
  have "CHR '';'' \<notin> set (pair_text p)" using Cons.prems by (simp add: pair_text_def good_pair_def)
  then show ?case using Cons getlines_Cons [of "CHR '';''" "pair_text p"] by simp
qed

lemma parsePayload_pairs:
  "list_all good_pair (p # ps) \<Longrightarrow> parsePayload (pair_text p @ more_text ps) =
     (case parse_pairs (p # ps) parse_start of Inl error \<Rightarrow> Inl error | Inr sp \<Rightarrow> finish_parse sp)"
  using getlines_pairs [of p ps] parse_fields_pairs [of "p # ps" parse_start] by (simp add: parsePayload_def)

subsection \<open>Entities\<close>

definition entry_pairs :: "(nat \<Rightarrow> 'a \<Rightarrow> (string \<times> string) list) \<Rightarrow> nat \<Rightarrow> 'a list \<Rightarrow> (string \<times> string) list" where
  "entry_pairs f i xs = concat (map (\<lambda>(j, x). f j x) (List.enumerate i xs))"

lemma entry_pairs_simps [simp]: "entry_pairs f i [] = []" "entry_pairs f i (x # xs) = f i x @ entry_pairs f (Suc i) xs"
  by (simp_all add: entry_pairs_def)

lemma entries_text_pairs:
  assumes "\<And>i x. txt i x = more_text (f i x)" and "entries_text bad txt i xs = Some t"
  shows "t = more_text (entry_pairs f i xs) \<and> list_all (\<lambda>x. \<not> bad x) xs"
  using assms(2) by (induction xs arbitrary: i t) (auto simp: assms(1) split: if_splits)

definition npc_pairs :: "nat \<Rightarrow> NpcSnapshot \<Rightarrow> (string \<times> string) list" where
  "npc_pairs i n = (let key = (\<lambda>name. ''npc.'' @ show_nat i @ ''.'' @ name) in
     [(key ''id'', show_int (ns_id n)), (key ''type'', ns_type n), (key ''x'', show_float (ns_x n)), (key ''y'', show_float (ns_y n)),
      (key ''z'', show_float (ns_z n)), (key ''hp'', show_int (ns_hp n)), (key ''alive'', ''1'')])"

definition pose_pairs :: "nat \<Rightarrow> PlayerPoseSnapshot \<Rightarrow> (string \<times> string) list" where
  "pose_pairs i p = (let key = (\<lambda>name. ''player.'' @ show_nat i @ ''.'' @ name) in
     [(key ''session'', show_int (pp_sessionId p)), (key ''x'', show_float (pp_x p)), (key ''y'', show_float (pp_y p)),
      (key ''z'', show_float (pp_z p))] @ (if pp_gameplayId p > 0 then [(key ''id'', show_int (pp_gameplayId p))] else []) @
     [(key ''name'', pp_name p)])"

lemma npc_text_pairs: "npc_text i n = more_text (npc_pairs i n)"
  by (simp add: npc_text_def npc_pairs_def pair_text_def Let_def)

lemma pose_text_pairs: "pose_text i p = more_text (pose_pairs i p)"
  by (simp add: pose_text_def pose_pairs_def pair_text_def Let_def)

text \<open>What the client knows of an entity: its numbers to six digits, a player's name trimmed.\<close>

definition npc_six :: "NpcSnapshot \<Rightarrow> NpcSnapshot" where
  "npc_six n = n\<lparr>ns_x := six_digit_value (ns_x n), ns_y := six_digit_value (ns_y n), ns_z := six_digit_value (ns_z n)\<rparr>"

definition pose_six :: "PlayerPoseSnapshot \<Rightarrow> PlayerPoseSnapshot" where
  "pose_six p = p\<lparr>pp_x := six_digit_value (pp_x p), pp_y := six_digit_value (pp_y p), pp_z := six_digit_value (pp_z p),
     pp_gameplayId := max 0 (pp_gameplayId p), pp_name := trimPlayerName (pp_name p)\<rparr>"

text \<open>The entities a snapshot can carry, beyond what \<open>formatPayload\<close> tests itself.\<close>

definition npc_fits :: "NpcSnapshot \<Rightarrow> bool" where
  "npc_fits n \<longleftrightarrow> is_int64 (ns_id n) \<and> is_int64 (ns_hp n) \<and> printable (ns_x n) \<and> printable (ns_y n) \<and> printable (ns_z n) \<and>
     CHR '';'' \<notin> set (ns_type n)"

definition pose_fits :: "PlayerPoseSnapshot \<Rightarrow> bool" where
  "pose_fits p \<longleftrightarrow> is_int64 (pp_sessionId p) \<and> is_int64 (pp_gameplayId p) \<and> printable (pp_x p) \<and> printable (pp_y p) \<and> printable (pp_z p)"

lemma parse_shown:
  "printable x \<Longrightarrow> snapshot_parseFloat (show_float x) = Some (six_digit_value x)"
  "is_int64 i \<Longrightarrow> parseLong (show_int i) = Some i" "is_int64 i \<Longrightarrow> snapshot_parseInt64 (show_int i) = Some i"
  "snapshot_parseUint64 (show_u64 w) = Some w"
  using parse_show_float [of x] parse_show_int64 [of i] parse_show_uint64 [of w]
  by (auto simp: printable_def parseFiniteFloat_def snapshot_parseFloat_def parseInt64_def parseLong_def snapshot_parseInt64_def
      parseUint64_def snapshot_parseUint64_def split: option.splits prod.splits if_splits)

lemma show_nat_chars: "\<not> is_dec_digit c \<Longrightarrow> c \<notin> set (show_nat n)"
  using show_nat_digits [of n] by (auto simp: list_all_iff)

lemma parse_index_show: "i < 256 \<Longrightarrow> parse_index (show_nat i) = Some (int i)"
  using read_show_int64 [of "int i" "[]"] by (simp add: parse_index_def show_int_def is_int64_def)

lemma split_key_show: "name \<noteq> [] \<Longrightarrow> split_key (show_nat i @ CHR ''.'' # name) = Some (show_nat i, name)"
proof -
  have d: "CHR ''.'' \<notin> set (show_nat i)" by (rule show_nat_chars) (simp add: is_dec_digit_def)
  then have "takeWhile (\<lambda>x. x \<noteq> CHR ''.'') (show_nat i @ CHR ''.'' # name) = show_nat i"
    "dropWhile (\<lambda>x. x \<noteq> CHR ''.'') (show_nat i @ CHR ''.'' # name) = CHR ''.'' # name"
    by (auto simp: takeWhile_append dropWhile_append)
  moreover assume "name \<noteq> []"
  ultimately show ?thesis by (simp add: split_key_def split_at_def)
qed

lemma is_dec_digit_letter [simp]: "\<not> is_dec_digit CHR ''c''"
  by (simp add: is_dec_digit_def)

lemma show_nat_not_count: "show_nat i @ r \<noteq> ''count''"
proof
  assume "show_nat i @ r = ''count''"
  then show False using hd_show_nat [of i r] by (metis is_dec_digit_letter list.sel(1))
qed

lemma parse_pair_npc:
  assumes "i < 256" and "name \<noteq> []"
  shows "parse_pair (''npc.'' @ show_nat i @ ''.'' @ name) value sp =
    (case set_npc_field name value (case map_of (sp_npcs sp) (int i) of None \<Rightarrow> NpcSnapshot_zero | Some n \<Rightarrow> n) of
       Inl error \<Rightarrow> Inl (named_or ''snapshot NPC field is invalid'' error)
     | Inr npc \<Rightarrow> Inr (sp\<lparr>sp_npcs := map_put (int i) npc (sp_npcs sp)\<rparr>))"
proof -
  have "\<not> length (''npc.'' @ show_nat i @ ''.'' @ name) < 7" using assms(2) by (cases name; cases "show_nat i") auto
  then show ?thesis using assms show_nat_not_count [of i "''.'' @ name"]
    by (simp add: parse_pair_def parseNpcField_def split_key_show parse_index_show split: sum.splits)
qed

lemma parse_pair_player:
  assumes "i < 256" and "name \<noteq> []"
  shows "parse_pair (''player.'' @ show_nat i @ ''.'' @ name) value sp =
    (case set_player_field name value (case map_of (sp_players sp) (int i) of None \<Rightarrow> PlayerPoseSnapshot_zero | Some n \<Rightarrow> n) of
       Inl error \<Rightarrow> Inl (named_or ''snapshot player field is invalid'' error)
     | Inr p \<Rightarrow> Inr (sp\<lparr>sp_players := map_put (int i) p (sp_players sp)\<rparr>))"
proof -
  have "\<not> length (''player.'' @ show_nat i @ ''.'' @ name) < 10" using assms(2) by (cases name; cases "show_nat i") auto
  then show ?thesis using assms show_nat_not_count [of i "''.'' @ name"]
    by (simp add: parse_pair_def parsePlayerField_def split_key_show parse_index_show split: sum.splits)
qed

lemma map_put_end:
  assumes "\<forall>k' \<in> fst ` set m. k' < k"
  shows "map_put k v m = m @ [(k, v)]" "map_put k v (m @ [(k, w)]) = m @ [(k, v)]" "map_of m k = None"
    "map_of (m @ [(k, w)]) k = Some w"
proof -
  show none: "map_of m k = None" using assms by (force simp: map_of_eq_None_iff)
  show "map_of (m @ [(k, w)]) k = Some w" by (simp add: none map_add_def)
qed (use assms in \<open>induction m; force\<close>)+

lemma parse_npc_pairs:
  assumes "\<forall>k \<in> fst ` set (sp_npcs sp). k < int i" and "i < 256" and "\<not> npc_invalid n" and "npc_fits n"
  shows "parse_pairs (npc_pairs i n) sp = Inr (sp\<lparr>sp_npcs := sp_npcs sp @ [(int i, npc_six n)]\<rparr>)"
  using assms(3,4) map_put_end [OF assms(1)] parse_pair_npc [OF assms(2)]
  by (cases n) (simp add: npc_pairs_def Let_def parse_shown npc_invalid_def npc_fits_def set_npc_field_def npc_six_def
      NpcSnapshot_zero_def del: append.simps)

lemma trimmed_subset: "set (trimPlayerName raw) \<subseteq> set raw"
  unfolding trimPlayerName_eq trimmed_def by (metis set_dropWhileD set_rev subsetI)

lemma trim_name_ok:
  "\<not> isEmptyPlayerName raw \<Longrightarrow> CHR '';'' \<notin> set raw \<Longrightarrow>
     trimPlayerName raw \<noteq> [] \<and> CHR '';'' \<notin> set (trimPlayerName raw) \<and> \<not> isEmptyPlayerName (trimPlayerName raw)"
  using trimmed_subset [of raw] by (auto simp: isEmptyPlayerName_def trimPlayerName_eq trimmed_idem)

lemma parse_pose_pairs:
  assumes "\<forall>k \<in> fst ` set (sp_players sp). k < int i" and "i < 256" and "\<not> pose_invalid p" and "pose_fits p"
  shows "parse_pairs (pose_pairs i p) sp = Inr (sp\<lparr>sp_players := sp_players sp @ [(int i, pose_six p)]\<rparr>)"
  using assms(3,4) map_put_end [OF assms(1)] parse_pair_player [OF assms(2)] trim_name_ok [of "pp_name p"]
  by (cases p; cases "0 < pp_gameplayId p") (simp_all add: pose_pairs_def Let_def parse_shown pose_invalid_def pose_fits_def
      set_player_field_def pose_six_def PlayerPoseSnapshot_zero_def max_def parse_pairs_append del: append.simps)

definition indexed :: "('a \<Rightarrow> 'b) \<Rightarrow> nat \<Rightarrow> 'a list \<Rightarrow> (int, 'b) std_map" where
  "indexed g i xs = map (\<lambda>(j, x). (int j, g x)) (List.enumerate i xs)"

lemma indexed_simps [simp]: "indexed g i [] = []" "indexed g i (x # xs) = (int i, g x) # indexed g (Suc i) xs" "length (indexed g i xs) = length xs"
  by (simp_all add: indexed_def)

lemma parse_npcs:
  assumes "\<forall>k \<in> fst ` set (sp_npcs sp). k < int i" and "i + length ns \<le> 256" and "list_all (\<lambda>n. \<not> npc_invalid n) ns" and "list_all npc_fits ns"
  shows "parse_pairs (entry_pairs npc_pairs i ns) sp = Inr (sp\<lparr>sp_npcs := sp_npcs sp @ indexed npc_six i ns\<rparr>)"
  using assms
proof (induction ns arbitrary: i sp)
  case (Cons n ns)
  have "parse_pairs (npc_pairs i n) sp = Inr (sp\<lparr>sp_npcs := sp_npcs sp @ [(int i, npc_six n)]\<rparr>)"
    using Cons.prems by (intro parse_npc_pairs) auto
  moreover have "\<forall>k \<in> fst ` set (sp_npcs sp). k < int (Suc i)" using Cons.prems(1) by force
  ultimately show ?case using Cons.IH [of "sp\<lparr>sp_npcs := sp_npcs sp @ [(int i, npc_six n)]\<rparr>" "Suc i"] Cons.prems
    by (simp add: parse_pairs_append)
qed simp

lemma parse_poses:
  assumes "\<forall>k \<in> fst ` set (sp_players sp). k < int i" and "i + length ps \<le> 256" and "list_all (\<lambda>p. \<not> pose_invalid p) ps" and "list_all pose_fits ps"
  shows "parse_pairs (entry_pairs pose_pairs i ps) sp = Inr (sp\<lparr>sp_players := sp_players sp @ indexed pose_six i ps\<rparr>)"
  using assms
proof (induction ps arbitrary: i sp)
  case (Cons p ps)
  have "parse_pairs (pose_pairs i p) sp = Inr (sp\<lparr>sp_players := sp_players sp @ [(int i, pose_six p)]\<rparr>)"
    using Cons.prems by (intro parse_pose_pairs) auto
  moreover have "\<forall>k \<in> fst ` set (sp_players sp). k < int (Suc i)" using Cons.prems(1) by force
  ultimately show ?case using Cons.IH [of "sp\<lparr>sp_players := sp_players sp @ [(int i, pose_six p)]\<rparr>" "Suc i"] Cons.prems
    by (simp add: parse_pairs_append)
qed simp

lemma map_of_indexed: "j < length xs \<Longrightarrow> map_of (indexed g i xs) (int (i + j)) = Some (g (xs ! j))"
proof (induction xs arbitrary: i j)
  case (Cons x xs)
  then show ?case using Cons.IH [of "j - 1" "Suc i"] by (cases j) auto
qed simp

lemma collect_entries_from:
  assumes "\<And>j. j < length xs \<Longrightarrow> map_of m (int (i + j)) = Some (xs ! j)" and "list_all (\<lambda>x. \<not> bad x) xs"
  shows "collect_entries bad (map int [i ..< i + length xs]) m = Some xs"
  using assms
proof (induction xs arbitrary: i)
  case (Cons x xs)
  have "map_of m (int i) = Some x" using Cons.prems(1) [of 0] by simp
  moreover have "collect_entries bad (map int [Suc i ..< Suc i + length xs]) m = Some xs"
    using Cons.prems(1) [of "Suc j" for j] Cons.prems(2) by (intro Cons.IH) auto
  ultimately show ?case using Cons.prems(2) by (simp add: upt_conv_Cons del: upt_Suc)
qed simp

lemma collected_indexed:
  assumes "list_all (\<lambda>x. \<not> bad (g x)) xs"
  shows "collected bad e1 e2 (Some (int (length xs))) (indexed g 0 xs) = Inr (map g xs)"
  using collect_entries_from [of "map g xs" "indexed g 0 xs" 0 bad] map_of_indexed [of _ xs g 0] assms
  by (simp add: collected_def list_all_iff)

subsection \<open>The whole payload\<close>

definition ether_pairs :: "EnvironmentEther \<Rightarrow> f32 \<Rightarrow> (string \<times> string) list" where
  "ether_pairs e hazard = [(''ether.fire'', show_float (EnvironmentEther_value e Fire)), (''ether.water'', show_float (EnvironmentEther_value e Water)),
     (''ether.earth'', show_float (EnvironmentEther_value e Earth)), (''ether.air'', show_float (EnvironmentEther_value e Air)),
     (''ether.hazard'', show_float hazard)]"

definition local_pairs :: "MovementAck option \<Rightarrow> (string \<times> string) list" where
  "local_pairs ao = (case ao of None \<Rightarrow> [] | Some a \<Rightarrow>
     [(''local.x'', show_float (ma_x a)), (''local.y'', show_float (ma_y a)), (''local.z'', show_float (ma_z a)),
      (''local.lastProcessedInputSequence'', show_u64 (ma_lastProcessedInputSequence a))])"

definition ether_six :: "EnvironmentEther \<Rightarrow> f32 \<Rightarrow> EnvironmentState \<Rightarrow> EnvironmentState" where
  "ether_six e hazard ev = ev\<lparr>ev_fire := six_digit_value (EnvironmentEther_value e Fire), ev_water := six_digit_value (EnvironmentEther_value e Water),
     ev_earth := six_digit_value (EnvironmentEther_value e Earth), ev_air := six_digit_value (EnvironmentEther_value e Air),
     ev_hazard := six_digit_value hazard\<rparr>"

definition local_six :: "MovementAck option \<Rightarrow> EnvironmentState \<Rightarrow> EnvironmentState" where
  "local_six ao ev = (case ao of None \<Rightarrow> ev | Some a \<Rightarrow> ev\<lparr>ev_localX := six_digit_value (ma_x a), ev_localY := six_digit_value (ma_y a),
     ev_localZ := six_digit_value (ma_z a), ev_lastProcessedInputSequence := ma_lastProcessedInputSequence a, ev_hasLocalPlayer := True\<rparr>)"

text \<open>The state of the client after a snapshot of this world for this session.\<close>

definition client_view :: "EnvironmentEther \<Rightarrow> f32 \<Rightarrow> NpcSnapshot list \<Rightarrow> PlayerPoseSnapshot list \<Rightarrow> MovementAck option \<Rightarrow> EnvironmentState" where
  "client_view e hazard npcs players ao = local_six ao (ether_six e hazard
     (EnvironmentState_init\<lparr>ev_npcs := map npc_six npcs, ev_players := map pose_six players\<rparr>))"

definition world_fits :: "EnvironmentEther \<Rightarrow> f32 \<Rightarrow> NpcSnapshot list \<Rightarrow> PlayerPoseSnapshot list \<Rightarrow> bool" where
  "world_fits e hazard npcs players \<longleftrightarrow> (\<forall>a. printable (EnvironmentEther_value e a)) \<and> printable hazard \<and>
     f32_le f32_zero (six_digit_value hazard) \<and> f32_le (six_digit_value hazard) (f32_lit 10 1) \<and>
     length npcs < 256 \<and> length players < 256 \<and> list_all npc_fits npcs \<and> list_all pose_fits players"

definition ack_fits :: "MovementAck option \<Rightarrow> bool" where
  "ack_fits ao \<longleftrightarrow> (case ao of None \<Rightarrow> True | Some a \<Rightarrow> printable (ma_x a) \<and> printable (ma_y a) \<and> printable (ma_z a))"

lemma parse_ether_pairs:
  assumes "sp_present sp = [False, False, False, False, False]" and "\<forall>a. printable (EnvironmentEther_value e a)" and "printable hazard"
  shows "parse_pairs (ether_pairs e hazard) sp = Inr (sp\<lparr>sp_state := ether_six e hazard (sp_state sp), sp_present := [True, True, True, True, True]\<rparr>)"
  using assms by (simp add: ether_pairs_def parse_pair_def parse_ether_def ether_index_def set_value_def parse_shown ether_six_def)

lemma parse_counts:
  assumes "n < 256"
  shows "sp_npcCount sp = None \<Longrightarrow> parse_pair ''npc.count'' (show_nat n) sp = Inr (sp\<lparr>sp_npcCount := Some (int n)\<rparr>)"
    "sp_playerCount sp = None \<Longrightarrow> parse_pair ''player.count'' (show_nat n) sp = Inr (sp\<lparr>sp_playerCount := Some (int n)\<rparr>)"
  using assms parse_shown(2) [of "int n"] by (simp_all add: parse_pair_def parse_count_def show_int_def is_int64_def)

definition local_flags :: "MovementAck option \<Rightarrow> bool list" where
  "local_flags ao = replicate 4 (ao \<noteq> None)"

lemma parse_local_pairs:
  assumes "sp_localPresent sp = [False, False, False, False]" and "ack_fits ao"
  shows "\<exists>ev. parse_pairs (local_pairs ao) sp = Inr (sp\<lparr>sp_state := ev, sp_localPresent := local_flags ao\<rparr>) \<and>
    ev\<lparr>ev_hasLocalPlayer := ao \<noteq> None\<rparr> = local_six ao ((sp_state sp)\<lparr>ev_hasLocalPlayer := False\<rparr>)"
proof (cases ao)
  case None
  then show ?thesis using assms
    by (intro exI [of _ "sp_state sp"]) (cases sp; simp add: local_pairs_def local_six_def local_flags_def numeral_eq_Suc)
next
  case (Some a)
  then show ?thesis using assms
    by (auto simp: local_pairs_def parse_pair_def parse_local_def parse_shown ack_fits_def local_six_def local_flags_def numeral_eq_Suc)
qed

definition all_pairs :: "EnvironmentEther \<Rightarrow> f32 \<Rightarrow> NpcSnapshot list \<Rightarrow> PlayerPoseSnapshot list \<Rightarrow> MovementAck option \<Rightarrow> (string \<times> string) list" where
  "all_pairs e hazard npcs players ao = ether_pairs e hazard @ [(''npc.count'', show_nat (length npcs))] @ entry_pairs npc_pairs 0 npcs @
     [(''player.count'', show_nat (length players))] @ entry_pairs pose_pairs 0 players @ local_pairs ao"

lemma f32_le_not_lt: "f32_le a b \<Longrightarrow> \<not> f32_lt b a"
  by (cases a; cases b) (auto simp: f32_le_def)

lemma npc_six_complete: "\<not> npc_invalid n \<Longrightarrow> npc_fits n \<Longrightarrow> \<not> npc_incomplete (npc_six n)"
  by (simp add: npc_invalid_def npc_fits_def npc_incomplete_def npc_six_def printable_def)

lemma pose_six_complete: "\<not> pose_invalid p \<Longrightarrow> pose_fits p \<Longrightarrow> \<not> pose_incomplete (pose_six p)"
  using trim_name_ok [of "pp_name p"] by (simp add: pose_invalid_def pose_fits_def pose_incomplete_def pose_six_def printable_def)

lemma parse_all_pairs:
  assumes "world_fits e hazard npcs players" and "ack_fits ao" and "list_all (\<lambda>n. \<not> npc_invalid n) npcs" and "list_all (\<lambda>p. \<not> pose_invalid p) players"
  shows "(case parse_pairs (all_pairs e hazard npcs players ao) parse_start of Inl error \<Rightarrow> Inl error | Inr sp \<Rightarrow> finish_parse sp) =
    Inr (client_view e hazard npcs players ao)"
proof -
  note w = assms(1) [unfolded world_fits_def]
  define sp1 where "sp1 = parse_start\<lparr>sp_state := ether_six e hazard EnvironmentState_init, sp_present := [True, True, True, True, True],
    sp_npcCount := Some (int (length npcs))\<rparr>"
  define sp2 where "sp2 = sp1\<lparr>sp_npcs := indexed npc_six 0 npcs, sp_playerCount := Some (int (length players))\<rparr>"
  define sp3 where "sp3 = sp2\<lparr>sp_players := indexed pose_six 0 players\<rparr>"
  have e: "parse_pairs (ether_pairs e hazard) parse_start =
      Inr (parse_start\<lparr>sp_state := ether_six e hazard EnvironmentState_init, sp_present := [True, True, True, True, True]\<rparr>)"
    using w by (subst parse_ether_pairs) (simp_all add: parse_start_def)
  have n: "parse_pairs (entry_pairs npc_pairs 0 npcs) sp1 = Inr (sp1\<lparr>sp_npcs := indexed npc_six 0 npcs\<rparr>)"
    using w assms(3) by (subst parse_npcs) (simp_all add: sp1_def parse_start_def)
  have p: "parse_pairs (entry_pairs pose_pairs 0 players) sp2 = Inr sp3"
    using w assms(4) by (subst parse_poses) (simp_all add: sp1_def sp2_def sp3_def parse_start_def)
  obtain ev where l: "parse_pairs (local_pairs ao) sp3 = Inr (sp3\<lparr>sp_state := ev, sp_localPresent := local_flags ao\<rparr>)"
    "ev\<lparr>ev_hasLocalPlayer := ao \<noteq> None\<rparr> = local_six ao ((sp_state sp3)\<lparr>ev_hasLocalPlayer := False\<rparr>)"
    using parse_local_pairs [OF _ assms(2), of sp3] by (auto simp: sp1_def sp2_def sp3_def parse_start_def)
  have c: "parse_pair ''npc.count'' (show_nat (length npcs)) (parse_start\<lparr>sp_state := ether_six e hazard EnvironmentState_init,
      sp_present := [True, True, True, True, True]\<rparr>) = Inr sp1"
    "parse_pair ''player.count'' (show_nat (length players)) (sp1\<lparr>sp_npcs := indexed npc_six 0 npcs\<rparr>) = Inr sp2"
    using w by (auto simp: parse_counts sp1_def sp2_def parse_start_def)
  have "parse_pairs (all_pairs e hazard npcs players ao) parse_start = Inr (sp3\<lparr>sp_state := ev, sp_localPresent := local_flags ao\<rparr>)"
    by (simp add: all_pairs_def parse_pairs_append e c n p l(1))
  moreover have "finish_parse (sp3\<lparr>sp_state := ev, sp_localPresent := local_flags ao\<rparr>) = Inr (client_view e hazard npcs players ao)"
  proof -
    have "ev_hazard ev = six_digit_value hazard" using arg_cong [OF l(2), of ev_hazard]
      by (cases ao) (simp_all add: local_six_def ether_six_def sp1_def sp2_def sp3_def)
    then have h: "\<not> f32_lt (ev_hazard ev) f32_zero" "\<not> f32_lt (f32_lit 10 1) (ev_hazard ev)" using w f32_le_not_lt by auto
    have g: "collected npc_incomplete e1 e2 (Some (int (length npcs))) (indexed npc_six 0 npcs) = Inr (map npc_six npcs)"
      "collected pose_incomplete e1 e2 (Some (int (length players))) (indexed pose_six 0 players) = Inr (map pose_six players)" for e1 e2
      using w assms(3,4) by (auto intro!: collected_indexed simp: list_all_iff npc_six_complete pose_six_complete)
    have "ev\<lparr>ev_npcs := map npc_six npcs, ev_players := map pose_six players, ev_hasLocalPlayer := ao \<noteq> None\<rparr> =
        (local_six ao ((sp_state sp3)\<lparr>ev_hasLocalPlayer := False\<rparr>))\<lparr>ev_npcs := map npc_six npcs, ev_players := map pose_six players\<rparr>"
      unfolding l(2) [symmetric] by simp
    also have "\<dots> = client_view e hazard npcs players ao"
      by (cases ao) (simp_all add: client_view_def local_six_def ether_six_def sp1_def sp2_def sp3_def EnvironmentState_init_def)
    finally show ?thesis using h g
      by (cases ao) (simp_all add: finish_parse_def Let_def local_flags_def sp1_def sp2_def sp3_def)
  qed
  ultimately show ?thesis by simp
qed

lemma good_key: "good_pair (''npc.'' @ show_nat i @ ''.'' @ name, value) \<longleftrightarrow> good_pair (name, value)"
  "good_pair (''player.'' @ show_nat i @ ''.'' @ name, value) \<longleftrightarrow> good_pair (name, value)"
  using show_nat_chars [of "CHR '';''" i] show_nat_chars [of "CHR ''=''" i] by (auto simp: good_pair_def is_dec_digit_def)

lemma good_npc_pairs: "\<not> npc_invalid n \<Longrightarrow> npc_fits n \<Longrightarrow> list_all good_pair (npc_pairs i n)"
  unfolding npc_pairs_def Let_def list.pred_inject good_key
  by (simp add: good_pair_def npc_invalid_def npc_fits_def show_float_chars show_int_chars)

lemma good_pose_pairs: "\<not> pose_invalid p \<Longrightarrow> list_all good_pair (pose_pairs i p)"
  unfolding pose_pairs_def Let_def list.pred_inject good_key list_all_append
  by (auto simp: show_nat_chars is_dec_digit_def good_pair_def pose_invalid_def show_float_chars show_int_chars)

lemma good_entry_pairs: "(\<And>i x. x \<in> set xs \<Longrightarrow> list_all good_pair (f i x)) \<Longrightarrow> list_all good_pair (entry_pairs f i xs)"
  by (induction xs arbitrary: i) auto

lemma good_all_pairs:
  assumes "world_fits e hazard npcs players" and "ack_fits ao" and "list_all (\<lambda>n. \<not> npc_invalid n) npcs" and "list_all (\<lambda>p. \<not> pose_invalid p) players"
  shows "list_all good_pair (all_pairs e hazard npcs players ao)"
proof -
  note w = assms(1) [unfolded world_fits_def]
  have "list_all good_pair (ether_pairs e hazard)" using w by (simp add: ether_pairs_def good_pair_def printable_def show_float_chars)
  moreover have "list_all good_pair (local_pairs ao)" using assms(2)
    by (cases ao) (auto simp: local_pairs_def good_pair_def ack_fits_def printable_def show_float_chars show_u64_chars)
  moreover have "list_all good_pair (entry_pairs npc_pairs 0 npcs)" "list_all good_pair (entry_pairs pose_pairs 0 players)"
    using w assms(3,4) by (intro good_entry_pairs good_npc_pairs good_pose_pairs; simp add: list_all_iff)+
  ultimately show ?thesis by (simp add: all_pairs_def good_pair_def show_nat_chars is_dec_digit_def)
qed

lemma formatPayload_pairs:
  assumes "formatPayload e hazard npcs players = Inr payload"
  shows "list_all (\<lambda>n. \<not> npc_invalid n) npcs" "list_all (\<lambda>p. \<not> pose_invalid p) players"
    "payload @ more_text (local_pairs ao) = pair_text (hd (all_pairs e hazard npcs players ao)) @ more_text (tl (all_pairs e hazard npcs players ao))"
proof -
  obtain nt pt where t: "entries_text npc_invalid npc_text 0 npcs = Some nt" "entries_text pose_invalid pose_text 0 players = Some pt"
    using assms by (auto simp: formatPayload_def split: if_splits option.splits)
  note n = entries_text_pairs [OF npc_text_pairs t(1)] and p = entries_text_pairs [OF pose_text_pairs t(2)]
  show "list_all (\<lambda>n. \<not> npc_invalid n) npcs" "list_all (\<lambda>p. \<not> pose_invalid p) players" using n p by blast+
  show "payload @ more_text (local_pairs ao) = pair_text (hd (all_pairs e hazard npcs players ao)) @ more_text (tl (all_pairs e hazard npcs players ao))"
    using assms n p t by (auto simp: formatPayload_def all_pairs_def ether_pairs_def pair_text_def split: if_splits)
qed

lemma parsePayload_format:
  assumes "formatPayload e hazard npcs players = Inr payload" and "world_fits e hazard npcs players" and "ack_fits ao"
  shows "parsePayload (payload @ more_text (local_pairs ao)) = Inr (client_view e hazard npcs players ao)"
proof -
  note f = formatPayload_pairs [OF assms(1)]
  obtain p ps where ps: "all_pairs e hazard npcs players ao = p # ps" by (auto simp: all_pairs_def ether_pairs_def)
  show ?thesis using parsePayload_pairs [of p ps] good_all_pairs [OF assms(2,3) f(1,2)] parse_all_pairs [OF assms(2,3) f(1,2)] f(3) [of ao]
    by (simp add: ps)
qed

text \<open>
  Property C11. A snapshot survives the trip: when the server formats the world, numbers the snapshot and
  copies it for a session, the client of that session accepts it and knows afterwards the ether and the
  hazard, every NPC and every player in order, and its own position and last processed input if the
  server tracks one, with the coordinates rounded to six digits and all ids exact; its tick and sequence
  are those of the snapshot, and its sync controller expects the number after it. (Types of NPCs hold no
  semicolon, the hazard is at most ten, and there are fewer than 256 entities of each kind.)
\<close>

theorem snapshot_reaches_client:
  assumes "formatPayload e hazard npcs players = Inr payload" and "world_fits e hazard npcs players"
    and "appendSnapshot tick payload us b = (us @ [u], b', Inr ())"
    and "copyWorldUpdateForSession u sid acks = Inr v" and "ack_fits (findOwnerAck acks sid)"
  shows "applySnapshot v sync = Inr (SyncController_confirmSnapshot sync (ub_updateSequence b),
    (client_view e hazard npcs players (findOwnerAck acks sid))\<lparr>ev_worldTick := tick, ev_sequence := ub_updateSequence b\<rparr>)"
proof -
  have u: "wu_kind u = Snapshot" "wu_worldTick u = tick" "wu_sequence u = ub_updateSequence b" "wu_eventId u = 0" "wu_payload u = payload"
    "ub_updateSequence b \<noteq> UINT64_MAX" "validateWorldUpdate u = Inr ()"
    using assms(3) by (auto simp: appendSnapshot_def Let_def split: if_splits sum.splits)
  have v: "v = u\<lparr>wu_payload := payload @ more_text (local_pairs (findOwnerAck acks sid))\<rparr> \<and> validateWorldUpdate v = Inr ()"
  proof (cases "findOwnerAck acks sid")
    case None
    then show ?thesis using assms(4) u by (simp add: copyWorldUpdateForSession_def local_pairs_def)
  next
    case (Some a)
    then show ?thesis using assms(4) u
      by (auto simp: copyWorldUpdateForSession_def attachLocalSnapshotFields_def attach_def local_pairs_def pair_text_def Let_def
          split: if_splits sum.splits)
  qed
  then show ?thesis using u parsePayload_format [OF assms(1,2,5)]
    by (cases "validateWorldUpdate v") (simp_all add: applySnapshot_def)
qed

subsection \<open>Witness\<close>

definition lone_player :: PlayerPoseSnapshot where
  "lone_player = \<lparr>pp_sessionId = 7, pp_x = f32_zero, pp_y = f32_zero, pp_z = f32_zero, pp_gameplayId = 1, pp_name = ''ada''\<rparr>"

definition lone_payload :: string where
  "lone_payload = ''ether.fire=0;ether.water=0;ether.earth=0;ether.air=0;ether.hazard=0;npc.count=0;player.count=1;player.0.session=7;player.0.x=0;player.0.y=0;player.0.z=0;player.0.id=1;player.0.name=ada''"

definition lone_snapshot :: WorldUpdate where
  "lone_snapshot = \<lparr>wu_version = CURRENT_PROTOCOL_VERSION, wu_kind = Snapshot, wu_worldTick = 3, wu_sequence = 5, wu_eventId = 0, wu_payload = lone_payload\<rparr>"

lemma lone_format: "formatPayload EnvironmentEther_init f32_zero [] [lone_player] = Inr lone_payload"
  by code_simp

lemma lone_fits: "world_fits EnvironmentEther_init f32_zero [] [lone_player]"
proof -
  have z: "EnvironmentEther_value EnvironmentEther_init a = f32_zero" for a by (cases a) (simp_all add: EnvironmentEther_value_def EnvironmentEther_init_def)
  have p: "printable f32_zero" by (rule printable_Fin) simp
  have s: "six_digit_value f32_zero = f32_zero" using six_digit_whole [of 0 False] by simp
  have "f32_lit 10 1 = F_Fin False (10 * f32_unit)" by (rule f32_lit_nat) simp
  then show ?thesis by (simp add: world_fits_def z p s f32_le_def lone_player_def pose_fits_def is_int64_def)
qed

theorem snapshot_reaches_client_witness:
  "applySnapshot lone_snapshot SequenceTracker_init = Inr (SyncController_confirmSnapshot SequenceTracker_init 5,
     (client_view EnvironmentEther_init f32_zero [] [lone_player] None)\<lparr>ev_worldTick := 3, ev_sequence := 5\<rparr>)"
proof -
  have "appendSnapshot 3 lone_payload [] \<lparr>ub_updateSequence = 5, ub_eventId = 2\<rparr> = ([] @ [lone_snapshot], \<lparr>ub_updateSequence = 6, ub_eventId = 2\<rparr>, Inr ())"
    by code_simp
  moreover have "copyWorldUpdateForSession lone_snapshot 9 [] = Inr lone_snapshot"
    by (simp add: copyWorldUpdateForSession_def lone_snapshot_def findOwnerAck_def)
  ultimately show ?thesis using snapshot_reaches_client [OF lone_format lone_fits, of 3 "[]" "\<lparr>ub_updateSequence = 5, ub_eventId = 2\<rparr>" lone_snapshot _ 9 "[]"]
    by (simp add: findOwnerAck_def ack_fits_def)
qed

end
