(* ===== verification/Client_Receiver.thy ===== *)
theory Client_Receiver
  imports Client_Motion Client_Snapshot
begin

text \<open>
  \<open>ClientHazardEffectQueue.cpp\<close> and \<open>ClientWorldUpdateReceiver.cpp\<close>: the client's end of the update stream.
  Bytes are cut into updates, snapshots replace the state, events pass the sequence check and move the
  local player's prediction, the other players or the hazard queue. A function with an \<open>error\<close>
  out-parameter takes the message it finds there and returns the message it leaves.
\<close>

subsection \<open>ClientHazardEffectQueue\<close>

definition MAX_HAZARD_EFFECTS :: nat where
  "MAX_HAZARD_EFFECTS = 256"

record HazardEffect =
  he_worldTick :: u64
  he_sequence :: u64
  he_eventId :: u64
  he_severity :: f32
  he_instability :: f32

datatype HazardIngestResult = HazardApplied | HazardIgnoredDuplicate | HazardRequestSnapshot | HazardRejected | HazardBackpressure

record HazardQueue =
  hq_effects :: "HazardEffect list"
  hq_sync :: SequenceTracker

definition HazardQueue_new :: HazardQueue where
  "HazardQueue_new = \<lparr>hq_effects = [], hq_sync = SequenceTracker_init\<rparr>"

definition parseFinite :: "string \<Rightarrow> f32 option" where
  "parseFinite text =
     (case read_float text of None \<Rightarrow> None | Some (v, rest) \<Rightarrow> if at_end rest \<and> f32_isfinite v then Some v else None)"

definition parseHazard :: "string \<Rightarrow> (f32 \<times> f32) result" where
  "parseHazard payload =
     (if take 12 payload \<noteq> ''etherHazard='' then Inl ''world update is not an ether hazard event''
      else if take 9 (drop 12 payload) \<noteq> ''severity:'' then Inl ''hazard event is missing severity''
      else let rest = drop 21 payload; bad = Inl ''hazard event contains invalid fields'' in
        case after_first '';instability:'' rest of
          None \<Rightarrow> bad
        | Some after \<Rightarrow>
            if CHR '';'' \<in> set after then bad
            else (case (parseFinite (take (length rest - length after - 13) rest), parseFinite after) of
                    (Some severity, Some instability) \<Rightarrow>
                      if f32_le severity f32_zero \<or> f32_le instability (f32_lit 1 1) then bad else Inr (severity, instability)
                  | _ \<Rightarrow> bad))"

text \<open>The test both \<open>ingest\<close> and \<open>observeEvent\<close> start with: \<open>Inl\<close> is the message of a refusal.\<close>

definition event_guard :: "WorldUpdate \<Rightarrow> string \<Rightarrow> unit result" where
  "event_guard update error =
     (if wu_kind update \<noteq> Event \<or> wu_eventId update = 0 then Inl (named_or ''invalid WorldUpdate Event'' error)
      else case validateWorldUpdate update of Inl e \<Rightarrow> Inl (named_or ''invalid WorldUpdate Event'' e) | Inr _ \<Rightarrow> Inr ())"

definition hazard_of_sync :: "SyncDecision \<Rightarrow> HazardIngestResult" where
  "hazard_of_sync d =
     (case d of IgnoreDuplicate \<Rightarrow> HazardIgnoredDuplicate | SyncRequestSnapshot \<Rightarrow> HazardRequestSnapshot
      | Reject \<Rightarrow> HazardRejected | Apply \<Rightarrow> HazardApplied)"

definition HazardQueue_ingest :: "WorldUpdate \<Rightarrow> string \<Rightarrow> HazardQueue \<Rightarrow> HazardIngestResult \<times> string \<times> HazardQueue" where
  "HazardQueue_ingest update error q =
     (case event_guard update error of
        Inl e \<Rightarrow> (HazardRejected, e, q)
      | Inr _ \<Rightarrow>
          (case parseHazard (wu_payload update) of
             Inl e \<Rightarrow> (HazardRejected, e, q)
           | Inr (severity, instability) \<Rightarrow>
               (case SyncController_receive (hq_sync q) update of
                  (sync, r) \<Rightarrow>
                    let q1 = q\<lparr>hq_sync := sync\<rparr> in
                    if sr_decision r \<noteq> Apply then (hazard_of_sync (sr_decision r), [], q1)
                    else if length (hq_effects q1) \<ge> MAX_HAZARD_EFFECTS then (HazardBackpressure, ''hazard effect queue is full'', q1)
                    else (HazardApplied, [], q1\<lparr>hq_effects := hq_effects q1 @
                      [\<lparr>he_worldTick = wu_worldTick update, he_sequence = wu_sequence update, he_eventId = wu_eventId update,
                        he_severity = severity, he_instability = instability\<rparr>]\<rparr>))))"

definition HazardQueue_observeEvent :: "WorldUpdate \<Rightarrow> string \<Rightarrow> HazardQueue \<Rightarrow> HazardIngestResult \<times> string \<times> HazardQueue" where
  "HazardQueue_observeEvent update error q =
     (case event_guard update error of
        Inl e \<Rightarrow> (HazardRejected, e, q)
      | Inr _ \<Rightarrow>
          (case SyncController_receive (hq_sync q) update of
             (sync, r) \<Rightarrow> (hazard_of_sync (sr_decision r), [], q\<lparr>hq_sync := sync\<rparr>)))"

definition HazardQueue_confirmSnapshot :: "u64 \<Rightarrow> HazardQueue \<Rightarrow> HazardQueue" where
  "HazardQueue_confirmSnapshot sequence q = q\<lparr>hq_sync := SyncController_confirmSnapshot (hq_sync q) sequence\<rparr>"

definition HazardQueue_drain :: "nat \<Rightarrow> HazardQueue \<Rightarrow> HazardEffect list \<times> HazardQueue" where
  "HazardQueue_drain limit q =
     (let count = (if limit < length (hq_effects q) then limit else length (hq_effects q)) in
      (take count (hq_effects q), q\<lparr>hq_effects := drop count (hq_effects q)\<rparr>))"

subsection \<open>ClientWorldUpdateReceiver\<close>

datatype WorldReceiveDecision = ReceiveApplied | ReceiveNoData | ReceiveRequestSnapshot | ReceiveRejected

record Receiver =
  rv_accumulator :: WorldUpdateAccumulator
  rv_snapshotApplier :: SequenceTracker
  rv_environmentState :: EnvironmentState
  rv_hazardQueue :: HazardQueue
  rv_predictor :: Predictor
  rv_remotes :: RemoteStore
  rv_localSessionId :: int
  rv_needsSnapshot :: bool
  rv_expected :: u64
  rv_decision :: WorldReceiveDecision

definition Receiver_new :: Receiver where
  "Receiver_new = \<lparr>rv_accumulator = WorldUpdateAccumulator_init, rv_snapshotApplier = SequenceTracker_init,
     rv_environmentState = EnvironmentState_init, rv_hazardQueue = HazardQueue_new, rv_predictor = Predictor_new,
     rv_remotes = RemoteStore_new, rv_localSessionId = 0, rv_needsSnapshot = False, rv_expected = 1, rv_decision = ReceiveNoData\<rparr>"

text \<open>\<open>predictor.reconcile\<close> with an ack, when it is the local session's.\<close>

definition reconcile_own :: "MovementAck \<Rightarrow> Receiver \<Rightarrow> Receiver" where
  "reconcile_own ack rv =
     (if rv_localSessionId rv > 0 \<and> ma_sessionId ack = rv_localSessionId rv
      then rv\<lparr>rv_predictor := Predictor_reconcile (pose_at (ma_x ack) (ma_y ack) (ma_z ack)) (ma_worldTick ack)
             (ma_lastProcessedInputSequence ack) (rv_predictor rv)\<rparr>
      else rv)"

definition move_remote :: "PublicMovementPose \<Rightarrow> Receiver \<Rightarrow> Receiver" where
  "move_remote p rv =
     (if rv_localSessionId rv \<le> 0 \<or> pm_sessionId p \<noteq> rv_localSessionId rv
      then rv\<lparr>rv_remotes := snd (RemoteStore_applyAuthoritative (pm_sessionId p) (pose_at (pm_x p) (pm_y p) (pm_z p)) False (rv_remotes rv))\<rparr>
      else rv)"

text \<open>The branches after the sequence check, for an event that is applied.\<close>

definition show_movement :: "WorldUpdate \<Rightarrow> Receiver \<Rightarrow> Receiver" where
  "show_movement update rv =
     (let rv1 = (case tryParseAttachedMovementAck (wu_payload update) of None \<Rightarrow> rv | Some ack \<Rightarrow> reconcile_own ack rv) in
      case tryParsePublicMovementPose (wu_payload update) of None \<Rightarrow> rv1 | Some p \<Rightarrow> move_remote p rv1)"

definition applyEvent :: "WorldUpdate \<Rightarrow> string \<Rightarrow> Receiver \<Rightarrow> bool \<times> string \<times> Receiver" where
  "applyEvent update error rv =
     (if rv_needsSnapshot rv
      then (False, ''world update cannot be applied before snapshot resync'', rv\<lparr>rv_decision := ReceiveRequestSnapshot\<rparr>)
      else
        let hazard = (take 12 (wu_payload update) = ''etherHazard='');
            movementAckEvent = (take 12 (wu_payload update) = ''movementAck='') in
        case (if hazard then HazardQueue_ingest update error (rv_hazardQueue rv) else HazardQueue_observeEvent update error (rv_hazardQueue rv)) of
          (result, e, q) \<Rightarrow>
            let rv1 = rv\<lparr>rv_hazardQueue := q, rv_expected := expectedSequence (hq_sync q)\<rparr> in
            if result = HazardRequestSnapshot
            then (False, e, rv1\<lparr>rv_needsSnapshot := True, rv_decision := ReceiveRequestSnapshot\<rparr>)
            else if result \<noteq> HazardApplied \<and> result \<noteq> HazardIgnoredDuplicate then (False, e, rv1\<lparr>rv_decision := ReceiveRejected\<rparr>)
            else if movementAckEvent \<and> result = HazardApplied then
              (case parseMovementAck (wu_payload update) of
                 Inl e2 \<Rightarrow> (False, e2, rv1\<lparr>rv_decision := ReceiveRejected\<rparr>)
               | Inr ack \<Rightarrow> (True, [], reconcile_own ack rv1))
            else if result = HazardApplied then (True, e, show_movement update rv1)
            else (True, e, rv1))"

definition adopt_snapshot :: "WorldUpdate \<Rightarrow> SequenceTracker \<Rightarrow> EnvironmentState \<Rightarrow> Receiver \<Rightarrow> Receiver" where
  "adopt_snapshot update applier ev rv =
     (let rv1 = rv\<lparr>rv_snapshotApplier := applier, rv_environmentState := ev,
            rv_hazardQueue := HazardQueue_confirmSnapshot (wu_sequence update) (rv_hazardQueue rv),
            rv_needsSnapshot := False, rv_expected := wu_sequence update + 1\<rparr>;
          rv2 = (if ev_hasLocalPlayer ev
                 then rv1\<lparr>rv_predictor := Predictor_applySnapshotBaseline (pose_at (ev_localX ev) (ev_localY ev) (ev_localZ ev))
                        (wu_worldTick update) (ev_lastProcessedInputSequence ev) (rv_predictor rv1)\<rparr>
                 else rv1) in
      rv2\<lparr>rv_remotes := RemoteStore_replaceFromSnapshot (ev_players ev) (rv_localSessionId rv2) (rv_remotes rv2)\<rparr>)"

text \<open>The loop over the decoded updates: whether it ran to the end, and the count of applied updates.\<close>

fun receive_updates :: "WorldUpdate list \<Rightarrow> nat \<Rightarrow> string \<Rightarrow> Receiver \<Rightarrow> bool \<times> nat \<times> string \<times> Receiver" where
  "receive_updates [] applied error rv = (True, applied, error, rv)"
| "receive_updates (update # rest) applied error rv =
     (if wu_kind update = Snapshot then
        (case applySnapshot update (rv_snapshotApplier rv) of
           Inl e \<Rightarrow> (False, applied, e, rv\<lparr>rv_decision := ReceiveRejected\<rparr>)
         | Inr (applier, ev) \<Rightarrow> receive_updates rest (applied + 1) [] (adopt_snapshot update applier ev rv))
      else if wu_kind update = Event then
        (if rv_needsSnapshot rv then receive_updates rest applied error rv
         else case applyEvent update error rv of
           (ok, e, rv1) \<Rightarrow> if ok then receive_updates rest (applied + 1) e rv1 else (False, applied, e, rv1))
      else (False, applied, ''world update kind is unsupported'', rv\<lparr>rv_decision := ReceiveRejected\<rparr>))"

definition Receiver_receive :: "u8 list \<Rightarrow> string \<Rightarrow> Receiver \<Rightarrow> bool \<times> nat \<times> string \<times> Receiver" where
  "Receiver_receive bytes error rv =
     (case WorldUpdateAccumulator_append (rv_accumulator rv) bytes of
        (acc, updates, r) \<Rightarrow>
          let rv1 = rv\<lparr>rv_accumulator := acc, rv_decision := ReceiveNoData\<rparr> in
          (case r of
             Some e \<Rightarrow> (False, 0, e, rv1\<lparr>rv_decision := ReceiveRejected\<rparr>)
           | None \<Rightarrow>
               if updates = [] then (True, 0, [], rv1)
               else case receive_updates updates 0 error rv1 of
                 (done, applied, e, rv2) \<Rightarrow>
                   if \<not> done then (False, applied, e, rv2)
                   else if rv_needsSnapshot rv2
                   then (False, applied, ''world update cannot be applied before snapshot resync'', rv2\<lparr>rv_decision := ReceiveRequestSnapshot\<rparr>)
                   else (True, applied, [], rv2\<lparr>rv_decision := ReceiveApplied\<rparr>)))"

definition Receiver_bindLocalSession :: "int \<Rightarrow> Receiver \<Rightarrow> Receiver" where
  "Receiver_bindLocalSession sessionId rv = rv\<lparr>rv_localSessionId := sessionId\<rparr>"

definition Receiver_beginReconnect :: "Receiver \<Rightarrow> Receiver" where
  "Receiver_beginReconnect rv = rv\<lparr>rv_accumulator := WorldUpdateAccumulator_reset (rv_accumulator rv), rv_needsSnapshot := True,
     rv_expected := 1, rv_decision := ReceiveRequestSnapshot\<rparr>"

definition Receiver_tryBuildRequestSnapshotCommand :: "Receiver \<Rightarrow> NetworkCommand option" where
  "Receiver_tryBuildRequestSnapshotCommand rv =
     (if \<not> rv_needsSnapshot rv \<or> rv_localSessionId rv \<le> 0 then None
      else Some (makeRequestSnapshotCommand (rv_localSessionId rv)))"

subsection \<open>An event in sequence\<close>

text \<open>A receiver that expects exactly this update next, and an update the sequence check accepts.\<close>

definition expects :: "Receiver \<Rightarrow> WorldUpdate \<Rightarrow> bool" where
  "expects rv u \<longleftrightarrow> \<not> rv_needsSnapshot rv \<and> hasSequence (hq_sync (rv_hazardQueue rv)) \<and>
     expectedSequence (hq_sync (rv_hazardQueue rv)) = wu_sequence u \<and> wu_kind u = Event \<and> validateWorldUpdate u = Inr () \<and>
     wu_sequence u \<noteq> UINT64_MAX"

text \<open>The receiver after the sequence check of such an update.\<close>

definition advanced_receiver :: "Receiver \<Rightarrow> Receiver" where
  "advanced_receiver rv =
     (let sync = (hq_sync (rv_hazardQueue rv))\<lparr>expectedSequence := expectedSequence (hq_sync (rv_hazardQueue rv)) + 1\<rparr> in
      rv\<lparr>rv_hazardQueue := (rv_hazardQueue rv)\<lparr>hq_sync := sync\<rparr>, rv_expected := expectedSequence sync\<rparr>)"

lemma expects_guard: "expects rv u \<Longrightarrow> event_guard u error = Inr ()"
  by (auto simp: expects_def event_guard_def validateWorldUpdate_def split: if_splits)

lemma expects_sync:
  assumes "expects rv u"
  shows "SyncController_receive (hq_sync (rv_hazardQueue rv)) u =
    ((hq_sync (rv_hazardQueue rv))\<lparr>expectedSequence := wu_sequence u + 1\<rparr>,
     \<lparr>sr_decision = Apply, sr_expectedSequence = wu_sequence u + 1, sr_error = []\<rparr>)"
  using assms by (simp add: expects_def SyncController_receive_def SequenceTracker_accept_def)

lemma applyEvent_plain:
  assumes "expects rv u" and "take 12 (wu_payload u) \<noteq> ''etherHazard=''" and "take 12 (wu_payload u) \<noteq> ''movementAck=''"
  shows "applyEvent u error rv = (True, [], show_movement u (advanced_receiver rv))"
  using assms(2,3) expects_sync [OF assms(1)] expects_guard [OF assms(1)] assms(1)
  by (simp add: applyEvent_def HazardQueue_observeEvent_def hazard_of_sync_def advanced_receiver_def expects_def Let_def)

lemma reconcile_own_simps [simp]:
  "rv_hazardQueue (reconcile_own a rv) = rv_hazardQueue rv" "rv_needsSnapshot (reconcile_own a rv) = rv_needsSnapshot rv"
  "rv_localSessionId (reconcile_own a rv) = rv_localSessionId rv" "rv_remotes (reconcile_own a rv) = rv_remotes rv"
  "rv_expected (reconcile_own a rv) = rv_expected rv"
  by (simp_all add: reconcile_own_def)

lemma move_remote_simps [simp]:
  "rv_hazardQueue (move_remote p rv) = rv_hazardQueue rv" "rv_needsSnapshot (move_remote p rv) = rv_needsSnapshot rv"
  "rv_localSessionId (move_remote p rv) = rv_localSessionId rv" "rv_predictor (move_remote p rv) = rv_predictor rv"
  "rv_expected (move_remote p rv) = rv_expected rv"
  by (simp_all add: move_remote_def)

lemma show_movement_simps [simp]:
  "rv_hazardQueue (show_movement u rv) = rv_hazardQueue rv" "rv_needsSnapshot (show_movement u rv) = rv_needsSnapshot rv"
  "rv_localSessionId (show_movement u rv) = rv_localSessionId rv" "rv_expected (show_movement u rv) = rv_expected rv"
  by (auto simp: show_movement_def Let_def split: option.splits)

subsection \<open>A movement reaches the players\<close>

lemma public_pose_session: "tryParsePublicMovementPose t = Some p \<Longrightarrow> parseMovementEventSession t = Some (pm_sessionId p)"
  by (auto simp: tryParsePublicMovementPose_def split: option.splits)

lemma advanced_receiver_simps [simp]:
  "rv_predictor (advanced_receiver rv) = rv_predictor rv" "rv_remotes (advanced_receiver rv) = rv_remotes rv"
  "rv_localSessionId (advanced_receiver rv) = rv_localSessionId rv" "rv_needsSnapshot (advanced_receiver rv) = rv_needsSnapshot rv"
  "rv_expected (advanced_receiver rv) = expectedSequence (hq_sync (rv_hazardQueue rv)) + 1"
  by (simp_all add: advanced_receiver_def Let_def)

text \<open>What the copy of a movement does to its receiver.\<close>

lemma show_movement_copy:
  assumes "if rv_localSessionId rv = s then tryParseAttachedMovementAck t = Some a \<and> ma_sessionId a = s \<and> parseMovementEventSession t = Some s
     else tryParseAttachedMovementAck t = None \<and> tryParsePublicMovementPose t = Some \<lparr>pm_sessionId = s, pm_x = x, pm_y = y, pm_z = z\<rparr>"
    and "wu_payload u = t" and "0 < rv_localSessionId rv"
  shows "show_movement u rv =
    (if rv_localSessionId rv = s
     then rv\<lparr>rv_predictor := Predictor_reconcile (pose_at (ma_x a) (ma_y a) (ma_z a)) (ma_worldTick a) (ma_lastProcessedInputSequence a) (rv_predictor rv)\<rparr>
     else rv\<lparr>rv_remotes := snd (RemoteStore_applyAuthoritative s (pose_at x y z) False (rv_remotes rv))\<rparr>)"
  using assms by (auto simp: show_movement_def reconcile_own_def move_remote_def Let_def dest!: public_pose_session split: option.splits if_splits)


subsection \<open>Resynchronisation\<close>

text \<open>An event that only moves players: neither a hazard nor a bare movement ack.\<close>

definition plain_event :: "WorldUpdate \<Rightarrow> bool" where
  "plain_event u \<longleftrightarrow> wu_kind u = Event \<and> validateWorldUpdate u = Inr () \<and> wu_sequence u \<noteq> UINT64_MAX \<and>
     take 12 (wu_payload u) \<noteq> ''etherHazard='' \<and> take 12 (wu_payload u) \<noteq> ''movementAck=''"

definition synced :: "u64 \<Rightarrow> Receiver \<Rightarrow> bool" where
  "synced n rv \<longleftrightarrow> \<not> rv_needsSnapshot rv \<and> hasSequence (hq_sync (rv_hazardQueue rv)) \<and>
     expectedSequence (hq_sync (rv_hazardQueue rv)) = n \<and> rv_expected rv = n"

fun numbered_events :: "u64 \<Rightarrow> WorldUpdate list \<Rightarrow> bool" where
  "numbered_events n [] \<longleftrightarrow> True"
| "numbered_events n (u # us) \<longleftrightarrow> plain_event u \<and> wu_sequence u = n \<and> numbered_events (n + 1) us"

lemma advanced_synced: "synced n rv \<Longrightarrow> synced (n + 1) (show_movement u (advanced_receiver rv))"
  by (simp add: synced_def) (simp add: advanced_receiver_def Let_def)

lemma show_movement_environment [simp]: "rv_environmentState (show_movement u rv) = rv_environmentState rv"
  by (auto simp: show_movement_def reconcile_own_def move_remote_def Let_def split: option.splits)

lemma receive_stream:
  "synced n rv \<Longrightarrow> numbered_events n us \<Longrightarrow>
   \<exists>e rv'. receive_updates us k error rv = (True, k + length us, e, rv') \<and> synced (n + of_nat (length us)) rv' \<and>
     rv_environmentState rv' = rv_environmentState rv"
proof (induction us arbitrary: n k error rv)
  case (Cons u us)
  have "expects rv u" using Cons.prems by (auto simp: expects_def synced_def plain_event_def)
  then have a: "applyEvent u error rv = (True, [], show_movement u (advanced_receiver rv))"
    using Cons.prems by (intro applyEvent_plain) (auto simp: plain_event_def)
  have "rv_environmentState (advanced_receiver rv) = rv_environmentState rv" by (simp add: advanced_receiver_def Let_def)
  then show ?case using Cons.IH [OF advanced_synced [OF Cons.prems(1), of u], of "k + 1" "[]"] Cons.prems a
    by (auto simp: plain_event_def synced_def ac_simps)
qed simp

lemma skip_events:
  "rv_needsSnapshot rv \<Longrightarrow> list_all (\<lambda>u. wu_kind u = Event) pre \<Longrightarrow> receive_updates (pre @ us) k error rv = receive_updates us k error rv"
  by (induction pre) auto

lemma adopt_synced: "synced (wu_sequence s + 1) (adopt_snapshot s a ev rv)"
  by (simp add: adopt_snapshot_def synced_def HazardQueue_confirmSnapshot_def SyncController_confirmSnapshot_def
      SequenceTracker_resetAfterSnapshot_def Let_def)


subsection \<open>The hazard queue is never drained\<close>

text \<open>
  Everything a program can do with a receiver: feed it bytes, bind a session, reconnect, and use the
  predictor, which \<open>localMovement\<close> hands out. \<open>hazardEffects\<close> returns a constant reference, so \<open>drain\<close> is
  not among it.
\<close>

inductive receiver_use :: "Receiver \<Rightarrow> Receiver \<Rightarrow> bool" where
  none: "receiver_use rv rv"
| receive: "receiver_use rv rv1 \<Longrightarrow> Receiver_receive bytes error rv1 = (ok, n, e, rv2) \<Longrightarrow> receiver_use rv rv2"
| bind: "receiver_use rv rv1 \<Longrightarrow> receiver_use rv (Receiver_bindLocalSession sid rv1)"
| reconnect: "receiver_use rv rv1 \<Longrightarrow> receiver_use rv (Receiver_beginReconnect rv1)"
| predictor: "receiver_use rv rv1 \<Longrightarrow> receiver_use rv (rv1\<lparr>rv_predictor := lp\<rparr>)"

abbreviation effects :: "Receiver \<Rightarrow> HazardEffect list" where
  "effects rv \<equiv> hq_effects (rv_hazardQueue rv)"

lemma queue_grows:
  "HazardQueue_ingest u error q = (r, e, q') \<Longrightarrow> length (hq_effects q) \<le> length (hq_effects q')"
  "HazardQueue_observeEvent u error q = (r, e, q') \<Longrightarrow> length (hq_effects q) \<le> length (hq_effects q')"
  by (auto simp: HazardQueue_ingest_def HazardQueue_observeEvent_def Let_def split: sum.splits prod.splits if_splits)

lemma applyEvent_grows: "applyEvent u error rv = (ok, e, rv') \<Longrightarrow> length (effects rv) \<le> length (effects rv')"
  by (auto simp: applyEvent_def Let_def dest: queue_grows split: if_splits prod.splits sum.splits)

lemma adopt_effects [simp]: "effects (adopt_snapshot s a ev rv) = effects rv"
  by (simp add: adopt_snapshot_def HazardQueue_confirmSnapshot_def Let_def)

lemma receive_updates_grow: "receive_updates us k error rv = (ok, n, e, rv') \<Longrightarrow> length (effects rv) \<le> length (effects rv')"
proof (induction us arbitrary: k error rv)
  case (Cons u us)
  then show ?case by (auto split: if_splits sum.splits prod.splits dest!: applyEvent_grows intro: order_trans) (metis adopt_effects)
qed simp

lemma use_grows: "receiver_use rv rv' \<Longrightarrow> length (effects rv) \<le> length (effects rv')"
proof (induction rule: receiver_use.induct)
  case (receive rv rv1 bytes error ok n e rv2)
  then show ?case by (auto simp: Receiver_receive_def Let_def dest!: receive_updates_grow split: prod.splits option.splits if_splits)
qed (auto simp: Receiver_bindLocalSession_def Receiver_beginReconnect_def)

text \<open>
  A hazard in the queue stays there: whatever is done with a receiver, its queue does not
  shrink, and once it holds 256 effects every hazard event in sequence is rejected for good, which makes
  the client give up its connection.
\<close>

theorem hazard_backlog_rejects:
  assumes "receiver_use rv rv'" and "length (effects rv) = MAX_HAZARD_EFFECTS"
    and "expects rv' u" and "parseHazard (wu_payload u) = Inr sev"
  shows "\<exists>rv''. applyEvent u error rv' = (False, ''hazard effect queue is full'', rv'') \<and> rv_decision rv'' = ReceiveRejected \<and>
    effects rv'' = effects rv'"
proof -
  have "length (effects rv') \<ge> MAX_HAZARD_EFFECTS" using use_grows [OF assms(1)] assms(2) by simp
  moreover have "take 12 (wu_payload u) = ''etherHazard=''" using assms(4) by (auto simp: parseHazard_def split: if_splits)
  ultimately show ?thesis using expects_guard [OF assms(3)] expects_sync [OF assms(3)] assms(3,4)
    by (cases sev) (simp add: applyEvent_def HazardQueue_ingest_def expects_def Let_def)
qed

subsection \<open>A hazard event of the server\<close>

lemma parseHazard_text:
  assumes "printable severity" and "printable instability"
  shows "parseHazard (''etherHazard=severity:'' @ show_float severity @ '';instability:'' @ show_float instability) =
    (if f32_le (six_digit_value severity) f32_zero \<or> f32_le (six_digit_value instability) (f32_lit 1 1)
     then Inl ''hazard event contains invalid fields'' else Inr (six_digit_value severity, six_digit_value instability))"
proof -
  have fin: "f32_isfinite severity" "f32_isfinite instability" using assms by (auto simp: printable_def)
  have p: "parseFinite (show_float x) = Some (six_digit_value x)" if "printable x" for x
    using parse_show_float [of x] that by (simp add: printable_def parseFinite_def parseFiniteFloat_def)
  have "after_first '';instability:'' (show_float severity @ '';instability:'' @ show_float instability) = Some (show_float instability)"
    using fin by (simp add: scan_simps)
  then show ?thesis using fin p assms by (simp add: parseHazard_def Let_def show_float_chars)
qed

text \<open>
  What becomes of a hazard event of the server at a client in sync. It is queued with its two
  values to six digits, unless 256 hazards wait already, or the printed values are no longer above the
  bounds the client tests: an instability just above one is printed as 1, and the client rejects the event
  (and gives up its connection) though the server's own test let it pass.
\<close>

theorem hazard_event_outcome:
  assumes "appendHazard tick severity instability us b = (us @ [u], b', Inr ())" and "expects rv u"
    and "printable severity" and "printable instability"
  shows "\<exists>rv'. applyEvent u error rv =
      (if f32_le (six_digit_value severity) f32_zero \<or> f32_le (six_digit_value instability) (f32_lit 1 1)
       then (False, ''hazard event contains invalid fields'', rv')
       else if length (effects rv) \<ge> MAX_HAZARD_EFFECTS then (False, ''hazard effect queue is full'', rv')
       else (True, [], rv')) \<and>
    (if f32_le (six_digit_value severity) f32_zero \<or> f32_le (six_digit_value instability) (f32_lit 1 1) \<or> length (effects rv) \<ge> MAX_HAZARD_EFFECTS
     then rv_decision rv' = ReceiveRejected \<and> effects rv' = effects rv
     else rv_expected rv' = wu_sequence u + 1 \<and>
       effects rv' = effects rv @ [\<lparr>he_worldTick = tick, he_sequence = wu_sequence u, he_eventId = wu_eventId u,
         he_severity = six_digit_value severity, he_instability = six_digit_value instability\<rparr>])"
proof -
  have u: "wu_payload u = ''etherHazard=severity:'' @ show_float severity @ '';instability:'' @ show_float instability" "wu_worldTick u = tick"
    using assms(1) by (auto simp: appendHazard_def appendEvent_def Let_def split: if_splits sum.splits)
  have no: "tryParseAttachedMovementAck (wu_payload u) = None" "tryParsePublicMovementPose (wu_payload u) = None"
    by (simp_all add: u(1) tryParseAttachedMovementAck_def tryParsePublicMovementPose_def parseMovementEventSession_def)
  have pre: "take 12 (wu_payload u) = ''etherHazard=''" by (simp add: u(1))
  note h = parseHazard_text [OF assms(3,4), folded u(1)]
  show ?thesis using expects_guard [OF assms(2)] expects_sync [OF assms(2)] assms(2) h u(2) pre no
    by (auto simp: applyEvent_def HazardQueue_ingest_def expects_def show_movement_def Let_def)
qed

subsection \<open>Witnesses\<close>

text \<open>A receiver of session 8 that expects the update \<open>n\<close>.\<close>

definition waiting :: "u64 \<Rightarrow> Receiver" where
  "waiting n = Receiver_new\<lparr>rv_localSessionId := 8,
     rv_hazardQueue := \<lparr>hq_effects = [], hq_sync = \<lparr>hasSequence = True, expectedSequence = n\<rparr>\<rparr>, rv_expected := n\<rparr>"

lemma still_event_valid: "validateWorldUpdate still_event = Inr ()"
  by code_simp


lemma lone_applied: "\<exists>a ev. applySnapshot lone_snapshot t = Inr (a, ev)"
proof -
  have "validateWorldUpdate lone_snapshot = Inr ()" by code_simp
  moreover have "parsePayload lone_payload = Inr (client_view EnvironmentEther_init f32_zero [] [lone_player] None)"
    using parsePayload_format [OF lone_format lone_fits, of None] by (simp add: ack_fits_def local_pairs_def)
  ultimately show ?thesis by (simp add: applySnapshot_def) (simp add: lone_snapshot_def)
qed


text \<open>Printed floats of one digit, and the least \<open>float\<close> above one, which prints as one.\<close>

lemma show_general_digit: "0 < k \<Longrightarrow> k < 10 \<Longrightarrow> show_general (k * 100000) 0 = show_nat k"
proof -
  have "show_fraction (show_pad 5 0) = []" by code_simp
  then show ?thesis by (simp add: show_general_def)
qed

definition metres :: "nat \<Rightarrow> f32" where
  "metres k = F_Fin False (k * f32_unit)"

definition faint :: f32 where
  "faint = F_Fin False (f32_unit + 2 ^ 126)"

lemma six_digits_small:
  assumes "0 < U" and "U \<le> m" and "m < 10 * U" and "round_even (m * 100000) U = k * 100000" and "k < 10"
  shows "six_digits m U = (k * 100000, 0)"
proof -
  have "dec_exponent m U = 0" using assms(1-3) by (simp add: dec_exponent_def dec_up.simps dec_down.simps)
  then show ?thesis using assms(4,5) by (simp add: six_digits_def Let_def)
qed

lemma six_digits_metres: "0 < k \<Longrightarrow> k < 10 \<Longrightarrow> six_digits (k * f32_unit) f32_unit = (k * 100000, 0)"
proof -
  define U :: nat where "U = f32_unit"
  have "0 < U" by (simp add: U_def)
  moreover have "k * U * 100000 = k * 100000 * U" by simp
  then have "round_even (k * U * 100000) U = k * 100000" using \<open>0 < U\<close> by (simp only: round_even_def Let_def) simp
  moreover assume "0 < k" "k < 10"
  ultimately show ?thesis unfolding U_def [symmetric] by (intro six_digits_small) auto
qed

lemma six_digits_faint: "six_digits (f32_unit + 2 ^ 126) f32_unit = (1 * 100000, 0)"
proof -
  define V :: nat where "V = 2 ^ 126"
  have U: "f32_unit = 8388608 * V" by (simp add: V_def)
  have "0 < V" by (simp add: V_def)
  moreover have "(8388608 * V + V) * 100000 = 100000 * (8388608 * V) + 100000 * V" by simp
  then have "(8388608 * V + V) * 100000 div (8388608 * V) = 100000" "(8388608 * V + V) * 100000 mod (8388608 * V) = 100000 * V"
    using \<open>0 < V\<close> by (simp_all only: div_mult_self3 mod_mult_self3) simp_all
  ultimately have "round_even ((8388608 * V + V) * 100000) (8388608 * V) = 1 * 100000" by (simp add: round_even_def Let_def)
  then show ?thesis unfolding U V_def [symmetric] using \<open>0 < V\<close> by (intro six_digits_small) auto
qed

lemma show_metres: "0 < k \<Longrightarrow> k < 10 \<Longrightarrow> show_float (metres k) = show_nat k"
  using six_digits_metres [of k] show_general_digit [of k] unfolding metres_def show_float_def
  by (simp del: power_numeral)

lemma show_faint: "show_float faint = ''1''"
  using six_digits_faint show_general_digit [of 1] unfolding faint_def show_float_def
  by (simp del: power_numeral add: show_nat.simps)

lemma six_metres: "k < 1000000 \<Longrightarrow> six_digit_value (metres k) = metres k"
  unfolding metres_def by (rule six_digit_whole)

lemma six_faint: "six_digit_value faint = metres 1"
proof -
  have "six_digit_value faint = six_digit_value (metres 1)"
    using six_digits_faint six_digits_metres [of 1] unfolding faint_def metres_def six_digit_value_def by (simp del: power_numeral)
  then show ?thesis using six_metres by simp
qed

lemma metres_lit: "k < 1000000 \<Longrightarrow> f32_lit k 1 = metres k"
  unfolding metres_def by (rule f32_lit_nat) simp

lemma one_metre: "f32_lit (Suc 0) (Suc 0) = metres 1"
  using metres_lit [of 1] by simp

lemma metres_le: "f32_le (metres j) (metres k) \<longleftrightarrow> j \<le> k" "f32_le (metres k) f32_zero \<longleftrightarrow> k = 0"
  by (auto simp: metres_def f32_le_def mult_less_0_iff simp del: power_numeral)

lemma faint_above_one: "\<not> f32_le faint (metres 1)"
  by (simp add: metres_def faint_def f32_le_def)

lemma metres_printable: "k < 1000000 \<Longrightarrow> printable (metres k)" "printable faint"
  using six_metres [of k] six_faint by (auto simp: printable_def) (auto simp: metres_def faint_def)

theorem hazard_event_outcome_witness:
  "\<exists>us u b' rv'. appendHazard 5 (metres 1) faint [] \<lparr>ub_updateSequence = 3, ub_eventId = 3\<rparr> = ([] @ [u], b', Inr ()) \<and>
     applyEvent u [] (waiting 3) = (False, ''hazard event contains invalid fields'', rv') \<and> rv_decision rv' = ReceiveRejected"
proof -
  define u where "u = \<lparr>wu_version = CURRENT_PROTOCOL_VERSION, wu_kind = Event, wu_worldTick = 5, wu_sequence = 3, wu_eventId = 3,
    wu_payload = ''etherHazard=severity:1;instability:1''\<rparr>"
  have v: "validateWorldUpdate u = Inr ()" unfolding u_def by code_simp
  have fin: "f32_isfinite (metres 1)" "f32_isfinite faint" by (simp_all add: metres_def faint_def)
  have "appendHazard 5 (metres 1) faint [] \<lparr>ub_updateSequence = 3, ub_eventId = 3\<rparr> = ([] @ [u], \<lparr>ub_updateSequence = 4, ub_eventId = 4\<rparr>, Inr ())"
    using v fin faint_above_one show_metres [of 1]
    by (simp add: one_metre appendHazard_def appendEvent_def metres_le u_def show_faint show_nat.simps Let_def)
  moreover have "expects (waiting 3) u" using v by (simp add: expects_def waiting_def Receiver_new_def u_def)
  ultimately show ?thesis using hazard_event_outcome [of 5 "metres 1" faint "[]" _ u _ "waiting 3" "[]"] metres_printable(1) [of 1] metres_printable(2) six_faint
    by (force simp: metres_le one_metre)
qed

definition crowded :: Receiver where
  "crowded = (waiting 3)\<lparr>rv_hazardQueue := \<lparr>hq_effects = replicate 256 \<lparr>he_worldTick = 1, he_sequence = 2, he_eventId = 2,
     he_severity = metres 1, he_instability = metres 2\<rparr>, hq_sync = \<lparr>hasSequence = True, expectedSequence = 3\<rparr>\<rparr>\<rparr>"

theorem hazard_backlog_rejects_witness:
  "\<exists>u rv''. applyEvent u [] crowded = (False, ''hazard effect queue is full'', rv'') \<and> rv_decision rv'' = ReceiveRejected"
proof -
  define u where "u = \<lparr>wu_version = CURRENT_PROTOCOL_VERSION, wu_kind = Event, wu_worldTick = 5, wu_sequence = 3, wu_eventId = 3,
    wu_payload = ''etherHazard=severity:1;instability:2''\<rparr>"
  have v: "validateWorldUpdate u = Inr ()" unfolding u_def by code_simp
  have "wu_payload u = ''etherHazard=severity:'' @ show_float (metres 1) @ '';instability:'' @ show_float (metres 2)"
    by (simp add: u_def show_metres show_nat.simps)
  then have "parseHazard (wu_payload u) = Inr (metres 1, metres 2)"
    using parseHazard_text [of "metres 1" "metres 2"] metres_printable by (simp add: six_metres metres_le one_metre)
  moreover have "expects crowded u" using v by (simp add: expects_def crowded_def waiting_def Receiver_new_def u_def)
  moreover have "length (effects crowded) = MAX_HAZARD_EFFECTS" by (simp add: crowded_def MAX_HAZARD_EFFECTS_def)
  ultimately show ?thesis using hazard_backlog_rejects [OF receiver_use.none, of crowded u _ "[]"] by blast
qed

end
