(* ===== verification/Client_Demux.thy ===== *)
theory Client_Demux
  imports Responses Client_Session
begin

text \<open>
  \<open>ClientInboundDemux.cpp\<close>: the server sends login responses, disconnect responses and world updates over
  one stream; the demultiplexer cuts it into frames and tells their kinds apart by the first two bytes
  and, for the 16-byte header, by the type field. However the stream is cut into pieces, the frames come
  out whole, in order and with their kinds.
\<close>

datatype InboundFrameKind = LoginResponseFrame | DisconnectResponseFrame | WorldUpdateFrame

record InboundFrame =
  if_kind :: InboundFrameKind
  if_bytes :: "u8 list"

record Demux =
  dx_buffered :: "u8 list"
  dx_failedState :: bool

definition Demux_new :: Demux where
  "Demux_new = \<lparr>dx_buffered = [], dx_failedState = False\<rparr>"

definition isSupportedInboundPrefix :: "u16 \<Rightarrow> bool" where
  "isSupportedInboundPrefix prefix \<longleftrightarrow> prefix = WORLD_UPDATE_FRAME_MAGIC \<or> prefix = CURRENT_PROTOCOL_VERSION"

text \<open>
  The body of the loop up to the frame size: \<open>None\<close> when the header is not complete, \<open>Inl\<close> the message of
  a failure, \<open>Inr\<close> the kind and the size of the frame.
\<close>

definition demux_head :: "u8 list \<Rightarrow> (string + InboundFrameKind \<times> nat) option" where
  "demux_head buf =
     (let magic = readFrameU16 buf 0 in
      if \<not> isSupportedInboundPrefix magic then Some (Inl ''inbound frame prefix is invalid'')
      else if magic = WORLD_UPDATE_FRAME_MAGIC then
        (if length buf < WORLD_UPDATE_FRAME_HEADER_SIZE then None
         else let payloadLength = unat (readFrameU32 buf 32) in
           if payloadLength > MAX_UPDATE_PAYLOAD then Some (Inl ''world update stream payload exceeds maximum size'')
           else Some (Inr (WorldUpdateFrame, WORLD_UPDATE_FRAME_HEADER_SIZE + payloadLength)))
      else
        (if length buf < FRAME_HEADER_SIZE then None
         else let payloadLength = unat (readFrameU32 buf 12) in
           if payloadLength > MAX_COMMAND_PAYLOAD then Some (Inl ''command response stream payload exceeds maximum size'')
           else Some (Inr (if readFrameU16 buf 2 = word_of_int (CommandType_value Disconnect) then DisconnectResponseFrame
                           else LoginResponseFrame, FRAME_HEADER_SIZE + payloadLength))))"

lemma demux_head_size: "demux_head buf = Some (Inr (k, n)) \<Longrightarrow> FRAME_HEADER_SIZE \<le> n"
  by (auto simp: demux_head_def Let_def split: if_splits)

function demux_loop :: "u8 list \<Rightarrow> InboundFrame list \<Rightarrow> u8 list \<times> InboundFrame list \<times> string option" where
  "demux_loop buf frames =
     (if length buf < 2 then (buf, frames, None)
      else case demux_head buf of
        None \<Rightarrow> (buf, frames, None)
      | Some (Inl e) \<Rightarrow> (buf, frames, Some e)
      | Some (Inr (kind, frameSize)) \<Rightarrow>
          if length buf < frameSize then (buf, frames, None)
          else demux_loop (drop frameSize buf) (frames @ [\<lparr>if_kind = kind, if_bytes = take frameSize buf\<rparr>]))"
  by pat_completeness auto
termination
  by (relation "measure (\<lambda>(buf, frames). length buf)") (auto dest: demux_head_size)

declare demux_loop.simps [simp del]

definition Demux_append :: "Demux \<Rightarrow> u8 list \<Rightarrow> Demux \<times> InboundFrame list \<times> string option" where
  "Demux_append dx bytes =
     (if dx_failedState dx then (dx, [], Some ''client inbound demux is failed'')
      else case demux_loop (dx_buffered dx @ bytes) [] of
        (buf, frames, r) \<Rightarrow> (dx\<lparr>dx_buffered := buf, dx_failedState := (r \<noteq> None)\<rparr>, frames, r))"

definition Demux_reset :: "Demux \<Rightarrow> Demux" where
  "Demux_reset dx = dx\<lparr>dx_buffered := [], dx_failedState := False\<rparr>"

subsection \<open>The loop\<close>

lemma demux_loop_step:
  assumes "2 \<le> length b" and "demux_head b = Some (Inr (k, n))" and "n \<le> length b"
  shows "demux_loop b ms = demux_loop (drop n b) (ms @ [\<lparr>if_kind = k, if_bytes = take n b\<rparr>])"
  using assms by (subst demux_loop.simps) simp

lemma demux_loop_cases:
  obtains (wait) "\<And>ms. demux_loop b ms = (b, ms, None)"
  | (bad) e where "\<And>ms. demux_loop b ms = (b, ms, Some e)"
  | (frame) k n where "2 \<le> length b" "demux_head b = Some (Inr (k, n))" "n \<le> length b"
proof (cases "length b < 2 \<or> demux_head b = None")
  case True
  then have "demux_loop b ms = (b, ms, None)" for ms by (subst demux_loop.simps) auto
  then show ?thesis by (rule wait)
next
  case False
  then obtain x where x: "2 \<le> length b" "demux_head b = Some x" by auto
  show ?thesis
  proof (cases x)
    case (Inl e)
    then have "demux_loop b ms = (b, ms, Some e)" for ms using x by (subst demux_loop.simps) simp
    then show ?thesis by (rule bad)
  next
    case (Inr kn)
    then show ?thesis using x frame wait by (cases kn; cases "snd kn \<le> length b") (auto simp: demux_loop.simps)
  qed
qed

lemma demux_loop_acc:
  "demux_loop b (ms @ ns) = (case demux_loop b ns of (b', fs, r) \<Rightarrow> (b', ms @ fs, r))"
proof (induction b arbitrary: ns rule: measure_induct_rule [of length])
  case (less b)
  show ?case
  proof (rule demux_loop_cases [of b])
    fix k n
    assume f: "2 \<le> length b" "demux_head b = Some (Inr (k, n))" "n \<le> length b"
    have "length (drop n b) < length b" using f demux_head_size [OF f(2)] by simp
    from less.IH [OF this] show ?thesis using demux_loop_step [OF f] by simp
  qed auto
qed

lemma demux_head_prefix:
  assumes "2 \<le> length f" and "demux_head f = Some x"
  shows "demux_head (f @ r) = Some x"
proof -
  have p: "readFrameU16 (f @ r) 0 = readFrameU16 f 0" using assms(1) by (simp add: read_prefix)
  show ?thesis using assms(2) unfolding demux_head_def p Let_def
    by (auto simp: read_prefix split: if_splits)
qed

lemma demux_loop_resume:
  "demux_loop b ms = (b', ms', None) \<Longrightarrow> demux_loop (b @ x) ms = demux_loop (b' @ x) ms'"
proof (induction b arbitrary: ms rule: measure_induct_rule [of length])
  case (less b)
  show ?case
  proof (rule demux_loop_cases [of b])
    fix k n
    assume f: "2 \<le> length b" "demux_head b = Some (Inr (k, n))" "n \<le> length b"
    let ?ms = "ms @ [\<lparr>if_kind = k, if_bytes = take n b\<rparr>]"
    have "demux_loop (b @ x) ms = demux_loop (drop n b @ x) ?ms"
      using demux_loop_step [OF _ demux_head_prefix [OF f(1,2)], of x ms] f by simp
    moreover have "length (drop n b) < length b" using f demux_head_size [OF f(2)] by simp
    ultimately show ?thesis using less.IH [of "drop n b" ?ms] less.prems demux_loop_step [OF f, of ms] by simp
  qed (use less.prems in auto)
qed

lemma demux_loop_idle: "demux_loop b ms = (b', fs, None) \<Longrightarrow> demux_loop b' ns = (b', ns, None)"
proof (induction b arbitrary: ms rule: measure_induct_rule [of length])
  case (less b)
  show ?case
  proof (rule demux_loop_cases [of b])
    fix k n
    assume f: "2 \<le> length b" "demux_head b = Some (Inr (k, n))" "n \<le> length b"
    have "length (drop n b) < length b" using f demux_head_size [OF f(2)] by simp
    from less.IH [OF this] show ?thesis using less.prems demux_loop_step [OF f, of ms] by simp
  qed (use less.prems in auto)
qed

lemma demux_loop_fail: "demux_loop b ms = (b', fs, Some e) \<Longrightarrow> \<exists>b'' gs. demux_loop (b @ x) ms = (b'', gs, Some e)"
proof (induction b arbitrary: ms rule: measure_induct_rule [of length])
  case (less b)
  show ?case
  proof (cases "\<exists>k n. 2 \<le> length b \<and> demux_head b = Some (Inr (k, n)) \<and> n \<le> length b")
    case True
    then obtain k n where f: "2 \<le> length b" "demux_head b = Some (Inr (k, n))" "n \<le> length b" by blast
    have "length (drop n b) < length b" using f demux_head_size [OF f(2)] by simp
    from less.IH [OF this] show ?thesis
      using less.prems demux_loop_step [OF f, of ms] demux_loop_step [OF _ demux_head_prefix [OF f(1,2)], of x ms] f by simp
  next
    case False
    then have "2 \<le> length b \<and> demux_head b = Some (Inl e)"
      using less.prems by (subst (asm) demux_loop.simps) (auto split: if_splits option.splits sum.splits)
    then show ?thesis using demux_head_prefix [of b "Inl e" x] by (subst demux_loop.simps) simp
  qed
qed

subsection \<open>Delivery\<close>

text \<open>A frame the server sends, of each of the three kinds.\<close>

inductive server_frame :: "InboundFrame \<Rightarrow> bool" where
  login: "encodeLoginResponseFrame r = Inr f \<Longrightarrow> server_frame \<lparr>if_kind = LoginResponseFrame, if_bytes = f\<rparr>"
| disconnect: "encodeDisconnectResponseFrame d = Inr f \<Longrightarrow> server_frame \<lparr>if_kind = DisconnectResponseFrame, if_bytes = f\<rparr>"
| update: "encodeWorldUpdateFrame u = Inr f \<Longrightarrow> server_frame \<lparr>if_kind = WorldUpdateFrame, if_bytes = f\<rparr>"

lemma response_head:
  assumes "length p \<le> MAX_COMMAND_PAYLOAD"
  shows "demux_head (store_frame CURRENT_PROTOCOL_VERSION t sid p) =
    Some (Inr (if t = word_of_int (CommandType_value Disconnect) then DisconnectResponseFrame else LoginResponseFrame, FRAME_HEADER_SIZE + length p))"
  using assms by (simp add: demux_head_def isSupportedInboundPrefix_def store_frame_layout unat_of_nat_payload Let_def)

lemma read16_frame: "read16 f off = readFrameU16 f off"
  by (simp add: read16_def readFrameU16_def)

lemma server_frame_head:
  "server_frame fr \<Longrightarrow> 2 \<le> length (if_bytes fr) \<and> demux_head (if_bytes fr) = Some (Inr (if_kind fr, length (if_bytes fr)))"
proof (induction rule: server_frame.induct)
  case (login r f)
  then have v: "lr_version r = CURRENT_PROTOCOL_VERSION" "length (lr_payload r) \<le> MAX_COMMAND_PAYLOAD"
    "lr_status r = LoginAccepted \<or> lr_status r = LoginRejected"
    by (auto simp: encodeLoginResponseFrame_def validateLoginResponse_def split: if_splits sum.splits)
  then show ?case using login response_head [OF v(2)]
    by (auto simp: encodeLoginResponseFrame_def store_frame_layout split: sum.splits)
next
  case (disconnect d f)
  then have v: "dr_version d = CURRENT_PROTOCOL_VERSION" "length (dr_payload d) \<le> MAX_COMMAND_PAYLOAD"
    by (auto simp: encodeDisconnectResponseFrame_def validateDisconnectResponse_def split: if_splits sum.splits)
  then show ?case using disconnect response_head [OF v(2)]
    by (auto simp: encodeDisconnectResponseFrame_def store_frame_layout split: sum.splits)
next
  case (update u f)
  have d: "decodeWorldUpdateFrame f = Inr u" by (rule decodeWorldUpdate_encode [OF update])
  then show ?case
    by (auto simp: decodeWorldUpdateFrame_def read32_frame read16_frame demux_head_def isSupportedInboundPrefix_def Let_def split: if_splits)
qed

lemma demux_loop_frames:
  "list_all server_frame fs \<Longrightarrow> demux_loop (concat (map if_bytes fs)) ms = ([], ms @ fs, None)"
proof (induction fs arbitrary: ms)
  case Nil
  then show ?case by (subst demux_loop.simps) simp
next
  case (Cons fr fs)
  note h = server_frame_head [of fr]
  have "demux_head (if_bytes fr @ concat (map if_bytes fs)) = Some (Inr (if_kind fr, length (if_bytes fr)))"
    using h Cons.prems by (intro demux_head_prefix) auto
  then show ?case using Cons h demux_loop_step [of "if_bytes fr @ concat (map if_bytes fs)" "if_kind fr" "length (if_bytes fr)" ms] by simp
qed

lemma Demux_append_open:
  "demux_loop (buf @ c) [] = (buf', fs, None) \<Longrightarrow> Demux_append \<lparr>dx_buffered = buf, dx_failedState = False\<rparr> c =
     (\<lparr>dx_buffered = buf', dx_failedState = False\<rparr>, fs, None)"
  by (simp add: Demux_append_def)

text \<open>A stream the loop accepts whole is accepted in any pieces, with the same frames and the same rest.\<close>

lemma demux_feed:
  assumes "demux_loop (buf @ concat chunks) [] = (b, fs, None)" and "demux_loop buf [] = (buf, [], None)"
  shows "feed_all Demux_append \<lparr>dx_buffered = buf, dx_failedState = False\<rparr> chunks = (\<lparr>dx_buffered = b, dx_failedState = False\<rparr>, fs, None)"
  using assms
proof (induction chunks arbitrary: buf fs)
  case Nil
  then show ?case by simp
next
  case (Cons c cs)
  obtain buf' gs r where l: "demux_loop (buf @ c) [] = (buf', gs, r)" by (metis prod_cases3)
  show ?case
  proof (cases r)
    case None
    have rest: "demux_loop buf' [] = (buf', [], None)" using demux_loop_idle l None by blast
    have "demux_loop (buf @ c @ concat cs) [] = demux_loop (buf' @ concat cs) gs"
      using demux_loop_resume [of "buf @ c" "[]"] l None by simp
    then obtain hs where "demux_loop (buf' @ concat cs) [] = (b, hs, None)" and "fs = gs @ hs"
      using Cons.prems(1) demux_loop_acc [of "buf' @ concat cs" gs "[]"] by (auto split: prod.splits)
    then show ?thesis using Cons.IH [OF _ rest] Demux_append_open l None by simp
  next
    case (Some e)
    then show ?thesis using demux_loop_fail [of "buf @ c" "[]" _ _ e "concat cs"] l Cons.prems(1) by simp
  qed
qed

text \<open>
  Property C20. However the server's stream of login responses, disconnect responses and world updates is
  cut into pieces, the demultiplexer hands out exactly the frames that were sent, whole, in order and each
  with its kind, and keeps no byte back.
\<close>

theorem demux_delivers:
  assumes "list_all server_frame fs" and "concat chunks = concat (map if_bytes fs)"
  shows "feed_all Demux_append Demux_new chunks = (Demux_new, fs, None)"
  using demux_feed [of "[]" chunks] demux_loop_frames [OF assms(1), of "[]"] demux_loop_frames [of "[]" "[]"] assms(2)
  by (simp add: Demux_new_def)

theorem demux_delivers_witness:
  "\<exists>l. encodeLoginResponseFrame \<lparr>lr_version = CURRENT_PROTOCOL_VERSION, lr_status = LoginAccepted, lr_sessionId = 7, lr_payload = []\<rparr> = Inr l \<and>
     feed_all Demux_append Demux_new [take 3 l, drop 3 l @ take 9 l, drop 9 l] =
       (Demux_new, [\<lparr>if_kind = LoginResponseFrame, if_bytes = l\<rparr>, \<lparr>if_kind = LoginResponseFrame, if_bytes = l\<rparr>], None)"
proof -
  let ?r = "\<lparr>lr_version = CURRENT_PROTOCOL_VERSION, lr_status = LoginAccepted, lr_sessionId = 7, lr_payload = []\<rparr>"
  obtain l where l: "encodeLoginResponseFrame ?r = Inr l" by (simp add: encodeLoginResponseFrame_def validateLoginResponse_def)
  have "concat [take 3 l, drop 3 l @ take 9 l, drop 9 l] = l @ l" by simp
  then show ?thesis using demux_delivers [of "[\<lparr>if_kind = LoginResponseFrame, if_bytes = l\<rparr>, \<lparr>if_kind = LoginResponseFrame, if_bytes = l\<rparr>]"
      "[take 3 l, drop 3 l @ take 9 l, drop 9 l]"] server_frame.login [OF l] l by auto
qed

end
