(* ===== verification/Client_Transport.thy ===== *)
theory Client_Transport
  imports Client_Receiver Client_Demux
begin

text \<open>
  \<open>ClientTransportShell.cpp\<close> with \<open>TransportWaitDeadline.cpp\<close> and \<open>TransportErrorDetail.cpp\<close>: the client's
  connection. Inbound bytes pass the demultiplexer, responses change the login state, world updates go to
  the receiver, and commands leave through the outbound queue. What the kernel returns (\<open>socket\<close>, \<open>connect\<close>,
  \<open>poll\<close>, \<open>recv\<close>, \<open>send\<close>, \<open>fcntl\<close>) is an argument; the clock is a sequence of readings. A
  function with an \<open>error\<close> out-parameter takes the message it finds there and returns the one it leaves.
\<close>

subsection \<open>The clock and the deadlines\<close>

text \<open>An object behind \<open>MonotonicClockPort\<close>: the reading of each call of \<open>nowMs\<close>, and how many there were.\<close>

record Clock =
  ck_now :: "nat \<Rightarrow> u64"
  ck_reads :: nat

definition nowMs :: "Clock \<Rightarrow> u64" where
  "nowMs c = ck_now c (ck_reads c)"

definition after_read :: "Clock \<Rightarrow> Clock" where
  "after_read c = c\<lparr>ck_reads := Suc (ck_reads c)\<rparr>"

text \<open>\<open>TransportWaitDeadline\<close> is its \<open>deadlineMs\<close>; zero is the value of a deadline that is not armed.\<close>

definition Deadline_arm :: "Clock option \<Rightarrow> u64 \<Rightarrow> u64 \<times> Clock option" where
  "Deadline_arm clock timeoutMs =
     (case clock of
        None \<Rightarrow> (0, None)
      | Some c \<Rightarrow> if timeoutMs = 0 then (0, clock) else (nowMs c + timeoutMs, Some (after_read c)))"

definition Deadline_isArmed :: "u64 \<Rightarrow> bool" where
  "Deadline_isArmed deadlineMs \<longleftrightarrow> deadlineMs > 0"

definition Deadline_isExpired :: "Clock option \<Rightarrow> u64 \<Rightarrow> bool \<times> Clock option" where
  "Deadline_isExpired clock deadlineMs =
     (case clock of
        None \<Rightarrow> (False, None)
      | Some c \<Rightarrow> if \<not> Deadline_isArmed deadlineMs then (False, clock) else (nowMs c \<ge> deadlineMs, Some (after_read c)))"

record TransportTimeouts =
  loginResponseWaitMs :: u64
  snapshotWaitMs :: u64
  connectTimeoutMs :: u64

subsection \<open>Errors\<close>

datatype TransportErrorReason = ReasonNone | ReasonConnectTimeout | ReasonLoginResponseTimeout | ReasonSnapshotWaitTimeout
  | ReasonPeerClosed | ReasonReadFailed | ReasonWriteFailed | ReasonProtocolError | ReasonLoginRejected

definition with_context :: "string \<Rightarrow> string \<Rightarrow> string" where
  "with_context name context = (if context = [] then name else name @ '': '' @ context)"

fun formatTransportErrorDetail :: "TransportErrorReason \<Rightarrow> string \<Rightarrow> string" where
  "formatTransportErrorDetail ReasonNone context = []"
| "formatTransportErrorDetail ReasonConnectTimeout context = ''connect timed out''"
| "formatTransportErrorDetail ReasonLoginResponseTimeout context = ''login response wait timed out''"
| "formatTransportErrorDetail ReasonSnapshotWaitTimeout context = ''snapshot wait timed out''"
| "formatTransportErrorDetail ReasonPeerClosed context = ''peer closed connection''"
| "formatTransportErrorDetail ReasonReadFailed context = with_context ''read failed'' context"
| "formatTransportErrorDetail ReasonWriteFailed context = with_context ''write failed'' context"
| "formatTransportErrorDetail ReasonProtocolError context = with_context ''protocol error'' context"
| "formatTransportErrorDetail ReasonLoginRejected context = with_context ''login rejected'' context"

subsection \<open>The shell\<close>

datatype TransportLinkState = LinkDisconnected | LinkConnected | LinkFailed
datatype TransportAuthState = Anonymous | LoggedIn

text \<open>\<open>ts_closed\<close> is not a member of the class: it lists the descriptors given to \<open>::close\<close>, in order.\<close>

record Shell =
  ts_clientSocket :: int
  ts_link :: TransportLinkState
  ts_auth :: TransportAuthState
  ts_localSessionId :: int
  ts_snapshotCommandQueued :: bool
  ts_disconnectQueued :: bool
  ts_outboundFrames :: OutboundFrameQueue
  ts_inbound :: Demux
  ts_receiver :: Receiver
  ts_clock :: "Clock option"
  ts_timeouts :: TransportTimeouts
  ts_lastErrorReason :: TransportErrorReason
  ts_lastErrorDetailText :: string
  ts_reconnectCounter :: u32
  ts_snapshotRequestCounter :: u32
  ts_reconnectPending :: bool
  ts_loginResponseDeadline :: u64
  ts_snapshotWaitDeadline :: u64
  ts_closed :: "int list"

definition Shell_new :: Shell where
  "Shell_new = \<lparr>ts_clientSocket = - 1, ts_link = LinkDisconnected, ts_auth = Anonymous, ts_localSessionId = 0,
     ts_snapshotCommandQueued = False, ts_disconnectQueued = False, ts_outboundFrames = [], ts_inbound = Demux_new,
     ts_receiver = Receiver_new, ts_clock = None,
     ts_timeouts = \<lparr>loginResponseWaitMs = 0, snapshotWaitMs = 0, connectTimeoutMs = 0\<rparr>,
     ts_lastErrorReason = ReasonNone, ts_lastErrorDetailText = [], ts_reconnectCounter = 0, ts_snapshotRequestCounter = 0,
     ts_reconnectPending = False, ts_loginResponseDeadline = 0, ts_snapshotWaitDeadline = 0, ts_closed = []\<rparr>"

definition Shell_isOpen :: "Shell \<Rightarrow> bool" where
  "Shell_isOpen s \<longleftrightarrow> ts_clientSocket s \<ge> 0"

definition Shell_setClock :: "Clock option \<Rightarrow> Shell \<Rightarrow> Shell" where
  "Shell_setClock injectedClock s = s\<lparr>ts_clock := injectedClock\<rparr>"

definition Shell_setTimeouts :: "TransportTimeouts \<Rightarrow> Shell \<Rightarrow> Shell" where
  "Shell_setTimeouts configured s = s\<lparr>ts_timeouts := configured\<rparr>"

definition recordError :: "TransportErrorReason \<Rightarrow> string \<Rightarrow> Shell \<Rightarrow> Shell" where
  "recordError reason context s =
     s\<lparr>ts_lastErrorReason := reason, ts_lastErrorDetailText := formatTransportErrorDetail reason context\<rparr>"

definition clearWaitDeadlines :: "Shell \<Rightarrow> Shell" where
  "clearWaitDeadlines s = s\<lparr>ts_loginResponseDeadline := 0, ts_snapshotWaitDeadline := 0\<rparr>"

definition armLoginResponseWaitIfNeeded :: "Shell \<Rightarrow> Shell" where
  "armLoginResponseWaitIfNeeded s =
     (if \<not> ts_reconnectPending s \<or> ts_auth s \<noteq> Anonymous then s\<lparr>ts_loginResponseDeadline := 0\<rparr>
      else case Deadline_arm (ts_clock s) (loginResponseWaitMs (ts_timeouts s)) of
        (d, clock) \<Rightarrow> s\<lparr>ts_loginResponseDeadline := d, ts_clock := clock\<rparr>)"

definition armSnapshotWaitIfNeeded :: "Shell \<Rightarrow> Shell" where
  "armSnapshotWaitIfNeeded s =
     (if ts_auth s \<noteq> LoggedIn \<or> \<not> rv_needsSnapshot (ts_receiver s) then s\<lparr>ts_snapshotWaitDeadline := 0\<rparr>
      else case Deadline_arm (ts_clock s) (snapshotWaitMs (ts_timeouts s)) of
        (d, clock) \<Rightarrow> s\<lparr>ts_snapshotWaitDeadline := d, ts_clock := clock\<rparr>)"

definition noteSnapshotRequestQueued :: "Shell \<Rightarrow> Shell" where
  "noteSnapshotRequestQueued s = armSnapshotWaitIfNeeded (s\<lparr>ts_snapshotRequestCounter := ts_snapshotRequestCounter s + 1\<rparr>)"

definition noteReconnectCompletedIfReady :: "Shell \<Rightarrow> Shell" where
  "noteReconnectCompletedIfReady s =
     (if \<not> ts_reconnectPending s \<or> ts_auth s \<noteq> LoggedIn \<or> rv_needsSnapshot (ts_receiver s) then s
      else recordError ReasonNone [] (s\<lparr>ts_reconnectCounter := ts_reconnectCounter s + 1, ts_reconnectPending := False\<rparr>))"

text \<open>\<open>markFailed\<close>: the socket is closed, the link failed, the login forgotten.\<close>

definition close_socket :: "Shell \<Rightarrow> Shell" where
  "close_socket s =
     (if ts_clientSocket s \<ge> 0 then s\<lparr>ts_closed := ts_closed s @ [ts_clientSocket s], ts_clientSocket := - 1\<rparr> else s)"

definition markFailed :: "TransportErrorReason \<Rightarrow> string \<Rightarrow> Shell \<Rightarrow> Shell" where
  "markFailed reason context s =
     clearWaitDeadlines ((close_socket (recordError reason context s))\<lparr>ts_link := LinkFailed, ts_auth := Anonymous,
       ts_disconnectQueued := False\<rparr>)"

text \<open>\<open>close\<close>; \<open>::shutdown\<close> and the return value of \<open>::close\<close> change nothing in the shell.\<close>

definition Shell_close :: "Shell \<Rightarrow> Shell" where
  "Shell_close s =
     (let link = (if ts_link s \<noteq> LinkFailed then LinkDisconnected else ts_link s) in
      if ts_clientSocket s < 0 then s\<lparr>ts_link := link\<rparr>
      else (close_socket s)\<lparr>ts_link := link, ts_auth := Anonymous\<rparr>)"

definition checkDeadlines :: "string \<Rightarrow> Shell \<Rightarrow> bool \<times> string \<times> Shell" where
  "checkDeadlines error s =
     (if ts_clock s = None then (True, error, s)
      else case Deadline_isExpired (ts_clock s) (ts_loginResponseDeadline s) of
        (loginExpired, clock1) \<Rightarrow>
          let s1 = s\<lparr>ts_clock := clock1\<rparr> in
          if loginExpired then let s2 = markFailed ReasonLoginResponseTimeout [] s1 in (False, ts_lastErrorDetailText s2, s2)
          else case Deadline_isExpired (ts_clock s1) (ts_snapshotWaitDeadline s1) of
            (snapshotExpired, clock2) \<Rightarrow>
              let s2 = s1\<lparr>ts_clock := clock2\<rparr> in
              if snapshotExpired \<and> ts_auth s2 = LoggedIn \<and> rv_needsSnapshot (ts_receiver s2)
              then let s3 = markFailed ReasonSnapshotWaitTimeout [] s2 in (False, ts_lastErrorDetailText s3, s3)
              else (True, error, s2))"

definition setNonBlocking :: "bool \<Rightarrow> string \<Rightarrow> Shell \<Rightarrow> bool \<times> string \<times> Shell" where
  "setNonBlocking fcntlOk error s =
     (if fcntlOk then (True, error, s)
      else (False, ''client socket could not be set non-blocking'',
            markFailed ReasonProtocolError ''client socket could not be set non-blocking'' s))"

text \<open>What \<open>connectTcp\<close> and \<open>attachConnectedSocket\<close> end with, once the shell owns the socket.\<close>

definition open_link :: "bool \<Rightarrow> string \<Rightarrow> Shell \<Rightarrow> bool \<times> string \<times> Shell" where
  "open_link fcntlOk error s =
     (case setNonBlocking fcntlOk error s of
        (False, e, s1) \<Rightarrow> (False, e, s1)
      | (True, e, s1) \<Rightarrow> (True, [], armLoginResponseWaitIfNeeded (s1\<lparr>ts_link := LinkConnected\<rparr>)))"

definition attachConnectedSocket :: "bool \<Rightarrow> int \<Rightarrow> string \<Rightarrow> Shell \<Rightarrow> bool \<times> string \<times> Shell" where
  "attachConnectedSocket fcntlOk socketFd error s =
     (if ts_clientSocket s \<ge> 0 then (False, ''client transport is already connected'', s)
      else if socketFd < 0 then (False, ''client transport socket is invalid'', s)
      else open_link fcntlOk error (s\<lparr>ts_clientSocket := socketFd\<rparr>))"

subsection \<open>connectTcp\<close>

datatype ConnectOutcome = ConnectDone | ConnectInProgress | ConnectError
datatype PollOutcome = PollReady | PollTimeout | PollInterrupted | PollError

text \<open>
  What the kernel answers during one \<open>connectTcp\<close>: the new descriptor; whether \<open>inet_pton\<close> accepts the
  host; the first \<open>fcntl\<close> pair; \<open>connect\<close>; the \<open>i\<close>-th \<open>poll\<close> with a given timeout; \<open>SO_ERROR\<close> (\<open>None\<close> when
  \<open>getsockopt\<close> fails); the last \<open>fcntl\<close> pair.
\<close>

record ConnectCalls =
  cc_socket :: int
  cc_hostUsable :: bool
  cc_fcntlBefore :: bool
  cc_connect :: ConnectOutcome
  cc_poll :: "nat \<Rightarrow> u64 \<Rightarrow> PollOutcome"
  cc_soError :: "int option"
  cc_fcntlAfter :: bool

definition socketConnectCompleted :: "int option \<Rightarrow> unit result" where
  "socketConnectCompleted soError =
     (case soError of
        None \<Rightarrow> Inl ''client tcp connect status check failed''
      | Some e \<Rightarrow> if e \<noteq> 0 then Inl ''client tcp connect failed'' else Inr ())"

text \<open>The \<open>while (true)\<close> loop: how it ends, and the clock then. A loop that never ends has the value \<open>None\<close>.\<close>

datatype ConnectWait = WaitTimedOut | WaitFailed string | WaitConnected

definition poll_timeout :: "u64 \<Rightarrow> u64 \<Rightarrow> u64" where
  "poll_timeout deadlineMs now = (let remainingMs = deadlineMs - now in if remainingMs > 50 then 50 else remainingMs)"

partial_function (option) connect_wait :: "ConnectCalls \<Rightarrow> u64 \<Rightarrow> nat \<Rightarrow> Clock \<Rightarrow> (ConnectWait \<times> Clock) option" where
  "connect_wait calls deadlineMs i c =
     (if nowMs c \<ge> deadlineMs then Some (WaitTimedOut, after_read c)
      else case cc_poll calls i (poll_timeout deadlineMs (nowMs (after_read c))) of
        PollInterrupted \<Rightarrow> connect_wait calls deadlineMs (Suc i) (after_read (after_read c))
      | PollTimeout \<Rightarrow> connect_wait calls deadlineMs (Suc i) (after_read (after_read c))
      | PollError \<Rightarrow> Some (WaitFailed ''client tcp connect poll failed'', after_read (after_read c))
      | PollReady \<Rightarrow>
          Some (case socketConnectCompleted (cc_soError calls) of Inl e \<Rightarrow> WaitFailed e | Inr _ \<Rightarrow> WaitConnected,
                after_read (after_read c)))"

text \<open>A failure before the shell owns the descriptor: it is closed and the link failed.\<close>

definition give_up :: "int \<Rightarrow> string \<Rightarrow> Shell \<Rightarrow> bool \<times> string \<times> Shell" where
  "give_up fd message s = (False, message, s\<lparr>ts_closed := ts_closed s @ [fd], ts_link := LinkFailed\<rparr>)"

definition adopt_socket :: "ConnectCalls \<Rightarrow> string \<Rightarrow> Shell \<Rightarrow> bool \<times> string \<times> Shell" where
  "adopt_socket calls error s = open_link (cc_fcntlAfter calls) error (s\<lparr>ts_clientSocket := cc_socket calls\<rparr>)"

definition wait_for_connect :: "ConnectCalls \<Rightarrow> string \<Rightarrow> Clock \<Rightarrow> Shell \<Rightarrow> (bool \<times> string \<times> Shell) option" where
  "wait_for_connect calls error c s =
     (case connect_wait calls (nowMs c + connectTimeoutMs (ts_timeouts s)) 0 (after_read c) of
        None \<Rightarrow> None
      | Some (r, c') \<Rightarrow>
          let s1 = s\<lparr>ts_clock := Some c'\<rparr> in
          Some (case r of
              WaitTimedOut \<Rightarrow>
                let s2 = markFailed ReasonConnectTimeout [] (s1\<lparr>ts_closed := ts_closed s1 @ [cc_socket calls]\<rparr>) in
                (False, ts_lastErrorDetailText s2, s2)
            | WaitFailed message \<Rightarrow> give_up (cc_socket calls) message s1
            | WaitConnected \<Rightarrow> adopt_socket calls error s1))"

definition connectTcp :: "ConnectCalls \<Rightarrow> string option \<Rightarrow> u16 \<Rightarrow> string \<Rightarrow> Shell \<Rightarrow> (bool \<times> string \<times> Shell) option" where
  "connectTcp calls host port error s =
     (if ts_clientSocket s \<ge> 0 then Some (False, ''client transport is already connected'', s)
      else if host = None \<or> port = 0 then Some (False, ''client transport address is invalid'', s)
      else if cc_socket calls < 0 then Some (False, ''client socket create failed'', s\<lparr>ts_link := LinkFailed\<rparr>)
      else if \<not> cc_hostUsable calls
      then Some (give_up (cc_socket calls) ''client transport host is not a usable IPv4 address'' s)
      else
        let useConnectTimeout = (ts_clock s \<noteq> None \<and> connectTimeoutMs (ts_timeouts s) > 0) in
        if useConnectTimeout \<and> \<not> cc_fcntlBefore calls
        then Some (give_up (cc_socket calls) ''client socket could not be set non-blocking'' s)
        else (case (cc_connect calls, ts_clock s) of
            (ConnectDone, _) \<Rightarrow> Some (adopt_socket calls error s)
          | (ConnectInProgress, Some c) \<Rightarrow>
              if useConnectTimeout then wait_for_connect calls error c s
              else Some (give_up (cc_socket calls) ''client tcp connect failed'' s)
          | _ \<Rightarrow> Some (give_up (cc_socket calls) ''client tcp connect failed'' s)))"

subsection \<open>Commands\<close>

definition Shell_beginReconnect :: "Shell \<Rightarrow> Shell" where
  "Shell_beginReconnect s =
     (let s1 = clearWaitDeadlines ((Shell_close s)\<lparr>ts_inbound := Demux_reset (ts_inbound s), ts_outboundFrames := [],
            ts_auth := Anonymous, ts_localSessionId := 0, ts_snapshotCommandQueued := False, ts_disconnectQueued := False\<rparr>) in
      s1\<lparr>ts_reconnectPending := True, ts_receiver := Receiver_beginReconnect (ts_receiver s1)\<rparr>)"

definition enqueueCommand :: "NetworkCommand \<Rightarrow> string \<Rightarrow> Shell \<Rightarrow> bool \<times> string \<times> Shell" where
  "enqueueCommand command error s =
     (if \<not> Shell_isOpen s then (False, ''client transport is closed'', s)
      else case encodeFrame command of
        Inl e \<Rightarrow> (False, e, s)
      | Inr frame \<Rightarrow>
          (case OutboundFrameQueue_enqueue (ts_outboundFrames s) frame of
             Inl e \<Rightarrow> (False, e, s)
           | Inr frames \<Rightarrow> (True, [], s\<lparr>ts_outboundFrames := frames\<rparr>)))"

definition enqueueLogin :: "string \<Rightarrow> string \<Rightarrow> Shell \<Rightarrow> bool \<times> string \<times> Shell" where
  "enqueueLogin claimedId error s =
     enqueueCommand \<lparr>cmd_version = CURRENT_PROTOCOL_VERSION, cmd_type = Login, cmd_sessionId = 0, cmd_payload = claimedId\<rparr> error s"

definition enqueueDisconnect :: "string \<Rightarrow> Shell \<Rightarrow> bool \<times> string \<times> Shell" where
  "enqueueDisconnect error s =
     (if ts_auth s \<noteq> LoggedIn then (False, ''disconnect requires a logged-in session'', s)
      else case enqueueCommand \<lparr>cmd_version = CURRENT_PROTOCOL_VERSION, cmd_type = Disconnect, cmd_sessionId = ts_localSessionId s,
             cmd_payload = []\<rparr> error s of
        (False, e, s1) \<Rightarrow> (False, e, s1)
      | (True, e, s1) \<Rightarrow> (True, e, s1\<lparr>ts_disconnectQueued := True\<rparr>))"

definition enqueueRequestSnapshotIfNeeded :: "string \<Rightarrow> Shell \<Rightarrow> bool \<times> string \<times> Shell" where
  "enqueueRequestSnapshotIfNeeded error s =
     (if ts_snapshotCommandQueued s \<or> ts_auth s \<noteq> LoggedIn then (True, error, s)
      else case Receiver_tryBuildRequestSnapshotCommand (ts_receiver s) of
        None \<Rightarrow> (True, error, s)
      | Some command \<Rightarrow>
          (case enqueueCommand command error s of
             (False, e, s1) \<Rightarrow> (False, e, s1)
           | (True, e, s1) \<Rightarrow> (True, e, noteSnapshotRequestQueued (s1\<lparr>ts_snapshotCommandQueued := True\<rparr>))))"

text \<open>\<open>flushOutbound\<close>: the status, the message, the bytes the kernel took and the shell.\<close>

definition Shell_flushOutbound :: "(nat \<Rightarrow> SendOutcome) \<Rightarrow> string \<Rightarrow> Shell \<Rightarrow> SendStatus \<times> string \<times> u8 list \<times> Shell" where
  "Shell_flushOutbound send error s =
     (if \<not> Shell_isOpen s then (SendClosed, ''client transport is closed'', [], s)
      else case OutboundFrameQueue_front (ts_outboundFrames s) of
        None \<Rightarrow> (SendNoData, error, [], s)
      | Some frame \<Rightarrow>
          (case send (length frame) of
             SendError e \<Rightarrow>
               if e = EAGAIN \<or> e = EWOULDBLOCK \<or> e = EINTR then (SendNoData, error, [], s)
               else if e = ECONNRESET \<or> e = EPIPE then (SendClosed, error, [], Shell_close (recordError ReasonPeerClosed [] s))
               else (SendFailed, ''client socket write failed'', [], markFailed ReasonWriteFailed ''client socket write failed'' s)
           | SendBytes sent \<Rightarrow>
               if sent = 0 then (SendNoData, error, [], s)
               else (case OutboundFrameQueue_consumeFront (ts_outboundFrames s) sent of
                   None \<Rightarrow> (SendFailed, ''outbound frame progress is invalid'', [],
                       markFailed ReasonWriteFailed ''outbound frame progress is invalid'' s)
                 | Some frames \<Rightarrow> (Sent, [], take sent frame, s\<lparr>ts_outboundFrames := frames\<rparr>))))"

lemma Shell_flush_work:
  "Shell_flushOutbound send error s = (Sent, e, w, s') \<Longrightarrow> outbound_work (ts_outboundFrames s') < outbound_work (ts_outboundFrames s)"
  by (auto simp: Shell_flushOutbound_def intro: consumeFront_work split: if_splits option.splits SendOutcome.splits)

text \<open>The loop of \<open>pump\<close> over \<open>flushOutbound\<close>; the first component is false for its early return.\<close>

function pump_flush :: "(nat \<Rightarrow> nat \<Rightarrow> SendOutcome) \<Rightarrow> nat \<Rightarrow> string \<Rightarrow> u8 list \<Rightarrow> Shell \<Rightarrow> bool \<times> string \<times> u8 list \<times> Shell" where
  "pump_flush net i error wire s =
     (if ts_outboundFrames s = [] then (True, error, wire, s)
      else case Shell_flushOutbound (net i) error s of
        (status, e, w, s1) \<Rightarrow>
          if status = SendNoData then (True, e, wire @ w, s1)
          else if status \<noteq> Sent then (False, e, wire @ w, s1)
          else pump_flush net (Suc i) e (wire @ w) s1)"
  by pat_completeness auto
termination
  by (relation "measure (\<lambda>(net, i, error, wire, s). outbound_work (ts_outboundFrames s))")
    (auto intro: Shell_flush_work [OF sym])

declare pump_flush.simps [simp del]

subsection \<open>Inbound frames\<close>

definition handleLoginResponseFrame :: "u8 list \<Rightarrow> string \<Rightarrow> Shell \<Rightarrow> bool \<times> string \<times> Shell" where
  "handleLoginResponseFrame bytes error s =
     (case decodeLoginResponseFrame bytes of
        Inl e \<Rightarrow> (False, e, markFailed ReasonProtocolError e s)
      | Inr response \<Rightarrow>
          if lr_status response \<noteq> LoginAccepted
          then let rejection = (if lr_payload response = [] then ''login was rejected'' else lr_payload response);
                   s1 = markFailed ReasonLoginRejected rejection s
               in (False, ts_lastErrorDetailText s1, s1)
          else (True, [], armSnapshotWaitIfNeeded (s\<lparr>ts_localSessionId := lr_sessionId response, ts_auth := LoggedIn,
                 ts_receiver := Receiver_bindLocalSession (lr_sessionId response) (ts_receiver s), ts_loginResponseDeadline := 0\<rparr>)))"

definition applyDisconnectResponse :: "DisconnectResponse \<Rightarrow> Shell \<Rightarrow> Shell" where
  "applyDisconnectResponse response s =
     (if \<not> ts_disconnectQueued s then s
      else if dr_status response = DisconnectRejected then s\<lparr>ts_disconnectQueued := False\<rparr>
      else if dr_sessionId response \<noteq> ts_localSessionId s then s
      else Shell_beginReconnect s)"

definition handleDisconnectResponseFrame :: "u8 list \<Rightarrow> string \<Rightarrow> Shell \<Rightarrow> bool \<times> string \<times> Shell" where
  "handleDisconnectResponseFrame bytes error s =
     (case decodeDisconnectResponseFrame bytes of
        Inl e \<Rightarrow> (False, e, markFailed ReasonProtocolError e s)
      | Inr response \<Rightarrow> (True, [], applyDisconnectResponse response s))"

text \<open>The loop over the frames: whether it ended, the message, the world bytes, \<open>disconnectAccepted\<close> and the shell.\<close>

fun handle_frames :: "InboundFrame list \<Rightarrow> u8 list \<Rightarrow> bool \<Rightarrow> string \<Rightarrow> Shell \<Rightarrow> bool \<times> string \<times> u8 list \<times> bool \<times> Shell" where
  "handle_frames [] worldBytes disconnectAccepted error s = (True, error, worldBytes, disconnectAccepted, s)"
| "handle_frames (it # frames) worldBytes disconnectAccepted error s =
     (case if_kind it of
        LoginResponseFrame \<Rightarrow>
          (case handleLoginResponseFrame (if_bytes it) error s of
             (False, e, s1) \<Rightarrow> (False, e, worldBytes, disconnectAccepted, s1)
           | (True, e, s1) \<Rightarrow> handle_frames frames worldBytes disconnectAccepted e s1)
      | DisconnectResponseFrame \<Rightarrow>
          (case handleDisconnectResponseFrame (if_bytes it) error s of
             (False, e, s1) \<Rightarrow> (False, e, worldBytes, disconnectAccepted, s1)
           | (True, e, s1) \<Rightarrow> handle_frames frames worldBytes (disconnectAccepted \<or> ts_reconnectPending s1) e s1)
      | WorldUpdateFrame \<Rightarrow> handle_frames frames (worldBytes @ if_bytes it) disconnectAccepted error s)"

definition handleInboundFrames :: "InboundFrame list \<Rightarrow> string \<Rightarrow> Shell \<Rightarrow> bool \<times> string \<times> Shell" where
  "handleInboundFrames frames error s =
     (case handle_frames frames [] False error s of
        (False, e, _, _, s1) \<Rightarrow> (False, e, s1)
      | (True, e, worldBytes, disconnectAccepted, s1) \<Rightarrow>
          if disconnectAccepted \<or> worldBytes = [] then (True, [], s1)
          else (case Receiver_receive worldBytes e (ts_receiver s1) of
              (ok, applied, e2, rv) \<Rightarrow>
                let s2 = s1\<lparr>ts_receiver := rv\<rparr> in
                if \<not> ok \<and> rv_decision rv \<noteq> ReceiveRequestSnapshot then (False, e2, markFailed ReasonProtocolError e2 s2)
                else if \<not> rv_needsSnapshot rv
                then (True, [], noteReconnectCompletedIfReady (s2\<lparr>ts_snapshotCommandQueued := False, ts_snapshotWaitDeadline := 0\<rparr>))
                else (True, [], s2)))"

subsection \<open>pump\<close>

text \<open>The part of \<open>pump\<close> up to the second \<open>checkDeadlines\<close>: one \<open>recv\<close> and what it brought.\<close>

definition pump_receive :: "RecvOutcome \<Rightarrow> string \<Rightarrow> Shell \<Rightarrow> bool \<times> string \<times> Shell" where
  "pump_receive outcome error s =
     (case outcome of
        RecvEof \<Rightarrow> let s1 = recordError ReasonPeerClosed [] s in (False, ts_lastErrorDetailText s1, Shell_close s1)
      | RecvError e \<Rightarrow>
          if e = EAGAIN \<or> e = EWOULDBLOCK \<or> e = EINTR then (True, error, s)
          else if e = ECONNRESET \<or> e = EPIPE
          then let s1 = recordError ReasonPeerClosed [] s in (False, ts_lastErrorDetailText s1, Shell_close s1)
          else (False, ''client socket read failed'', markFailed ReasonReadFailed ''client socket read failed'' s)
      | RecvBytes input \<Rightarrow>
          (case Demux_append (ts_inbound s) input of
             (inbound, frames, Some e) \<Rightarrow> (False, e, markFailed ReasonProtocolError e (s\<lparr>ts_inbound := inbound\<rparr>))
           | (inbound, frames, None) \<Rightarrow> handleInboundFrames frames [] (s\<lparr>ts_inbound := inbound\<rparr>)))"

definition pump :: "RecvOutcome \<Rightarrow> (nat \<Rightarrow> nat \<Rightarrow> SendOutcome) \<Rightarrow> string \<Rightarrow> Shell \<Rightarrow> bool \<times> string \<times> u8 list \<times> Shell" where
  "pump outcome net error s =
     (if dx_failedState (ts_inbound s) \<or> ts_link s = LinkFailed then (False, ''client transport is failed'', [], s)
      else if \<not> Shell_isOpen s then (False, ''client transport is closed'', [], s)
      else case checkDeadlines error s of
        (False, e1, s1) \<Rightarrow> (False, e1, [], s1)
      | (True, e1, s1) \<Rightarrow>
          (case pump_receive outcome e1 s1 of
             (False, e2, s2) \<Rightarrow> (False, e2, [], s2)
           | (True, e2, s2) \<Rightarrow>
               (case checkDeadlines e2 s2 of
                  (False, e3, s3) \<Rightarrow> (False, e3, [], s3)
                | (True, e3, s3) \<Rightarrow>
                    (case enqueueRequestSnapshotIfNeeded e3 s3 of
                       (False, e4, s4) \<Rightarrow> (False, e4, [], s4)
                     | (True, e4, s4) \<Rightarrow>
                         (case pump_flush net 0 e4 [] s4 of
                            (False, e5, wire, s5) \<Rightarrow> (False, e5, wire, s5)
                          | (True, e5, wire, s5) \<Rightarrow> (True, [], wire, noteReconnectCompletedIfReady s5))))))"

subsection \<open>Connecting ends\<close>

lemma poll_timeout_le: "poll_timeout deadlineMs now \<le> 50"
  by (auto simp: poll_timeout_def Let_def not_less)

lemma connect_wait_returns:
  assumes "mono (ck_now c)" and "deadlineMs \<le> ck_now c n"
  shows "\<exists>r c'. connect_wait calls deadlineMs i c = Some (r, c')"
  using assms
proof (induction "n - ck_reads c" arbitrary: i c rule: less_induct)
  case less
  let ?c = "after_read (after_read c)"
  show ?case
  proof (cases "deadlineMs \<le> nowMs c")
    case True
    then show ?thesis by (subst connect_wait.simps) (simp add: after_read_def)
  next
    case False
    then have "ck_reads c < n" using less.prems monoD [OF less.prems(1), of n "ck_reads c"] by (force simp: nowMs_def)
    then have "n - ck_reads ?c < n - ck_reads c" by (simp add: after_read_def)
    then have "\<exists>r c'. connect_wait calls deadlineMs (Suc i) ?c = Some (r, c')"
      using less.prems by (intro less.hyps) (simp_all add: after_read_def)
    then show ?thesis using False by (subst connect_wait.simps) (simp add: after_read_def split: PollOutcome.split)
  qed
qed

text \<open>How an attempt that owned a descriptor ends.\<close>

definition settled :: "ConnectCalls \<Rightarrow> bool \<times> string \<times> Shell \<Rightarrow> bool" where
  "settled calls r = (case r of (ok, e, s') \<Rightarrow>
     if ok then ts_clientSocket s' = cc_socket calls \<and> ts_link s' = LinkConnected
     else \<not> Shell_isOpen s' \<and> ts_link s' = LinkFailed)"

fun returns_settled :: "ConnectCalls \<Rightarrow> (bool \<times> string \<times> Shell) option \<Rightarrow> bool" where
  "returns_settled calls None = False"
| "returns_settled calls (Some r) = settled calls r"

lemma settled_give_up: "\<not> Shell_isOpen s \<Longrightarrow> settled calls (give_up fd message s)"
  by (simp add: settled_def give_up_def Shell_isOpen_def)

lemma markFailed_simps [simp]:
  "ts_link (markFailed r m s) = LinkFailed" "Shell_isOpen (markFailed r m s) = False" "ts_auth (markFailed r m s) = Anonymous"
  "ts_outboundFrames (markFailed r m s) = ts_outboundFrames s" "ts_inbound (markFailed r m s) = ts_inbound s"
  "ts_receiver (markFailed r m s) = ts_receiver s" "ts_localSessionId (markFailed r m s) = ts_localSessionId s"
  "ts_lastErrorReason (markFailed r m s) = r" "ts_lastErrorDetailText (markFailed r m s) = formatTransportErrorDetail r m"
  by (auto simp: markFailed_def recordError_def clearWaitDeadlines_def close_socket_def Shell_isOpen_def)

lemma armLogin_simps [simp]:
  "ts_link (armLoginResponseWaitIfNeeded s) = ts_link s" "ts_clientSocket (armLoginResponseWaitIfNeeded s) = ts_clientSocket s"
  "ts_auth (armLoginResponseWaitIfNeeded s) = ts_auth s" "ts_outboundFrames (armLoginResponseWaitIfNeeded s) = ts_outboundFrames s"
  "ts_inbound (armLoginResponseWaitIfNeeded s) = ts_inbound s" "ts_receiver (armLoginResponseWaitIfNeeded s) = ts_receiver s"
  "ts_localSessionId (armLoginResponseWaitIfNeeded s) = ts_localSessionId s" "ts_closed (armLoginResponseWaitIfNeeded s) = ts_closed s"
  by (auto simp: armLoginResponseWaitIfNeeded_def split: prod.splits)

lemma settled_adopt: "settled calls (adopt_socket calls error s)"
  by (simp add: settled_def adopt_socket_def open_link_def setNonBlocking_def)

lemma wait_for_connect_settled:
  assumes "mono (ck_now c)" and "nowMs c + connectTimeoutMs (ts_timeouts s) \<le> ck_now c n" and "\<not> Shell_isOpen s"
  shows "returns_settled calls (wait_for_connect calls error c s)"
proof -
  obtain w c' where "connect_wait calls (nowMs c + connectTimeoutMs (ts_timeouts s)) 0 (after_read c) = Some (w, c')"
    using connect_wait_returns [of "after_read c" "nowMs c + connectTimeoutMs (ts_timeouts s)" n calls 0] assms(1,2)
    by (auto simp: after_read_def)
  moreover have "\<not> Shell_isOpen (s\<lparr>ts_clock := Some c'\<rparr>)" using assms(3) by (simp add: Shell_isOpen_def)
  ultimately show ?thesis using settled_give_up settled_adopt
    by (cases w) (simp_all add: wait_for_connect_def Let_def, simp add: settled_def)
qed

text \<open>
  Property C13. \<open>connectTcp\<close> returns: with a clock that never goes back and that at some reading shows the
  deadline (the reading at the call plus the timeout), the waiting loop ends whatever \<open>poll\<close> answers, and
  without a clock there is no loop. If the shell was closed, the call either leaves it connected on
  the new socket or leaves it closed with the socket closed.
\<close>

theorem connect_returns:
  assumes "\<forall>c. ts_clock s = Some c \<longrightarrow> mono (ck_now c) \<and> (\<exists>n. nowMs c + connectTimeoutMs (ts_timeouts s) \<le> ck_now c n)"
  shows "\<exists>r. connectTcp calls host port error s = Some r \<and> (\<not> Shell_isOpen s \<and> host \<noteq> None \<and> port \<noteq> 0 \<longrightarrow>
    (case r of (ok, e, s') \<Rightarrow> if ok then ts_clientSocket s' = cc_socket calls \<and> ts_link s' = LinkConnected
       else \<not> Shell_isOpen s' \<and> ts_link s' = LinkFailed))"
proof (cases "Shell_isOpen s \<or> host = None \<or> port = 0 \<or> cc_socket calls < 0")
  case True
  then show ?thesis by (auto simp: connectTcp_def Shell_isOpen_def)
next
  case False
  have w: "returns_settled calls (wait_for_connect calls error c s)"
    if "ts_clock s = Some c" for c
    using wait_for_connect_settled [of c s _ calls error] assms that False by auto
  have "returns_settled calls (connectTcp calls host port error s)"
    using False settled_give_up [of s calls] settled_adopt w unfolding connectTcp_def Let_def
    by (auto simp: Shell_isOpen_def not_le split: ConnectOutcome.split option.split)
  then show ?thesis by (cases "connectTcp calls host port error s") (auto simp: settled_def)
qed

subsection \<open>What every operation keeps\<close>

text \<open>The descriptors a shell has owned: those it closed and the one it holds.\<close>

definition owned :: "Shell \<Rightarrow> int list" where
  "owned s = ts_closed s @ (if 0 \<le> ts_clientSocket s then [ts_clientSocket s] else [])"

definition shell_inv :: "Shell \<Rightarrow> bool" where
  "shell_inv s \<longleftrightarrow> (ts_link s = LinkConnected \<longleftrightarrow> 0 \<le> ts_clientSocket s) \<and> outbound_wf (ts_outboundFrames s) \<and>
     (ts_auth s = LoggedIn \<longrightarrow> 0 < ts_localSessionId s \<and> rv_localSessionId (ts_receiver s) = ts_localSessionId s) \<and>
     (dx_failedState (ts_inbound s) \<or> length (dx_buffered (ts_inbound s)) < WORLD_UPDATE_FRAME_HEADER_SIZE + MAX_UPDATE_PAYLOAD)"

definition steady :: "Shell \<Rightarrow> Shell \<Rightarrow> bool" where
  "steady s s' \<longleftrightarrow> owned s' = owned s \<and> (shell_inv s \<longrightarrow> shell_inv s')"

lemma steady_refl [simp]: "steady s s"
  by (simp add: steady_def)

lemma steady_trans [trans]: "steady s s' \<Longrightarrow> steady s' s'' \<Longrightarrow> steady s s''"
  by (simp add: steady_def)

lemma steady_owned: "steady s s' \<Longrightarrow> shell_inv s \<Longrightarrow> owned s' = owned s \<and> shell_inv s'"
  by (simp add: steady_def)

lemmas steady_defs = steady_def owned_def shell_inv_def

lemma steady_step [simp]:
  "steady s (recordError r m s)" "steady s (clearWaitDeadlines s)" "steady s (s\<lparr>ts_clock := c\<rparr>)" "steady s (Shell_setTimeouts t s)"
  "steady s (armSnapshotWaitIfNeeded s)" "steady s (noteReconnectCompletedIfReady s)" "steady s (markFailed r m s)" "steady s (Shell_close s)"
  "steady s (s\<lparr>ts_disconnectQueued := b\<rparr>)" "steady s (s\<lparr>ts_snapshotCommandQueued := b, ts_snapshotWaitDeadline := d\<rparr>)"
  by (auto simp: steady_defs recordError_def clearWaitDeadlines_def Shell_setTimeouts_def armSnapshotWaitIfNeeded_def
      noteReconnectCompletedIfReady_def markFailed_def Shell_close_def close_socket_def Let_def split: prod.splits)

lemma applyEvent_session: "applyEvent u error rv = (ok, e, rv') \<Longrightarrow> rv_localSessionId rv' = rv_localSessionId rv"
  by (auto simp: applyEvent_def Let_def split: if_splits prod.splits sum.splits)

lemma receive_updates_session:
  "receive_updates us k error rv = (ok, n, e, rv') \<Longrightarrow> rv_localSessionId rv' = rv_localSessionId rv"
proof (induction us arbitrary: k error rv)
  case (Cons u us)
  have "rv_localSessionId (adopt_snapshot u a ev rv) = rv_localSessionId rv" for a ev
    by (simp add: adopt_snapshot_def Let_def)
  then show ?case using Cons by (fastforce split: if_splits sum.splits prod.splits dest: applyEvent_session)
qed simp

lemma receive_session: "Receiver_receive bytes error rv = (ok, n, e, rv') \<Longrightarrow> rv_localSessionId rv' = rv_localSessionId rv"
  by (auto simp: Receiver_receive_def Let_def dest!: receive_updates_session split: prod.splits option.splits if_splits)

lemma demux_head_short:
  "demux_head b = None \<Longrightarrow> length b < WORLD_UPDATE_FRAME_HEADER_SIZE"
  "demux_head b = Some (Inr (k, n)) \<Longrightarrow> n \<le> WORLD_UPDATE_FRAME_HEADER_SIZE + MAX_UPDATE_PAYLOAD"
  by (auto simp: demux_head_def Let_def split: if_splits)

lemma demux_loop_short:
  "demux_loop b ms = (b', fs, None) \<Longrightarrow> length b' < WORLD_UPDATE_FRAME_HEADER_SIZE + MAX_UPDATE_PAYLOAD"
proof (induction b ms rule: demux_loop.induct)
  case (1 b ms)
  show ?case
  proof (cases "\<exists>k n. 2 \<le> length b \<and> demux_head b = Some (Inr (k, n)) \<and> n \<le> length b")
    case True
    then obtain k n where f: "2 \<le> length b" "demux_head b = Some (Inr (k, n))" "n \<le> length b" by blast
    show ?thesis using 1 f demux_loop_step [OF f, of ms] by auto
  next
    case False
    then have "b' = b" "length b < 2 \<or> demux_head b = None \<or> (\<exists>k n. demux_head b = Some (Inr (k, n)) \<and> length b < n)"
      using 1(2) by (auto simp: demux_loop.simps [of b ms] split: if_splits option.splits sum.splits prod.splits)
    then show ?thesis using demux_head_short [of b] by fastforce
  qed
qed

lemma Demux_append_short:
  "Demux_append dx bytes = (dx', fs, None) \<Longrightarrow> length (dx_buffered dx') < WORLD_UPDATE_FRAME_HEADER_SIZE + MAX_UPDATE_PAYLOAD"
  "Demux_append dx bytes = (dx', fs, Some e) \<Longrightarrow> dx_failedState dx'"
  by (auto simp: Demux_append_def dest: demux_loop_short split: if_splits prod.splits)

lemma steady_reconnect [simp]: "steady s (Shell_beginReconnect s)"
  by (auto simp: steady_defs Shell_beginReconnect_def clearWaitDeadlines_def Shell_close_def close_socket_def Demux_reset_def outbound_wf_def Let_def)

lemma steady_check: "checkDeadlines error s = (ok, e, s') \<Longrightarrow> steady s s'"
  unfolding checkDeadlines_def Let_def
  by (auto split: if_splits prod.splits intro: steady_trans [OF steady_step(3) steady_step(7)] steady_trans [OF steady_step(3) steady_step(3)]
      steady_trans [OF steady_trans [OF steady_step(3) steady_step(3)] steady_step(7)])

lemma steady_enqueue: "enqueueCommand command error s = (ok, e, s') \<Longrightarrow> steady s s'"
  by (auto simp: enqueueCommand_def steady_defs dest: enqueue_wf split: if_splits sum.splits)

lemma steady_request: "enqueueRequestSnapshotIfNeeded error s = (ok, e, s') \<Longrightarrow> steady s s'"
proof -
  have "steady s1 (noteSnapshotRequestQueued (s1\<lparr>ts_snapshotCommandQueued := True\<rparr>))" for s1
    by (auto simp: steady_defs noteSnapshotRequestQueued_def armSnapshotWaitIfNeeded_def split: prod.splits)
  then show "enqueueRequestSnapshotIfNeeded error s = (ok, e, s') \<Longrightarrow> steady s s'"
    by (auto simp: enqueueRequestSnapshotIfNeeded_def dest!: steady_enqueue split: if_splits option.splits prod.splits bool.splits
        intro: steady_trans)
qed

lemma steady_disconnect: "enqueueDisconnect error s = (ok, e, s') \<Longrightarrow> steady s s'"
  by (auto simp: enqueueDisconnect_def dest!: steady_enqueue split: if_splits prod.splits bool.splits intro: steady_trans)

lemma steady_flush: "Shell_flushOutbound send error s = (st, e, w, s') \<Longrightarrow> steady s s'"
proof -
  have "steady s (s\<lparr>ts_outboundFrames := q\<rparr>)" if "OutboundFrameQueue_consumeFront (ts_outboundFrames s) n = Some q" for n q
    using that consumeFront_wf by (auto simp: steady_defs)
  then show "Shell_flushOutbound send error s = (st, e, w, s') \<Longrightarrow> steady s s'"
    by (auto simp: Shell_flushOutbound_def split: if_splits option.splits SendOutcome.splits intro: steady_trans [OF steady_step(1) steady_step(8)])
qed

lemma steady_pump_flush: "pump_flush net i error wire s = (ok, e, w, s') \<Longrightarrow> steady s s'"
proof (induction net i error wire s rule: pump_flush.induct)
  case (1 net i error wire s)
  obtain st e1 w1 s1 where f: "Shell_flushOutbound (net i) error s = (st, e1, w1, s1)" by (metis prod_cases4)
  then have "steady s s1" by (rule steady_flush)
  then show ?case using 1 f by (subst (asm) (2) pump_flush.simps) (auto split: if_splits intro: steady_trans)
qed

lemma accepted_session: "decodeLoginResponseFrame f = Inr r \<Longrightarrow> lr_status r = LoginAccepted \<Longrightarrow> 0 < lr_sessionId r"
  by (auto simp: decodeLoginResponseFrame_def validateLoginResponse_def Let_def split: if_splits sum.splits)

lemma steady_login: "handleLoginResponseFrame bytes error s = (ok, e, s') \<Longrightarrow> steady s s'"
proof -
  have "steady s (s\<lparr>ts_localSessionId := n, ts_auth := LoggedIn, ts_receiver := Receiver_bindLocalSession n (ts_receiver s),
      ts_loginResponseDeadline := 0\<rparr>)" if "0 < n" for n
    using that by (simp add: steady_defs Receiver_bindLocalSession_def)
  then show "handleLoginResponseFrame bytes error s = (ok, e, s') \<Longrightarrow> steady s s'"
    by (auto simp: handleLoginResponseFrame_def Let_def dest: accepted_session split: sum.splits if_splits intro: steady_trans [OF _ steady_step(5)])
qed

lemma steady_disconnect_frame: "handleDisconnectResponseFrame bytes error s = (ok, e, s') \<Longrightarrow> steady s s'"
  by (auto simp: handleDisconnectResponseFrame_def applyDisconnectResponse_def split: sum.splits if_splits)

lemma steady_frames: "handle_frames fs wb da error s = (ok, e, wb', da', s') \<Longrightarrow> steady s s'"
proof (induction fs arbitrary: wb da error s)
  case (Cons f fs)
  then show ?case
    by (auto split: InboundFrameKind.splits prod.splits bool.splits dest!: steady_login steady_disconnect_frame intro: steady_trans)
qed simp

lemma steady_received:
  assumes "Receiver_receive bytes error (ts_receiver s) = (ok, n, e, rv)"
  shows "steady s (s\<lparr>ts_receiver := rv\<rparr>)"
  using receive_session [OF assms] by (simp add: steady_defs)

lemma steady_inbound: "handleInboundFrames fs error s = (ok, e, s') \<Longrightarrow> steady s s'"
proof -
  assume a: "handleInboundFrames fs error s = (ok, e, s')"
  obtain ok1 e1 wb da s1 where h: "handle_frames fs [] False error s = (ok1, e1, wb, da, s1)" by (metis prod_cases5)
  obtain ok2 n e2 rv where r: "Receiver_receive wb e1 (ts_receiver s1) = (ok2, n, e2, rv)" by (metis prod_cases4)
  have "steady s1 (s1\<lparr>ts_receiver := rv\<rparr>)" by (rule steady_received [OF r])
  moreover have "steady s1 s'" if "steady s1 (s1\<lparr>ts_receiver := rv\<rparr>)"
    using a h r steady_trans [OF that steady_step(7)] that steady_trans [OF steady_trans [OF that steady_step(10)] steady_step(6)]
    by (auto simp: handleInboundFrames_def Let_def split: if_splits bool.splits)
  ultimately show "steady s s'" using steady_frames [OF h] steady_trans by blast
qed

lemma steady_receive: "pump_receive outcome error s = (ok, e, s') \<Longrightarrow> steady s s'"
proof -
  assume a: "pump_receive outcome error s = (ok, e, s')"
  have "steady s (s\<lparr>ts_inbound := dx\<rparr>)" if "Demux_append (ts_inbound s) input = (dx, fs, r)" for input dx fs r
    using that Demux_append_short [of "ts_inbound s" input dx fs] by (cases r) (auto simp: steady_defs)
  then show "steady s s'"
    using a by (auto simp: pump_receive_def Let_def split: RecvOutcome.splits if_splits prod.splits option.splits
        dest!: steady_inbound intro: steady_trans [OF steady_step(1) steady_step(8)] steady_trans [OF _ steady_step(7)])
      (blast intro: steady_trans)
qed

lemma steady_pump: "pump outcome net error s = (ok, e, w, s') \<Longrightarrow> steady s s'"
proof -
  assume a: "pump outcome net error s = (ok, e, w, s')"
  obtain k1 e1 s1 where 1: "checkDeadlines error s = (k1, e1, s1)" by (metis prod_cases3)
  obtain k2 e2 s2 where 2: "pump_receive outcome e1 s1 = (k2, e2, s2)" by (metis prod_cases3)
  obtain k3 e3 s3 where 3: "checkDeadlines e2 s2 = (k3, e3, s3)" by (metis prod_cases3)
  obtain k4 e4 s4 where 4: "enqueueRequestSnapshotIfNeeded e3 s3 = (k4, e4, s4)" by (metis prod_cases3)
  obtain k5 e5 w5 s5 where 5: "pump_flush net 0 e4 [] s4 = (k5, e5, w5, s5)" by (metis prod_cases4)
  note c1 = steady_check [OF 1]
  note c2 = steady_trans [OF c1 steady_receive [OF 2]]
  note c3 = steady_trans [OF c2 steady_check [OF 3]]
  note c4 = steady_trans [OF c3 steady_request [OF 4]]
  note c5 = steady_trans [OF c4 steady_pump_flush [OF 5]]
  show "steady s s'" using a 1 2 3 4 5 c1 c2 c3 c4 c5 steady_trans [OF c5 steady_step(6)]
    by (auto simp: pump_def split: if_splits bool.splits)
qed

subsection \<open>Histories of a shell\<close>

text \<open>The descriptor a call of \<open>connectTcp\<close> or \<open>attachConnectedSocket\<close> makes the shell responsible for.\<close>

definition taken_by_connect :: "ConnectCalls \<Rightarrow> string option \<Rightarrow> u16 \<Rightarrow> Shell \<Rightarrow> int list" where
  "taken_by_connect calls host port s =
     (if ts_clientSocket s < 0 \<and> host \<noteq> None \<and> port \<noteq> 0 \<and> 0 \<le> cc_socket calls then [cc_socket calls] else [])"

definition taken_by_attach :: "int \<Rightarrow> Shell \<Rightarrow> int list" where
  "taken_by_attach fd s = (if ts_clientSocket s < 0 \<and> 0 \<le> fd then [fd] else [])"

text \<open>\<open>shell_run fds s\<close>: a shell in state \<open>s\<close> after any calls of its public operations, which gave it the descriptors \<open>fds\<close>.\<close>

inductive shell_run :: "int list \<Rightarrow> Shell \<Rightarrow> bool" where
  new: "shell_run [] Shell_new"
| connect: "shell_run fds s \<Longrightarrow> connectTcp calls host port error s = Some (ok, e, s') \<Longrightarrow> shell_run (fds @ taken_by_connect calls host port s) s'"
| attach: "shell_run fds s \<Longrightarrow> attachConnectedSocket fcntlOk fd error s = (ok, e, s') \<Longrightarrow> shell_run (fds @ taken_by_attach fd s) s'"
| pump: "shell_run fds s \<Longrightarrow> pump outcome net error s = (ok, e, w, s') \<Longrightarrow> shell_run fds s'"
| flush: "shell_run fds s \<Longrightarrow> Shell_flushOutbound send error s = (st, e, w, s') \<Longrightarrow> shell_run fds s'"
| command: "shell_run fds s \<Longrightarrow> enqueueCommand command error s = (ok, e, s') \<Longrightarrow> shell_run fds s'"
| login: "shell_run fds s \<Longrightarrow> enqueueLogin claimedId error s = (ok, e, s') \<Longrightarrow> shell_run fds s'"
| disconnect: "shell_run fds s \<Longrightarrow> enqueueDisconnect error s = (ok, e, s') \<Longrightarrow> shell_run fds s'"
| reconnect: "shell_run fds s \<Longrightarrow> shell_run fds (Shell_beginReconnect s)"
| close: "shell_run fds s \<Longrightarrow> shell_run fds (Shell_close s)"
| clock: "shell_run fds s \<Longrightarrow> shell_run fds (Shell_setClock c s)"
| timeouts: "shell_run fds s \<Longrightarrow> shell_run fds (Shell_setTimeouts t s)"

text \<open>Taking over a descriptor: it is owned afterwards and the invariant holds, whether the attempt succeeds or not.\<close>

definition takes :: "int \<Rightarrow> Shell \<Rightarrow> bool \<times> string \<times> Shell \<Rightarrow> bool" where
  "takes fd s r = (case r of (ok, e, s') \<Rightarrow> owned s' = owned s @ [fd] \<and> (shell_inv s \<longrightarrow> shell_inv s'))"

lemma takes_open: "ts_clientSocket s < 0 \<Longrightarrow> 0 \<le> fd \<Longrightarrow> takes fd s (open_link b error (s\<lparr>ts_clientSocket := fd\<rparr>))"
  by (auto simp: takes_def open_link_def setNonBlocking_def owned_def shell_inv_def markFailed_def recordError_def clearWaitDeadlines_def close_socket_def)

lemma takes_give_up: "ts_clientSocket s < 0 \<Longrightarrow> takes fd s (give_up fd message s)"
  by (simp add: takes_def give_up_def owned_def shell_inv_def)

lemma takes_wait:
  assumes "ts_clientSocket s < 0" and "0 \<le> cc_socket calls" and "wait_for_connect calls error c s = Some r"
  shows "takes (cc_socket calls) s r"
proof -
  obtain w c' where w: "connect_wait calls (nowMs c + connectTimeoutMs (ts_timeouts s)) 0 (after_read c) = Some (w, c')"
    using assms(3) by (cases "connect_wait calls (nowMs c + connectTimeoutMs (ts_timeouts s)) 0 (after_read c)") (auto simp: wait_for_connect_def)
  have "takes fd s r \<longleftrightarrow> takes fd (s\<lparr>ts_clock := Some c'\<rparr>) r" for fd by (simp add: takes_def owned_def shell_inv_def)
  note same = this
  have n: "ts_clientSocket (s\<lparr>ts_clock := Some c'\<rparr>) < 0" using assms(1) by simp
  show ?thesis
  proof (cases w)
    case WaitTimedOut
    then show ?thesis using assms(1,3) w
      by (auto simp: wait_for_connect_def Let_def takes_def owned_def shell_inv_def markFailed_def recordError_def clearWaitDeadlines_def close_socket_def)
  next
    case (WaitFailed m)
    then show ?thesis using assms(3) w takes_give_up [OF n, of "cc_socket calls" m] same by (simp add: wait_for_connect_def)
  next
    case WaitConnected
    then show ?thesis using assms(3) w takes_open [OF n assms(2), of "cc_fcntlAfter calls" error] same
      by (simp add: wait_for_connect_def adopt_socket_def)
  qed
qed

lemma connectTcp_takes:
  assumes "connectTcp calls host port error s = Some r" and "ts_clientSocket s < 0" "host \<noteq> None" "port \<noteq> 0" "0 \<le> cc_socket calls"
  shows "takes (cc_socket calls) s r"
  using assms takes_give_up [of s "cc_socket calls"] takes_wait [of s calls] takes_open [of s "cc_socket calls"]
  by (auto simp: connectTcp_def adopt_socket_def Let_def simp del: split_paired_All split_paired_Ex
      split: if_splits ConnectOutcome.splits option.splits)

lemma connect_takes:
  assumes "connectTcp calls host port error s = Some (ok, e, s')"
  shows "owned s' = owned s @ taken_by_connect calls host port s \<and> (shell_inv s \<longrightarrow> shell_inv s')"
proof (cases "ts_clientSocket s < 0 \<and> host \<noteq> None \<and> port \<noteq> 0 \<and> 0 \<le> cc_socket calls")
  case True
  then show ?thesis using connectTcp_takes [OF assms] by (simp add: takes_def taken_by_connect_def)
next
  case False
  then show ?thesis using assms by (auto simp: connectTcp_def taken_by_connect_def owned_def shell_inv_def split: if_splits)
qed

text \<open>
  Property C12. In every history of the client's transport: each descriptor it was ever made responsible for
  has been closed exactly once, in order, except the one it holds; the link is \<open>Connected\<close> exactly while it
  holds a socket; a logged-in shell knows a positive session id, the one its receiver is bound to; the
  outbound queue is within its bounds and the inbound buffer is shorter than one frame of maximal size.
\<close>

theorem shell_run_inv:
  assumes "shell_run fds s"
  shows "fds = ts_closed s @ (if Shell_isOpen s then [ts_clientSocket s] else []) \<and> shell_inv s"
proof -
  have "fds = owned s \<and> shell_inv s"
    using assms
  proof (induction rule: shell_run.induct)
    case new
    show ?case by (simp add: owned_def shell_inv_def Shell_new_def outbound_wf_def Demux_new_def)
  next
    case (connect fds s calls host port error ok e s')
    then show ?case using connect_takes [OF connect(2)] by simp
  next
    case (attach fds s b fd error ok e s')
    then show ?case using takes_open [of s fd b error]
      by (auto simp: attachConnectedSocket_def taken_by_attach_def takes_def split: if_splits)
  qed (auto simp: Shell_setClock_def enqueueLogin_def steady_owned [OF steady_step(3)] steady_owned [OF steady_step(4)]
      steady_owned [OF steady_step(8)] steady_owned [OF steady_reconnect]
      dest!: steady_pump steady_flush steady_enqueue steady_disconnect dest: steady_owned)
  then show ?thesis by (simp add: owned_def Shell_isOpen_def)
qed

subsection \<open>A pump that sends everything\<close>

lemma pump_flush_drains:
  assumes "\<forall>j k. net j k = SendBytes k" and "Shell_isOpen s" and "outbound_wf (ts_outboundFrames s)"
  shows "\<exists>e. pump_flush net i error wire s = (True, e, wire @ concat (ts_outboundFrames s), s\<lparr>ts_outboundFrames := []\<rparr>)"
  using assms(2,3)
proof (induction "ts_outboundFrames s" arbitrary: i error wire s)
  case Nil
  then show ?case by (subst pump_flush.simps) simp
next
  case (Cons f fs)
  have f: "f \<noteq> []" "ts_outboundFrames s = f # fs" using Cons.prems(2) Cons.hyps(2) [symmetric] by (simp_all add: outbound_wf_def)
  then have "Shell_flushOutbound (net i) error s = (Sent, [], f, s\<lparr>ts_outboundFrames := fs\<rparr>)"
    using Cons.prems(1) assms(1) by (simp add: Shell_flushOutbound_def)
  moreover have "outbound_wf fs" using Cons.prems(2) f by (simp add: outbound_wf_def)
  then have "\<exists>e. pump_flush net (Suc i) [] (wire @ f) (s\<lparr>ts_outboundFrames := fs\<rparr>) =
      (True, e, (wire @ f) @ concat fs, s\<lparr>ts_outboundFrames := []\<rparr>)"
    using Cons.hyps(1) [of "s\<lparr>ts_outboundFrames := fs\<rparr>" "Suc i" "[]" "wire @ f"] Cons.prems(1) by (simp add: Shell_isOpen_def)
  ultimately show ?case using f by (subst pump_flush.simps) simp
qed

text \<open>An open shell without a running deadline.\<close>

definition ready :: "Shell \<Rightarrow> bool" where
  "ready s \<longleftrightarrow> Shell_isOpen s \<and> ts_link s \<noteq> LinkFailed \<and> \<not> dx_failedState (ts_inbound s) \<and> ts_clock s = None"

lemma ready_check: "ts_clock s = None \<Longrightarrow> checkDeadlines error s = (True, error, s)"
  by (simp add: checkDeadlines_def)

lemma demux_single:
  assumes "server_frame fr" and "dx_buffered dx @ bytes = if_bytes fr" and "\<not> dx_failedState dx"
  shows "Demux_append dx bytes = (Demux_new, [fr], None)"
  using demux_loop_frames [of "[fr]" "[]"] assms by (simp add: Demux_append_def Demux_new_def)

lemma encode_request_snapshot: "0 < n \<Longrightarrow> is_int64 n \<Longrightarrow>
    encodeFrame (makeRequestSnapshotCommand n) = Inr (store_frame CURRENT_PROTOCOL_VERSION 7 n []) \<and>
    length (store_frame CURRENT_PROTOCOL_VERSION 7 n []) = FRAME_HEADER_SIZE"
  by (simp add: encodeFrame_def makeRequestSnapshotCommand_def validateCommand_def store_frame_layout)


subsection \<open>Where the shell gives up\<close>

lemma handle_world_frames:
  "list_all (\<lambda>f. if_kind f = WorldUpdateFrame) fs \<Longrightarrow>
     handle_frames fs wb da error s = (True, error, wb @ concat (map if_bytes fs), da, s)"
  by (induction fs arbitrary: wb) auto

lemma Demux_append_frames:
  assumes "list_all server_frame fs" and "dx_buffered dx @ bytes = concat (map if_bytes fs)" and "\<not> dx_failedState dx"
  shows "Demux_append dx bytes = (Demux_new, fs, None)"
  using demux_loop_frames [OF assms(1), of "[]"] assms(2,3) by (simp add: Demux_append_def Demux_new_def)

text \<open>
  Property C38. World updates that arrive together can break a healthy connection: when a read completes
  several valid world-update frames of more than 16420 bytes in all, \<open>handleInboundFrames\<close> passes them to the
  receiver as one piece, whose accumulator takes no more than one frame of maximal size; the client reports
  a protocol error and closes its socket although every frame was valid.
\<close>

theorem valid_updates_break_connection:
  assumes "ready s" and "list_all server_frame fs" and "list_all (\<lambda>f. if_kind f = WorldUpdateFrame) fs"
    and "dx_buffered (ts_inbound s) @ bytes = concat (map if_bytes fs)"
    and "\<not> wa_failed (rv_accumulator (ts_receiver s))" and "wa_buffered (rv_accumulator (ts_receiver s)) = []"
    and "WORLD_UPDATE_FRAME_HEADER_SIZE + MAX_UPDATE_PAYLOAD < length (concat (map if_bytes fs))"
  shows "\<exists>s'. pump (RecvBytes bytes) net error s = (False, ''world update stream frame exceeds maximum size'', [], s') \<and>
    ts_link s' = LinkFailed \<and> \<not> Shell_isOpen s' \<and> ts_lastErrorReason s' = ReasonProtocolError"
proof -
  let ?b = "concat (map if_bytes fs)"
  have "?b \<noteq> []" using assms(7) by (metis list.size(3) not_less_zero)
  moreover have "Demux_append (ts_inbound s) bytes = (Demux_new, fs, None)"
    using Demux_append_frames [OF assms(2,4)] assms(1) by (simp add: ready_def)
  moreover obtain rv where "Receiver_receive ?b [] (ts_receiver s) = (False, 0, ''world update stream frame exceeds maximum size'', rv)"
      "rv_decision rv = ReceiveRejected"
    using assms(5-7) by (auto simp: Receiver_receive_def WorldUpdateAccumulator_append_def size_sub_def Let_def)
  ultimately show ?thesis using assms(1) handle_world_frames [OF assms(3), of "[]" False "[]"]
    by (auto simp: pump_def ready_def ready_check pump_receive_def handleInboundFrames_def Let_def)
qed

text \<open>
  A login response behind an accepted disconnect outlives the connection. When one read brings
  the response that accepts the queued disconnect and an accepted login response behind it, the shell closes
  its socket for the reconnect and then logs in without one: \<open>pump\<close> fails, and the next
  socket attached to the shell starts logged in as that session, with no deadline for a login response.
\<close>

theorem late_login_outlives_connection:
  assumes "ready s" and "ts_disconnectQueued s" and "dr_status d = DisconnectAccepted" and "dr_sessionId d = ts_localSessionId s"
    and "encodeDisconnectResponseFrame d = Inr f" and "is_int64 (dr_sessionId d)"
    and "encodeLoginResponseFrame r = Inr g" and "lr_status r = LoginAccepted" and "is_int64 (lr_sessionId r)"
    and "dx_buffered (ts_inbound s) @ bytes = f @ g" and "0 \<le> fd"
  shows "\<exists>s' s''. pump (RecvBytes bytes) net error s = (False, ''client transport is closed'', [], s') \<and> \<not> Shell_isOpen s' \<and>
    attachConnectedSocket True fd [] s' = (True, [], s'') \<and> ts_clientSocket s'' = fd \<and> ts_auth s'' = LoggedIn \<and>
    ts_localSessionId s'' = lr_sessionId r \<and> ts_loginResponseDeadline s'' = 0"
proof -
  let ?n = "lr_sessionId r" and ?fs = "[\<lparr>if_kind = DisconnectResponseFrame, if_bytes = f\<rparr>, \<lparr>if_kind = LoginResponseFrame, if_bytes = g\<rparr>]"
  have dd: "decodeDisconnectResponseFrame f = Inr d"
    using assms(5,6) disconnect_codec.decode_encode disconnect_response_repr_def by auto
  have dl: "decodeLoginResponseFrame g = Inr r" using assms(7,9) login_codec.decode_encode login_response_repr_def by auto
  then have n: "0 < ?n" using accepted_session assms(8) by blast
  have "Demux_append (ts_inbound s) bytes = (Demux_new, ?fs, None)"
    using Demux_append_frames [of ?fs "ts_inbound s" bytes] server_frame.disconnect [OF assms(5)] server_frame.login [OF assms(7)] assms(1,10)
    by (simp add: ready_def)
  then obtain s1 where s1: "pump_receive (RecvBytes bytes) error s = (True, [], s1)" "ts_clock s1 = None" "ts_auth s1 = LoggedIn"
      "rv_needsSnapshot (ts_receiver s1)" "rv_localSessionId (ts_receiver s1) = ?n" "\<not> ts_snapshotCommandQueued s1"
      "\<not> Shell_isOpen s1" "ts_localSessionId s1 = ?n"
    using dd dl assms(1,2,3,4,8)
    by (auto simp: pump_receive_def handleInboundFrames_def handleLoginResponseFrame_def handleDisconnectResponseFrame_def applyDisconnectResponse_def
        Shell_beginReconnect_def Shell_close_def close_socket_def clearWaitDeadlines_def Receiver_beginReconnect_def
        armSnapshotWaitIfNeeded_def Receiver_bindLocalSession_def Deadline_arm_def ready_def Shell_isOpen_def Let_def)
  have "enqueueRequestSnapshotIfNeeded [] s1 = (False, ''client transport is closed'', s1)"
    using s1 n by (simp add: enqueueRequestSnapshotIfNeeded_def Receiver_tryBuildRequestSnapshotCommand_def enqueueCommand_def)
  then have "pump (RecvBytes bytes) net error s = (False, ''client transport is closed'', [], s1)"
    using assms(1) s1(1,2) by (simp add: pump_def ready_def ready_check)
  then show ?thesis using s1 assms(11)
    by (simp add: attachConnectedSocket_def open_link_def setNonBlocking_def armLoginResponseWaitIfNeeded_def Shell_isOpen_def)
qed

subsection \<open>Witnesses\<close>

text \<open>A shell that holds the descriptor 5.\<close>

definition linked :: Shell where
  "linked = Shell_new\<lparr>ts_clientSocket := 5, ts_link := LinkConnected\<rparr>"

lemma linked_ready: "ready linked" "shell_inv linked"
  by (simp_all add: linked_def Shell_new_def ready_def Shell_isOpen_def Demux_new_def shell_inv_def outbound_wf_def)

text \<open>A clock that advances a millisecond per reading, and a peer that never answers.\<close>

definition ticking :: Clock where
  "ticking = \<lparr>ck_now = (\<lambda>n. of_nat (min n 1000)), ck_reads = 0\<rparr>"

definition silent :: ConnectCalls where
  "silent = \<lparr>cc_socket = 5, cc_hostUsable = True, cc_fcntlBefore = True, cc_connect = ConnectInProgress, cc_poll = (\<lambda>_ _. PollTimeout),
     cc_soError = Some 0, cc_fcntlAfter = True\<rparr>"

lemma ticking_mono: "mono (ck_now ticking)"
proof (rule monoI)
  fix x y :: nat
  assume "x \<le> y"
  then show "ck_now ticking x \<le> ck_now ticking y"
    by (auto simp: ticking_def word_le_nat_alt unat_of_nat)
qed

theorem connect_returns_witness:
  "\<exists>ok e s'. connectTcp silent (Some ''127.0.0.1'') 4000 []
       (Shell_setTimeouts \<lparr>loginResponseWaitMs = 0, snapshotWaitMs = 0, connectTimeoutMs = 200\<rparr> (Shell_setClock (Some ticking) Shell_new)) = Some (ok, e, s') \<and>
     (if ok then ts_clientSocket s' = 5 \<and> ts_link s' = LinkConnected else \<not> Shell_isOpen s' \<and> ts_link s' = LinkFailed)"
proof -
  let ?s = "Shell_setTimeouts \<lparr>loginResponseWaitMs = 0, snapshotWaitMs = 0, connectTimeoutMs = 200\<rparr> (Shell_setClock (Some ticking) Shell_new)"
  have s: "ts_clock ?s = Some ticking" "connectTimeoutMs (ts_timeouts ?s) = 200" "\<not> Shell_isOpen ?s"
    by (simp_all add: Shell_setTimeouts_def Shell_setClock_def Shell_new_def Shell_isOpen_def)
  have "nowMs ticking + 200 \<le> ck_now ticking 200" by (simp add: nowMs_def ticking_def)
  then have "\<forall>c. ts_clock ?s = Some c \<longrightarrow> mono (ck_now c) \<and> (\<exists>n. nowMs c + connectTimeoutMs (ts_timeouts ?s) \<le> ck_now c n)"
    using ticking_mono s(1,2) by auto
  from connect_returns [OF this, of silent "Some ''127.0.0.1''" 4000 "[]"]
  obtain r where r: "connectTcp silent (Some ''127.0.0.1'') 4000 [] ?s = Some r"
    "case r of (ok, e, s') \<Rightarrow> if ok then ts_clientSocket s' = cc_socket silent \<and> ts_link s' = LinkConnected
       else \<not> Shell_isOpen s' \<and> ts_link s' = LinkFailed"
    using s(3) by auto
  then show ?thesis by (cases r) (simp add: silent_def)
qed

theorem shell_run_inv_witness:
  "\<exists>s. shell_run [5] s \<and> [5] = ts_closed s @ (if Shell_isOpen s then [ts_clientSocket s] else []) \<and> shell_inv s"
proof -
  have a: "attachConnectedSocket True 5 [] Shell_new = (True, [], linked)"
    by (simp add: attachConnectedSocket_def open_link_def setNonBlocking_def armLoginResponseWaitIfNeeded_def linked_def Shell_new_def)
  have "shell_run [5] (Shell_close linked)"
    using shell_run.close [OF shell_run.attach [OF shell_run.new a]] by (simp add: taken_by_attach_def Shell_new_def)
  then show ?thesis using shell_run_inv by blast
qed

definition accepted :: "int \<Rightarrow> LoginResponse" where
  "accepted n = \<lparr>lr_version = CURRENT_PROTOCOL_VERSION, lr_status = LoginAccepted, lr_sessionId = n, lr_payload = []\<rparr>"

lemma accepted_frame: "0 < n \<Longrightarrow> \<exists>g. encodeLoginResponseFrame (accepted n) = Inr g"
  by (simp add: encodeLoginResponseFrame_def validateLoginResponse_def accepted_def)


definition big_event :: WorldUpdate where
  "big_event = (sample_event 7)\<lparr>wu_payload := replicate 16384 CHR ''x''\<rparr>"

lemma event_frames: "\<exists>f g. encodeWorldUpdateFrame big_event = Inr f \<and> length f = 16420 \<and> encodeWorldUpdateFrame (sample_event 8) = Inr g \<and> 36 \<le> length g \<and> length g < 100"
proof -
  have v: "validateWorldUpdate big_event = Inr ()" "validateWorldUpdate (sample_event 8) = Inr ()"
    by (simp_all add: validateWorldUpdate_def big_event_def sample_event_def isKnownUpdateKind_def)
  show ?thesis using encodeWorldUpdateFrame_layout [OF v(1)] encodeWorldUpdateFrame_layout [OF v(2)]
    by (simp add: big_event_def sample_event_def)
qed

theorem valid_updates_break_connection_witness:
  "\<exists>f g s'. encodeWorldUpdateFrame big_event = Inr f \<and> encodeWorldUpdateFrame (sample_event 8) = Inr g \<and> length (drop 16000 f @ g) < 4096 \<and>
     pump (RecvBytes (drop 16000 f @ g)) (\<lambda>j k. SendBytes k) [] (linked\<lparr>ts_inbound := \<lparr>dx_buffered = take 16000 f, dx_failedState = False\<rparr>\<rparr>) =
       (False, ''world update stream frame exceeds maximum size'', [], s') \<and> ts_link s' = LinkFailed"
proof -
  obtain f g where f: "encodeWorldUpdateFrame big_event = Inr f" "length f = 16420"
    and g: "encodeWorldUpdateFrame (sample_event 8) = Inr g" "36 \<le> length g" "length g < 100" using event_frames by blast
  let ?s = "linked\<lparr>ts_inbound := \<lparr>dx_buffered = take 16000 f, dx_failedState = False\<rparr>\<rparr>"
  let ?fs = "[\<lparr>if_kind = WorldUpdateFrame, if_bytes = f\<rparr>, \<lparr>if_kind = WorldUpdateFrame, if_bytes = g\<rparr>]"
  have "ready ?s" by (simp add: linked_def Shell_new_def ready_def Shell_isOpen_def)
  moreover have "list_all server_frame ?fs" using server_frame.update [OF f(1)] server_frame.update [OF g(1)] by simp
  moreover have "g \<noteq> []" using g(2) by auto
  moreover have "dx_buffered (ts_inbound ?s) @ drop 16000 f @ g = concat (map if_bytes ?fs)" by simp
  moreover have "\<not> wa_failed (rv_accumulator (ts_receiver ?s))" "wa_buffered (rv_accumulator (ts_receiver ?s)) = []"
    by (simp_all add: linked_def Shell_new_def Receiver_new_def WorldUpdateAccumulator_init_def)
  ultimately obtain s' where "pump (RecvBytes (drop 16000 f @ g)) (\<lambda>j k. SendBytes k) [] ?s =
      (False, ''world update stream frame exceeds maximum size'', [], s') \<and> ts_link s' = LinkFailed"
    using valid_updates_break_connection [of ?s ?fs "drop 16000 f @ g" "\<lambda>j k. SendBytes k" "[]"] f(2) g(2) by auto
  then show ?thesis using f g by auto
qed

theorem late_login_outlives_connection_witness:
  "\<exists>f g s' s''. pump (RecvBytes (f @ g)) (\<lambda>j k. SendBytes k) [] (linked\<lparr>ts_auth := LoggedIn, ts_localSessionId := 7, ts_disconnectQueued := True\<rparr>) =
       (False, ''client transport is closed'', [], s') \<and>
     attachConnectedSocket True 6 [] s' = (True, [], s'') \<and> ts_auth s'' = LoggedIn \<and> ts_localSessionId s'' = 9"
proof -
  let ?s = "linked\<lparr>ts_auth := LoggedIn, ts_localSessionId := 7, ts_disconnectQueued := True\<rparr>"
  let ?d = "\<lparr>dr_version = CURRENT_PROTOCOL_VERSION, dr_status = DisconnectAccepted, dr_sessionId = 7, dr_payload = []\<rparr>"
  obtain f where f: "encodeDisconnectResponseFrame ?d = Inr f" by (simp add: encodeDisconnectResponseFrame_def validateDisconnectResponse_def)
  obtain g where g: "encodeLoginResponseFrame (accepted 9) = Inr g" using accepted_frame [of 9] by auto
  have "ready ?s" "ts_disconnectQueued ?s" "dx_buffered (ts_inbound ?s) @ f @ g = f @ g" "ts_localSessionId ?s = 7"
    by (simp_all add: linked_def Shell_new_def ready_def Shell_isOpen_def Demux_new_def)
  moreover have "is_int64 7" "is_int64 9" "lr_status (accepted 9) = LoginAccepted" "lr_sessionId (accepted 9) = 9"
    by (simp_all add: is_int64_def accepted_def)
  ultimately show ?thesis
    using late_login_outlives_connection [of ?s ?d f "accepted 9" g "f @ g" 6 "\<lambda>j k. SendBytes k" "[]"] f g by auto
qed

end
