(* ===== verification/Admin_Server.thy ===== *)
theory Admin_Server
  imports Admin Move_Text "HOL-Library.Monad_Syntax"
begin

text \<open>
  The admin server as a whole: \<open>main\<close> of \<open>AdminMain.cpp\<close>, who may read and change the aliases, and what a
  reader of the JSON the server sends gets.
\<close>

subsection \<open>Starting\<close>

text \<open>
  \<open>main\<close> up to \<open>listen\<close>: the exit code and message, or the port and the state the handlers share; \<open>connect\<close>
  is the alias table of the database at a connection string.
\<close>

definition admin_main :: "(string \<Rightarrow> string option) \<Rightarrow> (string \<Rightarrow> AliasTable) \<Rightarrow> string list \<Rightarrow> (int \<times> string + u16 \<times> AdminState) option" where
  "admin_main getenv connect argv =
     (case port_argument 40080 argv of
        None \<Rightarrow> None
      | Some port \<Rightarrow>
          (case (AdminAuthStore_fromEnvironment getenv, PgAlias_fromEnvironment getenv) of
             (Some _, Some url) \<Rightarrow> Some (Inr (port, AdminState_init (connect url)))
           | _ \<Rightarrow> Some (Inl (1, ''seed_admin: SEED_IDENTITY_DB_URL must be set''))))"

lemma admin_main_run: "admin_main getenv connect argv = Some (Inr (port, st)) \<Longrightarrow> admin_run verify [] st"
  by (auto simp: admin_main_def split: option.splits prod.splits intro: admin_run.start)

text \<open>The copy of the function that canonicalises names does what the registry's does.\<close>

lemma admin_canonical_mirrors: "admin_canonicalClaimedId s = canonicalClaimedId s"
  by (induction s) (simp_all add: canonicalClaimedId_def)

subsection \<open>Authorisation\<close>

definition bearer_token :: "AdminRequest \<Rightarrow> string" where
  "bearer_token req = drop (length ''Bearer '') (rq_authorization req)"

text \<open>An answered login that issued a token, and an answered logout of it.\<close>

definition issued :: "(string \<Rightarrow> string \<Rightarrow> int option) \<Rightarrow> string \<Rightarrow> int \<Rightarrow> AdminEvent \<Rightarrow> bool" where
  "issued verify token admin e \<longleftrightarrow>
     ev_route e = PostLogin \<and> answer_code (ev_answer e) = Some 200 \<and> generateTokenFromUrandom (ev_bytes e) = token \<and>
     verify (ev_username e) (get_param_value ''password'' (ev_request e)) = Some admin"

definition logged_out :: "string \<Rightarrow> AdminEvent \<Rightarrow> bool" where
  "logged_out token e \<longleftrightarrow> ev_route e = PostLogout \<and> answer_code (ev_answer e) = Some 204 \<and> bearer_token (ev_request e) = token"

text \<open>A session of the store goes back to a login, and no logout of its token came after it.\<close>

definition session_backed :: "(string \<Rightarrow> string \<Rightarrow> int option) \<Rightarrow> AdminEvent list \<Rightarrow> string \<Rightarrow> AdminSession \<Rightarrow> bool" where
  "session_backed verify tr token s \<longleftrightarrow>
     (\<exists>later e earlier. tr = later @ e # earlier \<and> issued verify token (as_adminUserId s) e \<and>
        as_expiresAtEpochSeconds s = ev_now e + kAdminSessionTtlSeconds \<and> \<not> list_ex (logged_out token) later)"

lemma session_backed_step: "session_backed verify tr token s \<Longrightarrow> \<not> logged_out token e \<Longrightarrow> session_backed verify (e # tr) token s"
proof -
  assume "session_backed verify tr token s" and e: "\<not> logged_out token e"
  then obtain later l earlier where "tr = later @ l # earlier" "issued verify token (as_adminUserId s) l"
    "as_expiresAtEpochSeconds s = ev_now l + kAdminSessionTtlSeconds" "\<not> list_ex (logged_out token) later"
    unfolding session_backed_def by blast
  with e show ?thesis unfolding session_backed_def by (intro exI [of _ "e # later"]) auto
qed

lemma session_backed_new:
  "issued verify token (as_adminUserId s) e \<Longrightarrow> as_expiresAtEpochSeconds s = ev_now e + kAdminSessionTtlSeconds \<Longrightarrow>
     session_backed verify (e # tr) token s"
  unfolding session_backed_def by (intro exI [of _ "[]"]) auto

lemma admin_login_sessions:
  assumes "admin_login verify bytes u p now st = (resp, st')" and "map_of (ad_sessions st') token = Some s"
  shows "map_of (ad_sessions st) token = Some s \<or>
    fst resp = 200 \<and> generateTokenFromUrandom bytes = token \<and> verify u p = Some (as_adminUserId s) \<and>
    as_expiresAtEpochSeconds s = now + kAdminSessionTtlSeconds"
  using assms by (auto simp: admin_login_def AdminSessionStore_createSession_def map_of_put split: if_splits option.splits)

lemma admin_logout_sessions:
  assumes "admin_logout header now st = (resp, st')" and "map_of (ad_sessions st') token = Some s"
  shows "map_of (ad_sessions st) token = Some s \<and> \<not> (fst resp = 204 \<and> drop (length ''Bearer '') header = token)"
  using assms by (auto simp: admin_logout_def AdminSessionStore_invalidate_def map_of_erase split: option.splits if_splits)

lemma handler_sessions:
  assumes "admin_handler verify route req now bytes st = (answer, st')" and "route \<notin> {PostLogin, PostLogout}"
  shows "ad_sessions st' = ad_sessions st"
  using assms by (elim admin_handlerE) (auto simp: admin_review_def split: option.splits sum.splits prod.splits bool.splits if_splits)

lemma sessions_backed: "admin_run verify tr st \<Longrightarrow> map_of (ad_sessions st) token = Some s \<Longrightarrow> session_backed verify tr token s"
proof (induction rule: admin_run.induct)
  case (request tr st route req now bytes answer st')
  let ?e = "\<lparr>ev_route = route, ev_request = req, ev_now = now, ev_bytes = bytes, ev_answer = answer\<rparr>"
  show ?case
  proof (cases "route = PostLogin \<or> route = PostLogout")
    case False
    then show ?thesis using request handler_sessions [OF request.hyps(2)] by (auto intro!: session_backed_step simp: logged_out_def)
  next
    case True
    then consider "route = PostLogin" | "route = PostLogout" by blast
    then show ?thesis
    proof cases
      case 1
      obtain resp where "admin_login verify bytes (ev_username ?e) (get_param_value ''password'' req) now st = (resp, st')"
        and code: "answer_code answer = Some (fst resp)"
        using request.hyps(2) 1 admin_handler_login by (metis AdminEvent.select_convs(2) ev_username_def)
      from admin_login_sessions [OF this(1) request.prems] show ?thesis using request.IH code 1
        by (auto intro: session_backed_step session_backed_new simp: logged_out_def issued_def)
    next
      case 2
      obtain resp where "admin_logout (rq_authorization req) now st = (resp, st')" and "answer = Inr resp"
        using request.hyps(2) 2 by (auto split: prod.splits)
      with admin_logout_sessions [OF this(1) request.prems] request.IH 2 show ?thesis
        by (cases resp) (auto intro!: session_backed_step simp: logged_out_def bearer_token_def)
    qed
  qed
qed (simp_all add: AdminState_init_def)

lemma requireSession_backed:
  assumes "admin_run verify tr st" and "requireSession (rq_authorization req) now (ad_sessions st) = Some admin"
  obtains s where "session_backed verify tr (bearer_token req) s" "now < as_expiresAtEpochSeconds s" "as_adminUserId s = admin"
proof -
  obtain s where s: "map_of (ad_sessions st) (bearer_token req) = Some s" "\<not> as_expiresAtEpochSeconds s \<le> now" "as_adminUserId s = admin"
    using assms(2) by (auto simp: requireSession_def AdminSessionStore_validate_def bearer_token_def Let_def split: if_splits option.splits)
  show thesis using that [OF sessions_backed [OF assms(1) s(1)]] s by simp
qed

lemma handler_authorised:
  assumes "admin_handler verify route req now bytes st = (answer, st')" and "route \<noteq> PostLogin"
    and "answer_code answer \<noteq> Some 401 \<or> st' \<noteq> st"
  obtains admin where "requireSession (rq_authorization req) now (ad_sessions st) = Some admin"
  using assms
  by (cases "requireSession (rq_authorization req) now (ad_sessions st)")
    (auto simp: admin_logout_def admin_export_def review_queue_def admin_review_def elim!: admin_handlerE)

text \<open>
  Property C27. Only a logged-in administrator sees or changes aliases. In every history of the admin server,
  whatever requests came and whatever the game server did to the table, a request that is not a login
  and is answered other than 401, or changes anything, carries a token that an earlier login issued to an
  administrator whose credentials were verified, less than an hour before, and that no logout in between has ended.
\<close>

theorem requests_are_authorised:
  assumes "admin_run verify tr st" and "admin_handler verify route req now bytes st = (answer, st')" and "route \<noteq> PostLogin"
    and "answer_code answer \<noteq> Some 401 \<or> st' \<noteq> st"
  shows "\<exists>later e earlier admin. tr = later @ e # earlier \<and> issued verify (bearer_token req) admin e \<and>
    now < ev_now e + kAdminSessionTtlSeconds \<and> \<not> list_ex (logged_out (bearer_token req)) later"
proof -
  obtain admin where "requireSession (rq_authorization req) now (ad_sessions st) = Some admin"
    using handler_authorised [OF assms(2-4)] .
  from requireSession_backed [OF assms(1) this] show ?thesis unfolding session_backed_def by metis
qed

lemma root_login:
  "\<exists>st. admin_run (\<lambda>_ _. Some 9) [\<lparr>ev_route = PostLogin, ev_request = root_request, ev_now = 10, ev_bytes = Some [7],
       ev_answer = Inr (200, json_field ''token'' ''07'')\<rparr>] st \<and>
     ad_sessions st = [(''07'', \<lparr>as_adminUserId = 9, as_expiresAtEpochSeconds = 3610\<rparr>)] \<and> ad_table st = table"
proof -
  have "generateTokenFromUrandom (Some [7]) = ''07''" by code_simp
  then have "\<exists>st. admin_handler (\<lambda>_ _. Some 9) PostLogin root_request 10 (Some [7]) (AdminState_init table) = (Inr (200, json_field ''token'' ''07''), st) \<and>
      ad_sessions st = [(''07'', \<lparr>as_adminUserId = 9, as_expiresAtEpochSeconds = 3610\<rparr>)] \<and> ad_table st = table"
    by (simp add: admin_login_def root_params AdminState_init_def AdminLoginLockout_isLocked_def AdminLoginLockout_new_def
        AdminSessionStore_createSession_def kAdminSessionTtlSeconds_def)
  then show ?thesis using admin_run.request [OF admin_run.start] by blast
qed

definition root_export :: AdminRequest where
  "root_export = \<lparr>rq_authorization = ''Bearer 07'', rq_param = Map.empty\<rparr>"

lemma root_session: "requireSession ''Bearer 07'' 11 [(''07'', \<lparr>as_adminUserId = 9, as_expiresAtEpochSeconds = 3610\<rparr>)] = Some 9"
  by (simp add: requireSession_def AdminSessionStore_validate_def)

theorem requests_are_authorised_witness:
  "\<exists>tr st answer. admin_run (\<lambda>_ _. Some 9) tr st \<and> admin_handler (\<lambda>_ _. Some 9) GetExport root_export 11 None st = (Inr answer, st) \<and> fst answer = 200 \<and>
     (\<exists>later e earlier admin. tr = later @ e # earlier \<and> issued (\<lambda>_ _. Some 9) (bearer_token root_export) admin e)"
proof -
  obtain tr st where run: "admin_run (\<lambda>_ _. Some 9) tr st"
    and st: "ad_sessions st = [(''07'', \<lparr>as_adminUserId = 9, as_expiresAtEpochSeconds = 3610\<rparr>)]" "ad_table st = []"
    using root_login by blast
  have h: "admin_handler (\<lambda>_ _. Some 9) GetExport root_export 11 None st = (Inr (200, recordsToJson []), st)"
    using st root_session by (simp add: root_export_def admin_export_def PgAlias_exportRecords_def)
  with requests_are_authorised [OF run h] run show ?thesis by fastforce
qed

subsection \<open>What a reader of the listings gets\<close>

text \<open>
  A reader for JSON arrays of objects with the fields of a record, in their order. In strings it knows the
  escapes of the quote and of the backslash; numbers are read as the C++ streams read them.
\<close>

definition expect :: "string \<Rightarrow> string \<Rightarrow> string option" where
  "expect p s = (if take (length p) s = p then Some (drop (length p) s) else None)"

fun json_chars :: "string \<Rightarrow> (string \<times> string) option" where
  "json_chars [] = None"
| "json_chars (c # s) =
     (if c = CHR 0x22 then Some ([], s)
      else if c = CHR 0x5C then
        (case s of [] \<Rightarrow> None
         | d # t \<Rightarrow> if d = CHR 0x22 \<or> d = CHR 0x5C then map_option (apfst ((#) d)) (json_chars t) else None)
      else map_option (apfst ((#) c)) (json_chars s))"

definition json_string :: "string \<Rightarrow> (string \<times> string) option" where
  "json_string s = expect [CHR 0x22] s \<bind> json_chars"

definition json_status :: "string \<Rightarrow> AliasReviewStatus option" where
  "json_status s = List.find (\<lambda>st. reviewStatusName st = s) Enum.enum"

definition json_record :: "string \<Rightarrow> (IdentityAliasRecord \<times> string) option" where
  "json_record s = do {
     s \<leftarrow> expect (''{'' @ quoted ''aliasId'' @ '':'') s; (i, s) \<leftarrow> read_int64 s;
     s \<leftarrow> expect ('','' @ quoted ''canonicalClaimedId'' @ '':'') s; (name, s) \<leftarrow> json_string s;
     s \<leftarrow> expect ('','' @ quoted ''createdTick'' @ '':'') s; (created, s) \<leftarrow> read_uint64 s;
     s \<leftarrow> expect ('','' @ quoted ''lastUsedTick'' @ '':'') s; (used, s) \<leftarrow> read_uint64 s;
     s \<leftarrow> expect ('','' @ quoted ''confidence'' @ '':'') s; (c, s) \<leftarrow> read_float s;
     s \<leftarrow> expect ('','' @ quoted ''reviewStatus'' @ '':'') s; (n, s) \<leftarrow> json_string s; st \<leftarrow> json_status n;
     s \<leftarrow> expect ''}'' s;
     Some (\<lparr>ia_aliasId = i, ia_canonicalClaimedId = name, ia_createdTick = created, ia_lastUsedTick = used, ia_confidence = c, ia_reviewStatus = st\<rparr>, s) }"

function json_records :: "string \<Rightarrow> IdentityAliasRecord list option" where
  "json_records s =
     (case json_record s of
        None \<Rightarrow> None
      | Some (r, t) \<Rightarrow>
          if t = '']'' then Some [r]
          else if t \<noteq> [] \<and> hd t = CHR '','' \<and> length t < length s then map_option ((#) r) (json_records (tl t))
          else None)"
  by pat_completeness auto
termination by (relation "measure length") (auto simp: less_imp_diff_less)

declare json_records.simps [simp del]

definition readJson :: "string \<Rightarrow> IdentityAliasRecord list option" where
  "readJson s = (if s = ''[]'' then Some [] else expect ''['' s \<bind> json_records)"

lemma expect_app: "expect (p @ q) (p @ s) = expect q s"
  by (simp add: expect_def)

lemma json_chars_escape: "json_chars (jsonEscape s @ CHR 0x22 # r) = Some (s, r)"
  by (induction s) auto

lemma json_string_escape: "json_string (quoted (jsonEscape s) @ r) = Some (s, r)"
  by (simp add: json_string_def quoted_def expect_def json_chars_escape)

lemma json_status_name:
  "json_string (quoted (reviewStatusName st) @ r) = Some (reviewStatusName st, r)" "json_status (reviewStatusName st) = Some st"
proof -
  have "jsonEscape (reviewStatusName st) = reviewStatusName st" by (cases st) simp_all
  then show "json_string (quoted (reviewStatusName st) @ r) = Some (reviewStatusName st, r)" by (metis json_string_escape)
  show "json_status (reviewStatusName st) = Some st" by (cases st) (simp_all add: json_status_def enum_AliasReviewStatus_def)
qed

definition listable :: "IdentityAliasRecord \<Rightarrow> bool" where
  "listable r \<longleftrightarrow> is_int64 (ia_aliasId r) \<and> printable (ia_confidence r) \<and> small_tick (ia_createdTick r) \<and> small_tick (ia_lastUsedTick r)"

text \<open>What is left of a record: the confidence is printed with six digits.\<close>

definition six :: "IdentityAliasRecord \<Rightarrow> IdentityAliasRecord" where
  "six r = r\<lparr>ia_confidence := six_digit_value (ia_confidence r)\<rparr>"

lemma expect_Cons: "expect (c # p) (c # s) = expect p s" and expect_Nil: "expect [] s = Some s"
  by (simp_all add: expect_def)

lemma json_record_read:
  assumes "listable r"
  shows "json_record (record_json r @ s) = Some (six r, s)"
proof -
  have f: "read_float (show_float (ia_confidence r) @ CHR '','' # t) = Some (six_digit_value (ia_confidence r), CHR '','' # t)" for t
    using assms by (simp add: listable_def printable_def read_show_float)
  show ?thesis using assms f
    by (simp add: json_record_def record_json_def listable_def read_show_int64 read_show_uint64 json_string_escape json_status_name six_def
        expect_Cons expect_Nil expect_app)
qed

lemma json_records_read:
  assumes "list_all listable (r # rs)"
  shows "json_records (record_json r @ records_json (Suc i) rs @ '']'') = Some (map six (r # rs))"
  using assms
proof (induction rs arbitrary: r i)
  case Nil
  then show ?case using json_record_read [of r "'']''"] by (subst json_records.simps) simp
next
  case (Cons q rs)
  have "length (records_json (Suc i) (q # rs) @ '']'') < length (record_json r @ records_json (Suc i) (q # rs) @ '']'')"
    by (simp add: record_json_def)
  then show ?case using Cons json_record_read [of r "records_json (Suc i) (q # rs) @ '']''"]
    by (subst json_records.simps) simp
qed

lemma readJson_listing: "list_all listable rs \<Longrightarrow> readJson (recordsToJson rs) = Some (map six rs)"
proof (cases rs)
  case (Cons r rs')
  assume "list_all listable rs"
  then show ?thesis using json_records_read [of r rs' 0] Cons
    by (simp add: readJson_def recordsToJson_def expect_def record_json_def)
qed (simp add: readJson_def recordsToJson_def)

text \<open>The rows of records, in the order of the listings.\<close>

lemma export_rows:
  assumes "list_all listable rs"
  shows "PgAlias_exportRecords (map row_of_record rs) = Inr (sort_key ia_aliasId rs)"
proof -
  have "read_all (map row_of_record xs) = Inr xs" if "list_all listable xs" for xs
    using that by (induction xs) (simp_all add: listable_def read_row)
  moreover have "sort_key al_aliasId (map row_of_record rs) = map row_of_record (sort_key ia_aliasId rs)"
  proof -
    have "insort_key al_aliasId (row_of_record x) (map row_of_record xs) = map row_of_record (insort_key ia_aliasId x xs)" for x xs
      by (induction xs) auto
    then show ?thesis by (induction rs) auto
  qed
  ultimately show ?thesis using assms by (simp add: PgAlias_exportRecords_def list_all_iff)
qed

lemma listings_show_table:
  assumes "requireSession header now (ad_sessions st) = Some admin" and "ad_table st = map row_of_record rs" and "list_all listable rs"
  shows "(\<exists>body. admin_export header now st = Inr (200, body) \<and> readJson body = Some (map six (sort_key ia_aliasId rs))) \<and>
    (\<exists>body. review_queue header now st = Inr (200, body) \<and>
       readJson body = Some (map six (filter (\<lambda>r. ia_reviewStatus r = Unreviewed) (sort_key ia_aliasId rs))))"
proof -
  have "list_all listable (sort_key ia_aliasId rs)" using assms(3) by (simp add: list_all_iff)
  moreover from this have "list_all listable (filter (\<lambda>r. ia_reviewStatus r = Unreviewed) (sort_key ia_aliasId rs))" by (simp add: list_all_iff)
  ultimately show ?thesis using assms(1,2) export_rows [OF assms(3)] readJson_listing by (simp add: admin_export_def review_queue_def)
qed

definition reviewed :: "string \<Rightarrow> AliasReviewStatus \<Rightarrow> f32 \<Rightarrow> IdentityAliasRecord \<Rightarrow> IdentityAliasRecord" where
  "reviewed k status c r = (if ia_canonicalClaimedId r = k then r\<lparr>ia_reviewStatus := status, ia_confidence := c\<rparr> else r)"

lemma reviewed_rows:
  "update_name k (\<lambda>r. r\<lparr>al_reviewStatus := reviewStatusToInt status, al_confidence := c\<rparr>) (map row_of_record rs) = map row_of_record (map (reviewed k status c) rs)"
  by (simp add: update_name_def reviewed_def row_of_record_def)

lemma confidence_printable: "confidence_check c \<Longrightarrow> printable c"
proof -
  have one: "f32_lit 1 1 = F_Fin False f32_unit" using f32_lit_nat [of 1] by simp
  assume c: "confidence_check c"
  then obtain s m where m: "c = F_Fin s m" by (cases c) (auto simp: confidence_check_def one f32_le_def simp del: One_nat_def split: if_splits)
  with c have "f32_int c \<le> int f32_unit" "0 \<le> f32_int c" by (auto simp: confidence_check_def one f32_le_fin simp del: power_numeral One_nat_def)
  then have "m \<le> f32_unit" using m by (cases s) (auto simp del: power_numeral)
  then have "m \<le> 2 ^ 275" by (rule order_trans) (simp del: power_numeral)
  then show ?thesis unfolding m by (rule printable_Fin)
qed

lemma listable_reviewed: "listable r \<Longrightarrow> confidence_check c \<Longrightarrow> listable (reviewed k status c r)"
  by (simp add: listable_def reviewed_def confidence_printable)

lemma admin_review_204:
  assumes "admin_review header now claimedId statusName confidence st = (Inr (204, []), st')"
  obtains status c where "parseReviewStatus statusName = Some status" "c = (case confidence of None \<Rightarrow> f32_lit 1 1 | Some s \<Rightarrow> strtof s)" "confidence_check c"
    "st' = st\<lparr>ad_table := update_name (canonicalClaimedId claimedId) (\<lambda>r. r\<lparr>al_reviewStatus := reviewStatusToInt status, al_confidence := c\<rparr>) (ad_table st)\<rparr>"
  using assms
  by (auto simp: admin_review_def admin_canonical_mirrors PgAlias_reviewAlias_def split: option.splits sum.splits bool.splits prod.splits if_splits)

text \<open>
  Property C28. A review is what the listings show from then on: after \<open>/aliases/review\<close> answered 204, the body of
  \<open>/aliases/export\<close> reads back, whatever characters the names contain, as the records of the table in the
  order of their ids with the reviewed name (in any spelling of its case) carrying the given status and
  confidence and every other record as it was, and \<open>/aliases/review-queue\<close> no longer lists that name.
  Confidences come back rounded to six digits.
\<close>

theorem review_reaches_listings:
  assumes "ad_table st = map row_of_record rs" and "list_all listable rs"
    and "admin_review header now claimedId statusName confidence st = (Inr (204, []), st')"
  shows "\<exists>status body queue pending. parseReviewStatus statusName = Some status \<and>
    admin_export header now st' = Inr (200, body) \<and>
    readJson body = Some (map six (sort_key ia_aliasId (map (reviewed (canonicalClaimedId claimedId) status
      (case confidence of None \<Rightarrow> f32_lit 1 1 | Some s \<Rightarrow> strtof s)) rs))) \<and>
    review_queue header now st' = Inr (200, queue) \<and> readJson queue = Some pending \<and>
    canonicalClaimedId claimedId \<notin> ia_canonicalClaimedId ` set pending"
proof -
  obtain status c where r: "parseReviewStatus statusName = Some status" "c = (case confidence of None \<Rightarrow> f32_lit 1 1 | Some s \<Rightarrow> strtof s)"
    "confidence_check c"
    "st' = st\<lparr>ad_table := update_name (canonicalClaimedId claimedId) (\<lambda>r. r\<lparr>al_reviewStatus := reviewStatusToInt status, al_confidence := c\<rparr>) (ad_table st)\<rparr>"
    using admin_review_204 [OF assms(3)] .
  obtain admin where "requireSession header now (ad_sessions st) = Some admin"
    using assms(3) by (auto simp: admin_review_def split: option.splits)
  then have auth: "requireSession header now (ad_sessions st') = Some admin" using r(4) by simp
  let ?rs = "map (reviewed (canonicalClaimedId claimedId) status c) rs"
  have "ad_table st' = map row_of_record ?rs" using r(4) assms(1) reviewed_rows by simp
  moreover have "list_all listable ?rs" using assms(2) r(3) listable_reviewed by (auto simp: list_all_iff)
  ultimately have l: "(\<exists>body. admin_export header now st' = Inr (200, body) \<and> readJson body = Some (map six (sort_key ia_aliasId ?rs))) \<and>
    (\<exists>body. review_queue header now st' = Inr (200, body) \<and>
       readJson body = Some (map six (filter (\<lambda>r. ia_reviewStatus r = Unreviewed) (sort_key ia_aliasId ?rs))))"
    by (rule listings_show_table [OF auth])
  have "status \<noteq> Unreviewed" using r(1) by (auto simp: parseReviewStatus_def split: if_splits)
  then have "canonicalClaimedId claimedId \<notin> ia_canonicalClaimedId ` set (map six (filter (\<lambda>r. ia_reviewStatus r = Unreviewed) (sort_key ia_aliasId ?rs)))"
    by (auto simp: six_def reviewed_def)
  then show ?thesis using l r(1,2) by blast
qed


subsection \<open>Witnesses\<close>

text \<open>An alias whose name has a quote in it, and a server with root logged in.\<close>

definition quote_alias :: IdentityAliasRecord where
  "quote_alias = \<lparr>ia_aliasId = 1, ia_canonicalClaimedId = ''a'' @ [CHR 0x22], ia_createdTick = 5, ia_lastUsedTick = 6,
     ia_confidence = f32_zero, ia_reviewStatus = Unreviewed\<rparr>"

definition root_state :: AdminState where
  "root_state = (AdminState_init (map row_of_record [quote_alias]))\<lparr>ad_sessions := [(''07'', \<lparr>as_adminUserId = 9, as_expiresAtEpochSeconds = 3610\<rparr>)]\<rparr>"

lemma quote_alias_listable: "list_all listable [quote_alias]"
  using printable_Fin [of 0 False] by (simp add: listable_def quote_alias_def is_int64_def small_tick_def)

lemma root_state_session: "requireSession ''Bearer 07'' 11 (ad_sessions root_state) = Some 9"
  by (simp add: root_state_def root_session)

lemma quote_alias_row: "row_of_name (canonicalClaimedId (''A'' @ [CHR 0x22])) (ad_table root_state) = Some (row_of_record quote_alias)"
proof -
  have "tolower CHR ''A'' = CHR ''a''" "tolower CHR 0x22 = CHR 0x22" by code_simp+
  then show ?thesis by (simp add: root_state_def AdminState_init_def row_of_name_def canonicalClaimedId_def quote_alias_def)
qed

lemma root_review:
  "\<exists>st'. admin_review ''Bearer 07'' 11 (''A'' @ [CHR 0x22]) ''confirmed'' None root_state = (Inr (204, []), st')"
proof -
  have "\<not> bad_confidence (f32_lit 1 1)" "confidence_check (f32_lit 1 1)"
    using f32_lit_nat [of 1] by (simp_all add: bad_confidence_def confidence_check_def f32_le_def)
  then show ?thesis using root_state_session quote_alias_row
    by (simp add: admin_review_def parseReviewStatus_def PgAlias_reviewAlias_def admin_canonical_mirrors del: One_nat_def append.simps)
qed

theorem review_reaches_listings_witness:
  "\<exists>st' queue pending. admin_review ''Bearer 07'' 11 (''A'' @ [CHR 0x22]) ''confirmed'' None root_state = (Inr (204, []), st') \<and>
     review_queue ''Bearer 07'' 11 st' = Inr (200, queue) \<and> readJson queue = Some pending \<and>
     canonicalClaimedId (''A'' @ [CHR 0x22]) \<notin> ia_canonicalClaimedId ` set pending"
proof -
  obtain st' where r: "admin_review ''Bearer 07'' 11 (''A'' @ [CHR 0x22]) ''confirmed'' None root_state = (Inr (204, []), st')"
    using root_review by blast
  have "ad_table root_state = map row_of_record [quote_alias]" by (simp add: root_state_def AdminState_init_def)
  from review_reaches_listings [OF this quote_alias_listable r] show ?thesis using r by blast
qed


end
