(* ===== verification/Progression.thy ===== *)
theory Progression
  imports Alias_Database "HOL-Library.Product_Lexorder"
begin

text \<open>
  \<open>PostgresPlayerProgressionStore.cpp\<close> over the tables of \<open>db/migrations/0004\<close>: characters, experience
  curves, item templates, equipment and its sockets, with their primary and foreign keys and the ranges of
  \<open>BIGINT\<close>. A call returns its value or the exception, and the tables. The \<open>uuid\<close> type is PostgreSQL's: \<open>uuid\<close>
  reads a text to the canonical text of its value, and \<open>gen_random_uuid\<close> is an argument.
\<close>

subsection \<open>Tables\<close>

record CharacterRow =
  ch_user :: int
  ch_name :: string
  ch_jobClassId :: int
  ch_baseLevel :: int
  ch_baseExp :: int
  ch_jobLevel :: int
  ch_jobExp :: int
  ch_stamina :: int

record TemplateRow =
  tp_maxDurability :: int
  tp_socketCount :: int

record EquipmentRow =
  eq_characterId :: int
  eq_itemTemplateId :: int
  eq_durability :: int
  eq_equipmentExp :: int

record ProgressDb =
  pd_users :: "int std_set"
  pd_nextCharacter :: int
  pd_characters :: "(int, CharacterRow) std_map"
  pd_baseCurve :: "(int, int) std_map"
  pd_jobCurve :: "(int, int) std_map"
  pd_templates :: "(int, TemplateRow) std_map"
  pd_equipment :: "(string, EquipmentRow) std_map"
  pd_sockets :: "(string \<times> int, string option) std_map"

definition Progression_fromEnvironment :: "(string \<Rightarrow> string option) \<Rightarrow> string option" where
  "Progression_fromEnvironment getenv =
     (case getenv ''SEED_IDENTITY_DB_URL'' of None \<Rightarrow> None | Some url \<Rightarrow> if url = [] then None else Some url)"

record CharacterProgress =
  cp_characterId :: int
  cp_userId :: int
  cp_baseLevel :: int
  cp_baseExp :: int
  cp_jobLevel :: int
  cp_jobExp :: int
  cp_stamina :: int
  cp_jobClassId :: int

record EquipmentInstanceSnapshot =
  es_id :: string
  es_characterId :: int
  es_itemTemplateId :: int
  es_durability :: int
  es_equipmentExp :: int

subsection \<open>Characters\<close>

definition readCharacter :: "int \<Rightarrow> CharacterRow \<Rightarrow> CharacterProgress" where
  "readCharacter i row = \<lparr>cp_characterId = i, cp_userId = ch_user row, cp_baseLevel = ch_baseLevel row, cp_baseExp = ch_baseExp row,
     cp_jobLevel = ch_jobLevel row, cp_jobExp = ch_jobExp row, cp_stamina = ch_stamina row, cp_jobClassId = ch_jobClassId row\<rparr>"

text \<open>The sequence behind the id advances even when the insertion fails.\<close>

definition createCharacter :: "int \<Rightarrow> string \<Rightarrow> int \<Rightarrow> ProgressDb \<Rightarrow> int sql \<times> ProgressDb" where
  "createCharacter userId name jobClassId db =
     (if pd_nextCharacter db > INT64_MAX then (Inl SequenceLimit, db)
      else let i = pd_nextCharacter db; db1 = db\<lparr>pd_nextCharacter := i + 1\<rparr> in
        if map_of (pd_characters db1) i \<noteq> None then (Inl UniqueViolation, db1)
        else if userId \<notin> set (pd_users db1) then (Inl ForeignKeyViolation, db1)
        else (Inr i, db1\<lparr>pd_characters := map_put i \<lparr>ch_user = userId, ch_name = name, ch_jobClassId = jobClassId, ch_baseLevel = 1,
               ch_baseExp = 0, ch_jobLevel = 1, ch_jobExp = 0, ch_stamina = 100\<rparr> (pd_characters db1)\<rparr>))"

definition loadCharacter :: "int \<Rightarrow> ProgressDb \<Rightarrow> CharacterProgress sql" where
  "loadCharacter characterId db =
     (case map_of (pd_characters db) characterId of
        None \<Rightarrow> Inl (RuntimeError ''player character not found'')
      | Some row \<Rightarrow> Inr (readCharacter characterId row))"

text \<open>An \<open>UPDATE\<close> of one character: no row is no error.\<close>

definition update_character :: "int \<Rightarrow> (CharacterRow \<Rightarrow> CharacterRow sql) \<Rightarrow> ProgressDb \<Rightarrow> unit sql \<times> ProgressDb" where
  "update_character i f db =
     (case map_of (pd_characters db) i of
        None \<Rightarrow> (Inr (), db)
      | Some row \<Rightarrow>
          (case f row of
             Inl e \<Rightarrow> (Inl e, db)
           | Inr row' \<Rightarrow> (Inr (), db\<lparr>pd_characters := map_put i row' (pd_characters db)\<rparr>)))"

definition bigint :: "int \<Rightarrow> int sql" where
  "bigint n = (if is_int64 n then Inr n else Inl NumericOutOfRange)"

definition grantBaseExperience :: "int \<Rightarrow> int \<Rightarrow> ProgressDb \<Rightarrow> unit sql \<times> ProgressDb" where
  "grantBaseExperience characterId delta db =
     update_character characterId (\<lambda>row. map_sum id (\<lambda>n. row\<lparr>ch_baseExp := n\<rparr>) (bigint (ch_baseExp row + delta))) db"

definition grantJobExperience :: "int \<Rightarrow> int \<Rightarrow> ProgressDb \<Rightarrow> unit sql \<times> ProgressDb" where
  "grantJobExperience characterId delta db =
     update_character characterId (\<lambda>row. map_sum id (\<lambda>n. row\<lparr>ch_jobExp := n\<rparr>) (bigint (ch_jobExp row + delta))) db"

definition applyStaminaChange :: "int \<Rightarrow> int \<Rightarrow> ProgressDb \<Rightarrow> unit sql \<times> ProgressDb" where
  "applyStaminaChange characterId stamina db = update_character characterId (\<lambda>row. Inr (row\<lparr>ch_stamina := stamina\<rparr>)) db"

subsection \<open>Master data\<close>

definition ensureMasterBaseExp :: "int \<Rightarrow> int \<Rightarrow> ProgressDb \<Rightarrow> ProgressDb" where
  "ensureMasterBaseExp level expToNext db = db\<lparr>pd_baseCurve := map_put level expToNext (pd_baseCurve db)\<rparr>"

definition ensureMasterJobExp :: "int \<Rightarrow> int \<Rightarrow> ProgressDb \<Rightarrow> ProgressDb" where
  "ensureMasterJobExp level expToNext db = db\<lparr>pd_jobCurve := map_put level expToNext (pd_jobCurve db)\<rparr>"

definition baseExpToNext :: "int \<Rightarrow> ProgressDb \<Rightarrow> int sql" where
  "baseExpToNext level db =
     (case map_of (pd_baseCurve db) level of None \<Rightarrow> Inl (RuntimeError ''master base exp curve row missing'') | Some n \<Rightarrow> Inr n)"

definition ensureItemTemplate :: "int \<Rightarrow> int \<Rightarrow> int \<Rightarrow> ProgressDb \<Rightarrow> ProgressDb" where
  "ensureItemTemplate itemTemplateId maxDurability socketCount db =
     db\<lparr>pd_templates := map_put itemTemplateId \<lparr>tp_maxDurability = maxDurability, tp_socketCount = socketCount\<rparr> (pd_templates db)\<rparr>"

subsection \<open>Equipment\<close>

definition createEquipmentInstance :: "string \<Rightarrow> int \<Rightarrow> int \<Rightarrow> int \<Rightarrow> int \<Rightarrow> ProgressDb \<Rightarrow> string sql \<times> ProgressDb" where
  "createEquipmentInstance newId characterId itemTemplateId durability equipmentExp db =
     (if map_of (pd_equipment db) newId \<noteq> None then (Inl UniqueViolation, db)
      else if map_of (pd_characters db) characterId = None \<or> map_of (pd_templates db) itemTemplateId = None
      then (Inl ForeignKeyViolation, db)
      else (Inr newId, db\<lparr>pd_equipment := map_put newId \<lparr>eq_characterId = characterId, eq_itemTemplateId = itemTemplateId,
             eq_durability = durability, eq_equipmentExp = equipmentExp\<rparr> (pd_equipment db)\<rparr>))"

definition equipmentExists :: "(string \<Rightarrow> string option) \<Rightarrow> string \<Rightarrow> ProgressDb \<Rightarrow> bool sql" where
  "equipmentExists uuid equipmentId db =
     (case uuid equipmentId of None \<Rightarrow> Inl InvalidText | Some u \<Rightarrow> Inr (map_of (pd_equipment db) u \<noteq> None))"

definition loadEquipment :: "(string \<Rightarrow> string option) \<Rightarrow> string \<Rightarrow> ProgressDb \<Rightarrow> EquipmentInstanceSnapshot sql" where
  "loadEquipment uuid equipmentId db =
     (case uuid equipmentId of
        None \<Rightarrow> Inl InvalidText
      | Some u \<Rightarrow>
          (case map_of (pd_equipment db) u of
             None \<Rightarrow> Inl (RuntimeError ''equipment instance not found'')
           | Some row \<Rightarrow> Inr \<lparr>es_id = u, es_characterId = eq_characterId row, es_itemTemplateId = eq_itemTemplateId row,
               es_durability = eq_durability row, es_equipmentExp = eq_equipmentExp row\<rparr>))"

definition socketItem :: "(string \<Rightarrow> string option) \<Rightarrow> string \<Rightarrow> int \<Rightarrow> string \<Rightarrow> ProgressDb \<Rightarrow> unit sql \<times> ProgressDb" where
  "socketItem uuid equipmentId socketIndex socketedItemInstanceId db =
     (case (uuid equipmentId, uuid socketedItemInstanceId) of
        (Some u, Some v) \<Rightarrow>
          if map_of (pd_equipment db) u = None \<or> map_of (pd_equipment db) v = None then (Inl ForeignKeyViolation, db)
          else (Inr (), db\<lparr>pd_sockets := map_put (u, socketIndex) (Some v) (pd_sockets db)\<rparr>)
      | _ \<Rightarrow> (Inl InvalidText, db))"

definition socketedItemId :: "(string \<Rightarrow> string option) \<Rightarrow> string \<Rightarrow> int \<Rightarrow> ProgressDb \<Rightarrow> string sql" where
  "socketedItemId uuid equipmentId socketIndex db =
     (case uuid equipmentId of
        None \<Rightarrow> Inl InvalidText
      | Some u \<Rightarrow> Inr (case map_of (pd_sockets db) (u, socketIndex) of Some (Some v) \<Rightarrow> v | _ \<Rightarrow> []))"

subsection \<open>Histories\<close>

text \<open>The calls that change the tables, with whether they succeeded.\<close>

datatype ProgressCall = CreateCharacter int string int | GrantBase int int | GrantJob int int | SetStamina int int
  | EnsureBaseExp int int | EnsureJobExp int int | EnsureTemplate int int int | CreateEquipment string int int int int
  | SocketItem string int string

definition succeeded :: "'a sql \<times> ProgressDb \<Rightarrow> bool \<times> ProgressDb" where
  "succeeded r = (case r of (Inl e, db) \<Rightarrow> (False, db) | (Inr x, db) \<Rightarrow> (True, db))"

fun progress_call :: "(string \<Rightarrow> string option) \<Rightarrow> ProgressCall \<Rightarrow> ProgressDb \<Rightarrow> bool \<times> ProgressDb" where
  "progress_call uuid (CreateCharacter u n j) db = succeeded (createCharacter u n j db)"
| "progress_call uuid (GrantBase i d) db = succeeded (grantBaseExperience i d db)"
| "progress_call uuid (GrantJob i d) db = succeeded (grantJobExperience i d db)"
| "progress_call uuid (SetStamina i n) db = succeeded (applyStaminaChange i n db)"
| "progress_call uuid (EnsureBaseExp l n) db = (True, ensureMasterBaseExp l n db)"
| "progress_call uuid (EnsureJobExp l n) db = (True, ensureMasterJobExp l n db)"
| "progress_call uuid (EnsureTemplate i m s) db = (True, ensureItemTemplate i m s db)"
| "progress_call uuid (CreateEquipment u c t d e) db = succeeded (createEquipmentInstance u c t d e db)"
| "progress_call uuid (SocketItem u i v) db = succeeded (socketItem uuid u i v db)"

fun progress_calls :: "(string \<Rightarrow> string option) \<Rightarrow> ProgressCall list \<Rightarrow> ProgressDb \<Rightarrow> ProgressDb" where
  "progress_calls uuid [] db = db"
| "progress_calls uuid (c # cs) db = progress_calls uuid cs (snd (progress_call uuid c db))"

text \<open>The experience of either kind that the successful grants of a history add to a character.\<close>

fun granted :: "(string \<Rightarrow> string option) \<Rightarrow> (ProgressCall \<Rightarrow> int) \<Rightarrow> ProgressCall list \<Rightarrow> ProgressDb \<Rightarrow> int" where
  "granted uuid amount [] db = 0"
| "granted uuid amount (c # cs) db =
     (if fst (progress_call uuid c db) then amount c else 0) + granted uuid amount cs (snd (progress_call uuid c db))"

fun base_amount :: "int \<Rightarrow> ProgressCall \<Rightarrow> int" where
  "base_amount i (GrantBase j d) = (if i = j then d else 0)"
| "base_amount i _ = 0"

fun job_amount :: "int \<Rightarrow> ProgressCall \<Rightarrow> int" where
  "job_amount i (GrantJob j d) = (if i = j then d else 0)"
| "job_amount i _ = 0"

lemmas progress_defs = succeeded_def createCharacter_def grantBaseExperience_def grantJobExperience_def applyStaminaChange_def update_character_def
  ensureMasterBaseExp_def ensureMasterJobExp_def ensureItemTemplate_def createEquipmentInstance_def socketItem_def bigint_def Let_def

lemma call_character:
  assumes "map_of (pd_characters db) i = Some row"
  shows "\<exists>row'. map_of (pd_characters (snd (progress_call uuid c db))) i = Some row' \<and>
    ch_user row' = ch_user row \<and> ch_name row' = ch_name row \<and> ch_jobClassId row' = ch_jobClassId row \<and>
    ch_baseLevel row' = ch_baseLevel row \<and> ch_jobLevel row' = ch_jobLevel row \<and>
    ch_baseExp row' = ch_baseExp row + (if fst (progress_call uuid c db) then base_amount i c else 0) \<and>
    ch_jobExp row' = ch_jobExp row + (if fst (progress_call uuid c db) then job_amount i c else 0)"
  using assms by (cases c) (auto simp: progress_defs split: option.splits prod.splits sum.splits)

text \<open>
  Experience is counted exactly. Over any history of the store a character keeps its owner, name
  and class; its base and job experience are what they were plus the amounts of the successful grants of
  each kind to it, whatever is granted to others, and its levels never change, however much it has.
\<close>

theorem experience_accumulates:
  assumes "loadCharacter i db = Inr p"
  shows "\<exists>p'. loadCharacter i (progress_calls uuid calls db) = Inr p' \<and> cp_userId p' = cp_userId p \<and> cp_jobClassId p' = cp_jobClassId p \<and>
    cp_baseExp p' = cp_baseExp p + granted uuid (base_amount i) calls db \<and> cp_jobExp p' = cp_jobExp p + granted uuid (job_amount i) calls db \<and>
    cp_baseLevel p' = cp_baseLevel p \<and> cp_jobLevel p' = cp_jobLevel p"
  using assms
proof (induction calls arbitrary: db p)
  case (Cons c cs)
  obtain row where row: "map_of (pd_characters db) i = Some row" "p = readCharacter i row"
    using Cons.prems by (auto simp: loadCharacter_def split: option.splits)
  obtain row' where r: "map_of (pd_characters (snd (progress_call uuid c db))) i = Some row'"
    "ch_user row' = ch_user row" "ch_jobClassId row' = ch_jobClassId row" "ch_baseLevel row' = ch_baseLevel row" "ch_jobLevel row' = ch_jobLevel row"
    "ch_baseExp row' = ch_baseExp row + (if fst (progress_call uuid c db) then base_amount i c else 0)"
    "ch_jobExp row' = ch_jobExp row + (if fst (progress_call uuid c db) then job_amount i c else 0)"
    using call_character [OF row(1), of uuid c] by blast
  have "loadCharacter i (snd (progress_call uuid c db)) = Inr (readCharacter i row')" using r(1) by (simp add: loadCharacter_def)
  from Cons.IH [OF this] show ?case using r(2-) row(2) by (simp add: readCharacter_def algebra_simps)
qed simp

text \<open>The foreign keys of the migration hold in every state: no row points to a row that is not there.\<close>

definition references_ok :: "ProgressDb \<Rightarrow> bool" where
  "references_ok db \<longleftrightarrow>
     (\<forall>i row. map_of (pd_characters db) i = Some row \<longrightarrow> ch_user row \<in> set (pd_users db)) \<and>
     (\<forall>u row. map_of (pd_equipment db) u = Some row \<longrightarrow>
        map_of (pd_characters db) (eq_characterId row) \<noteq> None \<and> map_of (pd_templates db) (eq_itemTemplateId row) \<noteq> None) \<and>
     (\<forall>u k v. map_of (pd_sockets db) (u, k) = Some v \<longrightarrow> map_of (pd_equipment db) u \<noteq> None \<and> (\<forall>w. v = Some w \<longrightarrow> map_of (pd_equipment db) w \<noteq> None))"

lemma call_references: "references_ok db \<Longrightarrow> references_ok (snd (progress_call uuid c db))"
  by (cases c) (auto simp: references_ok_def progress_defs split: option.splits prod.splits sum.splits if_splits)

theorem references_kept: "references_ok db \<Longrightarrow> references_ok (progress_calls uuid calls db)"
  by (induction calls arbitrary: db) (simp_all add: call_references)

text \<open>A new instance is loaded as it was created, and a socketed item is found in its socket.\<close>

lemma equipment_roundtrip:
  assumes "createEquipmentInstance newId c t d x db = (Inr u, db')" and "uuid newId = Some newId"
  shows "loadEquipment uuid u db' = Inr \<lparr>es_id = newId, es_characterId = c, es_itemTemplateId = t, es_durability = d, es_equipmentExp = x\<rparr> \<and>
    equipmentExists uuid u db' = Inr True"
  using assms by (auto simp: createEquipmentInstance_def loadEquipment_def equipmentExists_def split: if_splits)

lemma socket_roundtrip:
  assumes "socketItem uuid u k v db = (Inr (), db')"
  shows "socketedItemId uuid u k db' = Inr (the (uuid v))"
  using assms by (auto simp: socketItem_def socketedItemId_def split: option.splits if_splits)

definition start_db :: ProgressDb where
  "start_db = \<lparr>pd_users = [4], pd_nextCharacter = 1, pd_characters = [], pd_baseCurve = [], pd_jobCurve = [], pd_templates = [], pd_equipment = [], pd_sockets = []\<rparr>"

theorem experience_accumulates_witness:
  "\<exists>p'. loadCharacter 1 (progress_calls Some [EnsureBaseExp 1 50, GrantBase 1 70, GrantBase 2 30, GrantJob 1 5] (snd (createCharacter 4 ''ann'' 2 start_db))) = Inr p' \<and>
     cp_baseExp p' = 70 \<and> cp_jobExp p' = 5 \<and> cp_baseLevel p' = 1"
proof -
  let ?db = "snd (createCharacter 4 ''ann'' 2 start_db)" and ?cs = "[EnsureBaseExp 1 50, GrantBase 1 70, GrantBase 2 30, GrantJob 1 5]"
  have l: "loadCharacter 1 ?db = Inr \<lparr>cp_characterId = 1, cp_userId = 4, cp_baseLevel = 1, cp_baseExp = 0, cp_jobLevel = 1, cp_jobExp = 0,
      cp_stamina = 100, cp_jobClassId = 2\<rparr>"
    by (simp add: createCharacter_def start_db_def loadCharacter_def readCharacter_def Let_def)
  have "granted Some (base_amount 1) ?cs ?db = 70" "granted Some (job_amount 1) ?cs ?db = 5"
    by (simp_all add: progress_defs start_db_def is_int64_def)
  then show ?thesis using experience_accumulates [OF l, of Some ?cs] by auto
qed

end
