(* ===== verification/Seed_Files.thy ===== *)
theory Seed_Files
  imports Sessions
begin

text \<open>
  The block file tools: \<open>SeedBinary.cpp\<close> (blocks of 1024 bytes under an index), \<open>FileManager.cpp\<close> (loading a
  file into blocks and saving them), \<open>Data.cpp\<close> and the program \<open>main.cpp\<close>, which copies a file through them. What
  the file system answers (\<open>realpath\<close>, opening, reading, whether a write succeeds) is an argument; the bytes
  written are an output of the model. \<open>None\<close> is behaviour C++ does not define.
\<close>

subsection \<open>SeedBinary\<close>

abbreviation STANDARD_BINARY_SIZE :: nat where "STANDARD_BINARY_SIZE \<equiv> 1024"
abbreviation INT_MAX :: int where "INT_MAX \<equiv> 2147483647"

record Binary =
  bn_isValid :: bool
  bn_size :: nat
  bn_data :: "u8 list"

record SeedBinary =
  sb_bData :: "(int, Binary) std_map"
  sb_fIndex :: int

definition SeedBinary_new :: SeedBinary where
  "SeedBinary_new = \<lparr>sb_bData = [], sb_fIndex = 0\<rparr>"

text \<open>\<open>data\<close> is the array behind the pointer, \<open>None\<close> a null pointer; the result is the \<open>int\<close> of the code.\<close>

definition setBinary :: "u8 list option \<Rightarrow> nat \<Rightarrow> int \<Rightarrow> SeedBinary \<Rightarrow> int \<times> SeedBinary" where
  "setBinary data sz idx sb =
     (case data of
        None \<Rightarrow> (0, sb)
      | Some d \<Rightarrow>
          if sz > STANDARD_BINARY_SIZE \<or> idx < 0 \<or> idx = INT_MAX then (0, sb)
          else let mData = \<lparr>bn_isValid = True, bn_size = sz, bn_data = take sz d @ replicate (STANDARD_BINARY_SIZE - sz) 0\<rparr> in
            (1, sb\<lparr>sb_bData := map_put idx mData (sb_bData sb), sb_fIndex := (if idx \<ge> sb_fIndex sb then idx + 1 else sb_fIndex sb)\<rparr>))"

text \<open>\<open>getBinary\<close> with an array to fill: \<open>None\<close> is the result 0, otherwise the array, the size and \<open>isValid\<close>.\<close>

definition getBinary :: "int \<Rightarrow> SeedBinary \<Rightarrow> (u8 list \<times> nat \<times> bool) option" where
  "getBinary idx sb =
     (if idx < 0 then None
      else case map_of (sb_bData sb) idx of
        None \<Rightarrow> None
      | Some b \<Rightarrow> Some (bn_data b, bn_size b, bn_isValid b))"

definition getFileIndex :: "SeedBinary \<Rightarrow> int" where
  "getFileIndex sb = sb_fIndex sb"

subsection \<open>Paths\<close>

definition normalizeInputPath :: "(string \<Rightarrow> string option) \<Rightarrow> string \<Rightarrow> string option" where
  "normalizeInputPath realpath path = (if path = [] \<or> CHR 0x00 \<in> set path then None else realpath path)"

text \<open>\<open>path.find_last_of('/')\<close> splits a path into the parent and the file name.\<close>

definition split_path :: "string \<Rightarrow> string \<times> string" where
  "split_path path =
     (if CHR ''/'' \<notin> set path then (''.'', path)
      else (rev (tl (dropWhile (\<lambda>c. c \<noteq> CHR ''/'') (rev path))), rev (takeWhile (\<lambda>c. c \<noteq> CHR ''/'') (rev path))))"

definition file_char :: "char \<Rightarrow> bool" where
  "file_char c \<longleftrightarrow> isalnum c \<or> c = CHR ''.'' \<or> c = CHR ''_'' \<or> c = CHR ''-''"

definition normalizeOutputPath :: "(string \<Rightarrow> string option) \<Rightarrow> string \<Rightarrow> string option" where
  "normalizeOutputPath realpath path =
     (if path = [] \<or> CHR 0x00 \<in> set path then None
      else case split_path path of
        (parent, filename) \<Rightarrow>
          if filename = [] \<or> filename = ''.'' \<or> filename = ''..'' then None
          else if \<not> list_all file_char filename then None
          else (case realpath parent of None \<Rightarrow> None | Some resolvedParent \<Rightarrow> Some (resolvedParent @ ''/'' @ filename)))"

subsection \<open>FileManager\<close>

text \<open>An opened file: the two answers of \<open>tellg\<close> and the bytes that can be read from its beginning.\<close>

record InputFile =
  in_end :: int
  in_beg :: int
  in_bytes :: "u8 list"

record FileCalls =
  fc_realpath :: "string \<Rightarrow> string option"
  fc_openIn :: "string \<Rightarrow> InputFile option"
  fc_openOut :: "string \<Rightarrow> bool"
  fc_writeOk :: "int \<Rightarrow> bool"
  fc_flushOk :: bool
  fc_closeOk :: bool

function load_loop :: "int \<Rightarrow> int \<Rightarrow> int \<Rightarrow> u8 list \<Rightarrow> SeedBinary \<Rightarrow> int \<times> SeedBinary" where
  "load_loop fileSize offset idx rest sb =
     (if \<not> offset < fileSize then (1, sb)
      else if idx = INT_MAX then (0, sb)
      else let readsize = nat (min (int STANDARD_BINARY_SIZE) (fileSize - offset)); ch = take readsize rest in
        if length ch \<noteq> readsize then (0, sb)
        else case setBinary (Some ch) readsize idx sb of
          (r, sb1) \<Rightarrow> if r = 0 then (0, sb1) else load_loop fileSize (offset + int STANDARD_BINARY_SIZE) (idx + 1) (drop readsize rest) sb1)"
  by pat_completeness auto
termination
  by (relation "measure (\<lambda>(fileSize, offset, idx, rest, sb). nat (fileSize - offset))") auto

declare load_loop.simps [simp del]

definition FileManager_load :: "FileCalls \<Rightarrow> string \<Rightarrow> SeedBinary \<Rightarrow> int \<times> SeedBinary" where
  "FileManager_load fc fPath sb =
     (case normalizeInputPath (fc_realpath fc) fPath of
        None \<Rightarrow> (0, sb)
      | Some path \<Rightarrow>
          (case fc_openIn fc path of
             None \<Rightarrow> (0, sb)
           | Some fin \<Rightarrow>
               if in_end fin < 0 then (0, sb)
               else if in_beg fin < 0 \<or> in_end fin < in_beg fin then (0, sb)
               else load_loop (in_end fin - in_beg fin) 0 0 (in_bytes fin) sb))"

text \<open>
  The loop of \<open>save\<close> from the block \<open>i\<close>, with the bytes written so far: the result and all bytes. The progress
  message computes \<open>i * 100\<close> as an \<open>int\<close>.
\<close>

function save_loop :: "FileCalls \<Rightarrow> SeedBinary \<Rightarrow> int \<Rightarrow> int \<Rightarrow> u8 list \<Rightarrow> (int \<times> u8 list) option" where
  "save_loop fc sb max_index i written =
     (if \<not> i < max_index then Some (1, written)
      else case getBinary i sb of
        None \<Rightarrow> Some (0, written)
      | Some (ch, sz, isValid) \<Rightarrow>
          if \<not> isValid \<or> sz > STANDARD_BINARY_SIZE then Some (0, written)
          else if \<not> fc_writeOk fc i then Some (0, written @ take sz ch)
          else if max_index > 0 \<and> i * 100 > INT_MAX then None
          else save_loop fc sb max_index (i + 1) (written @ take sz ch))"
  by pat_completeness auto
termination
  by (relation "measure (\<lambda>(fc, sb, max_index, i, written). nat (max_index - i))") auto

declare save_loop.simps [simp del]

text \<open>The result of \<open>save\<close> and the file it created, if it got that far.\<close>

definition FileManager_save :: "FileCalls \<Rightarrow> SeedBinary \<Rightarrow> string \<Rightarrow> (int \<times> (string \<times> u8 list) option) option" where
  "FileManager_save fc sb dstPath =
     (case normalizeOutputPath (fc_realpath fc) dstPath of
        None \<Rightarrow> Some (0, None)
      | Some path \<Rightarrow>
          if \<not> fc_openOut fc path then Some (0, None)
          else let max_index = getFileIndex sb in
            if max_index < 0 then Some (0, Some (path, []))
            else (case save_loop fc sb max_index 0 [] of
                None \<Rightarrow> None
              | Some (r, bytes) \<Rightarrow>
                  Some (if r = 0 \<or> \<not> fc_flushOk fc \<or> \<not> fc_closeOk fc then 0 else 1, Some (path, bytes))))"

text \<open>The exit code of the program and the file it wrote.\<close>

definition copy_main :: "FileCalls \<Rightarrow> string list \<Rightarrow> (int \<times> (string \<times> u8 list) option) option" where
  "copy_main fc argv =
     (if length argv \<noteq> 3 then Some (2, None)
      else case FileManager_load fc (argv ! 1) SeedBinary_new of
        (r, sb) \<Rightarrow>
          if r = 0 then Some (1, None)
          else (case FileManager_save fc sb (argv ! 2) of
              None \<Rightarrow> None
            | Some (r2, out) \<Rightarrow> Some (if r2 \<noteq> 0 then 0 else 1, out)))"

subsection \<open>Data\<close>

type_synonym Node = "(int, int) std_map"
type_synonym DataMap = "(int, Node) std_map"

definition Data_setMap :: "int \<Rightarrow> Node \<Rightarrow> DataMap \<Rightarrow> int \<times> DataMap" where
  "Data_setMap key node d = (0, map_put key node d)"

text \<open>\<open>std::map::insert\<close> keeps the value a key already has.\<close>

definition Data_setParams :: "Node \<Rightarrow> int \<Rightarrow> int \<Rightarrow> int \<times> Node" where
  "Data_setParams node key val = (0, if map_of node key = None then map_put key val node else node)"

definition Data_getMap :: "int \<Rightarrow> DataMap \<Rightarrow> int \<times> Node option" where
  "Data_getMap key d = (case map_of d key of None \<Rightarrow> (- 1, None) | Some node \<Rightarrow> (0, Some node))"

definition Data_getParams :: "Node \<Rightarrow> int \<Rightarrow> int \<times> int option" where
  "Data_getParams node key = (case map_of node key of None \<Rightarrow> (- 1, None) | Some v \<Rightarrow> (0, Some v))"

subsection \<open>Copying a file\<close>

definition block :: "SeedBinary \<Rightarrow> nat \<Rightarrow> u8 list" where
  "block sb i = (case map_of (sb_bData sb) (int i) of None \<Rightarrow> [] | Some b \<Rightarrow> take (bn_size b) (bn_data b))"

definition filled :: "SeedBinary \<Rightarrow> nat \<Rightarrow> bool" where
  "filled sb n \<longleftrightarrow> sb_fIndex sb = int n \<and>
     (\<forall>i < n. \<exists>b. map_of (sb_bData sb) (int i) = Some b \<and> bn_isValid b \<and> bn_size b \<le> STANDARD_BINARY_SIZE)"

definition stored :: "SeedBinary \<Rightarrow> nat \<Rightarrow> nat \<Rightarrow> u8 list" where
  "stored sb i n = concat (map (block sb) [i..<n])"

lemma set_block:
  assumes "filled sb n" and "length ch \<le> STANDARD_BINARY_SIZE" and "int n < INT_MAX"
  obtains sb' where "setBinary (Some ch) (length ch) (int n) sb = (1, sb')" "filled sb' (Suc n)" "stored sb' 0 (Suc n) = stored sb 0 n @ ch"
proof
  let ?b = "\<lparr>bn_isValid = True, bn_size = length ch, bn_data = ch @ replicate (STANDARD_BINARY_SIZE - length ch) 0\<rparr>"
  let ?sb = "sb\<lparr>sb_bData := map_put (int n) ?b (sb_bData sb), sb_fIndex := int (Suc n)\<rparr>"
  show "setBinary (Some ch) (length ch) (int n) sb = (1, ?sb)" using assms by (simp add: setBinary_def filled_def)
  show "filled ?sb (Suc n)" using assms(1,2) by (auto simp: filled_def less_Suc_eq)
  have "map (block ?sb) [0..<Suc n] = map (block sb) [0..<n] @ [ch]" by (simp add: block_def)
  then have "concat (map (block ?sb) [0..<Suc n]) = concat (map (block sb) [0..<n] @ [ch])" by (rule arg_cong)
  then show "stored ?sb 0 (Suc n) = stored sb 0 n @ ch" unfolding stored_def by (simp only: concat_append concat.simps append_Nil2)
qed

lemma load_loop_fills:
  assumes "filled sb n" and "STANDARD_BINARY_SIZE * n + length rest \<le> STANDARD_BINARY_SIZE * nat INT_MAX"
    and "fileSize = int (STANDARD_BINARY_SIZE * n + length rest)"
  shows "\<exists>sb' n'. load_loop fileSize (int (STANDARD_BINARY_SIZE * n)) (int n) rest sb = (1, sb') \<and> filled sb' n' \<and>
    stored sb' 0 n' = stored sb 0 n @ rest \<and> STANDARD_BINARY_SIZE * n' < STANDARD_BINARY_SIZE * n + length rest + STANDARD_BINARY_SIZE"
  using assms
proof (induction "length rest" arbitrary: n rest sb rule: less_induct)
  case less
  show ?case
  proof (cases rest)
    case Nil
    then show ?thesis using less.prems by (subst load_loop.simps) auto
  next
    case (Cons r rs)
    define k where "k = min STANDARD_BINARY_SIZE (length rest)"
    have k: "0 < k" "k \<le> length rest" "k \<le> STANDARD_BINARY_SIZE" "length (take k rest) = k" using Cons by (auto simp: k_def)
    have n: "int n < INT_MAX" using less.prems(2) Cons by auto
    obtain sb1 where s: "setBinary (Some (take k rest)) k (int n) sb = (1, sb1)" "filled sb1 (Suc n)"
        "stored sb1 0 (Suc n) = stored sb 0 n @ take k rest"
      using set_block [OF less.prems(1), of "take k rest"] n k by auto
    have "nat (min (int STANDARD_BINARY_SIZE) (fileSize - int (STANDARD_BINARY_SIZE * n))) = k"
      using less.prems(3) by (simp add: k_def)
    then have step: "load_loop fileSize (int (STANDARD_BINARY_SIZE * n)) (int n) rest sb =
        load_loop fileSize (int (STANDARD_BINARY_SIZE * Suc n)) (int (Suc n)) (drop k rest) sb1"
      using s(1) k n less.prems(3) Cons by (subst load_loop.simps) (simp add: Let_def add.commute)
    show ?thesis
    proof (cases "length rest \<le> STANDARD_BINARY_SIZE")
      case True
      then have "k = length rest" by (simp add: k_def)
      then have "load_loop fileSize (int (STANDARD_BINARY_SIZE * Suc n)) (int (Suc n)) (drop k rest) sb1 = (1, sb1)"
        using less.prems(3) True by (subst load_loop.simps) simp
      then show ?thesis using step s(2,3) \<open>k = length rest\<close> k(1) by auto
    next
      case False
      then have "k = STANDARD_BINARY_SIZE" by (simp add: k_def)
      then have "\<exists>sb' n'. load_loop fileSize (int (STANDARD_BINARY_SIZE * Suc n)) (int (Suc n)) (drop k rest) sb1 = (1, sb') \<and> filled sb' n' \<and>
          stored sb' 0 n' = stored sb1 0 (Suc n) @ drop k rest \<and>
          STANDARD_BINARY_SIZE * n' < STANDARD_BINARY_SIZE * Suc n + length (drop k rest) + STANDARD_BINARY_SIZE"
        using less.prems(2,3) k s(2) by (intro less.hyps) auto
      then show ?thesis using step s(3) \<open>k = STANDARD_BINARY_SIZE\<close> False by auto
    qed
  qed
qed

lemma save_loop_writes:
  assumes "filled sb n" and "\<forall>i. fc_writeOk fc i" and "(int n - 1) * 100 \<le> INT_MAX" and "i \<le> n"
  shows "save_loop fc sb (int n) (int i) written = Some (1, written @ stored sb i n)"
  using assms(4)
proof (induction "n - i" arbitrary: i written)
  case 0
  then show ?case by (subst save_loop.simps) (simp add: stored_def)
next
  case (Suc k)
  then have i: "i < n" by simp
  then obtain b where b: "map_of (sb_bData sb) (int i) = Some b" "bn_isValid b" "bn_size b \<le> STANDARD_BINARY_SIZE"
    using assms(1) by (auto simp: filled_def)
  have "int i * 100 \<le> INT_MAX" using assms(3) i by auto
  moreover have "save_loop fc sb (int n) (int (Suc i)) (written @ block sb i) = Some (1, (written @ block sb i) @ stored sb (Suc i) n)"
    using Suc.hyps i by (intro Suc.hyps(1)) auto
  moreover have "stored sb i n = block sb i @ stored sb (Suc i) n" using i by (simp add: stored_def upt_conv_Cons)
  ultimately show ?case using i b assms(2) by (subst save_loop.simps) (simp add: getBinary_def block_def add.commute)
qed

text \<open>
  Property C30. The copy program copies: when the input can be read to its end, is at most 21474837 blocks of 1024
  bytes long, and the output path is acceptable and every write succeeds, it exits with 0 and the output file
  holds exactly the bytes of the input, whatever their number (also none, and a last block that is not full).
\<close>

theorem copy_main_copies:
  assumes "normalizeInputPath (fc_realpath fc) source = Some p" and "fc_openIn fc p = Some \<lparr>in_end = int (length bytes), in_beg = 0, in_bytes = bytes\<rparr>"
    and "length bytes \<le> STANDARD_BINARY_SIZE * 21474837"
    and "normalizeOutputPath (fc_realpath fc) target = Some q" and "fc_openOut fc q" and "\<forall>i. fc_writeOk fc i" and "fc_flushOk fc" and "fc_closeOk fc"
  shows "copy_main fc [name, source, target] = Some (0, Some (q, bytes))"
proof -
  have "filled SeedBinary_new 0" "stored SeedBinary_new 0 0 = []" by (simp_all add: filled_def SeedBinary_new_def stored_def)
  then obtain sb n where sb: "load_loop (int (length bytes)) 0 0 bytes SeedBinary_new = (1, sb)" "filled sb n" "stored sb 0 n = bytes"
      "STANDARD_BINARY_SIZE * n < length bytes + STANDARD_BINARY_SIZE"
    using load_loop_fills [of SeedBinary_new 0 bytes "int (length bytes)"] assms(3) by auto
  have "FileManager_load fc source SeedBinary_new = (1, sb)" using assms(1,2) sb(1) by (simp add: FileManager_load_def)
  moreover have "n \<le> 21474837" using sb(4) assms(3) by auto
  then have "(int n - 1) * 100 \<le> INT_MAX" by auto
  then have "save_loop fc sb (int n) 0 [] = Some (1, bytes)" using save_loop_writes [OF sb(2) assms(6), of 0 "[]"] sb(3) by simp
  then have "FileManager_save fc sb target = Some (1, Some (q, bytes))"
    using assms(4,5,7,8) sb(2) by (simp add: FileManager_save_def getFileIndex_def filled_def Let_def)
  ultimately show ?thesis by (simp add: copy_main_def)
qed

definition disk :: FileCalls where
  "disk = \<lparr>fc_realpath = (\<lambda>p. if p = ''.'' then Some ''/tmp'' else if p = ''a'' then Some ''/tmp/a'' else None),
     fc_openIn = (\<lambda>p. if p = ''/tmp/a'' then Some \<lparr>in_end = 3, in_beg = 0, in_bytes = [7, 0, 9]\<rparr> else None), fc_openOut = (\<lambda>_. True),
     fc_writeOk = (\<lambda>_. True), fc_flushOk = True, fc_closeOk = True\<rparr>"

theorem copy_main_copies_witness: "copy_main disk [''copy'', ''a'', ''b''] = Some (0, Some (''/tmp/b'', [7, 0, 9]))"
  by (rule copy_main_copies [where p = "''/tmp/a''"])
    (simp_all add: disk_def normalizeInputPath_def normalizeOutputPath_def split_path_def file_char_def isalnum_def is_digit_def is_upper_def is_lower_def)

text \<open>
  A file directly under the root can not be saved: its parent is taken as the empty path, for which
  \<open>realpath\<close> fails.
\<close>

theorem root_file_not_saved:
  assumes "fc_realpath fc [] = None" and "CHR ''/'' \<notin> set name"
  shows "FileManager_save fc sb (CHR ''/'' # name) = Some (0, None)"
proof -
  have t: "takeWhile (\<lambda>c. c \<noteq> CHR ''/'') (rev name @ [CHR ''/'']) = rev name" "dropWhile (\<lambda>c. c \<noteq> CHR ''/'') (rev name @ [CHR ''/'']) = [CHR ''/'']"
    using assms(2) by (auto simp: takeWhile_append dropWhile_append)
  then have "split_path (CHR ''/'' # name) = ([], name)" by (simp add: split_path_def)
  then show ?thesis using assms(1) by (simp add: FileManager_save_def normalizeOutputPath_def)
qed

text \<open>A parameter that is set already keeps its value, though the call reports success.\<close>

lemma setParams_keeps:
  assumes "Data_getParams node key = (0, Some v)"
  shows "Data_setParams node key w = (0, node)" and "Data_getParams (snd (Data_setParams node key w)) key = (0, Some v)"
  using assms by (auto simp: Data_getParams_def Data_setParams_def split: option.splits)

end
