(* ===== verification/Spec2Isabelle.thy ===== *)
theory Spec2Isabelle
  imports Prelude Std_Map Wire Responses Frame_Stream World_Update Client_Session Float32 Movement Entities Ether Sessions Text Login Admin World_Input Field Field_Inputs Presence
    Streams C_Numbers Move_Text Frame_Updates Frame_Applier Commands Runtime Receiving Publication Server_Runs Server_Main
    Client_Motion Client_Snapshot Client_Receiver Client_Demux Client_Transport
    Alias_Database Admin_Server Progression Seed_Files Bootstrap
begin

text \<open>
  \<^bold>\<open>Verification of the seed-origin game server and client library.\<close>

  The program (\<open>src/src\<close>, \<open>src/include/seed\<close>) is an authoritative MMO server with its client
  library. Bytes from a socket are cut into frames (\<open>FrameAccumulator\<close>) and decoded to commands
  (\<open>NetworkCommand\<close>, \<open>NetworkFrameCodec\<close>); a session is opened by a challenge login
  (\<open>ChallengeSessionLogin\<close>, \<open>SessionRegistry\<close>) and its player placed in the world
  (\<open>FieldSessionPresence\<close>); gameplay commands pass the dispatcher and the rate limiter
  (\<open>ServerCommandDispatcher\<close>, \<open>CommandRateLimiter\<close>) into the input queue (\<open>WorldInputQueue\<close>), which numbers
  them and hands them over a frame at a time; \<open>Field::processInputs\<close> checks and applies a frame to the
  world; the changes become numbered world updates (\<open>WorldFrameUpdateBuilder\<close>, \<open>WorldSnapshotBuilder\<close>), which
  \<open>ServerRuntime\<close> publishes through the outbound queue of each connection (\<open>ClientSession\<close>). On the client
  \<open>ClientTransportShell\<close> reads the stream, \<open>ClientInboundDemux\<close> cuts it into frames,
  \<open>ClientWorldUpdateReceiver\<close> applies snapshots and events in sequence, and \<open>LocalMovementPredictor\<close> and
  \<open>RemotePlayerPoseStore\<close> place the players. A second program, \<open>AdminMain.cpp\<close>, serves the review of
  identity aliases over HTTP; a third, \<open>main.cpp\<close>, copies files in blocks.

  \<^bold>\<open>Theories and sources.\<close> Shared:

  \<^item> \<open>Prelude\<close>: machine types (\<open>u8\<close> to \<open>u64\<close> are words and wrap; \<open>int64_t\<close> and \<open>long\<close> are \<open>int\<close>, the
    place of an overflow written out), \<open>'a result\<close> for functions that fail with a message, byte strings.
  \<^item> \<open>Std_Map\<close>: \<open>std::map\<close> and \<open>std::set\<close> as ascending association lists; the locale \<open>ordered_map\<close> states
    what a client may use of \<open>find\<close>, \<open>put\<close> and \<open>erase\<close>.
  \<^item> \<open>Float32\<close>: binary32 arithmetic with round to nearest even and square root, as the sources' \<open>float\<close>;
    every finite value is a whole number of units of \<open>2^-149\<close>.
  \<^item> \<open>Text\<close>, \<open>Streams\<close>: decimal text of integers; \<open>operator>>\<close> and \<open>operator<<\<close> of the text streams, with the
    six digits of a printed \<open>float\<close>.
  \<^item> \<open>C_Numbers\<close>: \<open>atoi\<close> and \<open>strtof\<close>, which read the arguments of the programs and the forms of the admin server.

  The protocol:

  \<^item> \<open>Wire\<close>: \<open>FrameHeaderBinary.h\<close>, \<open>NetworkCommand.cpp\<close>, \<open>NetworkFrameCodec.cpp\<close>. Encoding and decoding are
    inverse on valid commands.
  \<^item> \<open>Responses\<close>: \<open>LoginResponse*.cpp\<close>, \<open>DisconnectResponse*.cpp\<close>.
  \<^item> \<open>Frame_Stream\<close>: \<open>FrameAccumulator.cpp\<close>. A locale states the reassembly loop for any frame codec; it
    is interpreted on the command and on the world-update codec. However a stream of encoded commands is
    cut into chunks, the commands come out once each and in order.
  \<^item> \<open>World_Update\<close>: \<open>WorldUpdate*.cpp\<close>. Codec, accumulator, sequence tracker and sync controller: the
    client applies updates with consecutive sequence numbers only.
  \<^item> \<open>Client_Session\<close>: \<open>OutboundFrameQueue.cpp\<close>, \<open>ClientSession.cpp\<close>. The results of \<open>send\<close> and \<open>recv\<close> are
    arguments; partial sends, would-block, errors and the deferred close are branches.

  The server:

  \<^item> \<open>Movement\<close>: \<open>Position.cpp\<close>, \<open>MovementSimulation.cpp\<close>, \<open>MovementIntentQueue.cpp\<close>, \<open>NpcAi.cpp\<close>. The locales
    \<open>intent_queue\<close> and \<open>restorable_intent_queue\<close> state the contract both queues keep.
  \<^item> \<open>Entities\<close>: \<open>Status\<close>, \<open>Buff\<close>, \<open>PlayerName\<close>, \<open>Player\<close>, \<open>Npc\<close>, \<open>Action\<close>, \<open>ActionQueue\<close>.
  \<^item> \<open>Ether\<close>: \<open>EnvironmentEther.cpp\<close>.
  \<^item> \<open>Sessions\<close>: \<open>IdentityAliasStore.cpp\<close> (locale \<open>alias_store\<close>), \<open>SessionRegistry.cpp\<close>,
    \<open>SessionLifecycle.cpp\<close>, \<open>CommandRateLimiter.cpp\<close>.
  \<^item> \<open>Login\<close>: \<open>ChallengeSessionLogin.cpp\<close>, \<open>ChallengeLoginCommandHandler.cpp\<close>,
    \<open>PostgresPlayerSessionStore.cpp\<close> (the effect of its SQL statements on the two tables),
    \<open>RandomSessionKeyIssuer.cpp\<close>; the locale \<open>single_use_ports\<close> states what the service needs of its ports.
  \<^item> \<open>World_Input\<close>: \<open>ClientInputSequence.cpp\<close> (the tracker), \<open>WorldInputQueue.cpp\<close>, \<open>WorldInputTick.cpp\<close>,
    \<open>PendingInputBuffer.cpp\<close>; \<open>input_run\<close> is the relation of all histories of the queue.
  \<^item> \<open>Field\<close>, \<open>Field_Inputs\<close>: the record of the world and every method of \<open>Field.cpp\<close>, with \<open>processInputs\<close>
    (check pass, apply pass, rollback) in a theory of its own; \<open>field_inv\<close> is the invariant.
  \<^item> \<open>Presence\<close>: \<open>FieldSessionPresence.cpp\<close>, \<open>LoginFieldSpawnSettings.h\<close>. Players of accounts in the world.
  \<^item> \<open>Move_Text\<close>: \<open>ClientInputSequence.cpp\<close> (the text formats of movements and acks).
  \<^item> \<open>Frame_Updates\<close>: \<open>ServerTick.cpp\<close>, \<open>WorldFrameUpdateBuilder.cpp\<close>, \<open>WorldSnapshotBuilder.cpp\<close>. The updates of a
    frame and the copy each recipient gets.
  \<^item> \<open>Frame_Applier\<close>: \<open>WorldFrameApplier.cpp\<close>, a turn of the world.
  \<^item> \<open>Commands\<close>: \<open>ServerCommandDispatcher.cpp\<close> and the command handlers.
  \<^item> \<open>Runtime\<close>, \<open>Receiving\<close>, \<open>Publication\<close>: \<open>ServerRuntime.cpp\<close> and \<open>Connection.cpp\<close>; reading the clients, answering
    them, and putting the updates in their queues.
  \<^item> \<open>Server_Runs\<close>: the turns of the loop of \<open>ServerMain.cpp\<close>; \<open>server_run\<close> is the relation of all runs of the server.
  \<^item> \<open>Server_Main\<close>: \<open>ServerMain.cpp\<close> from its arguments to its exit code.
  \<^item> \<open>Bootstrap\<close>: \<open>ServerBootstrap*.cpp\<close>, \<open>PostgresChallengeServerBootstrap.cpp\<close>.
  \<^item> \<open>Admin\<close>, \<open>Admin_Server\<close>: \<open>AdminSessionStore.cpp\<close>, \<open>AdminLoginLockout.cpp\<close> and \<open>AdminMain.cpp\<close> with its handlers over the
    alias table; \<open>admin_run\<close> is the relation of all histories of the server, and a reader of its JSON is given.
  \<^item> \<open>Alias_Database\<close>, \<open>Progression\<close>: \<open>PostgresIdentityAliasStore.cpp\<close>, \<open>AdminAuthStore.cpp\<close> and
    \<open>PostgresPlayerProgressionStore.cpp\<close>; their SQL as operations on the tables of \<open>src/db/migrations\<close>. The alias
    table refines the in-memory store of \<open>Sessions\<close>.

  The client:

  \<^item> \<open>Client_Motion\<close>: \<open>LocalMovementPredictor.cpp\<close>, \<open>RemotePlayerPoseStore.cpp\<close>.
  \<^item> \<open>Client_Snapshot\<close>: \<open>ClientWorldSnapshotApplier.cpp\<close>, \<open>ClientEnvironmentState.cpp\<close>, the parser of snapshots.
  \<^item> \<open>Client_Receiver\<close>: \<open>ClientHazardEffectQueue.cpp\<close>, \<open>ClientWorldUpdateReceiver.cpp\<close>.
  \<^item> \<open>Client_Demux\<close>: \<open>ClientInboundDemux.cpp\<close>.
  \<^item> \<open>Client_Transport\<close>: \<open>ClientTransportShell.cpp\<close> with its deadlines and errors; \<open>shell_run\<close> is the relation of
    all histories of a shell.

  \<^item> \<open>Seed_Files\<close>: \<open>SeedBinary.cpp\<close>, \<open>FileManager.cpp\<close>, \<open>Data.cpp\<close>, \<open>main.cpp\<close>.

  \<^bold>\<open>Effects and errors.\<close> A method that changes its object returns the new record; a failing method
  returns \<open>Inl message\<close> or \<open>None\<close>, as its definition says, with the state as the source leaves it (not
  always the state before the call). Where the C++ text has no defined behaviour (a null pointer read, a
  conversion out of range) the definition returns \<open>None\<close> one level further out, and the theorems show
  that the case does not arise from a good state. The results of system calls, clocks, random numbers and
  database failures are arguments. The singleton \<open>Field::getInstance\<close> is a value passed along.

  \<^bold>\<open>What the lemmas show.\<close> Each component has an invariant kept by every operation (accumulators,
  outbound queues, client sessions, statuses, ether, registries, lockouts, input queues, the field, the
  client's transport), and reachability relations (\<open>session_reachable\<close>, \<open>input_run\<close>, \<open>field_reachable\<close>,
  \<open>server_run\<close>, \<open>admin_run\<close>, \<open>shell_run\<close> and others) lift it to histories. On top of them stand the functional claims:
  frames are delivered in order, updates applied without gap, requests accepted once, a refused frame
  leaves the world as it was, a challenge opens one session, a turn of the server completes, the server
  runs until it is told to stop and then leaves no session behind, only a logged-in administrator
  reaches the aliases. Some go from end to end:
  the bytes a turn queues for a client are the updates of that turn; a movement the server applied reaches
  the prediction of its player and the picture of every other; a snapshot is read by the client as the
  world the server wrote, to six digits; the client predicts what the server will compute.
  Some theorems record where the code does less than it promises; the manifest lists them as findings.

  \<^bold>\<open>Loops and fuel.\<close> Loops are total functions: structural recursion, or a measure (the bytes left in
  a buffer, the ids left below \<open>INT64_MAX\<close>). The one loop that may not end, waiting for a connection in
  \<open>connectTcp\<close>, is a partial function whose value is \<open>None\<close> when it does not, with a theorem that it ends under
  a clock that reaches its deadline. No definition uses fuel.

  \<^bold>\<open>Not modelled.\<close> Sockets, the HTTP library, libpqxx and PostgreSQL themselves (a request is its header and
  parameters, a statement its effect on the tables; a lost database connection is left out), object
  lifetimes and threads (the program has one thread; the signal handler only sets the flag that ends
  the loop), logging, and reading the clocks (\<open>SystemWallClock\<close>): their readings are arguments. Getters are the
  fields of the records.
\<close>

end
